(* ===== verification/Py_Prelude.thy ===== *)
theory Py_Prelude
  imports Main "HOL-Library.Sublist"
begin

text \<open>
  What the modelled code uses of the Python language and of its string methods, and the
  generic lemmas the components share. A Python \<open>str\<close> is a \<^typ>\<open>string\<close> (a list of
  characters); the character classes and the case mappings below are Python's on ASCII text,
  and every other character is left alone by them. An exception is a value of \<open>py_error\<close>, on
  the left of a sum: \<open>Inl e\<close> is "raises e", \<open>Inr v\<close> is "returns v".
\<close>

section \<open>Exceptions as values\<close>

datatype py_error =
    ValueError
  | TypeError
  | IndexError
  | KeyError
  | OverflowError
  | RuntimeError
  | AttributeError

type_synonym 'a py_result = "py_error + 'a"

definition bind_result :: "('e + 'a) \<Rightarrow> ('a \<Rightarrow> 'e + 'b) \<Rightarrow> 'e + 'b" where
  "bind_result r f = (case r of Inl e \<Rightarrow> Inl e | Inr v \<Rightarrow> f v)"

named_theorems result_simps \<open>rewriting of results and of their sequencing\<close>

lemma bind_result_Inl [simp, result_simps]: "bind_result (Inl e) f = Inl e"
  by (simp add: bind_result_def)

lemma bind_result_Inr [simp, result_simps]: "bind_result (Inr v) f = f v"
  by (simp add: bind_result_def)

lemma bind_result_eq_Inr [result_simps]:
  "bind_result r f = Inr w \<longleftrightarrow> (\<exists>v. r = Inr v \<and> f v = Inr w)"
  by (cases r) simp_all

lemma bind_result_eq_Inl [result_simps]:
  "bind_result r f = Inl e \<longleftrightarrow> r = Inl e \<or> (\<exists>v. r = Inr v \<and> f v = Inl e)"
  by (cases r) auto

lemma bind_result_assoc:
  "bind_result (bind_result r f) g = bind_result r (\<lambda>v. bind_result (f v) g)"
  by (cases r) simp_all

lemma bind_result_cong [fundef_cong]:
  "r = r' \<Longrightarrow> (\<And>v. r' = Inr v \<Longrightarrow> f v = g v) \<Longrightarrow> bind_result r f = bind_result r' g"
  by (cases r') auto

text \<open>The result is a value, and it has a property.\<close>

definition pred_result :: "('a \<Rightarrow> bool) \<Rightarrow> 'e + 'a \<Rightarrow> bool" where
  "pred_result P r = (case r of Inl e \<Rightarrow> False | Inr v \<Rightarrow> P v)"

lemma pred_result_simps [simp]: "pred_result P (Inr v) = P v" "pred_result P (Inl e) = False"
  by (simp_all add: pred_result_def)

text \<open>A comprehension whose element expression may raise: the first exception wins.\<close>

fun map_result :: "('a \<Rightarrow> 'e + 'b) \<Rightarrow> 'a list \<Rightarrow> 'e + 'b list" where
  "map_result f [] = Inr []"
| "map_result f (x # xs) =
     bind_result (f x) (\<lambda>y. bind_result (map_result f xs) (\<lambda>ys. Inr (y # ys)))"

lemma map_result_length: "map_result f xs = Inr ys \<Longrightarrow> length ys = length xs"
  by (induction xs arbitrary: ys) (auto simp: result_simps)

lemma map_result_Inr: "map_result (\<lambda>x. Inr (f x)) xs = Inr (map f xs)"
  by (induction xs) simp_all

section \<open>Characters\<close>

abbreviation code :: "char \<Rightarrow> int" where
  "code c \<equiv> of_char c"

definition newline :: char where
  "newline = CHR 0x0A"

definition squote :: char where
  "squote = CHR 0x27"

definition dquote :: char where
  "dquote = CHR 0x22"

definition py_isspace :: "char \<Rightarrow> bool" where
  "py_isspace c \<longleftrightarrow> (9 \<le> code c \<and> code c \<le> 13) \<or> (28 \<le> code c \<and> code c \<le> 32)"

definition is_digit :: "char \<Rightarrow> bool" where
  "is_digit c \<longleftrightarrow> 48 \<le> code c \<and> code c \<le> 57"

definition is_upper :: "char \<Rightarrow> bool" where
  "is_upper c \<longleftrightarrow> 65 \<le> code c \<and> code c \<le> 90"

definition is_lower :: "char \<Rightarrow> bool" where
  "is_lower c \<longleftrightarrow> 97 \<le> code c \<and> code c \<le> 122"

definition is_alpha :: "char \<Rightarrow> bool" where
  "is_alpha c \<longleftrightarrow> is_upper c \<or> is_lower c"

text \<open>The class \<open>\w\<close> of the module \<open>re\<close>.\<close>

definition is_word :: "char \<Rightarrow> bool" where
  "is_word c \<longleftrightarrow> is_alpha c \<or> is_digit c \<or> c = CHR ''_''"

definition char_lower :: "char \<Rightarrow> char" where
  "char_lower c = (if is_upper c then char_of (code c + 32) else c)"

definition char_upper :: "char \<Rightarrow> char" where
  "char_upper c = (if is_lower c then char_of (code c - 32) else c)"

definition digit_value :: "char \<Rightarrow> int" where
  "digit_value c = code c - 48"

section \<open>String methods\<close>

definition py_lower :: "string \<Rightarrow> string" where
  "py_lower s = map char_lower s"

definition py_upper :: "string \<Rightarrow> string" where
  "py_upper s = map char_upper s"

definition strip_if :: "(char \<Rightarrow> bool) \<Rightarrow> string \<Rightarrow> string" where
  "strip_if p s = rev (dropWhile p (rev (dropWhile p s)))"

definition py_strip :: "string \<Rightarrow> string" where
  "py_strip s = strip_if py_isspace s"

text \<open>\<open>s.strip(chars)\<close>: the characters of a set, off both ends.\<close>

definition py_strip_chars :: "string \<Rightarrow> string \<Rightarrow> string" where
  "py_strip_chars cs s = strip_if (\<lambda>c. c \<in> set cs) s"

definition py_startswith :: "string \<Rightarrow> string \<Rightarrow> bool" where
  "py_startswith s p \<longleftrightarrow> take (length p) s = p"

definition py_endswith :: "string \<Rightarrow> string \<Rightarrow> bool" where
  "py_endswith s p \<longleftrightarrow> py_startswith (rev s) (rev p)"

text \<open>\<open>sub in s\<close>; the empty string is in every string.\<close>

fun py_contains :: "string \<Rightarrow> string \<Rightarrow> bool" where
  "py_contains sub [] = (sub = [])"
| "py_contains sub (c # cs) = (py_startswith (c # cs) sub \<or> py_contains sub cs)"

text \<open>
  \<open>s.split(sep, 1)\<close> for a non-empty separator: the text before and after its first
  occurrence, or \<open>None\<close> when it does not occur.
\<close>

fun split_once :: "string \<Rightarrow> string \<Rightarrow> (string \<times> string) option" where
  "split_once sep [] = (if sep = [] then Some ([], []) else None)"
| "split_once sep (c # cs) =
     (if py_startswith (c # cs) sep then Some ([], drop (length sep) (c # cs))
      else map_option (\<lambda>(a, b). (c # a, b)) (split_once sep cs))"

text \<open>\<open>s.split(c)\<close> for a separator of one character: always at least one field.\<close>

fun split_char :: "char \<Rightarrow> string \<Rightarrow> string list" where
  "split_char sep [] = [[]]"
| "split_char sep (c # cs) =
     (if c = sep then [] # split_char sep cs
      else (case split_char sep cs of
              [] \<Rightarrow> [[c]]
            | f # fs \<Rightarrow> (c # f) # fs))"

fun py_join :: "string \<Rightarrow> string list \<Rightarrow> string" where
  "py_join sep [] = []"
| "py_join sep [x] = x"
| "py_join sep (x # y # zs) = x @ sep @ py_join sep (y # zs)"

text \<open>
  \<open>s.replace(old, new)\<close>: non-overlapping occurrences from the left; an empty \<open>old\<close>
  puts \<open>new\<close> before every character and at the end.
\<close>

fun replace_fuel :: "nat \<Rightarrow> string \<Rightarrow> string \<Rightarrow> string \<Rightarrow> string" where
  "replace_fuel 0 old new s = s"
| "replace_fuel (Suc n) old new [] = []"
| "replace_fuel (Suc n) old new (c # cs) =
     (if py_startswith (c # cs) old
      then new @ replace_fuel n old new (drop (length old) (c # cs))
      else c # replace_fuel n old new cs)"

definition py_replace :: "string \<Rightarrow> string \<Rightarrow> string \<Rightarrow> string" where
  "py_replace old new s =
     (if old = [] then new @ concat (map (\<lambda>c. c # new) s)
      else replace_fuel (length s) old new s)"

section \<open>Lemmas on strings\<close>

lemma startswith_prefix: "py_startswith s p \<longleftrightarrow> prefix p s"
  by (auto simp: py_startswith_def prefix_def) (metis append_take_drop_id)

lemma endswith_suffix: "py_endswith s p \<longleftrightarrow> suffix p s"
  by (simp add: py_endswith_def startswith_prefix suffix_to_prefix)

lemma contains_sublist: "py_contains sub s \<longleftrightarrow> sublist sub s"
  by (induction sub s rule: py_contains.induct)
     (auto simp: startswith_prefix sublist_Cons_right)

lemma split_char_nonempty [simp]: "split_char sep s \<noteq> []"
  by (induction s) (auto split: list.splits)

lemma split_char_no_sep: "f \<in> set (split_char sep s) \<Longrightarrow> sep \<notin> set f"
  by (induction s arbitrary: f) (auto split: if_splits list.splits)

lemma join_split_char: "py_join [sep] (split_char sep s) = s"
proof (induction s)
  case Nil
  then show ?case by simp
next
  case (Cons c cs)
  obtain f fs where sp: "split_char sep cs = f # fs"
    by (cases "split_char sep cs") auto
  with Cons show ?case by (cases fs) auto
qed

lemma split_char_single: "sep \<notin> set s \<Longrightarrow> split_char sep s = [s]"
  by (induction s) auto

lemma split_char_append_sep:
  "sep \<notin> set a \<Longrightarrow> split_char sep (a @ sep # b) = a # split_char sep b"
  by (induction a) auto

lemma split_char_join:
  "xs \<noteq> [] \<Longrightarrow> (\<And>x. x \<in> set xs \<Longrightarrow> sep \<notin> set x) \<Longrightarrow> split_char sep (py_join [sep] xs) = xs"
  by (induction "[sep]" xs rule: py_join.induct)
     (auto simp: split_char_single split_char_append_sep)

lemma dropWhile_Cons_length: "dropWhile p xs = y # ys \<Longrightarrow> length ys < length xs"
  by (metis Suc_le_lessD length_Cons length_dropWhile_le)

lemma strip_if_Nil: "strip_if p s = [] \<longleftrightarrow> (\<forall>c \<in> set s. p c)"
proof -
  have "strip_if p s = [] \<longleftrightarrow> (\<forall>c \<in> set (dropWhile p s). p c)"
    by (simp add: strip_if_def dropWhile_eq_Nil_conv)
  also have "\<dots> \<longleftrightarrow> (\<forall>c \<in> set s. p c)"
    by (metis dropWhile_eq_Nil_conv hd_dropWhile list.set_sel(1) set_dropWhileD)
  finally show ?thesis .
qed

lemma strip_Nil: "py_strip s = [] \<longleftrightarrow> (\<forall>c \<in> set s. py_isspace c)"
  by (simp add: py_strip_def strip_if_Nil)

lemma length_strip_if: "length (strip_if p s) \<le> length s"
  by (metis length_dropWhile_le length_rev order_trans strip_if_def)

lemma length_strip: "length (py_strip s) \<le> length s"
  by (simp add: py_strip_def length_strip_if)

lemma length_lower [simp]: "length (py_lower s) = length s"
  by (simp add: py_lower_def)

lemma lower_append [simp]: "py_lower (s @ t) = py_lower s @ py_lower t"
  by (simp add: py_lower_def)

lemma code_char_of: "0 \<le> n \<Longrightarrow> n < 256 \<Longrightarrow> code (char_of n) = n"
  by (simp add: of_char_of take_bit_eq_mod)

lemma char_lower_idem [simp]: "char_lower (char_lower c) = char_lower c"
  by (auto simp: char_lower_def is_upper_def code_char_of)

lemma lower_idem [simp]: "py_lower (py_lower s) = py_lower s"
  by (simp add: py_lower_def)

lemma split_once_Some:
  "split_once sep s = Some (a, b) \<Longrightarrow> s = a @ sep @ b"
proof (induction sep s arbitrary: a b rule: split_once.induct)
  case (1 sep)
  then show ?case by (auto split: if_splits)
next
  case (2 sep c cs)
  show ?case
  proof (cases "py_startswith (c # cs) sep")
    case True
    with "2.prems" show ?thesis
      by (auto simp: py_startswith_def) (metis append_take_drop_id)
  next
    case False
    with 2 show ?thesis by auto
  qed
qed

lemma split_once_None: "split_once sep s = None \<longleftrightarrow> \<not> py_contains sep s"
  by (induction sep s rule: split_once.induct) (auto split: if_splits)

lemma replace_char: "py_replace [c] new s = concat (map (\<lambda>x. if x = c then new else [x]) s)"
proof -
  have "length s \<le> n \<Longrightarrow> replace_fuel n [c] new s = concat (map (\<lambda>x. if x = c then new else [x]) s)" for n
    by (induction n "[c]" new s rule: replace_fuel.induct) (auto simp: py_startswith_def)
  then show ?thesis by (simp add: py_replace_def)
qed

end
