(* ===== verification/Py_Value.thy ===== *)
theory Py_Value
  imports Complex_Main Py_Prelude
begin

text \<open>
  The dynamically typed values the template engine and the configuration code pass around:
  the type \<open>pyval\<close>, the truth test \<open>bool(v)\<close>, the conversions \<open>int(v)\<close>, \<open>float(v)\<close>,
  \<open>str(v)\<close> and \<open>repr(v)\<close>, and \<open>float\<close> itself. A \<open>float\<close> is an IEEE double: a finite one
  is held as the rational number it denotes, and every operation rounds its exact result to
  the nearest double, ties to even (\<open>round_double\<close>). Integers are Python's unbounded ones.
\<close>

section \<open>Doubles\<close>

datatype pyfloat = FNum rat | FNegZero | FInf | FNegInf | FNaN

function bit_len :: "int \<Rightarrow> int" where
  "bit_len n = (if n \<le> 0 then 0 else 1 + bit_len (n div 2))"
  by pat_completeness auto
termination
  by (relation "measure nat") auto

declare bit_len.simps [simp del]

definition pow_int :: "rat \<Rightarrow> int \<Rightarrow> rat" where
  "pow_int b e = (if 0 \<le> e then b ^ nat e else 1 / b ^ nat (- e))"

text \<open>The nearest integer, ties to the even one.\<close>

definition round_half_even :: "rat \<Rightarrow> int" where
  "round_half_even q =
     (let f = floor q; r = q - of_int f
      in if r < 1 / 2 then f
         else if 1 / 2 < r then f + 1
         else if even f then f else f + 1)"

text \<open>The nearest double of a positive rational: 53 significant bits, exponent at least -1074.\<close>

definition round_pos :: "rat \<Rightarrow> rat" where
  "round_pos q =
     (let (n, d) = quotient_of q;
          e0 = bit_len n - bit_len d - 53;
          e1 = (if 2 ^ 53 \<le> q / pow_int 2 e0 then e0 + 1 else e0);
          e = max e1 (- 1074)
      in of_int (round_half_even (q / pow_int 2 e)) * pow_int 2 e)"

definition round_double :: "rat \<Rightarrow> pyfloat" where
  "round_double q =
     (if q = 0 then FNum 0
      else if 0 < q
        then (let r = round_pos q in if 2 ^ 1024 \<le> r then FInf else FNum r)
        else (let r = round_pos (- q)
              in if 2 ^ 1024 \<le> r then FNegInf else if r = 0 then FNegZero else FNum (- r)))"

text \<open>\<open>float(n)\<close> of an integer raises when the integer is too large for a double.\<close>

definition float_of_int :: "int \<Rightarrow> pyfloat py_result" where
  "float_of_int n =
     (case round_double (of_int n) of
        FInf \<Rightarrow> Inl OverflowError
      | FNegInf \<Rightarrow> Inl OverflowError
      | f \<Rightarrow> Inr f)"

text \<open>The order of Python's \<open><\<close> and \<open>==\<close> on floats: every comparison with a NaN is false.\<close>

fun float_rank :: "pyfloat \<Rightarrow> (int \<times> rat) option" where
  "float_rank (FNum q) = Some (0, q)"
| "float_rank FNegZero = Some (0, 0)"
| "float_rank FInf = Some (1, 0)"
| "float_rank FNegInf = Some (- 1, 0)"
| "float_rank FNaN = None"

definition float_less :: "pyfloat \<Rightarrow> pyfloat \<Rightarrow> bool" where
  "float_less a b =
     (case (float_rank a, float_rank b) of
        (Some (i, p), Some (j, q)) \<Rightarrow> i < j \<or> (i = j \<and> p < q)
      | _ \<Rightarrow> False)"

definition float_eq :: "pyfloat \<Rightarrow> pyfloat \<Rightarrow> bool" where
  "float_eq a b =
     (case (float_rank a, float_rank b) of
        (Some x, Some y) \<Rightarrow> x = y
      | _ \<Rightarrow> False)"

definition float_le :: "pyfloat \<Rightarrow> pyfloat \<Rightarrow> bool" where
  "float_le a b \<longleftrightarrow> float_less a b \<or> float_eq a b"

section \<open>Decimal digits\<close>

definition digit_char :: "int \<Rightarrow> char" where
  "digit_char d = char_of (48 + d)"

text \<open>The digits of an integer that is not negative.\<close>

function nat_digits :: "int \<Rightarrow> string" where
  "nat_digits n = (if n < 10 then [digit_char n] else nat_digits (n div 10) @ [digit_char (n mod 10)])"
  by pat_completeness auto
termination
  by (relation "measure nat") auto

declare nat_digits.simps [simp del]

definition int_digits :: "int \<Rightarrow> string" where
  "int_digits i = (if i < 0 then ''-'' @ nat_digits (- i) else nat_digits i)"

definition digits_value :: "string \<Rightarrow> int" where
  "digits_value s = foldl (\<lambda>n c. 10 * n + digit_value c) 0 s"

text \<open>The format \<open>{x:02d}\<close> of an integer that is not negative.\<close>

definition pad2 :: "int \<Rightarrow> string" where
  "pad2 n = (if n < 10 then ''0'' @ nat_digits n else nat_digits n)"

text \<open>The format \<open>{x:.1f}\<close> of a finite double.\<close>

definition fixed1 :: "rat \<Rightarrow> string" where
  "fixed1 q =
     (let t = round_half_even (\<bar>q\<bar> * 10)
      in (if q < 0 then ''-'' else []) @ nat_digits (t div 10) @ ''.'' @ nat_digits (t mod 10))"

fun format_1f :: "pyfloat \<Rightarrow> string" where
  "format_1f (FNum q) = fixed1 q"
| "format_1f FNegZero = ''-0.0''"
| "format_1f FInf = ''inf''"
| "format_1f FNegInf = ''-inf''"
| "format_1f FNaN = ''nan''"

section \<open>The shortest representation of a double\<close>

text \<open>The exponent \<open>k\<close> with \<open>10 ^ k \<le> q < 10 ^ (k + 1)\<close>, found in at most \<open>fuel\<close> steps.\<close>

fun log10_search :: "nat \<Rightarrow> rat \<Rightarrow> int" where
  "log10_search 0 q = 0"
| "log10_search (Suc fuel) q =
     (if q < 1 then log10_search fuel (10 * q) - 1
      else if 10 \<le> q then log10_search fuel (q / 10) + 1
      else 0)"

definition log10_floor :: "rat \<Rightarrow> int" where
  "log10_floor q = log10_search 700 q"

text \<open>The first digit count at which the decimal rounds back to the double; 17 always does.\<close>

fun shortest_from :: "nat \<Rightarrow> nat \<Rightarrow> rat \<Rightarrow> int \<Rightarrow> int \<times> int" where
  "shortest_from 0 n q k = (round_half_even (q / pow_int 10 (k - int n + 1)), k - int n + 1)"
| "shortest_from (Suc fuel) n q k =
     (let e = k - int n + 1; d = round_half_even (q / pow_int 10 e)
      in if round_pos (of_int d * pow_int 10 e) = q then (d, e)
         else shortest_from fuel (Suc n) q k)"

definition strip_trailing_zeros :: "string \<Rightarrow> string" where
  "strip_trailing_zeros s = rev (dropWhile (\<lambda>c. c = CHR ''0'') (rev s))"

definition repr_pos :: "rat \<Rightarrow> string" where
  "repr_pos q =
     (let k = log10_floor q;
          (d, e) = shortest_from 16 1 q k;
          ds0 = nat_digits d;
          decpt = int (length ds0) + e;
          ds = strip_trailing_zeros ds0;
          x = decpt - 1
      in if decpt < - 3 \<or> 16 < decpt
         then take 1 ds @ (if length ds = 1 then [] else ''.'' @ drop 1 ds) @ ''e'' @
              (if x < 0 then ''-'' else ''+'') @ pad2 \<bar>x\<bar>
         else if decpt \<le> 0 then ''0.'' @ replicate (nat (- decpt)) (CHR ''0'') @ ds
         else if int (length ds) \<le> decpt
           then ds @ replicate (nat decpt - length ds) (CHR ''0'') @ ''.0''
         else take (nat decpt) ds @ ''.'' @ drop (nat decpt) ds)"

fun float_repr :: "pyfloat \<Rightarrow> string" where
  "float_repr (FNum q) =
     (if q = 0 then ''0.0'' else if q < 0 then ''-'' @ repr_pos (- q) else repr_pos q)"
| "float_repr FNegZero = ''-0.0''"
| "float_repr FInf = ''inf''"
| "float_repr FNegInf = ''-inf''"
| "float_repr FNaN = ''nan''"

section \<open>Reading numbers\<close>

text \<open>An underscore is allowed between two digits only; the others are dropped.\<close>

fun underscores_ok :: "bool \<Rightarrow> string \<Rightarrow> bool" where
  "underscores_ok prev_digit [] = True"
| "underscores_ok prev_digit (c # cs) =
     (if c = CHR ''_''
      then prev_digit \<and> cs \<noteq> [] \<and> is_digit (hd cs) \<and> underscores_ok False cs
      else underscores_ok (is_digit c) cs)"

definition drop_underscores :: "string \<Rightarrow> string option" where
  "drop_underscores s =
     (if underscores_ok False s then Some (filter (\<lambda>c. c \<noteq> CHR ''_'') s) else None)"

definition all_digits :: "string \<Rightarrow> bool" where
  "all_digits s \<longleftrightarrow> s \<noteq> [] \<and> (\<forall>c \<in> set s. is_digit c)"

definition split_sign :: "string \<Rightarrow> bool \<times> string" where
  "split_sign s =
     (case s of
        [] \<Rightarrow> (False, [])
      | c # cs \<Rightarrow> if c = CHR ''-'' then (True, cs) else if c = CHR ''+'' then (False, cs)
                  else (False, c # cs))"

text \<open>
  \<open>int(s)\<close> of a string: surrounding white space, a sign, decimal digits. Python refuses
  more than 4300 digits.
\<close>

definition int_of_string :: "string \<Rightarrow> int py_result" where
  "int_of_string s =
     (let (neg, body) = split_sign (py_strip s)
      in case drop_underscores body of
           None \<Rightarrow> Inl ValueError
         | Some ds \<Rightarrow>
             if all_digits ds \<and> length ds \<le> 4300
             then Inr (if neg then - digits_value ds else digits_value ds)
             else Inl ValueError)"

text \<open>\<open>digits [. digits] [e [sign] digits]\<close>, with a digit before or after the point.\<close>

definition decimal_value :: "string \<Rightarrow> string \<Rightarrow> int \<Rightarrow> rat" where
  "decimal_value ip fp e = of_int (digits_value (ip @ fp)) * pow_int 10 (e - int (length fp))"

definition parse_decimal :: "string \<Rightarrow> rat option" where
  "parse_decimal s =
     (let ip = takeWhile is_digit s;
          r1 = dropWhile is_digit s;
          fp = (case r1 of c # cs \<Rightarrow> if c = CHR ''.'' then takeWhile is_digit cs else [] | [] \<Rightarrow> []);
          r2 = (case r1 of c # cs \<Rightarrow> if c = CHR ''.'' then dropWhile is_digit cs else r1 | [] \<Rightarrow> [])
      in if ip = [] \<and> fp = [] then None
         else case r2 of
             [] \<Rightarrow> Some (decimal_value ip fp 0)
           | c # cs \<Rightarrow>
               (if char_lower c = CHR ''e''
                then (let (neg, ds) = split_sign cs
                      in if all_digits ds
                         then Some (decimal_value ip fp
                                (if neg then - digits_value ds else digits_value ds))
                         else None)
                else None))"

fun float_neg :: "pyfloat \<Rightarrow> pyfloat" where
  "float_neg (FNum q) = (if q = 0 then FNegZero else FNum (- q))"
| "float_neg FNegZero = FNum 0"
| "float_neg FInf = FNegInf"
| "float_neg FNegInf = FInf"
| "float_neg FNaN = FNaN"

definition float_of_string :: "string \<Rightarrow> pyfloat py_result" where
  "float_of_string s =
     (case drop_underscores (py_strip s) of
        None \<Rightarrow> Inl ValueError
      | Some t \<Rightarrow>
          (let (neg, body) = split_sign t;
               sgn = (\<lambda>f. if neg then float_neg f else f)
           in if py_lower body = ''inf'' \<or> py_lower body = ''infinity'' then Inr (sgn FInf)
              else if py_lower body = ''nan'' then Inr FNaN
              else case parse_decimal body of
                     None \<Rightarrow> Inl ValueError
                   | Some q \<Rightarrow> Inr (sgn (round_double q))))"

section \<open>Values\<close>

datatype pyval =
    VNone
  | VBool bool
  | VInt int
  | VFloat pyfloat
  | VStr string
  | VList "pyval list"
  | VDict "(string \<times> pyval) list"

text \<open>\<open>bool(v)\<close>.\<close>

fun py_truth :: "pyval \<Rightarrow> bool" where
  "py_truth VNone = False"
| "py_truth (VBool b) = b"
| "py_truth (VInt i) = (i \<noteq> 0)"
| "py_truth (VFloat f) = (f \<noteq> FNum 0 \<and> f \<noteq> FNegZero)"
| "py_truth (VStr s) = (s \<noteq> [])"
| "py_truth (VList vs) = (vs \<noteq> [])"
| "py_truth (VDict kvs) = (kvs \<noteq> [])"

text \<open>\<open>repr(s)\<close> of a string: the quote is a double one only when that saves escapes.\<close>

definition hex_digit :: "int \<Rightarrow> char" where
  "hex_digit d = (if d < 10 then char_of (48 + d) else char_of (87 + d))"

definition repr_char :: "char \<Rightarrow> char \<Rightarrow> string" where
  "repr_char q c =
     (if c = q \<or> c = CHR 0x5C then [CHR 0x5C, c]
      else if c = newline then [CHR 0x5C, CHR ''n'']
      else if c = CHR 0x0D then [CHR 0x5C, CHR ''r'']
      else if c = CHR 0x09 then [CHR 0x5C, CHR ''t'']
      else if code c < 32 \<or> code c = 127
        then [CHR 0x5C, CHR ''x'', hex_digit (code c div 16), hex_digit (code c mod 16)]
      else [c])"

definition string_repr :: "string \<Rightarrow> string" where
  "string_repr s =
     (let q = (if squote \<in> set s \<and> dquote \<notin> set s then dquote else squote)
      in [q] @ concat (map (repr_char q) s) @ [q])"

fun py_repr :: "pyval \<Rightarrow> string" where
  "py_repr VNone = ''None''"
| "py_repr (VBool b) = (if b then ''True'' else ''False'')"
| "py_repr (VInt i) = int_digits i"
| "py_repr (VFloat f) = float_repr f"
| "py_repr (VStr s) = string_repr s"
| "py_repr (VList vs) = ''['' @ py_join '', '' (map py_repr vs) @ '']''"
| "py_repr (VDict kvs) =
     ''{'' @ py_join '', '' (map (\<lambda>(k, v). string_repr k @ '': '' @ py_repr v) kvs) @ ''}''"

definition py_str :: "pyval \<Rightarrow> string" where
  "py_str v = (case v of VStr s \<Rightarrow> s | _ \<Rightarrow> py_repr v)"

text \<open>\<open>int(v)\<close> and \<open>float(v)\<close>.\<close>

definition rat_trunc :: "rat \<Rightarrow> int" where
  "rat_trunc q = (if 0 \<le> q then floor q else ceiling q)"

fun int_of_float :: "pyfloat \<Rightarrow> int py_result" where
  "int_of_float (FNum q) = Inr (rat_trunc q)"
| "int_of_float FNegZero = Inr 0"
| "int_of_float FNaN = Inl ValueError"
| "int_of_float _ = Inl OverflowError"

fun py_int :: "pyval \<Rightarrow> int py_result" where
  "py_int (VBool b) = Inr (if b then 1 else 0)"
| "py_int (VInt i) = Inr i"
| "py_int (VFloat f) = int_of_float f"
| "py_int (VStr s) = int_of_string s"
| "py_int _ = Inl TypeError"

fun py_float :: "pyval \<Rightarrow> pyfloat py_result" where
  "py_float (VBool b) = Inr (FNum (if b then 1 else 0))"
| "py_float (VInt i) = float_of_int i"
| "py_float (VFloat f) = Inr f"
| "py_float (VStr s) = float_of_string s"
| "py_float _ = Inl TypeError"

end
