(* ===== verification/Template_Modifiers.thy ===== *)
theory Template_Modifiers
  imports Py_Value
begin

text \<open>
  The utility functions and the modifiers of \<open>utils/template_engine.py\<close>: \<open>format_bytes\<close>,
  \<open>format_time\<close>, \<open>escape_html\<close>, the tables \<open>MODIFIERS\<close> and \<open>MODIFIERS_WITH_ARGS\<close>, and
  \<open>CompiledTemplate._apply_modifiers\<close>, which folds a chain of them over a value. A modifier may
  raise (\<open>|length\<close> of a number, \<open>|bytes\<close> of a word), so each returns a result.
\<close>

section \<open>Utility functions\<close>

definition byte_units :: "string list" where
  "byte_units = [''B'', ''KB'', ''MB'', ''GB'', ''TB'', ''PB'']"

text \<open>One \<open>value /= base\<close> of the loop; \<open>base\<close> is only ever its default 1000.\<close>

definition bytes_div :: "pyfloat \<Rightarrow> pyfloat" where
  "bytes_div v = (case v of FNum q \<Rightarrow> round_double (q / 1000) | _ \<Rightarrow> v)"

function bytes_loop :: "pyfloat \<Rightarrow> nat \<Rightarrow> pyfloat \<times> nat" where
  "bytes_loop v i =
     (if float_le (FNum 1000) v \<and> i < length byte_units - 1
      then bytes_loop (bytes_div v) (Suc i) else (v, i))"
  by pat_completeness auto
termination
  by (relation "measure (\<lambda>(v, i). length byte_units - 1 - i)") auto

declare bytes_loop.simps [simp del]

definition format_bytes :: "int \<Rightarrow> string py_result" where
  "format_bytes sz =
     (if sz = 0 then Inr ''0 B''
      else bind_result (float_of_int sz)
        (\<lambda>value. let (v, i) = bytes_loop value 0
                 in Inr (format_1f v @ '' '' @ byte_units ! i)))"

definition format_time :: "int \<Rightarrow> string" where
  "format_time seconds =
     (if seconds \<le> 0 then []
      else let hours = seconds div 3600;
               minutes = (seconds mod 3600) div 60;
               secs = seconds mod 60
           in if 0 < hours
              then pad2 hours @ '':'' @ pad2 minutes @ '':'' @ pad2 secs
              else pad2 minutes @ '':'' @ pad2 secs)"

definition escape_html :: "string \<Rightarrow> string" where
  "escape_html text =
     (if text = [] then []
      else py_replace [squote] ''&#x27;''
           (py_replace [dquote] ''&quot;''
           (py_replace ''>'' ''&gt;''
           (py_replace ''<'' ''&lt;''
           (py_replace ''&'' ''&amp;'' text)))))"

section \<open>Modifiers without an argument\<close>

fun title_from :: "bool \<Rightarrow> string \<Rightarrow> string" where
  "title_from prev_cased [] = []"
| "title_from prev_cased (c # cs) =
     (if prev_cased then char_lower c else char_upper c) # title_from (is_alpha c) cs"

definition py_title :: "string \<Rightarrow> string" where
  "py_title s = title_from False s"

definition mod_bytes :: "pyval \<Rightarrow> pyval py_result" where
  "mod_bytes v =
     (if py_truth v
      then bind_result (py_int v) (\<lambda>n. bind_result (format_bytes n) (\<lambda>s. Inr (VStr s)))
      else Inr (VStr []))"

definition mod_time :: "pyval \<Rightarrow> pyval py_result" where
  "mod_time v =
     (if py_truth v then bind_result (py_int v) (\<lambda>n. Inr (VStr (format_time n)))
      else Inr (VStr []))"

definition mod_str :: "(string \<Rightarrow> string) \<Rightarrow> pyval \<Rightarrow> pyval py_result" where
  "mod_str f v = Inr (VStr (if py_truth v then f (py_str v) else []))"

definition mod_first :: "pyval \<Rightarrow> pyval py_result" where
  "mod_first v = (case v of VList (x # xs) \<Rightarrow> Inr x | _ \<Rightarrow> Inr (VStr []))"

definition mod_last :: "pyval \<Rightarrow> pyval py_result" where
  "mod_last v = (case v of VList (x # xs) \<Rightarrow> Inr (last (x # xs)) | _ \<Rightarrow> Inr (VStr []))"

definition mod_reverse :: "pyval \<Rightarrow> pyval py_result" where
  "mod_reverse v =
     (case v of VStr s \<Rightarrow> Inr (VStr (rev s)) | VList vs \<Rightarrow> Inr (VList (rev vs)) | _ \<Rightarrow> Inr v)"

definition py_len :: "pyval \<Rightarrow> int py_result" where
  "py_len v =
     (case v of
        VStr s \<Rightarrow> Inr (int (length s))
      | VList vs \<Rightarrow> Inr (int (length vs))
      | VDict kvs \<Rightarrow> Inr (int (length kvs))
      | _ \<Rightarrow> Inl TypeError)"

definition mod_length :: "pyval \<Rightarrow> pyval py_result" where
  "mod_length v =
     (if py_truth v then bind_result (py_len v) (\<lambda>n. Inr (VInt n)) else Inr (VInt 0))"

definition mod_exists :: "pyval \<Rightarrow> pyval py_result" where
  "mod_exists v =
     Inr (VBool (case v of VNone \<Rightarrow> False | VInt _ \<Rightarrow> True | VFloat _ \<Rightarrow> True | VBool _ \<Rightarrow> True
                 | _ \<Rightarrow> py_truth v))"

definition MODIFIERS :: "(string \<times> (pyval \<Rightarrow> pyval py_result)) list" where
  "MODIFIERS =
     [(''bytes'', mod_bytes),
      (''time'', mod_time),
      (''upper'', mod_str py_upper),
      (''lower'', mod_str py_lower),
      (''title'', mod_str py_title),
      (''first'', mod_first),
      (''last'', mod_last),
      (''reverse'', mod_reverse),
      (''length'', mod_length),
      (''exists'', mod_exists),
      (''escape'', mod_str escape_html),
      (''e'', mod_str escape_html)]"

section \<open>Modifiers with an argument\<close>

definition quoted_by :: "char \<Rightarrow> string \<Rightarrow> bool" where
  "quoted_by q s \<longleftrightarrow> py_startswith s [q] \<and> py_endswith s [q]"

text \<open>The slice \<open>s[1:-1]\<close>.\<close>

definition inner :: "string \<Rightarrow> string" where
  "inner s = butlast (tl s)"

text \<open>The slice \<open>s[:n]\<close>; a negative bound counts from the end.\<close>

definition slice_to :: "int \<Rightarrow> string \<Rightarrow> string" where
  "slice_to n s = (if n < 0 then take (nat (int (length s) + n)) s else take (nat n) s)"

definition join_modifier :: "pyval \<Rightarrow> string \<Rightarrow> pyval py_result" where
  "join_modifier v arg =
     (if \<not> py_truth v then Inr (VStr [])
      else let sep = (if arg = [] then '', ''
                      else let a = py_strip arg
                           in if quoted_by squote a \<or> quoted_by dquote a then inner a else a)
           in Inr (VStr (case v of VList vs \<Rightarrow> py_join sep (map py_str vs) | _ \<Rightarrow> py_str v)))"

definition truncate_modifier :: "pyval \<Rightarrow> string \<Rightarrow> pyval py_result" where
  "truncate_modifier v arg =
     (if \<not> py_truth v then Inr (VStr [])
      else case int_of_string arg of
          Inl _ \<Rightarrow> Inr (VStr (py_str v))
        | Inr n \<Rightarrow> (let s = py_str v
                    in Inr (VStr (if n < int (length s) then slice_to n s @ ''...'' else s))))"

definition replace_modifier :: "pyval \<Rightarrow> string \<Rightarrow> pyval py_result" where
  "replace_modifier v arg =
     (if \<not> py_truth v then Inr (VStr [])
      else case split_once '','' arg of
          None \<Rightarrow> Inr (VStr (py_str v))
        | Some (a, b) \<Rightarrow>
            (let quotes = [squote, dquote];
                 old = py_strip_chars quotes (py_strip a);
                 new = py_strip_chars quotes (py_strip b)
             in Inr (VStr (py_replace old new (py_str v)))))"

definition MODIFIERS_WITH_ARGS :: "(string \<times> (pyval \<Rightarrow> string \<Rightarrow> pyval py_result)) list" where
  "MODIFIERS_WITH_ARGS =
     [(''join'', join_modifier), (''truncate'', truncate_modifier), (''replace'', replace_modifier)]"

section \<open>A chain of modifiers\<close>

type_synonym modifier = "string \<times> string option"

text \<open>One turn of the loop of \<open>_apply_modifiers\<close>; an unknown modifier is skipped.\<close>

definition apply_modifier :: "modifier \<Rightarrow> pyval \<Rightarrow> pyval py_result" where
  "apply_modifier m v =
     (let name = py_lower (fst m); arg = snd m
      in case map_of MODIFIERS_WITH_ARGS name of
           Some f \<Rightarrow> f v (case arg of None \<Rightarrow> [] | Some a \<Rightarrow> a)
         | None \<Rightarrow> (case map_of MODIFIERS name of Some f \<Rightarrow> f v | None \<Rightarrow> Inr v))"

fun modifier_chain :: "modifier list \<Rightarrow> pyval \<Rightarrow> pyval py_result" where
  "modifier_chain [] v = Inr v"
| "modifier_chain (m # ms) v = bind_result (apply_modifier m v) (modifier_chain ms)"

text \<open>The last step: booleans are not rendered, lists are joined.\<close>

definition final_string :: "pyval \<Rightarrow> string" where
  "final_string v =
     (case v of
        VList vs \<Rightarrow> py_join '', '' (map py_str vs)
      | VBool _ \<Rightarrow> []
      | VNone \<Rightarrow> []
      | _ \<Rightarrow> py_str v)"

definition apply_modifiers :: "pyval \<Rightarrow> modifier list \<Rightarrow> string py_result" where
  "apply_modifiers v ms =
     (if v = VNone then Inr []
      else bind_result (modifier_chain ms v) (\<lambda>w. Inr (final_string w)))"

end
