(* ===== verification/Template_Lexer.thy ===== *)
theory Template_Lexer
  imports Template_Modifiers
begin

text \<open>
  The class \<open>Lexer\<close> of \<open>utils/template_engine.py\<close>: the five patterns, written as matchers on
  the text that is left (\<open>Some\<close> of the group and the text after the match), \<open>_smart_split\<close>,
  \<open>_parse_variable\<close> and \<open>tokenize\<close>. The matchers follow \<open>re\<close>'s backtracking where it can
  matter; names are matched without regard to case where the source says \<open>IGNORECASE\<close>.
\<close>

section \<open>Tokens\<close>

datatype token =
    TextToken string
  | VariableToken string "modifier list"
  | IfToken string
  | ElifToken string
  | ElseToken
  | EndIfToken

section \<open>The patterns\<close>

text \<open>The text after a literal prefix, compared without regard to case.\<close>

definition match_literal :: "string \<Rightarrow> string \<Rightarrow> string option" where
  "match_literal lit s =
     (if py_lower (take (length lit) s) = lit then Some (drop (length lit) s) else None)"

text \<open>\<open>(.+?)}\<close>: at least one character that is no newline, then the next closing brace.\<close>

fun lazy_to_brace :: "bool \<Rightarrow> string \<Rightarrow> (string \<times> string) option" where
  "lazy_to_brace seen [] = None"
| "lazy_to_brace seen (c # cs) =
     (if seen \<and> c = CHR ''}'' then Some ([], cs)
      else if c = newline then None
      else map_option (\<lambda>(g, r). (c # g, r)) (lazy_to_brace True cs))"

text \<open>
  \<open>\s+(.+?)}\<close>: \<open>n\<close> is the number of white-space characters the greedy \<open>\s+\<close> still may take;
  when the rest fails it gives one back, down to one.
\<close>

fun spaces_then_group :: "nat \<Rightarrow> string \<Rightarrow> (string \<times> string) option" where
  "spaces_then_group 0 s = None"
| "spaces_then_group (Suc n) s =
     (case lazy_to_brace False (drop (Suc n) s) of
        Some gr \<Rightarrow> Some gr
      | None \<Rightarrow> spaces_then_group n s)"

definition match_condition :: "string \<Rightarrow> string \<Rightarrow> (string \<times> string) option" where
  "match_condition lit s =
     (case match_literal lit s of
        None \<Rightarrow> None
      | Some r \<Rightarrow> spaces_then_group (length (takeWhile py_isspace r)) r)"

definition match_if :: "string \<Rightarrow> (string \<times> string) option" where
  "match_if = match_condition ''{if''"

definition match_elif :: "string \<Rightarrow> (string \<times> string) option" where
  "match_elif = match_condition ''{elif''"

definition match_else :: "string \<Rightarrow> string option" where
  "match_else = match_literal ''{else}''"

definition match_endif :: "string \<Rightarrow> string option" where
  "match_endif = match_literal ''{/if}''"

definition path_char :: "char \<Rightarrow> bool" where
  "path_char c \<longleftrightarrow> is_word c \<or> c = CHR ''.''"

text \<open>\<open>{([a-zA-Z_][a-zA-Z0-9_.]*(?:\|[^}]+)?)}\<close>.\<close>

definition match_variable :: "string \<Rightarrow> (string \<times> string) option" where
  "match_variable s =
     (case s of
        b # c # cs \<Rightarrow>
          if b = CHR ''{'' \<and> (is_alpha c \<or> c = CHR ''_'')
          then (let path = c # takeWhile path_char cs; r = dropWhile path_char cs
                in case r of
                     [] \<Rightarrow> None
                   | d # ds \<Rightarrow>
                       if d = CHR ''}'' then Some (path, ds)
                       else if d = CHR ''|''
                       then (let ms = takeWhile (\<lambda>x. x \<noteq> CHR ''}'') ds;
                                 r2 = dropWhile (\<lambda>x. x \<noteq> CHR ''}'') ds
                             in if ms = [] \<or> r2 = [] then None
                                else Some (path @ d # ms, tl r2))
                       else None)
          else None
      | _ \<Rightarrow> None)"

section \<open>Variables and their modifiers\<close>

record split_state =
  sp_parts :: "string list"
  sp_current :: string
  sp_depth :: int
  sp_single :: bool
  sp_double :: bool

definition split_step :: "char \<Rightarrow> split_state \<Rightarrow> char \<Rightarrow> split_state" where
  "split_step delimiter st c =
     (let st' = st\<lparr>sp_current := sp_current st @ [c]\<rparr>;
          free = (\<not> sp_single st \<and> \<not> sp_double st)
      in if c = squote \<and> \<not> sp_double st then st'\<lparr>sp_single := \<not> sp_single st\<rparr>
         else if c = dquote \<and> \<not> sp_single st then st'\<lparr>sp_double := \<not> sp_double st\<rparr>
         else if c = CHR ''('' \<and> free then st'\<lparr>sp_depth := sp_depth st + 1\<rparr>
         else if c = CHR '')'' \<and> free then st'\<lparr>sp_depth := sp_depth st - 1\<rparr>
         else if c = delimiter \<and> sp_depth st = 0 \<and> free
           then st\<lparr>sp_parts := sp_parts st @ [sp_current st], sp_current := []\<rparr>
         else st')"

definition smart_split :: "string \<Rightarrow> char \<Rightarrow> string list" where
  "smart_split s delimiter =
     (let st = foldl (split_step delimiter)
                 \<lparr>sp_parts = [], sp_current = [], sp_depth = 0, sp_single = False, sp_double = False\<rparr> s
      in if sp_current st = [] then sp_parts st else sp_parts st @ [sp_current st])"

text \<open>\<open>(\w+)\((.+)\)$\<close> on a stripped modifier: the name and what is between the brackets.\<close>

definition match_call :: "string \<Rightarrow> (string \<times> string) option" where
  "match_call s =
     (let name = takeWhile is_word s
      in case dropWhile is_word s of
           [] \<Rightarrow> None
         | b # r \<Rightarrow>
             (if name \<noteq> [] \<and> b = CHR ''('' \<and> 2 \<le> length r \<and> last r = CHR '')'' \<and>
                 newline \<notin> set (butlast r)
              then Some (name, butlast r) else None))"

definition parse_modifier :: "string \<Rightarrow> modifier" where
  "parse_modifier m =
     (let s = py_strip m
      in case match_call s of Some (n, a) \<Rightarrow> (n, Some a) | None \<Rightarrow> (s, None))"

definition parse_variable :: "string \<Rightarrow> (string \<times> modifier list) py_result" where
  "parse_variable content =
     (case smart_split content (CHR ''|'') of
        [] \<Rightarrow> Inl IndexError
      | p # ps \<Rightarrow> Inr (py_strip p, map parse_modifier ps))"

section \<open>The tokenizer\<close>

text \<open>One turn of the loop on a non-empty rest: the token and the text after it.\<close>

definition next_token :: "string \<Rightarrow> (token \<times> string) py_result" where
  "next_token s =
     (case match_if s of
        Some (g, r) \<Rightarrow> Inr (IfToken (py_strip g), r)
      | None \<Rightarrow>
     (case match_elif s of
        Some (g, r) \<Rightarrow> Inr (ElifToken (py_strip g), r)
      | None \<Rightarrow>
     (case match_else s of
        Some r \<Rightarrow> Inr (ElseToken, r)
      | None \<Rightarrow>
     (case match_endif s of
        Some r \<Rightarrow> Inr (EndIfToken, r)
      | None \<Rightarrow>
     (if take 1 s = ''{''
      then (case match_variable s of
              Some (content, r) \<Rightarrow>
                bind_result (parse_variable content) (\<lambda>(p, ms). Inr (VariableToken p ms, r))
            | None \<Rightarrow> Inr (TextToken ''{'', tl s))
      else Inr (TextToken (takeWhile (\<lambda>c. c \<noteq> CHR ''{'') s), dropWhile (\<lambda>c. c \<noteq> CHR ''{'') s))))))"

lemma length_lazy_to_brace: "lazy_to_brace b s = Some (g, r) \<Longrightarrow> length r < length s"
  by (induction b s arbitrary: g r rule: lazy_to_brace.induct) (force split: if_splits)+

lemma length_spaces_then_group: "spaces_then_group n s = Some (g, r) \<Longrightarrow> length r < length s"
  by (induction n s arbitrary: g r rule: spaces_then_group.induct)
     (auto split: option.splits dest!: length_lazy_to_brace)

lemma length_match_literal:
  "match_literal lit s = Some r \<Longrightarrow> lit \<noteq> [] \<Longrightarrow> length r < length s"
  by (cases s) (auto simp: match_literal_def py_lower_def split: if_splits)

lemma length_match_condition:
  "match_condition lit s = Some (g, r) \<Longrightarrow> lit \<noteq> [] \<Longrightarrow> length r < length s"
  by (fastforce simp: match_condition_def split: option.splits
        dest: length_spaces_then_group length_match_literal)

lemma length_match_variable:
  assumes "match_variable s = Some (g, r)"
  shows "length r < length s"
proof -
  from assms obtain b c cs d ds where s: "s = b # c # cs" and d: "dropWhile path_char cs = d # ds"
    and r: "r = ds \<or> r = tl (dropWhile (\<lambda>x. x \<noteq> CHR ''}'') ds)"
    by (auto simp: match_variable_def Let_def split: list.splits if_splits)
  from d have "length ds < length cs"
    by (rule dropWhile_Cons_length)
  moreover from r have "length r \<le> length ds"
    by (metis diff_le_self length_dropWhile_le length_tl order_refl order_trans)
  ultimately show ?thesis
    by (simp add: s)
qed

lemma next_token_shorter:
  assumes "next_token s = Inr (t, r)" and "s \<noteq> []"
  shows "length r < length s"
proof -
  have dw: "take 1 s \<noteq> ''{'' \<Longrightarrow> length (dropWhile (\<lambda>c. c \<noteq> CHR ''{'') s) < length s"
    using assms(2) by (cases s) (auto simp: less_Suc_eq_le length_dropWhile_le)
  show ?thesis
    using assms dw
    by (auto simp: next_token_def match_if_def match_elif_def match_else_def match_endif_def
        result_simps split: option.splits if_splits
        dest: length_match_condition length_match_literal length_match_variable)
qed

function tokenize :: "string \<Rightarrow> token list py_result" where
  "tokenize s =
     (if s = [] then Inr []
      else bind_result (next_token s) (\<lambda>(t, r). bind_result (tokenize r) (\<lambda>ts. Inr (t # ts))))"
  by pat_completeness auto
termination
  by (relation "measure length") (auto dest: next_token_shorter)

declare tokenize.simps [simp del]

section \<open>The tokenizer never raises\<close>

lemma split_step_nonempty: "sp_parts (split_step d st c) \<noteq> [] \<or> sp_current (split_step d st c) \<noteq> []"
  by (simp add: split_step_def Let_def)

lemma smart_split_nonempty: "s \<noteq> [] \<Longrightarrow> smart_split s d \<noteq> []"
  using split_step_nonempty by (cases s rule: rev_cases) (auto simp: smart_split_def Let_def)

lemma match_variable_nonempty: "match_variable s = Some (g, r) \<Longrightarrow> g \<noteq> []"
  by (auto simp: match_variable_def Let_def split: list.splits if_splits)

lemma next_token_total: "\<exists>t r. next_token s = Inr (t, r)"
proof -
  have "\<exists>p ms. parse_variable g = Inr (p, ms)" if "match_variable s = Some (g, r)" for g r
    using smart_split_nonempty[OF match_variable_nonempty[OF that]]
    by (auto simp: parse_variable_def split: list.splits)
  then show ?thesis
    by (fastforce simp: next_token_def split: option.splits)
qed

lemma tokenize_returns: "\<exists>ts. tokenize s = Inr ts"
proof (induction s rule: length_induct)
  case (1 s)
  show ?case
  proof (cases "s = []")
    case False
    obtain t r where t: "next_token s = Inr (t, r)"
      using next_token_total by blast
    with 1 False obtain ts where "tokenize r = Inr ts"
      using next_token_shorter by blast
    with t False show ?thesis by (simp add: tokenize.simps[of s])
  qed (simp add: tokenize.simps)
qed

end
