(* ===== verification/Template_Parser.thy ===== *)
theory Template_Parser
  imports Template_Lexer
begin

text \<open>
  The class \<open>Parser\<close> of \<open>utils/template_engine.py\<close>. The cursor \<open>self.pos\<close> is the list of
  tokens that are left; \<open>_parse_block\<close> with its three stop flags, and the loop over the
  \<open>elif\<close> branches, are mutually recursive and consume tokens, so they run on fuel. One unit
  per token and one more is always enough (\<open>parse_enough_fuel\<close>), which is what \<open>parse\<close>
  supplies. \<open>flatten\<close> writes a tree back as tokens; parsing inverts it.
\<close>

section \<open>Trees\<close>

datatype node =
    TextNode string
  | VariableNode string "modifier list"
  | IfNode string "node list" "(string \<times> node list) list" "node list"

record stops =
  stop_at_elif :: bool
  stop_at_else :: bool
  stop_at_endif :: bool

definition stop_never :: stops where
  "stop_never = \<lparr>stop_at_elif = False, stop_at_else = False, stop_at_endif = False\<rparr>"

definition stop_branch :: stops where
  "stop_branch = \<lparr>stop_at_elif = True, stop_at_else = True, stop_at_endif = True\<rparr>"

definition stop_last :: stops where
  "stop_last = \<lparr>stop_at_elif = False, stop_at_else = False, stop_at_endif = True\<rparr>"

section \<open>The parser\<close>

definition skip_endif :: "token list \<Rightarrow> token list" where
  "skip_endif ts = (case ts of EndIfToken # r \<Rightarrow> r | _ \<Rightarrow> ts)"

fun parse_block :: "nat \<Rightarrow> stops \<Rightarrow> token list \<Rightarrow> (node list \<times> token list) option"
and parse_elifs :: "nat \<Rightarrow> token list \<Rightarrow> ((string \<times> node list) list \<times> token list) option" where
  "parse_block 0 st ts = None"
| "parse_block (Suc n) st [] = Some ([], [])"
| "parse_block (Suc n) st (TextToken s # r) =
     map_option (\<lambda>(ns, r'). (TextNode s # ns, r')) (parse_block n st r)"
| "parse_block (Suc n) st (VariableToken p ms # r) =
     map_option (\<lambda>(ns, r'). (VariableNode p ms # ns, r')) (parse_block n st r)"
| "parse_block (Suc n) st (IfToken c # r) =
     (case parse_block n stop_branch r of
        None \<Rightarrow> None
      | Some (tb, r1) \<Rightarrow>
     (case parse_elifs n r1 of
        None \<Rightarrow> None
      | Some (els, r2) \<Rightarrow>
     (case (case r2 of ElseToken # r3 \<Rightarrow> parse_block n stop_last r3 | _ \<Rightarrow> Some ([], r2)) of
        None \<Rightarrow> None
      | Some (fb, r4) \<Rightarrow>
          map_option (\<lambda>(ns, r'). (IfNode c tb els fb # ns, r')) (parse_block n st (skip_endif r4)))))"
| "parse_block (Suc n) st (ElifToken c # r) =
     (if stop_at_elif st then Some ([], ElifToken c # r) else parse_block n st r)"
| "parse_block (Suc n) st (ElseToken # r) =
     (if stop_at_else st then Some ([], ElseToken # r) else parse_block n st r)"
| "parse_block (Suc n) st (EndIfToken # r) =
     (if stop_at_endif st then Some ([], EndIfToken # r) else parse_block n st r)"
| "parse_elifs 0 ts = None"
| "parse_elifs (Suc n) ts =
     (case ts of
        ElifToken c # r \<Rightarrow>
          (case parse_block n stop_branch r of
             None \<Rightarrow> None
           | Some (b, r1) \<Rightarrow> map_option (\<lambda>(es, r2). ((c, b) # es, r2)) (parse_elifs n r1))
      | _ \<Rightarrow> Some ([], ts))"

definition parse_fuel :: "token list \<Rightarrow> nat" where
  "parse_fuel ts = Suc (length ts)"

definition parse :: "token list \<Rightarrow> node list option" where
  "parse ts = map_option fst (parse_block (parse_fuel ts) stop_never ts)"

section \<open>The fuel is enough\<close>

lemma length_skip_endif: "length (skip_endif ts) \<le> length ts"
  by (auto simp: skip_endif_def split: list.splits token.splits)

lemma parse_length:
  "parse_block n st ts = Some (ns, r) \<Longrightarrow> length r \<le> length ts"
  "parse_elifs n us = Some (es, r') \<Longrightarrow> length r' \<le> length us"
proof (induction n st ts and n us arbitrary: ns r and es r' rule: parse_block_parse_elifs.induct)
  case (5 n st c r0)
  from "5.prems" obtain tb r1 els r2 fb r4 ns' where
    b: "parse_block n stop_branch r0 = Some (tb, r1)" and e: "parse_elifs n r1 = Some (els, r2)" and
    f: "(case r2 of ElseToken # r3 \<Rightarrow> parse_block n stop_last r3 | _ \<Rightarrow> Some ([], r2)) = Some (fb, r4)"
    and k: "parse_block n st (skip_endif r4) = Some (ns', r)"
    by (auto split: option.splits)
  have "length r1 \<le> length r0" and "length r2 \<le> length r1"
    using 5 b e by auto
  moreover have "length r4 \<le> length r2"
    using f "5.IH"(3)[OF b refl e refl]
    by (auto split: list.splits token.splits intro: le_SucI)
  moreover have "length r \<le> length (skip_endif r4)"
    using "5.IH"(4)[OF b refl e refl f refl] k by blast
  ultimately show ?case
    using length_skip_endif[of r4] by simp
next
  case (10 n us)
  then show ?case
    by (fastforce split: list.splits token.splits option.splits)
qed (auto split: if_splits intro: le_SucI)

lemma parse_enough_fuel:
  "length ts < n \<Longrightarrow> parse_block n st ts \<noteq> None"
  "length us < n' \<Longrightarrow> parse_elifs n' us \<noteq> None"
proof (induction n st ts and n' us rule: parse_block_parse_elifs.induct)
  case (5 n st c r0)
  obtain tb r1 where b: "parse_block n stop_branch r0 = Some (tb, r1)"
    using 5 by (cases "parse_block n stop_branch r0") auto
  note l1 = parse_length(1)[OF b]
  obtain els r2 where e: "parse_elifs n r1 = Some (els, r2)"
    using "5.IH"(2)[OF b refl] "5.prems" l1 by (cases "parse_elifs n r1") auto
  note l2 = parse_length(2)[OF e]
  obtain fb r4 where
    f: "(case r2 of ElseToken # r3 \<Rightarrow> parse_block n stop_last r3 | _ \<Rightarrow> Some ([], r2)) = Some (fb, r4)"
    using "5.IH"(3)[OF b refl e refl] "5.prems" l1 l2
    by (fastforce split: list.splits token.splits)
  have "length r4 \<le> length r2"
    using f by (auto split: list.splits token.splits dest!: parse_length(1))
  then have "length (skip_endif r4) < n"
    using length_skip_endif[of r4] l1 l2 "5.prems" by simp
  then show ?case
    using "5.IH"(4)[OF b refl e refl f refl] b e f by simp
next
  case (10 n us)
  show ?case
  proof (cases us)
    case (Cons t r)
    show ?thesis
    proof (cases t)
      case (ElifToken c)
      obtain b r1 where b: "parse_block n stop_branch r = Some (b, r1)"
        using 10 Cons ElifToken by (cases "parse_block n stop_branch r") auto
      have "parse_elifs n r1 \<noteq> None"
        using "10.IH"(2)[OF Cons ElifToken b refl] parse_length(1)[OF b] "10.prems" Cons by simp
      with b Cons ElifToken show ?thesis by simp
    qed (use Cons in auto)
  qed simp
qed auto

lemma parse_total: "\<exists>ns. parse ts = Some ns"
  using parse_enough_fuel(1)[of ts "parse_fuel ts" stop_never]
  by (auto simp: parse_def parse_fuel_def)

section \<open>Writing a tree back as tokens\<close>

fun flatten_node :: "node \<Rightarrow> token list"
and flatten :: "node list \<Rightarrow> token list"
and flatten_elifs :: "(string \<times> node list) list \<Rightarrow> token list" where
  "flatten_node (TextNode s) = [TextToken s]"
| "flatten_node (VariableNode p ms) = [VariableToken p ms]"
| "flatten_node (IfNode c tb els fb) =
     IfToken c # flatten tb @ flatten_elifs els @
     (if fb = [] then [] else ElseToken # flatten fb) @ [EndIfToken]"
| "flatten [] = []"
| "flatten (n # ns) = flatten_node n @ flatten ns"
| "flatten_elifs [] = []"
| "flatten_elifs ((c, b) # es) = ElifToken c # flatten b @ flatten_elifs es"

text \<open>Where a block with the stop flags \<open>st\<close> ends.\<close>

fun stops_here :: "stops \<Rightarrow> token list \<Rightarrow> bool" where
  "stops_here st [] = True"
| "stops_here st (ElifToken c # r) = stop_at_elif st"
| "stops_here st (ElseToken # r) = stop_at_else st"
| "stops_here st (EndIfToken # r) = stop_at_endif st"
| "stops_here st (t # r) = False"

fun not_elif :: "token list \<Rightarrow> bool" where
  "not_elif (ElifToken c # r) = False"
| "not_elif ts = True"

lemma parse_block_stops: "stops_here st ts \<Longrightarrow> parse_block (Suc n) st ts = Some ([], ts)"
  by (induction st ts rule: stops_here.induct) auto

lemma stops_branch_elifs:
  "stops_here stop_branch (flatten_elifs es @ (if fb = [] then [] else ElseToken # ts) @ EndIfToken # r)"
  by (cases es rule: flatten_elifs.cases) (auto simp: stop_branch_def)

lemma flatten_node_nonempty: "0 < length (flatten_node x)"
  by (cases x) auto

lemma parse_flatten_aux:
  "length (flatten_node x @ rest) \<le> m \<Longrightarrow>
     parse_block (Suc m) st (flatten_node x @ rest) =
       map_option (\<lambda>(ns, r). (x # ns, r)) (parse_block m st rest)"
  "length (flatten ns @ rest) < n \<Longrightarrow> stops_here st rest \<Longrightarrow>
     parse_block n st (flatten ns @ rest) = Some (ns, rest)"
  "length (flatten_elifs es @ rest) < n \<Longrightarrow> not_elif rest \<Longrightarrow> stops_here stop_branch rest \<Longrightarrow>
     parse_elifs n (flatten_elifs es @ rest) = Some (es, rest)"
proof (induction x and ns and es arbitrary: rest m st and rest n st and rest n
    rule: flatten_node_flatten_flatten_elifs.induct)
  case (3 c tb els fb)
  let ?tail = "(if fb = [] then [] else ElseToken # flatten fb) @ EndIfToken # rest"
  have b: "parse_block m stop_branch (flatten tb @ flatten_elifs els @ ?tail) =
      Some (tb, flatten_elifs els @ ?tail)"
    using "3.prems" stops_branch_elifs[of els fb "flatten fb" rest] by (intro "3.IH"(1)) auto
  have e: "parse_elifs m (flatten_elifs els @ ?tail) = Some (els, ?tail)"
    using "3.prems" by (intro "3.IH"(2)) (auto simp: stop_branch_def)
  have f: "fb \<noteq> [] \<Longrightarrow>
      parse_block m stop_last (flatten fb @ EndIfToken # rest) = Some (fb, EndIfToken # rest)"
    using "3.prems" by (intro "3.IH"(3)) (auto simp: stop_last_def)
  show ?case
    using b e f by (auto simp: skip_endif_def)
next
  case (4 rest n st)
  then show ?case by (cases n) (auto simp: parse_block_stops)
next
  case (5 x ns)
  obtain m where n: "n = Suc m"
    using "5.prems" by (cases n) auto
  have "length (flatten ns @ rest) < m"
    using "5.prems" flatten_node_nonempty[of x] by (cases "flatten_node x") (auto simp: n)
  then have "parse_block m st (flatten ns @ rest) = Some (ns, rest)"
    using "5.prems" by (intro "5.IH"(2)) auto
  then show ?case
    using "5.IH"(1)[of "flatten ns @ rest" m st] "5.prems" by (simp add: n)
next
  case (6 rest n)
  then show ?case
    by (cases n; cases rest rule: not_elif.cases) auto
next
  case (7 c b es)
  obtain m where n: "n = Suc m"
    using "7.prems" by (cases n) auto
  have st: "stops_here stop_branch (flatten_elifs es @ rest)"
    using "7.prems" by (cases es rule: flatten_elifs.cases) (auto simp: stop_branch_def)
  show ?case
    using "7.IH"(1)[of "flatten_elifs es @ rest" m stop_branch] "7.IH"(2)[of rest m] "7.prems" st
    by (simp add: n)
qed auto

lemma parse_flatten: "parse (flatten ns) = Some ns"
  using parse_flatten_aux(2)[of ns "[]" "parse_fuel (flatten ns)" stop_never]
  by (simp add: parse_def parse_fuel_def)

end
