(* ===== verification/Template_Condition.thy ===== *)
theory Template_Condition
  imports Template_Parser
begin

text \<open>
  The class \<open>ConditionEvaluator\<close> of \<open>utils/template_engine.py\<close>: the split of a condition at
  \<open>and\<close> and \<open>or\<close>, negation, the search for an operator, comparison, the resolution of an
  operand to a value, and the guarded walk down a dotted path. A context is the item list of
  a dictionary with string keys. Evaluation may raise (a comparison of an integer too large
  for a float), so it returns a result, and \<open>all\<close> and \<open>any\<close> stop at the first exception.
\<close>

type_synonym ctx = "(string \<times> pyval) list"

section \<open>Paths\<close>

definition FORBIDDEN_PATHS :: "string list" where
  "FORBIDDEN_PATHS =
     [''__class__'', ''__bases__'', ''__mro__'', ''__subclasses__'', ''__init__'', ''__new__'',
      ''__del__'', ''__dict__'', ''__slots__'', ''__getattr__'', ''__setattr__'', ''__delattr__'',
      ''__getattribute__'', ''__globals__'', ''__code__'', ''__builtins__'', ''__import__'',
      ''__call__'', ''__reduce__'', ''__reduce_ex__'', ''__module__'', ''__weakref__'', ''__doc__'',
      ''__annotations__'', ''__wrapped__'', ''__self__'', ''__func__'', ''_sa_instance_state'']"

definition forbidden :: "string \<Rightarrow> bool" where
  "forbidden part \<longleftrightarrow> part \<in> set FORBIDDEN_PATHS \<or> py_startswith part ''_''"

fun walk_exists :: "string list \<Rightarrow> pyval \<Rightarrow> pyval \<times> bool" where
  "walk_exists [] v = (v, True)"
| "walk_exists (part # parts) v =
     (if forbidden part then (VNone, False)
      else case v of
          VDict kvs \<Rightarrow> (case map_of kvs part of
                          None \<Rightarrow> (VNone, False)
                        | Some w \<Rightarrow> walk_exists parts w)
        | _ \<Rightarrow> (VNone, False))"

definition get_value_with_exists :: "string \<Rightarrow> ctx \<Rightarrow> pyval \<times> bool" where
  "get_value_with_exists path context = walk_exists (split_char (CHR ''.'') path) (VDict context)"

fun walk_value :: "string list \<Rightarrow> pyval \<Rightarrow> pyval" where
  "walk_value [] v = v"
| "walk_value (part # parts) v =
     (if forbidden part then VNone
      else case v of
          VDict kvs \<Rightarrow> (case map_of kvs part of
                          None \<Rightarrow> VNone
                        | Some w \<Rightarrow> if w = VNone then VNone else walk_value parts w)
        | _ \<Rightarrow> VNone)"

definition get_value :: "string \<Rightarrow> ctx \<Rightarrow> pyval" where
  "get_value path context = walk_value (split_char (CHR ''.'') path) (VDict context)"

section \<open>Operands\<close>

definition resolve_number :: "string \<Rightarrow> pyval option" where
  "resolve_number expr =
     (if CHR ''.'' \<in> set expr \<and> \<not> (\<exists>c \<in> set expr. is_alpha c)
      then (case float_of_string expr of Inr f \<Rightarrow> Some (VFloat f) | Inl _ \<Rightarrow> None)
      else if all_digits expr \<or> (py_startswith expr ''-'' \<and> all_digits (drop 1 expr))
      then (case int_of_string expr of Inr i \<Rightarrow> Some (VInt i) | Inl _ \<Rightarrow> None)
      else None)"

definition resolve_value :: "string \<Rightarrow> ctx \<Rightarrow> pyval" where
  "resolve_value expr0 context =
     (let expr = py_strip expr0
      in if quoted_by dquote expr \<or> quoted_by squote expr then VStr (inner expr)
         else case resolve_number expr of
             Some v \<Rightarrow> v
           | None \<Rightarrow>
               (if py_lower expr = ''true'' then VBool True
                else if py_lower expr = ''false'' then VBool False
                else if CHR ''.'' \<in> set expr
                then (let (v, found) = get_value_with_exists expr context
                      in if found then v else VNone)
                else case map_of context expr of
                    Some v \<Rightarrow> v
                  | None \<Rightarrow> VStr expr))"

definition is_truthy :: "pyval \<Rightarrow> bool" where
  "is_truthy v =
     (case v of
        VNone \<Rightarrow> False
      | VBool b \<Rightarrow> b
      | VStr s \<Rightarrow> py_strip s \<noteq> []
      | VList vs \<Rightarrow> 0 < length vs
      | VInt i \<Rightarrow> i \<noteq> 0
      | VFloat f \<Rightarrow> \<not> float_eq f (FNum 0)
      | VDict kvs \<Rightarrow> py_truth (VDict kvs))"

section \<open>Comparison\<close>

definition compare_string :: "pyval \<Rightarrow> string" where
  "compare_string v = (if v = VNone then [] else py_lower (py_str v))"

definition compare_number :: "pyval \<Rightarrow> pyfloat py_result" where
  "compare_number v = (if v = VNone then Inr (FNum 0) else py_float v)"

text \<open>\<open>except (ValueError, TypeError): return False\<close>.\<close>

definition false_on_bad_number :: "bool py_result \<Rightarrow> bool py_result" where
  "false_on_bad_number r =
     (case r of Inl e \<Rightarrow> if e = ValueError \<or> e = TypeError then Inr False else Inl e | Inr b \<Rightarrow> Inr b)"

definition compare_vals :: "pyval \<Rightarrow> string \<Rightarrow> pyval \<Rightarrow> bool py_result" where
  "compare_vals left_val op right_val =
     (let l = compare_string left_val; r = compare_string right_val
      in if op = ''='' then Inr (l = r)
         else if op = ''!='' then Inr (l \<noteq> r)
         else if op = ''~'' then Inr (py_contains r l)
         else if op = ''$'' then Inr (py_startswith l r)
         else if op = ''^'' then Inr (py_endswith l r)
         else false_on_bad_number
           (bind_result (compare_number left_val) (\<lambda>a.
            bind_result (compare_number right_val) (\<lambda>b.
              Inr (if op = ''>'' then float_less b a
                   else if op = ''<'' then float_less a b
                   else if op = ''>='' then float_le b a
                   else if op = ''<='' then float_le a b
                   else False)))))"

definition compare :: "string \<Rightarrow> string \<Rightarrow> string \<Rightarrow> ctx \<Rightarrow> bool py_result" where
  "compare left op right context =
     compare_vals (resolve_value left context) op (resolve_value right context)"

definition OPERATORS :: "string list" where
  "OPERATORS = [''>='', ''<='', ''!='', ''='', ''>'', ''<'', ''~'', ''$'', ''^'']"

fun find_operator :: "string list \<Rightarrow> string \<Rightarrow> (string \<times> string \<times> string) option" where
  "find_operator [] condition = None"
| "find_operator (op # ops) condition =
     (case split_once op condition of
        Some (l, r) \<Rightarrow> Some (op, l, r)
      | None \<Rightarrow> find_operator ops condition)"

section \<open>Logical connectives\<close>

text \<open>\<open>re.split(r"\s+kw\s+", s, flags=IGNORECASE)\<close>.\<close>

definition match_keyword :: "string \<Rightarrow> string \<Rightarrow> string option" where
  "match_keyword kw s =
     (let r = dropWhile py_isspace s; t = drop (length kw) r
      in if s \<noteq> [] \<and> py_isspace (hd s) \<and> py_lower (take (length kw) r) = kw \<and>
            t \<noteq> [] \<and> py_isspace (hd t)
         then Some (dropWhile py_isspace t) else None)"

lemma match_keyword_shorter: "match_keyword kw s = Some t \<Longrightarrow> length t < length s"
proof -
  assume a: "match_keyword kw s = Some t"
  then obtain c cs where s: "s = c # cs" "py_isspace c"
    by (cases s) (auto simp: match_keyword_def Let_def split: if_splits)
  have "t = dropWhile py_isspace (drop (length kw) (dropWhile py_isspace s))"
    using a by (auto simp: match_keyword_def Let_def split: if_splits)
  then have "length t \<le> length (dropWhile py_isspace s)"
    using length_dropWhile_le[of py_isspace "drop (length kw) (dropWhile py_isspace s)"] by simp
  also have "\<dots> < length s"
    using s by (simp add: less_Suc_eq_le length_dropWhile_le)
  finally show ?thesis .
qed

function split_keyword :: "string \<Rightarrow> string \<Rightarrow> string list" where
  "split_keyword kw [] = [[]]"
| "split_keyword kw (c # cs) =
     (case match_keyword kw (c # cs) of
        Some t \<Rightarrow> [] # split_keyword kw t
      | None \<Rightarrow> (case split_keyword kw cs of [] \<Rightarrow> [[c]] | f # fs \<Rightarrow> (c # f) # fs))"
  by pat_completeness auto
termination
  by (relation "measure (\<lambda>(kw, s). length s)") (auto dest: match_keyword_shorter)

fun all_result :: "('a \<Rightarrow> bool py_result) \<Rightarrow> 'a list \<Rightarrow> bool py_result" where
  "all_result f [] = Inr True"
| "all_result f (x # xs) = bind_result (f x) (\<lambda>b. if b then all_result f xs else Inr False)"

fun any_result :: "('a \<Rightarrow> bool py_result) \<Rightarrow> 'a list \<Rightarrow> bool py_result" where
  "any_result f [] = Inr False"
| "any_result f (x # xs) = bind_result (f x) (\<lambda>b. if b then Inr True else any_result f xs)"

lemma all_result_cong [fundef_cong]:
  "xs = ys \<Longrightarrow> (\<And>x. x \<in> set ys \<Longrightarrow> f x = g x) \<Longrightarrow> all_result f xs = all_result g ys"
  by (induction xs arbitrary: ys) (auto simp: bind_result_def split: sum.splits)

lemma any_result_cong [fundef_cong]:
  "xs = ys \<Longrightarrow> (\<And>x. x \<in> set ys \<Longrightarrow> f x = g x) \<Longrightarrow> any_result f xs = any_result g ys"
  by (induction xs arbitrary: ys) (auto simp: bind_result_def split: sum.splits)

lemma split_keyword_nonempty [simp]: "split_keyword kw s \<noteq> []"
  by (induction kw s rule: split_keyword.induct) (auto split: option.splits list.splits)

lemma split_keyword_bound:
  "p \<in> set (split_keyword kw s) \<Longrightarrow> length p \<le> length s"
proof (induction kw s arbitrary: p rule: split_keyword.induct)
  case (2 kw c cs)
  show ?case
  proof (cases "match_keyword kw (c # cs)")
    case None
    obtain f fs where sp: "split_keyword kw cs = f # fs"
      by (cases "split_keyword kw cs") auto
    have "length q \<le> length cs" if "q \<in> set (f # fs)" for q
      using "2.IH"(1)[OF None, of q] that sp by simp
    with 2 None sp show ?thesis by fastforce
  next
    case (Some t)
    with 2 show ?thesis using match_keyword_shorter[OF Some] by fastforce
  qed
qed auto

lemma split_keyword_shorter:
  "1 < length (split_keyword kw s) \<Longrightarrow> p \<in> set (split_keyword kw s) \<Longrightarrow> length p < length s"
proof (induction kw s arbitrary: p rule: split_keyword.induct)
  case (2 kw c cs)
  show ?case
  proof (cases "match_keyword kw (c # cs)")
    case None
    obtain f fs where sp: "split_keyword kw cs = f # fs"
      by (cases "split_keyword kw cs") auto
    have "length q < length cs" if "q \<in> set (f # fs)" for q
      using "2.IH"(1)[OF None, of q] that sp "2.prems" None by simp
    with 2 None sp show ?thesis by fastforce
  next
    case (Some t)
    have "length q \<le> length t" if "q \<in> set (split_keyword kw t)" for q
      using that by (rule split_keyword_bound)
    with 2 Some show ?thesis using match_keyword_shorter[OF Some] by fastforce
  qed
qed auto

section \<open>Evaluation\<close>

function evaluate :: "string \<Rightarrow> ctx \<Rightarrow> bool py_result" where
  "evaluate condition0 context =
     (let condition = py_strip condition0;
          and_parts = split_keyword ''and'' condition;
          or_parts = split_keyword ''or'' condition
      in if 1 < length and_parts then all_result (\<lambda>p. evaluate p context) and_parts
         else if 1 < length or_parts then any_result (\<lambda>p. evaluate p context) or_parts
         else if py_startswith condition ''not ''
         then bind_result (evaluate (drop 4 condition) context) (\<lambda>b. Inr (\<not> b))
         else case find_operator OPERATORS condition of
             Some (op, l, r) \<Rightarrow> compare (py_strip l) op (py_strip r) context
           | None \<Rightarrow> Inr (is_truthy (resolve_value condition context)))"
  by pat_completeness auto
termination
proof (relation "measure (\<lambda>(c, ctx). length c)", goal_cases)
  case 1
  show ?case by simp
next
  case (2 c ctx x xa xb z)
  then have "length z < length (py_strip c)"
    by (blast intro: split_keyword_shorter)
  then show ?case
    using length_strip[of c] by simp
next
  case (3 c ctx x xa xb z)
  then have "length z < length (py_strip c)"
    by (blast intro: split_keyword_shorter)
  then show ?case
    using length_strip[of c] by simp
next
  case (4 c ctx x xa xb)
  then have "0 < length (py_strip c)"
    by (auto simp: py_startswith_def)
  then have "length (drop 4 (py_strip c)) < length c"
    using length_strip[of c] by (simp only: length_drop)
  with 4 show ?case
    by simp
qed

declare evaluate.simps [simp del]

end
