(* ===== verification/Memo_Cache.thy ===== *)
theory Memo_Cache
  imports Py_Prelude
begin

text \<open>
  The contract of a memo table: a map from keys to results of a computation that may raise.
  A lookup answers from the table when it can, otherwise computes and stores, and an
  exception stores nothing. Under these three laws a table that only holds computed results
  keeps doing so, and a client cannot tell the cached lookup from the computation.
\<close>

locale memo_cache =
  fixes compute :: "'k \<Rightarrow> 'e + 'v"
    and fetch :: "('k \<rightharpoonup> 'v) \<Rightarrow> 'k \<Rightarrow> ('e + 'v) \<times> ('k \<rightharpoonup> 'v)"
  assumes fetch_hit: "cache k = Some v \<Longrightarrow> fetch cache k = (Inr v, cache)"
    and fetch_miss: "cache k = None \<Longrightarrow> compute k = Inr v \<Longrightarrow> fetch cache k = (Inr v, cache(k \<mapsto> v))"
    and fetch_fail: "cache k = None \<Longrightarrow> compute k = Inl e \<Longrightarrow> fetch cache k = (Inl e, cache)"
begin

definition coherent :: "('k \<rightharpoonup> 'v) \<Rightarrow> bool" where
  "coherent cache \<longleftrightarrow> (\<forall>k v. cache k = Some v \<longrightarrow> compute k = Inr v)"

lemma coherent_empty: "coherent Map.empty"
  by (simp add: coherent_def)

lemma fetch_cases:
  obtains (hit) v where "cache k = Some v" "fetch cache k = (Inr v, cache)"
  | (miss) v where "cache k = None" "compute k = Inr v" "fetch cache k = (Inr v, cache(k \<mapsto> v))"
  | (fail) e where "cache k = None" "compute k = Inl e" "fetch cache k = (Inl e, cache)"
  using fetch_hit fetch_miss fetch_fail by (cases "cache k"; cases "compute k") auto

lemma fetch_coherent: "coherent cache \<Longrightarrow> coherent (snd (fetch cache k))"
  by (cases rule: fetch_cases[of cache k]) (auto simp: coherent_def)

lemma fetch_transparent: "coherent cache \<Longrightarrow> fst (fetch cache k) = compute k"
  by (cases rule: fetch_cases[of cache k]) (auto simp: coherent_def)

lemma fetch_grows: "cache \<subseteq>\<^sub>m snd (fetch cache k)"
  by (cases rule: fetch_cases[of cache k]) (auto simp: map_le_def)

end

end
