(* ===== verification/Template_Render.thy ===== *)
theory Template_Render
  imports Template_Condition Memo_Cache
begin

text \<open>
  The class \<open>CompiledTemplate\<close> and the public interface of \<open>utils/template_engine.py\<close>:
  rendering of a tree over a context, the clean-up of blank lines, \<open>compile_template\<close> with its
  length limit, and the module-level cache, passed explicitly as a map from template texts to
  compiled templates.
\<close>

section \<open>Rendering\<close>

text \<open>\<open>render_elifs\<close> is the loop over the \<open>elif\<close> branches, then the fall through to \<open>else\<close>.\<close>

function render_node :: "node \<Rightarrow> ctx \<Rightarrow> string py_result"
and render_nodes_raw :: "node list \<Rightarrow> ctx \<Rightarrow> string py_result"
and render_elifs :: "(string \<times> node list) list \<Rightarrow> node list \<Rightarrow> ctx \<Rightarrow> string py_result" where
  "render_node (TextNode s) context = Inr s"
| "render_node (VariableNode path ms) context = apply_modifiers (get_value path context) ms"
| "render_node (IfNode c tb els fb) context =
     bind_result (evaluate c context)
       (\<lambda>t. if t then render_nodes_raw tb context else render_elifs els fb context)"
| "render_nodes_raw [] context = Inr []"
| "render_nodes_raw (n # ns) context =
     bind_result (render_node n context) (\<lambda>a.
     bind_result (render_nodes_raw ns context) (\<lambda>b. Inr (a @ b)))"
| "render_elifs [] fb context = render_nodes_raw fb context"
| "render_elifs ((c, b) # es) fb context =
     bind_result (evaluate c context)
       (\<lambda>t. if t then render_nodes_raw b context else render_elifs es fb context)"
  by pat_completeness auto
termination
  by (relation "measure (case_sum (\<lambda>(n, c). 2 * size n)
        (case_sum (\<lambda>(ns, c). 2 * size_list size ns)
          (\<lambda>(es, fb, c). 2 * (size_list (size_prod (\<lambda>_. 0) (size_list size)) es + size_list size fb) + 1)))")
     auto

definition clean_lines :: "string \<Rightarrow> string" where
  "clean_lines output =
     py_join [newline] (filter (\<lambda>line. py_strip line \<noteq> []) (split_char newline output))"

definition render_nodes :: "node list \<Rightarrow> ctx \<Rightarrow> string py_result" where
  "render_nodes ns context =
     bind_result (render_nodes_raw ns context) (\<lambda>output. Inr (clean_lines output))"

section \<open>Compilation and the cache\<close>

definition MAX_TEMPLATE_LENGTH :: nat where
  "MAX_TEMPLATE_LENGTH = 10000"

definition compile_template :: "string \<Rightarrow> node list py_result" where
  "compile_template template =
     (if MAX_TEMPLATE_LENGTH < length template then Inl ValueError
      else bind_result (tokenize template) (\<lambda>tokens.
        case parse tokens of Some ast \<Rightarrow> Inr ast | None \<Rightarrow> Inl RuntimeError))"

type_synonym template_cache = "string \<rightharpoonup> node list"

text \<open>An exception leaves the cache as it was.\<close>

definition get_compiled_template :: "template_cache \<Rightarrow> string \<Rightarrow> node list py_result \<times> template_cache" where
  "get_compiled_template cache template =
     (case cache template of
        Some ast \<Rightarrow> (Inr ast, cache)
      | None \<Rightarrow> (case compile_template template of
                   Inl e \<Rightarrow> (Inl e, cache)
                 | Inr ast \<Rightarrow> (Inr ast, cache(template \<mapsto> ast))))"

definition render_template ::
  "template_cache \<Rightarrow> string \<Rightarrow> ctx \<Rightarrow> string py_result \<times> template_cache" where
  "render_template cache template context =
     (case get_compiled_template cache template of
        (r, cache') \<Rightarrow> (bind_result r (\<lambda>ast. render_nodes ast context), cache'))"

definition clear_cache :: "template_cache \<Rightarrow> template_cache" where
  "clear_cache cache = Map.empty"

section \<open>What rendering guarantees\<close>

lemma walk_forbidden: "\<exists>p \<in> set parts. forbidden p \<Longrightarrow> walk_value parts v = VNone"
  by (induction parts v rule: walk_value.induct) (auto split: pyval.splits option.splits)

lemma walk_exists_forbidden: "\<exists>p \<in> set parts. forbidden p \<Longrightarrow> walk_exists parts v = (VNone, False)"
  by (induction parts v rule: walk_exists.induct) (auto split: pyval.splits option.splits)

text \<open>
  Property C10. A variable whose path has a forbidden segment (a Python internal, or any name
  that starts with an underscore) renders as the empty string, whatever the context holds and
  whatever its modifiers are.
\<close>

theorem forbidden_variable_renders_empty:
  assumes "\<exists>part \<in> set (split_char (CHR ''.'') path). forbidden part"
  shows "render_node (VariableNode path ms) context = Inr []"
  using walk_forbidden[OF assms] by (simp add: get_value_def apply_modifiers_def)

theorem forbidden_variable_renders_empty_witness:
  "render_node (VariableNode ''user.__class__'' [(''upper'', None)])
     [(''user'', VDict [(''__class__'', VStr ''secret'')])] = Inr []"
  by (rule forbidden_variable_renders_empty) (simp add: forbidden_def FORBIDDEN_PATHS_def)

text \<open>
  Rendering leaves no blank line: the output is empty, or every one of its lines
  has a character that is not white space.
\<close>

theorem render_no_blank_lines:
  assumes "render_nodes ns context = Inr out" and "out \<noteq> []" and "line \<in> set (split_char newline out)"
  shows "py_strip line \<noteq> []"
proof -
  from assms(1) obtain raw where out: "out = clean_lines raw"
    by (auto simp: render_nodes_def result_simps)
  let ?ls = "filter (\<lambda>line. py_strip line \<noteq> []) (split_char newline raw)"
  have "?ls \<noteq> []"
    using assms(2) out by (auto simp: clean_lines_def)
  then have "split_char newline out = ?ls"
    unfolding out clean_lines_def by (intro split_char_join) (auto dest: split_char_no_sep)
  with assms(3) show ?thesis by simp
qed

theorem render_no_blank_lines_witness:
  "py_strip ''b'' \<noteq> []"
  by (rule render_no_blank_lines[of "[TextNode [CHR ''a'', newline, newline], TextNode ''b'']" "[]"
        "[CHR ''a'', newline, CHR ''b'']"]) code_simp+

lemma render_elifs_first:
  "(\<And>d. d \<in> set (map fst pre) \<Longrightarrow> evaluate d context = Inr False) \<Longrightarrow> evaluate c context = Inr True \<Longrightarrow>
     render_elifs (pre @ (c, body) # post) fb context = render_nodes_raw body context"
  by (induction pre) auto

lemma render_elifs_none:
  "(\<And>d. d \<in> set (map fst els) \<Longrightarrow> evaluate d context = Inr False) \<Longrightarrow>
     render_elifs els fb context = render_nodes_raw fb context"
  by (induction els) auto

text \<open>
  A conditional renders the body of the first of its conditions that holds; the
  conditions before it are false and those after it are not looked at.
\<close>

theorem render_first_true_branch:
  assumes "evaluate c0 context = Inr False"
    and "\<And>d. d \<in> set (map fst els0) \<Longrightarrow> evaluate d context = Inr False"
    and "evaluate c context = Inr True"
  shows "render_node (IfNode c0 tb (els0 @ (c, body) # post) fb) context = render_nodes_raw body context"
  using assms render_elifs_first[of els0 "context" c body post fb] by simp

theorem render_first_true_branch_witness:
  "render_node (IfNode ''a'' [TextNode ''1''] [(''b'', [TextNode ''2'']), (''c'', [TextNode ''3''])] [])
     [(''a'', VInt 0), (''b'', VBool True)] = render_nodes_raw [TextNode ''2''] [(''a'', VInt 0), (''b'', VBool True)]"
proof -
  have e: "evaluate ''a'' [(''a'', VInt 0), (''b'', VBool True)] = Inr False"
    "evaluate ''b'' [(''a'', VInt 0), (''b'', VBool True)] = Inr True"
    by code_simp+
  show ?thesis
    using render_first_true_branch[of "''a''" "[(''a'', VInt 0), (''b'', VBool True)]" "[]" "''b''"
        "[TextNode ''1'']" "[TextNode ''2'']" "[(''c'', [TextNode ''3''])]" "[]"] e by simp
qed

section \<open>The compiled-template cache\<close>

interpretation template_memo: memo_cache compile_template get_compiled_template
  by unfold_locales (auto simp: get_compiled_template_def)

text \<open>
  The cache is transparent: from a cache that holds only compiled templates,
  rendering a template gives what compiling and rendering it without a cache gives, an
  exception included, and the cache left behind again holds only compiled templates.
\<close>

theorem cached_render_transparent:
  assumes "\<forall>t ast. cache t = Some ast \<longrightarrow> compile_template t = Inr ast"
  shows "fst (render_template cache template context) =
      bind_result (compile_template template) (\<lambda>ast. render_nodes ast context) \<and>
    (\<forall>t ast. snd (render_template cache template context) t = Some ast \<longrightarrow> compile_template t = Inr ast)"
  using template_memo.fetch_transparent[of cache template] template_memo.fetch_coherent[of cache template] assms
  by (auto simp: render_template_def template_memo.coherent_def split: prod.splits)

theorem cached_render_transparent_witness:
  "fst (render_template Map.empty ''hi'' []) =
     bind_result (compile_template ''hi'') (\<lambda>ast. render_nodes ast [])"
  using cached_render_transparent[of Map.empty "''hi''" "[]"] by simp

text \<open>
  Compilation is total up to its one check: a template of at most
  \<open>MAX_TEMPLATE_LENGTH\<close> characters, well formed or not, always compiles to a tree, and a longer
  one raises \<open>ValueError\<close>. The tokenizer and the parser never raise.
\<close>

theorem compile_template_total:
  "if length template \<le> MAX_TEMPLATE_LENGTH then \<exists>ast. compile_template template = Inr ast
   else compile_template template = Inl ValueError"
proof -
  obtain tokens where "tokenize template = Inr tokens"
    using tokenize_returns by blast
  moreover obtain ast where "parse tokens = Some ast"
    using parse_total by blast
  ultimately show ?thesis by (simp add: compile_template_def)
qed

end
