(* ===== verification/Template_Print.thy ===== *)
theory Template_Print
  imports Template_Render
begin

text \<open>
  A printer for templates, as a specification of the concrete syntax: the text of a token,
  and which tokens have an unambiguous text. Compiling the text of a well-formed tree gives
  the tree back, so the lexer and the parser together invert the printer.
\<close>

section \<open>The text of a token\<close>

definition mod_text :: "modifier \<Rightarrow> string" where
  "mod_text m = (case m of (n, None) \<Rightarrow> n | (n, Some a) \<Rightarrow> n @ ''('' @ a @ '')'')"

definition var_text :: "string \<Rightarrow> modifier list \<Rightarrow> string" where
  "var_text p ms = p @ concat (map (\<lambda>m. CHR ''|'' # mod_text m) ms)"

fun token_text :: "token \<Rightarrow> string" where
  "token_text (TextToken s) = s"
| "token_text (VariableToken p ms) = ''{'' @ var_text p ms @ ''}''"
| "token_text (IfToken c) = ''{if '' @ c @ ''}''"
| "token_text (ElifToken c) = ''{elif '' @ c @ ''}''"
| "token_text ElseToken = ''{else}''"
| "token_text EndIfToken = ''{/if}''"

definition print_tokens :: "token list \<Rightarrow> string" where
  "print_tokens ts = concat (map token_text ts)"

text \<open>Well-formed tokens.\<close>

definition wf_modifier :: "modifier \<Rightarrow> bool" where
  "wf_modifier m \<longleftrightarrow> fst m \<noteq> [] \<and> (\<forall>c \<in> set (fst m). is_word c) \<and>
     (case snd m of None \<Rightarrow> True
      | Some a \<Rightarrow> a \<noteq> [] \<and> (\<forall>c \<in> set a. c \<notin> {squote, dquote, newline, CHR ''('', CHR '')'', CHR ''}''}))"

definition wf_condition :: "string \<Rightarrow> bool" where
  "wf_condition c \<longleftrightarrow> c \<noteq> [] \<and> py_strip c = c \<and> CHR ''}'' \<notin> set c \<and> newline \<notin> set c"

definition wf_path :: "string \<Rightarrow> bool" where
  "wf_path p \<longleftrightarrow> p \<noteq> [] \<and> (is_alpha (hd p) \<or> hd p = CHR ''_'') \<and> (\<forall>c \<in> set p. path_char c) \<and>
     py_lower p \<noteq> ''else''"

fun wf_token :: "token \<Rightarrow> bool" where
  "wf_token (TextToken s) = (s \<noteq> [] \<and> CHR ''{'' \<notin> set s)"
| "wf_token (VariableToken p ms) = (wf_path p \<and> (\<forall>m \<in> set ms. wf_modifier m))"
| "wf_token (IfToken c) = wf_condition c"
| "wf_token (ElifToken c) = wf_condition c"
| "wf_token ElseToken = True"
| "wf_token EndIfToken = True"

definition is_text :: "token \<Rightarrow> bool" where
  "is_text t = (case t of TextToken _ \<Rightarrow> True | _ \<Rightarrow> False)"

fun wf_tokens :: "token list \<Rightarrow> bool" where
  "wf_tokens [] = True"
| "wf_tokens [t] = wf_token t"
| "wf_tokens (t # u # ts) = (wf_token t \<and> \<not> (is_text t \<and> is_text u) \<and> wf_tokens (u # ts))"

section \<open>Splitting a variable\<close>

definition plain :: "char \<Rightarrow> bool" where
  "plain c \<longleftrightarrow> c \<noteq> squote \<and> c \<noteq> dquote \<and> c \<noteq> CHR ''('' \<and> c \<noteq> CHR '')''"

definition unquoted :: "split_state \<Rightarrow> bool" where
  "unquoted st \<longleftrightarrow> \<not> sp_single st \<and> \<not> sp_double st"

lemma special_chars [simp]:
  "squote \<noteq> dquote" "squote \<noteq> CHR ''(''" "squote \<noteq> CHR '')''" "squote \<noteq> CHR ''|''"
  "dquote \<noteq> CHR ''(''" "dquote \<noteq> CHR '')''" "dquote \<noteq> CHR ''|''"
  "CHR ''('' \<noteq> squote" "CHR '')'' \<noteq> squote" "CHR ''|'' \<noteq> squote"
  "CHR ''('' \<noteq> dquote" "CHR '')'' \<noteq> dquote" "CHR ''|'' \<noteq> dquote"
  by (auto simp: squote_def dquote_def)

lemma split_plain:
  "\<forall>c \<in> set xs. plain c \<and> (c = CHR ''|'' \<longrightarrow> sp_depth st \<noteq> 0) \<Longrightarrow> unquoted st \<Longrightarrow>
     foldl (split_step (CHR ''|'')) st xs = st\<lparr>sp_current := sp_current st @ xs\<rparr>"
proof (induction xs arbitrary: st)
  case (Cons x xs)
  have "split_step (CHR ''|'') st x = st\<lparr>sp_current := sp_current st @ [x]\<rparr>"
    using Cons.prems by (auto simp: split_step_def Let_def plain_def unquoted_def)
  then show ?case
    using Cons.IH[of "st\<lparr>sp_current := sp_current st @ [x]\<rparr>"] Cons.prems by (simp add: unquoted_def)
qed simp

lemma word_plain: "is_word c \<Longrightarrow> plain c \<and> c \<noteq> CHR ''|''"
  by (auto simp: is_word_def is_alpha_def is_upper_def is_lower_def is_digit_def plain_def
      squote_def dquote_def)

lemma path_plain: "path_char c \<Longrightarrow> plain c \<and> c \<noteq> CHR ''|''"
  using word_plain by (auto simp: path_char_def plain_def squote_def dquote_def)

lemma split_mod_text:
  assumes "wf_modifier m" and "unquoted st" and "sp_depth st = 0"
  shows "foldl (split_step (CHR ''|'')) st (mod_text m) = st\<lparr>sp_current := sp_current st @ mod_text m\<rparr>"
proof -
  obtain n oa where m: "m = (n, oa)" by (cases m)
  have n: "foldl (split_step (CHR ''|'')) st n = st\<lparr>sp_current := sp_current st @ n\<rparr>"
    using assms word_plain by (intro split_plain) (auto simp: wf_modifier_def m)
  show ?thesis
  proof (cases oa)
    case None
    with n show ?thesis by (simp add: m mod_text_def)
  next
    case (Some a)
    let ?st1 = "st\<lparr>sp_current := sp_current st @ n @ ''('', sp_depth := 1\<rparr>"
    have a: "foldl (split_step (CHR ''|'')) ?st1 a = ?st1\<lparr>sp_current := sp_current ?st1 @ a\<rparr>"
      using assms by (intro split_plain) (auto simp: wf_modifier_def m Some plain_def unquoted_def)
    show ?thesis
      using n a assms(2,3) by (simp add: m Some mod_text_def split_step_def Let_def unquoted_def)
  qed
qed

lemma mod_text_nonempty: "wf_modifier m \<Longrightarrow> mod_text m \<noteq> []"
  by (cases m; cases "snd m") (simp_all add: wf_modifier_def mod_text_def)

abbreviation split_all :: "split_state \<Rightarrow> string \<Rightarrow> split_state" where
  "split_all \<equiv> foldl (split_step (CHR ''|''))"

abbreviation mods_text :: "modifier list \<Rightarrow> string" where
  "mods_text ms \<equiv> concat (map (\<lambda>m. CHR ''|'' # mod_text m) ms)"

lemma split_mods:
  "\<forall>m \<in> set ms. wf_modifier m \<Longrightarrow> unquoted st \<Longrightarrow> sp_depth st = 0 \<Longrightarrow> sp_current st \<noteq> [] \<Longrightarrow>
     sp_parts (split_all st (mods_text ms)) @ [sp_current (split_all st (mods_text ms))] =
       sp_parts st @ sp_current st # map mod_text ms \<and>
     sp_current (split_all st (mods_text ms)) \<noteq> []"
proof (induction ms arbitrary: st)
  case (Cons m ms)
  let ?st1 = "st\<lparr>sp_parts := sp_parts st @ [sp_current st], sp_current := []\<rparr>"
  let ?st2 = "?st1\<lparr>sp_current := mod_text m\<rparr>"
  have 1: "split_step (CHR ''|'') st (CHR ''|'') = ?st1"
    using Cons.prems by (simp add: split_step_def unquoted_def)
  have 2: "split_all ?st1 (mod_text m) = ?st2"
    using split_mod_text[of m ?st1] Cons.prems by (simp add: unquoted_def)
  have step: "split_all st (mods_text (m # ms)) = split_all ?st2 (mods_text ms)"
    by (simp only: list.map concat.simps append_Cons foldl_Cons foldl_append 1 2)
  have "sp_current ?st2 \<noteq> []" "unquoted ?st2" "sp_depth ?st2 = 0"
    using Cons.prems mod_text_nonempty by (auto simp: unquoted_def)
  with Cons.IH[of ?st2] Cons.prems(1) show ?case
    unfolding step by simp
qed simp

lemma smart_split_var_text:
  assumes "wf_path p" and "\<forall>m \<in> set ms. wf_modifier m"
  shows "smart_split (var_text p ms) (CHR ''|'') = p # map mod_text ms"
proof -
  let ?st = "\<lparr>sp_parts = [], sp_current = [], sp_depth = 0, sp_single = False, sp_double = False\<rparr>"
  have p: "foldl (split_step (CHR ''|'')) ?st p = ?st\<lparr>sp_current := p\<rparr>"
    using assms(1) path_plain split_plain[of p ?st] by (auto simp: wf_path_def unquoted_def)
  have "p \<noteq> []"
    using assms(1) by (simp add: wf_path_def)
  then show ?thesis
    using split_mods[of ms "?st\<lparr>sp_current := p\<rparr>"] assms(2)
    by (simp add: smart_split_def var_text_def p unquoted_def)
qed

section \<open>Parsing a variable\<close>

lemma strip_id: "s \<noteq> [] \<Longrightarrow> \<not> py_isspace (hd s) \<Longrightarrow> \<not> py_isspace (last s) \<Longrightarrow> py_strip s = s"
proof -
  assume a: "s \<noteq> []" "\<not> py_isspace (hd s)" "\<not> py_isspace (last s)"
  then have "dropWhile py_isspace s = s" "dropWhile py_isspace (rev s) = rev s"
    by (cases s, simp, simp) (cases s rule: rev_cases, use a in auto)
  then show ?thesis
    by (simp add: py_strip_def strip_if_def)
qed

lemma word_not_space: "is_word c \<Longrightarrow> \<not> py_isspace c"
  by (auto simp: is_word_def is_alpha_def is_upper_def is_lower_def is_digit_def py_isspace_def)

lemma path_not_space: "path_char c \<Longrightarrow> \<not> py_isspace c"
  using word_not_space by (auto simp: path_char_def py_isspace_def)

lemma strip_path: "wf_path p \<Longrightarrow> py_strip p = p"
  using path_not_space by (intro strip_id) (auto simp: wf_path_def)

lemma strip_mod_text: "wf_modifier m \<Longrightarrow> py_strip (mod_text m) = mod_text m"
  using word_not_space
  by (intro strip_id) (auto simp: wf_modifier_def mod_text_def py_isspace_def split: option.splits prod.splits)

lemma parse_mod_text:
  assumes "wf_modifier m"
  shows "parse_modifier (mod_text m) = m"
proof -
  obtain n oa where m: "m = (n, oa)" by (cases m)
  have w: "\<forall>c \<in> set n. is_word c" "n \<noteq> []" "\<not> is_word (CHR ''('')"
    using assms by (auto simp: wf_modifier_def m is_word_def is_alpha_def is_upper_def is_lower_def is_digit_def)
  have tw: "takeWhile is_word (n @ CHR ''('' # r) = n" "dropWhile is_word (n @ CHR ''('' # r) = CHR ''('' # r" for r
    using w by (auto simp: takeWhile_append2 dropWhile_append2)
  show ?thesis
  proof (cases oa)
    case None
    have dw: "dropWhile is_word n = []"
      using w by (simp add: dropWhile_eq_Nil_conv)
    have "match_call n = None"
      by (simp add: match_call_def dw)
    with None strip_mod_text[OF assms] show ?thesis
      by (simp add: parse_modifier_def m mod_text_def)
  next
    case (Some a)
    have "a \<noteq> []" "newline \<notin> set a"
      using assms by (auto simp: wf_modifier_def m Some)
    with Some strip_mod_text[OF assms] w tw show ?thesis
      by (cases a) (auto simp: parse_modifier_def match_call_def m mod_text_def Let_def)
  qed
qed

lemma parse_var_text:
  "wf_path p \<Longrightarrow> \<forall>m \<in> set ms. wf_modifier m \<Longrightarrow> parse_variable (var_text p ms) = Inr (p, ms)"
  by (simp add: parse_variable_def smart_split_var_text strip_path map_idI parse_mod_text)

section \<open>Reading one token back\<close>

lemma char_lower_brace: "char_lower c = CHR ''{'' \<longleftrightarrow> c = CHR ''{''"
proof -
  have "c = CHR ''{''" if "is_upper c" "char_of (code c + 32) = CHR ''{''"
  proof -
    have "code (char_of (code c + 32)) = 123"
      using that(2) by simp
    with that(1) show ?thesis
      by (simp add: code_char_of is_upper_def)
  qed
  moreover have "char_lower (CHR ''{'') = CHR ''{''"
    by code_simp
  ultimately show ?thesis
    by (auto simp: char_lower_def split: if_splits)
qed

lemma path_char_lower [simp]: "path_char (char_lower c) = path_char c"
  by (auto simp: path_char_def is_word_def is_alpha_def is_upper_def is_lower_def is_digit_def
      char_lower_def code_char_of)

lemma takeWhile_take: "takeWhile P (take n xs) = take n (takeWhile P xs)"
proof (induction xs arbitrary: n)
  case (Cons x xs)
  then show ?case by (cases n) auto
qed simp

lemma takeWhile_path_lower: "takeWhile path_char (py_lower s) = py_lower (takeWhile path_char s)"
  by (induction s) (auto simp: py_lower_def)

text \<open>A keyword that starts a path is part of the path.\<close>

lemma keyword_in_path:
  assumes "py_lower (take n (p @ d # y)) = lit" and "\<forall>c \<in> set p. path_char c" and "\<not> path_char d"
  shows "takeWhile path_char lit = py_lower (take n p)"
proof -
  have "takeWhile path_char (p @ d # y) = p"
    using assms(2,3) by (simp add: takeWhile_append2)
  then show ?thesis
    by (simp only: takeWhile_path_lower takeWhile_take assms(1)[symmetric])
qed

lemma match_condition_path:
  assumes "\<forall>c \<in> set p. path_char c" and "\<not> path_char d" and "\<not> py_isspace d" and "\<forall>c \<in> set lit. path_char c"
  shows "match_condition (CHR ''{'' # lit) (CHR ''{'' # p @ d # y) = None"
proof (cases "py_lower (take (length lit) (p @ d # y)) = lit")
  case True
  have "takeWhile path_char lit = lit"
    using assms(4) by (simp add: takeWhile_eq_all_conv)
  then have "py_lower (take (length lit) p) = lit"
    using keyword_in_path[OF True assms(1,2)] by simp
  then have "length lit \<le> length p"
    by (metis length_lower length_take min.absorb_iff2 min.commute)
  then have "drop (length lit) (p @ d # y) = drop (length lit) p @ d # y"
    by simp
  moreover have "takeWhile py_isspace (drop (length lit) p @ d # y) = []"
  proof (cases "drop (length lit) p")
    case (Cons a as)
    then have "a \<in> set p"
      by (metis in_set_dropD list.set_intros(1))
    with Cons assms(1) path_not_space show ?thesis by simp
  qed (use assms(3) in simp)
  ultimately show ?thesis
    by (simp add: match_condition_def match_literal_def)
next
  case False
  then show ?thesis
    by (auto simp: match_condition_def match_literal_def py_lower_def)
qed

lemma next_token_head: "c \<noteq> CHR ''{'' \<Longrightarrow> match_literal (CHR ''{'' # lit) (c # s) = None"
  using char_lower_brace[of c] by (simp add: match_literal_def py_lower_def)

lemma next_token_text:
  assumes "s \<noteq> []" and "CHR ''{'' \<notin> set s" and "rest = [] \<or> hd rest = CHR ''{''"
  shows "next_token (s @ rest) = Inr (TextToken s, rest)"
proof -
  obtain c cs where s: "s = c # cs" and c: "c \<noteq> CHR ''{''"
    using assms(1,2) by (cases s) auto
  let ?q = "\<lambda>c. c \<noteq> CHR ''{''"
  have all: "x \<in> set s \<Longrightarrow> ?q x" for x
    using assms(2) by auto
  have "takeWhile ?q rest = []" "dropWhile ?q rest = rest"
    using assms(3) by (cases rest; simp)+
  then have "takeWhile ?q (s @ rest) = s" "dropWhile ?q (s @ rest) = rest"
    by (simp_all only: takeWhile_append2[OF all] dropWhile_append2[OF all] append_Nil2)
  then show ?thesis
    using next_token_head[OF c] c
    by (simp add: s next_token_def match_if_def match_elif_def match_else_def match_endif_def match_condition_def)
qed

lemma next_token_condition:
  assumes "wf_condition c"
  shows "next_token (''{if '' @ c @ ''}'' @ rest) = Inr (IfToken c, rest)"
    and "next_token (''{elif '' @ c @ ''}'' @ rest) = Inr (ElifToken c, rest)"
proof -
  obtain a as where c: "c = a # as"
    using assms by (cases c) (auto simp: wf_condition_def)
  have a: "\<not> py_isspace a"
  proof
    assume "py_isspace a"
    then have "length (py_strip c) \<le> length as"
      using length_dropWhile_le[of py_isspace as]
      by (simp add: c py_strip_def strip_if_def)
         (metis length_dropWhile_le length_rev order_trans)
    with assms show False
      by (simp add: wf_condition_def c)
  qed
  have lazy: "lazy_to_brace b (xs @ CHR ''}'' # rest) = Some (xs, rest)"
    if "CHR ''}'' \<notin> set xs" "newline \<notin> set xs" "xs \<noteq> [] \<or> b" for b xs
    using that by (induction b xs rule: lazy_to_brace.induct) auto
  have sp: "spaces_then_group (length (takeWhile py_isspace ('' '' @ c @ CHR ''}'' # rest)))
      ('' '' @ c @ CHR ''}'' # rest) = Some (c, rest)"
  proof -
    have "py_isspace (CHR '' '')" by code_simp
    moreover have "lazy_to_brace False (c @ CHR ''}'' # rest) = Some (c, rest)"
      using lazy[of c False] assms by (simp add: wf_condition_def)
    ultimately show ?thesis
      using a by (simp add: c)
  qed
  have strip: "py_strip c = c"
    using assms by (simp add: wf_condition_def)
  have "match_if (''{if '' @ c @ ''}'' @ rest) = Some (c, rest)"
    using sp by (simp add: match_if_def match_condition_def match_literal_def py_lower_def char_lower_def is_upper_def)
  then show "next_token (''{if '' @ c @ ''}'' @ rest) = Inr (IfToken c, rest)"
    by (simp add: next_token_def strip)
  have "match_if (''{elif '' @ c @ ''}'' @ rest) = None"
    by (simp add: match_if_def match_condition_def match_literal_def py_lower_def char_lower_def is_upper_def)
  moreover have "match_elif (''{elif '' @ c @ ''}'' @ rest) = Some (c, rest)"
    using sp by (simp add: match_elif_def match_condition_def match_literal_def py_lower_def char_lower_def is_upper_def)
  ultimately show "next_token (''{elif '' @ c @ ''}'' @ rest) = Inr (ElifToken c, rest)"
    by (simp add: next_token_def strip)
qed

lemma next_token_marks:
  "next_token (''{else}'' @ rest) = Inr (ElseToken, rest)"
  "next_token (''{/if}'' @ rest) = Inr (EndIfToken, rest)"
  by (simp_all add: next_token_def match_if_def match_elif_def match_else_def match_endif_def
      match_condition_def match_literal_def py_lower_def char_lower_def is_upper_def)

lemma mod_text_no_brace: "wf_modifier m \<Longrightarrow> CHR ''}'' \<notin> set (mod_text m)"
proof -
  assume m: "wf_modifier m"
  have "\<not> is_word (CHR ''}'')" by code_simp
  with m show ?thesis
    by (cases m; cases "snd m") (auto simp: wf_modifier_def mod_text_def)
qed

lemma mods_text_no_brace: "\<forall>m \<in> set ms. wf_modifier m \<Longrightarrow> CHR ''}'' \<notin> set (mods_text ms)"
  by (induction ms) (simp_all add: mod_text_no_brace)

lemma match_variable_var_text:
  assumes "wf_path p" and "\<forall>m \<in> set ms. wf_modifier m"
  shows "match_variable (''{'' @ var_text p ms @ ''}'' @ rest) = Some (var_text p ms, rest)"
proof -
  obtain c cs where p: "p = c # cs"
    using assms(1) by (cases p) (auto simp: wf_path_def)
  have cs: "x \<in> set cs \<Longrightarrow> path_char x" for x
    using assms(1) by (auto simp: wf_path_def p)
  have nb: "\<not> path_char (CHR ''}'')" "\<not> path_char (CHR ''|'')"
    by code_simp+
  note path = takeWhile_append2[OF cs] dropWhile_append2[OF cs]
  have c: "is_alpha c \<or> c = CHR ''_''"
    using assms(1) by (auto simp: wf_path_def p)
  show ?thesis
  proof (cases ms)
    case Nil
    with nb c show ?thesis
      by (simp add: match_variable_def var_text_def p path)
  next
    case (Cons m ms')
    let ?t = "mod_text m @ mods_text ms'"
    have "CHR ''}'' \<notin> set ?t"
      using mods_text_no_brace[OF assms(2)] by (simp add: Cons)
    then have "takeWhile (\<lambda>x. x \<noteq> CHR ''}'') (?t @ CHR ''}'' # rest) = ?t"
      "dropWhile (\<lambda>x. x \<noteq> CHR ''}'') (?t @ CHR ''}'' # rest) = CHR ''}'' # rest"
      by (subst takeWhile_append2 dropWhile_append2, blast, simp)+
    moreover have "mod_text m \<noteq> []"
      using assms(2) mod_text_nonempty[of m] by (simp add: Cons)
    ultimately show ?thesis
      using nb c by (simp add: match_variable_def var_text_def p path Cons)
  qed
qed

lemma next_token_variable:
  assumes "wf_path p" and "\<forall>m \<in> set ms. wf_modifier m"
  shows "next_token (''{'' @ var_text p ms @ ''}'' @ rest) = Inr (VariableToken p ms, rest)"
proof -
  obtain d y where y: "var_text p ms @ ''}'' @ rest = p @ d # y" and d: "d = CHR ''}'' \<or> d = CHR ''|''"
    by (cases ms) (auto simp: var_text_def)
  have d': "\<not> path_char d" "\<not> py_isspace d"
    using d by (elim disjE; simp; code_simp)+
  have ps: "\<forall>c \<in> set p. path_char c"
    using assms(1) by (auto simp: wf_path_def)
  have "match_condition (CHR ''{'' # lit) (CHR ''{'' # p @ d # y) = None" if "\<forall>c \<in> set lit. path_char c" for lit
    using match_condition_path[OF ps d'] that by blast
  moreover have "\<forall>c \<in> set ''if''. path_char c" "\<forall>c \<in> set ''elif''. path_char c"
    by code_simp+
  ultimately have "match_if (''{'' @ p @ d # y) = None" "match_elif (''{'' @ p @ d # y) = None"
    by (simp_all add: match_if_def match_elif_def)
  moreover have "match_else (''{'' @ p @ d # y) = None"
  proof (rule ccontr)
    assume "match_else (''{'' @ p @ d # y) \<noteq> None"
    then have e: "py_lower (take 5 (p @ d # y)) = ''else}''"
      by (auto simp: match_else_def match_literal_def py_lower_def numeral_eq_Suc split: if_splits)
    have "takeWhile path_char ''else}'' = ''else''"
      by code_simp
    then have l: "py_lower (take 5 p) = ''else''"
      using keyword_in_path[OF e ps d'(1)] by simp
    have len: "length p = 4"
      using arg_cong[OF l, of length] by (simp add: min_def split: if_splits)
    then have "take 5 p = p" by simp
    with l assms(1) show False by (simp add: wf_path_def)
  qed
  moreover have "match_endif (''{'' @ p @ d # y) = None"
  proof -
    obtain c cs where "p = c # cs" and "path_char c"
      using assms(1) by (cases p) (auto simp: wf_path_def)
    moreover have "\<not> path_char (CHR ''/'')" by code_simp
    ultimately have "char_lower c \<noteq> CHR ''/''"
      by (metis path_char_lower)
    with \<open>p = c # cs\<close> show ?thesis
      by (simp add: match_endif_def match_literal_def py_lower_def)
  qed
  ultimately show ?thesis
    using match_variable_var_text[OF assms, of rest] parse_var_text[OF assms]
    by (simp add: next_token_def y[simplified])
qed

section \<open>Compiling what was printed\<close>

lemma next_token_print:
  assumes "wf_token t" and "is_text t \<Longrightarrow> rest = [] \<or> hd rest = CHR ''{''"
  shows "next_token (token_text t @ rest) = Inr (t, rest)"
  using assms next_token_text next_token_condition next_token_marks next_token_variable
  by (cases t) (simp_all add: is_text_def)

lemma token_text_nonempty: "wf_token t \<Longrightarrow> token_text t \<noteq> []"
  by (cases t) auto

lemma token_text_brace: "\<not> is_text t \<Longrightarrow> hd (token_text t @ r) = CHR ''{''"
  by (cases t) (auto simp: is_text_def)

lemma tokenize_print: "wf_tokens ts \<Longrightarrow> tokenize (print_tokens ts) = Inr ts"
proof (induction ts rule: wf_tokens.induct)
  case 1
  then show ?case by (simp add: print_tokens_def tokenize.simps)
next
  case (2 t)
  then show ?case
    using next_token_print[of t "[]"] token_text_nonempty[of t]
    by (simp add: print_tokens_def tokenize.simps[of "token_text t"] tokenize.simps[of "[]"])
next
  case (3 t u ts)
  have "next_token (token_text t @ print_tokens (u # ts)) = Inr (t, print_tokens (u # ts))"
    using 3 token_text_brace[of u] by (intro next_token_print) (auto simp: print_tokens_def)
  with 3 token_text_nonempty[of t] show ?case
    by (simp add: print_tokens_def tokenize.simps[of "token_text t @ _"])
qed



end
