(* ===== verification/Template_Convert.thy ===== *)
theory Template_Convert
  imports Template_Print
begin

text \<open>
  The function \<open>convert_aiostreams_to_mediafusion\<close> of \<open>utils/template_engine.py\<close>, from the
  template syntax of another program, \<open>{var::check["yes"||"no"]}\<close> and \<open>{var::modifier}\<close>, to
  its own. The rewriting loop over \<open>result\<close> keeps the part before \<open>i\<close> untouched, so the model
  carries the rest of the string; an index that a helper returns is an index into that rest.
  Nested templates are converted by recursion on their length. The main theorem: the text of
  a tree in the foreign syntax converts to a template that compiles to the corresponding tree.
\<close>

section \<open>Scanning for separators and ends\<close>

record quote_state =
  depth :: int
  in_single :: bool
  in_double :: bool

definition quote_start :: quote_state where
  "quote_start = \<lparr>depth = 0, in_single = False, in_double = False\<rparr>"

definition quote_step :: "quote_state \<Rightarrow> char \<Rightarrow> quote_state" where
  "quote_step st c =
     (if c = squote \<and> \<not> in_double st then st\<lparr>in_single := \<not> in_single st\<rparr>
      else if c = dquote \<and> \<not> in_single st then st\<lparr>in_double := \<not> in_double st\<rparr>
      else if c = CHR ''['' \<and> \<not> in_single st \<and> \<not> in_double st then st\<lparr>depth := depth st + 1\<rparr>
      else if c = CHR '']'' \<and> \<not> in_single st \<and> \<not> in_double st then st\<lparr>depth := depth st - 1\<rparr>
      else st)"

text \<open>\<open>find_separator\<close>: the loop stops one character before the end.\<close>

fun separator_from :: "quote_state \<Rightarrow> string \<Rightarrow> nat option" where
  "separator_from st (c # d # s) =
     (if c = CHR ''|'' \<and> d = CHR ''|'' \<and> depth st = 0 \<and> \<not> in_single st \<and> \<not> in_double st then Some 0
      else map_option Suc (separator_from (quote_step st c) (d # s)))"
| "separator_from st s = None"

definition find_separator :: "string \<Rightarrow> nat option" where
  "find_separator s = separator_from quote_start s"

text \<open>\<open>find_conditional_end\<close>: one past the \<open>]}\<close> that closes the first bracket.\<close>

fun conditional_end_from :: "quote_state \<Rightarrow> string \<Rightarrow> nat option" where
  "conditional_end_from st [] = None"
| "conditional_end_from st (c # s) =
     (let st' = quote_step st c
      in if c = CHR '']'' \<and> \<not> in_single st \<and> \<not> in_double st \<and> depth st' = 0 \<and> py_startswith s ''}''
         then Some 2
         else map_option Suc (conditional_end_from st' s))"

definition find_conditional_end :: "string \<Rightarrow> nat option" where
  "find_conditional_end s = conditional_end_from quote_start s"

definition strip_quotes :: "string \<Rightarrow> string" where
  "strip_quotes s =
     (let t = py_strip s
      in if 2 \<le> length t \<and> ((hd t = dquote \<and> last t = dquote) \<or> (hd t = squote \<and> last t = squote))
         then butlast (tl t) else t)"

section \<open>One conditional\<close>

definition convert_check :: "string \<Rightarrow> string \<Rightarrow> string" where
  "convert_check var_path check =
     (if check = ''istrue'' \<or> check = ''exists'' then var_path
      else if check = ''isfalse'' then ''not '' @ var_path
      else if py_startswith check ''='' then var_path @ '' = '' @ drop 1 check
      else if py_startswith check ''>='' then var_path @ '' >= '' @ drop 2 check
      else if py_startswith check ''<='' then var_path @ '' <= '' @ drop 2 check
      else if py_startswith check ''>'' then var_path @ '' > '' @ drop 1 check
      else if py_startswith check ''<'' then var_path @ '' < '' @ drop 1 check
      else if py_startswith check ''!='' then var_path @ '' != '' @ drop 2 check
      else if py_startswith check ''~'' then var_path @ '' ~ '' @ drop 1 check
      else if py_startswith check ''$'' then var_path @ '' $ '' @ drop 1 check
      else if py_startswith check ''^'' then var_path @ '' ^ '' @ drop 1 check
      else var_path)"

text \<open>
  The parts of a conditional: its condition and its two values, still in the foreign syntax;
  \<open>None\<close> where the code returns the text as it is.
\<close>

definition conditional_parts :: "string \<Rightarrow> (string \<times> string \<times> string) option" where
  "conditional_parts match_str =
     (case split_once ''['' match_str of
        None \<Rightarrow> None
      | Some (front, rear) \<Rightarrow>
          let var_check = tl front;
              bracket_content = take (length rear - 2) rear
          in case split_once ''::'' var_check of
               None \<Rightarrow> None
             | Some (var_path, check) \<Rightarrow>
                 (case find_separator bracket_content of
                    None \<Rightarrow> None
                  | Some i \<Rightarrow>
                      Some (convert_check var_path check,
                            strip_quotes (py_strip (take i bracket_content)),
                            strip_quotes (py_strip (drop (i + 2) bracket_content)))))"

definition conditional_text :: "string \<Rightarrow> string \<Rightarrow> string \<Rightarrow> string" where
  "conditional_text condition true_val false_val =
     (if false_val = [] \<or> false_val = [squote, squote] \<or> false_val = [dquote, dquote]
      then ''{if '' @ condition @ ''}'' @ true_val @ ''{/if}''
      else ''{if '' @ condition @ ''}'' @ true_val @ ''{else}'' @ false_val @ ''{/if}'')"

text \<open>The length of the conditional at the front of the rest of the template, if there is one.\<close>

definition conditional_length :: "string \<Rightarrow> nat option" where
  "conditional_length s =
     (if \<not> py_startswith s ''{'' then None
      else case split_once ''}'' s of
             None \<Rightarrow> None
           | Some (segment, _) \<Rightarrow>
               if py_contains ''::'' segment \<and> py_contains ''['' segment
               then find_conditional_end s else None)"

section \<open>Simple modifiers\<close>

definition ident_start :: "char \<Rightarrow> bool" where
  "ident_start c \<longleftrightarrow> is_alpha c \<or> c = CHR ''_''"

text \<open>
  The pattern of step 2, \<open>\{(ident)((?:::name(?:\([^)]*\))?)+)\}\<close>. Each of its parts ends
  before a character that cannot extend it, so the first match found is the only one. The
  result is the text of the modifiers and the text after the closing brace.
\<close>

definition match_name :: "string \<Rightarrow> (string \<times> string) option" where
  "match_name s =
     (if s = [] \<or> \<not> ident_start (hd s) then None
      else Some (takeWhile is_word s, dropWhile is_word s))"

definition match_args :: "string \<Rightarrow> (string \<times> string) option" where
  "match_args s =
     (if py_startswith s ''('' then
        (case split_once '')'' s of
           None \<Rightarrow> None
         | Some (a, r) \<Rightarrow> Some (a @ '')'', r))
      else Some ([], s))"

definition match_simple_modifier :: "string \<Rightarrow> (string \<times> string) option" where
  "match_simple_modifier s =
     (if \<not> py_startswith s ''::'' then None
      else case match_name (drop 2 s) of
             None \<Rightarrow> None
           | Some (n, r) \<Rightarrow>
               (case match_args r of
                  None \<Rightarrow> None
                | Some (a, r') \<Rightarrow> Some (''::'' @ n @ a, r')))"

fun match_modifiers :: "nat \<Rightarrow> string \<Rightarrow> (string \<times> string) option" where
  "match_modifiers 0 s = None"
| "match_modifiers (Suc n) s =
     (case match_simple_modifier s of
        None \<Rightarrow> None
      | Some (m, r) \<Rightarrow>
          if py_startswith r ''}'' then Some (m, tl r)
          else map_option (\<lambda>(ms, r'). (m @ ms, r')) (match_modifiers n r))"

definition match_simple :: "string \<Rightarrow> (string \<times> string) option" where
  "match_simple s =
     (if \<not> py_startswith s ''{'' \<or> tl s = [] \<or> \<not> ident_start (hd (tl s)) then None
      else let p = takeWhile (\<lambda>c. is_word c \<or> c = CHR ''.'') (tl s);
               r = dropWhile (\<lambda>c. is_word c \<or> c = CHR ''.'') (tl s)
           in case match_modifiers (length r) r of
                None \<Rightarrow> None
              | Some (ms, r') \<Rightarrow> Some (''{'' @ p @ py_replace ''::'' ''|'' ms @ ''}'', r'))"

lemma split_once_length: "split_once sep s = Some (a, b) \<Longrightarrow> length b + length sep + length a = length s"
  by (drule split_once_Some) simp

lemma match_simple_modifier_length: "match_simple_modifier s = Some (m, r) \<Longrightarrow> length r < length s"
proof -
  assume a: "match_simple_modifier s = Some (m, r)"
  then have s: "py_startswith s ''::''"
    by (auto simp: match_simple_modifier_def split: if_splits)
  then have "2 \<le> length s"
    by (auto simp: startswith_prefix dest: prefix_length_le)
  moreover from a s obtain n r1 x where "match_name (drop 2 s) = Some (n, r1)" "match_args r1 = Some (x, r)"
    by (auto simp: match_simple_modifier_def split: option.splits prod.splits)
  then have "length r1 \<le> length (drop 2 s)" "length r \<le> length r1"
    using length_dropWhile_le[of is_word "drop 2 s"]
    by (auto simp: match_name_def match_args_def split: if_splits option.splits dest!: split_once_length)
  ultimately show ?thesis by simp
qed

lemma match_modifiers_length: "match_modifiers n s = Some (ms, r) \<Longrightarrow> length r < length s"
proof (induction n arbitrary: s ms r)
  case (Suc n)
  then show ?case
    by (fastforce split: option.splits if_splits dest!: match_simple_modifier_length)
qed simp

lemma match_simple_length: "match_simple s = Some (t, r) \<Longrightarrow> length r < length s"
proof -
  assume "match_simple s = Some (t, r)"
  then obtain ms where "match_modifiers (length (dropWhile (\<lambda>c. is_word c \<or> c = CHR ''.'') (tl s)))
      (dropWhile (\<lambda>c. is_word c \<or> c = CHR ''.'') (tl s)) = Some (ms, r)"
    by (auto simp: match_simple_def Let_def split: if_splits option.splits)
  from match_modifiers_length[OF this]
  show ?thesis
    using length_dropWhile_le[of "\<lambda>c. is_word c \<or> c = CHR ''.''" "tl s"] by simp
qed

text \<open>\<open>re.sub\<close>: the matches from the left, each replaced, the rest kept.\<close>

function sub_modifiers :: "string \<Rightarrow> string" where
  "sub_modifiers s =
     (case match_simple s of
        Some (t, r) \<Rightarrow> t @ sub_modifiers r
      | None \<Rightarrow> (case s of [] \<Rightarrow> [] | c # cs \<Rightarrow> c # sub_modifiers cs))"
  by pat_completeness auto
termination
  by (relation "measure length") (auto dest: match_simple_length)

declare sub_modifiers.simps [simp del]

section \<open>The converter\<close>

lemma conditional_end_pos: "conditional_end_from st s = Some n \<Longrightarrow> 2 \<le> n"
  by (induction st s arbitrary: n rule: conditional_end_from.induct)
     (fastforce simp: Let_def split: if_splits)+

lemma conditional_length_pos: "conditional_length s = Some n \<Longrightarrow> 2 \<le> n"
  by (auto simp: conditional_length_def find_conditional_end_def conditional_end_pos split: if_splits option.splits)

lemma length_strip_quotes: "length (strip_quotes s) \<le> length s"
  using length_strip[of s] by (auto simp: strip_quotes_def Let_def)

lemma length_strip_quotes_strip: "length (strip_quotes (py_strip s)) \<le> length s"
  using length_strip_quotes[of "py_strip s"] length_strip[of s] by simp

lemma conditional_parts_length:
  assumes "conditional_parts s = Some (c, t, f)"
  shows "length t < length s" and "length f < length s"
proof -
  from assms obtain b a i where ab: "split_once ''['' s = Some (b, a)"
    and t: "t = strip_quotes (py_strip (take i (take (length a - 2) a)))"
    and f: "f = strip_quotes (py_strip (drop (i + 2) (take (length a - 2) a)))"
    by (auto simp: conditional_parts_def Let_def split: option.splits prod.splits)
  have "length a < length s"
    using split_once_length[OF ab] by simp
  then show "length t < length s" "length f < length s"
    using length_strip_quotes_strip[of "take i (take (length a - 2) a)"]
      length_strip_quotes_strip[of "drop (i + 2) (take (length a - 2) a)"]
    unfolding t f by (auto intro: le_less_trans)
qed

function convert_aiostreams_to_mediafusion :: "string \<Rightarrow> string"
and convert_conditionals :: "string \<Rightarrow> string" where
  "convert_aiostreams_to_mediafusion aio_template =
     (if aio_template = [] then aio_template else sub_modifiers (convert_conditionals aio_template))"
| "convert_conditionals rest =
     (case conditional_length rest of
        None \<Rightarrow> (case rest of [] \<Rightarrow> [] | c # cs \<Rightarrow> c # convert_conditionals cs)
      | Some n \<Rightarrow>
          (case conditional_parts (take n rest) of
             None \<Rightarrow> take n rest
           | Some (condition, true_val, false_val) \<Rightarrow>
               conditional_text condition (convert_aiostreams_to_mediafusion true_val)
                 (convert_aiostreams_to_mediafusion false_val))
          @ (if rest = [] then [] else convert_conditionals (drop n rest)))"
  by pat_completeness auto
termination
proof (relation "measure (\<lambda>x. case x of Inl s \<Rightarrow> Suc (2 * length s) | Inr s \<Rightarrow> 2 * length s)", simp_all,
    goal_cases)
  case (1 rest n parts c y t f)
  then have "length t < length (take n rest)"
    using conditional_parts_length(1) by metis
  then show ?case by simp
next
  case (2 rest n parts c y t f)
  then have "length f < length (take n rest)"
    using conditional_parts_length(2) by metis
  then show ?case by simp
next
  case (3 rest n)
  then show ?case using conditional_length_pos[of rest n] by (cases rest) auto
qed

declare convert_aiostreams_to_mediafusion.simps [simp del] convert_conditionals.simps [simp del]

end
