(* ===== verification/Template_Convert_Correct.thy ===== *)
theory Template_Convert_Correct
  imports Template_Convert
begin

text \<open>
  The correctness of the converter of \<open>utils/template_engine.py\<close>. The foreign syntax is a tree
  with a printer; quotes and brackets balance in its text, so the scanners of the converter
  find the separator and the end of a conditional at any nesting depth.
\<close>

section \<open>The foreign syntax\<close>

datatype aio =
    AText string
  | AVar string "modifier list"
  | ACond string string "aio list" "aio list"

definition aio_mod_text :: "modifier \<Rightarrow> string" where
  "aio_mod_text m = ''::'' @ mod_text m"

fun aio_text :: "aio \<Rightarrow> string"
and aio_texts :: "aio list \<Rightarrow> string" where
  "aio_text (AText s) = s"
| "aio_text (AVar p ms) = ''{'' @ p @ concat (map aio_mod_text ms) @ ''}''"
| "aio_text (ACond p check tb fb) =
     ''{'' @ p @ ''::'' @ check @ ''['' @ [dquote] @ aio_texts tb @ [dquote] @ ''||'' @ [dquote] @
     aio_texts fb @ [dquote] @ '']}''"
| "aio_texts [] = []"
| "aio_texts (x # xs) = aio_text x @ aio_texts xs"

text \<open>The tree the converted template stands for.\<close>

fun to_node :: "aio \<Rightarrow> node"
and to_nodes :: "aio list \<Rightarrow> node list" where
  "to_node (AText s) = TextNode s"
| "to_node (AVar p ms) = VariableNode p ms"
| "to_node (ACond p check tb fb) = IfNode (convert_check p check) (to_nodes tb) [] (to_nodes fb)"
| "to_nodes [] = []"
| "to_nodes (x # xs) = to_node x # to_nodes xs"

definition unmarked :: "string \<Rightarrow> bool" where
  "unmarked s \<longleftrightarrow> (\<forall>c \<in> set s. c \<notin> {squote, dquote, CHR ''['', CHR '']'', CHR ''{'', CHR ''}'', CHR ''|''})"

definition wf_aio_modifier :: "modifier \<Rightarrow> bool" where
  "wf_aio_modifier m \<longleftrightarrow> fst m \<noteq> [] \<and> ident_start (hd (fst m)) \<and> (\<forall>c \<in> set (fst m). is_word c) \<and>
     (case snd m of None \<Rightarrow> True
      | Some a \<Rightarrow> unmarked a \<and> CHR '')'' \<notin> set a \<and> CHR '':'' \<notin> set a)"

fun wf_aio :: "aio \<Rightarrow> bool"
and wf_aios :: "aio list \<Rightarrow> bool" where
  "wf_aio (AText s) = (s \<noteq> [] \<and> unmarked s)"
| "wf_aio (AVar p ms) = (p \<noteq> [] \<and> ident_start (hd p) \<and> (\<forall>c \<in> set p. is_word c \<or> c = CHR ''.'') \<and>
     (\<forall>m \<in> set ms. wf_aio_modifier m))"
| "wf_aio (ACond p check tb fb) =
     (unmarked p \<and> CHR '':'' \<notin> set p \<and> unmarked check \<and> wf_aios tb \<and> wf_aios fb)"
| "wf_aios [] = True"
| "wf_aios (x # xs) = (wf_aio x \<and> wf_aios xs)"

section \<open>Quotes and brackets balance\<close>

definition qs :: "int \<Rightarrow> bool \<Rightarrow> quote_state" where
  "qs d b = \<lparr>depth = d, in_single = False, in_double = b\<rparr>"

lemma qs_sel [simp]: "depth (qs d b) = d" "in_single (qs d b) = False" "in_double (qs d b) = b"
  by (simp_all add: qs_def)

lemma quote_step_qs:
  "quote_step (qs d b) dquote = qs d (\<not> b)"
  "quote_step (qs d b) (CHR ''['') = qs (if b then d else d + 1) b"
  "quote_step (qs d b) (CHR '']'') = qs (if b then d else d - 1) b"
  "quote_step (qs d b) (CHR ''|'') = qs d b"
  "quote_step (qs d b) (CHR ''}'') = qs d b"
  by (simp_all add: quote_step_def qs_def squote_def dquote_def)

lemma quote_step_plain:
  "c \<notin> {squote, dquote, CHR ''['', CHR '']''} \<Longrightarrow> quote_step (qs d b) c = qs d b"
  by (simp add: quote_step_def)

definition scan :: "quote_state \<Rightarrow> string \<Rightarrow> quote_state" where
  "scan st s = foldl quote_step st s"

lemma scan_simps [simp]: "scan st [] = st" "scan st (c # s) = scan (quote_step st c) s"
  "scan st (a @ b) = scan (scan st a) b"
  by (simp_all add: scan_def)

fun sep_free :: "quote_state \<Rightarrow> string \<Rightarrow> bool" where
  "sep_free st [] = True"
| "sep_free st (c # s) =
     (\<not> (c = CHR ''|'' \<and> depth st = 0 \<and> \<not> in_single st \<and> \<not> in_double st) \<and> sep_free (quote_step st c) s)"

fun end_free :: "quote_state \<Rightarrow> string \<Rightarrow> bool" where
  "end_free st [] = True"
| "end_free st (c # s) =
     (\<not> (c = CHR '']'' \<and> \<not> in_single st \<and> \<not> in_double st \<and> depth (quote_step st c) = 0) \<and>
      end_free (quote_step st c) s)"

lemma sep_free_append [simp]: "sep_free st (a @ b) \<longleftrightarrow> sep_free st a \<and> sep_free (scan st a) b"
  by (induction a arbitrary: st) auto

lemma end_free_append [simp]: "end_free st (a @ b) \<longleftrightarrow> end_free st a \<and> end_free (scan st a) b"
  by (induction a arbitrary: st) auto

lemma map_option_shift:
  "map_option ((+) (0::nat)) x = x"
  "map_option Suc (map_option ((+) n) x) = map_option ((+) (Suc n)) x"
  by (cases x; simp)+

lemma separator_from_append:
  "sep_free st a \<Longrightarrow> separator_from st (a @ b) = map_option ((+) (length a)) (separator_from (scan st a) b)"
proof (induction a arbitrary: st)
  case Nil
  show ?case by (simp add: option.map_ident)
next
  case (Cons c a)
  show ?case
  proof (cases "a @ b")
    case Nil
    then show ?thesis by simp
  next
    case (Cons d s)
    then have "separator_from st ((c # a) @ b) = map_option Suc (separator_from (quote_step st c) (a @ b))"
      using Cons.prems by auto
    then show ?thesis
      using Cons.IH[of "quote_step st c"] Cons.prems
      by (cases "separator_from (scan (quote_step st c) a) b") auto
  qed
qed

lemma conditional_end_from_append:
  "end_free st a \<Longrightarrow>
   conditional_end_from st (a @ b) = map_option ((+) (length a)) (conditional_end_from (scan st a) b)"
  by (induction a arbitrary: st) (auto simp: Let_def map_option_shift)

definition neutral :: "string \<Rightarrow> bool" where
  "neutral s \<longleftrightarrow> (\<forall>d b. 0 \<le> d \<longrightarrow> scan (qs d b) s = qs d b \<and> sep_free (qs d b) s \<and>
     (1 \<le> d \<longrightarrow> end_free (qs d b) s))"

lemma neutral_Nil [simp]: "neutral []"
  by (simp add: neutral_def)

lemma neutral_append: "neutral a \<Longrightarrow> neutral b \<Longrightarrow> neutral (a @ b)"
  by (simp add: neutral_def)

lemma neutral_plain: "\<forall>c \<in> set s. c \<notin> {squote, dquote, CHR ''['', CHR '']'', CHR ''|''} \<Longrightarrow> neutral s"
  by (induction s) (auto simp: neutral_def quote_step_plain)

lemma neutral_unmarked: "unmarked s \<Longrightarrow> neutral s"
  by (rule neutral_plain) (auto simp: unmarked_def)

lemma neutral_conditional:
  assumes "neutral a" and "neutral t" and "neutral f"
  shows "neutral (a @ ''['' @ [dquote] @ t @ [dquote] @ ''||'' @ [dquote] @ f @ [dquote] @ '']}'')"
proof -
  have q: "dquote \<noteq> CHR ''|''" "dquote \<noteq> CHR '']''" "CHR '']'' \<noteq> CHR ''|''"
    by (simp_all add: dquote_def)
  show ?thesis
    using assms by (auto simp: neutral_def quote_step_qs q)
qed


lemma word_not_special:
  assumes "is_word c \<or> c = CHR ''.''"
  shows "c \<notin> {squote, dquote, CHR ''['', CHR '']'', CHR ''{'', CHR ''}'', CHR ''|'', CHR '':'', CHR ''('', CHR '')''}"
proof -
  have "\<forall>x \<in> {squote, dquote, CHR ''['', CHR '']'', CHR ''{'', CHR ''}'', CHR ''|'', CHR '':'', CHR ''('', CHR '')''}.
      \<not> is_word x \<and> x \<noteq> CHR ''.''"
    by code_simp
  with assms show ?thesis by blast
qed

lemma neutral_word: "\<forall>c \<in> set s. is_word c \<or> c = CHR ''.'' \<Longrightarrow> neutral s"
  using word_not_special by (intro neutral_plain) fast

lemma neutral_modifier: "wf_aio_modifier m \<Longrightarrow> neutral (aio_mod_text m)"
proof -
  assume wf: "wf_aio_modifier m"
  obtain n arg where m: "m = (n, arg)" by (cases m)
  have n: "neutral n"
    using wf by (intro neutral_word) (auto simp: wf_aio_modifier_def m)
  have c: "neutral ''::''" "neutral ''(''" "neutral '')''"
    by (rule neutral_plain; simp add: squote_def dquote_def)+
  show ?thesis
  proof (cases arg)
    case None
    then show ?thesis using neutral_append[OF c(1) n] by (simp add: aio_mod_text_def mod_text_def m)
  next
    case (Some a)
    then have "neutral a"
      using wf by (auto simp: wf_aio_modifier_def m intro: neutral_unmarked)
    then show ?thesis
      using neutral_append[OF c(1) neutral_append[OF n neutral_append[OF c(2) neutral_append[OF _ c(3)]]]] Some
      by (simp add: aio_mod_text_def mod_text_def m)
  qed
qed

lemma neutral_concat: "(\<And>x. x \<in> set xs \<Longrightarrow> neutral (f x)) \<Longrightarrow> neutral (concat (map f xs))"
  by (induction xs) (auto intro: neutral_append)

lemma neutral_braces: "neutral ''{''" "neutral ''}''" "neutral ''::''"
  by (rule neutral_plain; simp add: squote_def dquote_def)+

lemma neutral_aio:
  "wf_aio x \<Longrightarrow> neutral (aio_text x)"
  "wf_aios xs \<Longrightarrow> neutral (aio_texts xs)"
proof (induction x and xs rule: aio_text_aio_texts.induct)
  case (2 p ms)
  then have "neutral p" "neutral (concat (map aio_mod_text ms))"
    by (auto intro: neutral_word neutral_concat neutral_modifier)
  then show ?case
    using neutral_append[OF neutral_braces(1) neutral_append[OF _ neutral_append[OF _ neutral_braces(2)]]]
    by simp
next
  case (3 p check tb fb)
  then have "neutral p" "neutral check" "neutral (aio_texts tb)" "neutral (aio_texts fb)"
    by (auto intro: neutral_unmarked)
  then show ?case
    using neutral_conditional[OF neutral_append[OF neutral_braces(1)
        neutral_append[OF _ neutral_append[OF neutral_braces(3)]]]] by simp
qed (auto intro: neutral_append neutral_unmarked)

section \<open>One conditional is found and split\<close>

abbreviation body_text :: "string \<Rightarrow> string \<Rightarrow> string" where
  "body_text t f \<equiv> dquote # t @ dquote # ''||'' @ dquote # f @ [dquote]"

lemma neutralD:
  "neutral s \<Longrightarrow> 0 \<le> d \<Longrightarrow> scan (qs d b) s = qs d b"
  "neutral s \<Longrightarrow> 0 \<le> d \<Longrightarrow> sep_free (qs d b) s"
  "neutral s \<Longrightarrow> 1 \<le> d \<Longrightarrow> end_free (qs d b) s"
  by (auto simp: neutral_def)

lemma quotes_distinct:
  "dquote \<noteq> CHR ''|''" "dquote \<noteq> CHR '']''" "dquote \<noteq> CHR ''[''" "dquote \<noteq> CHR ''}''" "dquote \<noteq> CHR ''{''"
  "dquote \<noteq> squote" "squote \<noteq> dquote" "\<not> py_isspace dquote"
  by (simp_all add: dquote_def squote_def py_isspace_def)

lemma find_separator_body:
  assumes "neutral t"
  shows "find_separator (body_text t f) = Some (length t + 2)"
proof -
  let ?a = "dquote # t @ [dquote]" and ?b = "''||'' @ dquote # f @ [dquote]"
  have "sep_free (qs 0 False) ?a" and s: "scan (qs 0 False) ?a = qs 0 False"
    using neutralD[OF assms] by (auto simp: quote_step_qs quotes_distinct)
  from separator_from_append[OF this(1), of ?b]
  have "separator_from (qs 0 False) (?a @ ?b) = Some (length ?a)"
    unfolding s by simp
  then show ?thesis
    by (simp add: find_separator_def quote_start_def qs_def)
qed

lemma find_conditional_end_text:
  assumes "\<forall>c \<in> set pre. c \<notin> {squote, dquote, CHR ''['', CHR '']'', CHR ''|''}" "neutral t" "neutral f"
  shows "find_conditional_end (pre @ ''['' @ body_text t f @ '']}'' @ r) =
     Some (length (pre @ ''['' @ body_text t f @ '']}''))"
proof -
  let ?a = "pre @ ''['' @ body_text t f"
  have p: "scan (qs 0 False) pre = qs 0 False" "end_free (qs 0 False) pre"
    using assms(1) by (induction pre) (auto simp: quote_step_plain)
  have "end_free (qs 0 False) ?a" and s: "scan (qs 0 False) ?a = qs 1 False"
    using neutralD[OF assms(2)] neutralD[OF assms(3)] p
    by (auto simp: quote_step_qs quotes_distinct)
  from conditional_end_from_append[OF this(1), of "'']}'' @ r"]
  have "conditional_end_from (qs 0 False) (?a @ '']}'' @ r) = Some (length ?a + 2)"
    unfolding s by (simp add: quote_step_qs Let_def py_startswith_def)
  then show ?thesis
    by (simp add: find_conditional_end_def quote_start_def qs_def)
qed

lemma split_once_first:
  "x \<notin> set a \<Longrightarrow> split_once (x # y) (a @ x # y @ b) = Some (a, b)"
  by (induction a) (auto simp: py_startswith_def)

lemma strip_quoted: "py_strip (dquote # s @ [dquote]) = dquote # s @ [dquote]"
  by (simp add: py_strip_def strip_if_def quotes_distinct)

lemma strip_quotes_quoted: "strip_quotes (dquote # s @ [dquote]) = s"
  by (simp add: strip_quotes_def strip_quoted)

lemma conditional_parts_text:
  assumes "unmarked p" "CHR '':'' \<notin> set p" "unmarked check" "neutral t" "neutral f"
  shows "conditional_parts (''{'' @ p @ ''::'' @ check @ ''['' @ body_text t f @ '']}'') =
     Some (convert_check p check, t, f)"
proof -
  define B where "B = body_text t f"
  have "CHR ''['' \<notin> set (''{'' @ p @ ''::'' @ check)"
    using assms by (auto simp: unmarked_def)
  from split_once_first[OF this, of "[]" "B @ '']}''"]
  have a: "split_once ''['' (''{'' @ p @ ''::'' @ check @ ''['' @ B @ '']}'') =
      Some (''{'' @ p @ ''::'' @ check, B @ '']}'')"
    by (simp only: append_assoc append_Cons append_Nil)
  from split_once_first[OF assms(2), of "'':''" check]
  have b: "split_once ''::'' (p @ ''::'' @ check) = Some (p, check)"
    by simp
  have i: "take (length t + 2) B = dquote # t @ [dquote]" "drop (length t + 2 + 2) B = dquote # f @ [dquote]"
    "find_separator B = Some (length t + 2)"
    using find_separator_body[OF assms(4), of f] by (simp_all add: B_def)
  have "conditional_parts (''{'' @ p @ ''::'' @ check @ ''['' @ B @ '']}'') = Some (convert_check p check, t, f)"
    unfolding conditional_parts_def a using b i by (simp add: strip_quoted strip_quotes_quoted)
  then show ?thesis by (simp only: B_def)
qed

section \<open>The loop over the conditionals\<close>

lemma convert_conditionals_Nil [simp]: "convert_conditionals [] = []"
  by (simp add: convert_conditionals.simps conditional_length_def py_startswith_def)

lemma convert_conditionals_plain:
  "CHR ''{'' \<notin> set s \<Longrightarrow> convert_conditionals (s @ r) = s @ convert_conditionals r"
proof (induction s)
  case (Cons c s)
  have "c \<noteq> CHR ''{''" using Cons.prems by auto
  then have "conditional_length ((c # s) @ r) = None"
    by (simp add: conditional_length_def py_startswith_def)
  moreover have "convert_conditionals (s @ r) = s @ convert_conditionals r"
    using Cons by simp
  ultimately show ?case by (simp add: convert_conditionals.simps[of "c # s @ r"])
qed simp

lemma contains_char: "py_contains [c] s \<longleftrightarrow> c \<in> set s"
  by (induction s) (auto simp: py_startswith_def)

lemma convert_conditionals_variable:
  assumes "\<forall>c \<in> set s. c \<notin> {CHR ''['', CHR ''{'', CHR ''}''}"
  shows "convert_conditionals (''{'' @ s @ ''}'' @ r) = ''{'' @ s @ ''}'' @ convert_conditionals r"
proof -
  have "CHR ''}'' \<notin> set (CHR ''{'' # s)" and nb: "CHR ''['' \<notin> set (''{'' @ s)" using assms by auto
  from split_once_first[OF this(1), of "[]" r]
  have "split_once ''}'' (''{'' @ s @ ''}'' @ r) = Some (''{'' @ s, r)"
    by (simp only: append_Cons append_Nil)
  then have "conditional_length (''{'' @ s @ ''}'' @ r) = None"
    using nb by (simp add: conditional_length_def contains_char)
  then have "convert_conditionals (''{'' @ s @ ''}'' @ r) = ''{'' @ convert_conditionals ((s @ ''}'') @ r)"
    by (simp add: convert_conditionals.simps[of "CHR ''{'' # _"])
  also have "\<dots> = ''{'' @ (s @ ''}'') @ convert_conditionals r"
    using assms by (subst convert_conditionals_plain) auto
  finally show ?thesis by simp
qed

lemma split_once_brace:
  "\<exists>x y. split_once ''}'' ((a @ CHR ''}'' # b)) = Some (x, y)"
  by (cases "split_once ''}'' (a @ CHR ''}'' # b)") (auto simp: split_once_None contains_char)

lemma split_once_brace_prefix:
  assumes "split_once ''}'' (a @ b) = Some (x, y)" and "CHR ''}'' \<notin> set a"
  shows "prefix a x"
  using assms by (induction a arbitrary: x) (auto simp: py_startswith_def split: if_splits)

lemma convert_conditionals_conditional:
  assumes "unmarked p" "CHR '':'' \<notin> set p" "unmarked check" "neutral t" "neutral f"
  shows "convert_conditionals (''{'' @ p @ ''::'' @ check @ ''['' @ body_text t f @ '']}'' @ r) =
     conditional_text (convert_check p check) (convert_aiostreams_to_mediafusion t)
       (convert_aiostreams_to_mediafusion f) @ convert_conditionals r"
proof -
  define whole where "whole = ''{'' @ p @ ''::'' @ check @ ''['' @ body_text t f @ '']}''"
  let ?pre = "''{'' @ p @ ''::'' @ check"
  have "\<forall>c \<in> set ?pre. c \<notin> {squote, dquote, CHR ''['', CHR '']'', CHR ''|''}"
    using assms by (auto simp: unmarked_def squote_def dquote_def)
  from find_conditional_end_text[OF this assms(4,5), of r]
  have e: "find_conditional_end (whole @ r) = Some (length whole)"
    by (simp add: whole_def)
  have st: "py_startswith (whole @ r) ''{''"
    by (simp add: whole_def py_startswith_def)
  obtain seg rest where seg: "split_once ''}'' (whole @ r) = Some (seg, rest)"
    using split_once_brace[of "''{'' @ p @ ''::'' @ check @ ''['' @ body_text t f @ '']''" r]
    by (auto simp: whole_def)
  have "CHR ''}'' \<notin> set (?pre @ ''['')"
    using assms by (auto simp: unmarked_def)
  then have "prefix (?pre @ ''['') seg"
    using seg by (intro split_once_brace_prefix[of _ "body_text t f @ '']}'' @ r" _ rest]) (simp_all add: whole_def)
  then have "sublist ''::'' seg" "CHR ''['' \<in> set seg"
    by (auto simp: prefix_def sublist_def) (metis append.assoc append_Cons append_Nil)
  then have "py_contains ''::'' seg" "py_contains ''['' seg"
    by (simp only: contains_sublist, simp only: contains_char)
  then have "conditional_length (whole @ r) = Some (length whole)"
    using seg e st by (simp add: conditional_length_def)
  moreover have "conditional_parts whole = Some (convert_check p check, t, f)"
    unfolding whole_def using conditional_parts_text[OF assms] .
  moreover have "whole \<noteq> []"
    by (simp add: whole_def)
  ultimately have "convert_conditionals (whole @ r) =
     conditional_text (convert_check p check) (convert_aiostreams_to_mediafusion t)
       (convert_aiostreams_to_mediafusion f) @ convert_conditionals r"
    by (simp add: convert_conditionals.simps[of "whole @ r"])
  then show ?thesis by (simp add: whole_def)
qed

section \<open>The simple modifiers\<close>

lemma replace_fuel_enough:
  "old \<noteq> [] \<Longrightarrow> length s \<le> n \<Longrightarrow> length s \<le> m \<Longrightarrow> replace_fuel n old new s = replace_fuel m old new s"
proof (induction n arbitrary: s m)
  case 0
  then show ?case by (cases m) auto
next
  case (Suc n)
  show ?case
  proof (cases s)
    case Nil
    then show ?thesis by (cases m) auto
  next
    case (Cons c cs)
    then obtain k where m: "m = Suc k" using Suc.prems by (cases m) auto
    have "length (drop (length old) s) \<le> length cs"
      using Suc.prems(1) Cons by (cases old) auto
    moreover have "length cs \<le> n" "length cs \<le> k"
      using Suc.prems Cons m by auto
    ultimately have "replace_fuel n old new (drop (length old) s) = replace_fuel k old new (drop (length old) s)"
      "replace_fuel n old new cs = replace_fuel k old new cs"
      using Suc.IH[of "drop (length old) s" k] Suc.IH[of cs k] Suc.prems(1) by linarith+
    then show ?thesis by (simp add: Cons m)
  qed
qed

lemma replace_colons_plain:
  "CHR '':'' \<notin> set s \<Longrightarrow> py_replace ''::'' new (s @ r) = s @ py_replace ''::'' new r"
proof (induction s)
  case (Cons c s)
  then have "py_replace ''::'' new ((c # s) @ r) = c # replace_fuel (length (s @ r)) ''::'' new (s @ r)"
    by (auto simp: py_replace_def py_startswith_def)
  with Cons show ?case by (simp add: py_replace_def)
qed simp

lemma replace_colons: "py_replace ''::'' new (''::'' @ r) = new @ py_replace ''::'' new r"
  using replace_fuel_enough[of "''::''" r "Suc (length r)" "length r" new]
  by (simp add: py_replace_def py_startswith_def)

lemma replace_colons_Nil: "py_replace ''::'' new [] = []"
  by (simp add: py_replace_def)

lemma mod_text_no_colon: "wf_aio_modifier m \<Longrightarrow> CHR '':'' \<notin> set (mod_text m)"
proof -
  assume wf: "wf_aio_modifier m"
  then have "CHR '':'' \<notin> set (fst m)"
    using word_not_special[of "CHR '':''"] by (auto simp: wf_aio_modifier_def)
  then show ?thesis
    using wf by (cases m; cases "snd m") (auto simp: wf_aio_modifier_def mod_text_def)
qed

lemma replace_modifiers:
  "\<forall>m \<in> set ms. wf_aio_modifier m \<Longrightarrow>
   py_replace ''::'' ''|'' (concat (map aio_mod_text ms)) = concat (map (\<lambda>m. CHR ''|'' # mod_text m) ms)"
proof (induction ms)
  case Nil
  then show ?case by (simp add: replace_colons_Nil)
next
  case (Cons m ms)
  have "CHR '':'' \<notin> set (mod_text m)"
    using Cons.prems by (intro mod_text_no_colon) simp
  then show ?case
    using Cons by (simp add: aio_mod_text_def replace_colons[simplified] replace_colons_plain)
qed

lemma match_name_word:
  assumes "n \<noteq> []" "ident_start (hd n)" "\<forall>c \<in> set n. is_word c" "r = [] \<or> \<not> is_word (hd r)"
  shows "match_name (n @ r) = Some (n, r)"
proof -
  have "takeWhile is_word (n @ r) = n" "dropWhile is_word (n @ r) = r"
    using assms(3,4) by (induction n; cases r; auto)+
  with assms(1,2) show ?thesis by (simp add: match_name_def)
qed

definition mods_tail :: "string \<Rightarrow> bool" where
  "mods_tail r \<longleftrightarrow> r \<noteq> [] \<and> hd r \<in> {CHR '':'', CHR ''}''}"

lemma match_simple_modifier_text:
  assumes "wf_aio_modifier m" and "mods_tail r"
  shows "match_simple_modifier (aio_mod_text m @ r) = Some (aio_mod_text m, r)"
proof -
  obtain n arg where m: "m = (n, arg)" by (cases m)
  have r: "\<not> is_word (hd r)" "\<not> py_startswith r ''(''" "r \<noteq> []"
    using assms(2) word_not_special[of "hd r"] by (cases r; auto simp: mods_tail_def py_startswith_def)+
  have n: "match_name (n @ s) = Some (n, s)" if "s = [] \<or> \<not> is_word (hd s)" for s
    using assms(1) that by (intro match_name_word) (auto simp: wf_aio_modifier_def m)
  show ?thesis
  proof (cases arg)
    case None
    then show ?thesis
      using n[of r] r by (simp add: match_simple_modifier_def aio_mod_text_def mod_text_def m match_args_def py_startswith_def)
  next
    case (Some a)
    have "CHR '')'' \<notin> set (CHR ''('' # a)"
      using assms(1) Some by (simp add: wf_aio_modifier_def m)
    from split_once_first[OF this, of "[]" r]
    have "match_args (''('' @ a @ '')'' @ r) = Some (''('' @ a @ '')'', r)"
      by (simp add: match_args_def py_startswith_def)
    moreover have "\<not> is_word (CHR ''('')" using word_not_special by blast
    ultimately show ?thesis
      using n[of "''('' @ a @ '')'' @ r"] Some
      by (simp add: match_simple_modifier_def aio_mod_text_def mod_text_def m py_startswith_def)
  qed
qed

lemma match_modifiers_text:
  "ms \<noteq> [] \<Longrightarrow> \<forall>m \<in> set ms. wf_aio_modifier m \<Longrightarrow> length ms \<le> n \<Longrightarrow>
   match_modifiers n (concat (map aio_mod_text ms) @ ''}'' @ r) = Some (concat (map aio_mod_text ms), r)"
proof (induction ms arbitrary: n)
  case (Cons m ms)
  then obtain k where k: "n = Suc k" by (cases n) auto
  let ?t = "concat (map aio_mod_text ms) @ ''}'' @ r"
  have "mods_tail ?t"
    by (cases ms) (auto simp: mods_tail_def aio_mod_text_def)
  then have m: "match_simple_modifier (aio_mod_text m @ ?t) = Some (aio_mod_text m, ?t)"
    using Cons.prems by (intro match_simple_modifier_text) auto
  show ?case
  proof (cases ms)
    case Nil
    then show ?thesis using m by (simp add: k py_startswith_def)
  next
    case (Cons x xs)
    then have "\<not> py_startswith ?t ''}''"
      by (simp add: aio_mod_text_def py_startswith_def)
    then show ?thesis
      using m Cons.IH[of k] Cons Cons.prems Cons by (simp add: k)
  qed
qed simp

lemma take_drop_path:
  assumes "\<forall>c \<in> set p. is_word c \<or> c = CHR ''.''" "r \<noteq> []" "\<not> is_word (hd r)" "hd r \<noteq> CHR ''.''"
  shows "takeWhile (\<lambda>c. is_word c \<or> c = CHR ''.'') (p @ r) = p"
    and "dropWhile (\<lambda>c. is_word c \<or> c = CHR ''.'') (p @ r) = r"
  using assms by (induction p; cases r; auto)+

lemma match_simple_variable:
  assumes "p \<noteq> []" "ident_start (hd p)" "\<forall>c \<in> set p. is_word c \<or> c = CHR ''.''"
    and "ms \<noteq> []" "\<forall>m \<in> set ms. wf_aio_modifier m"
  shows "match_simple (''{'' @ p @ concat (map aio_mod_text ms) @ ''}'' @ r) = Some (''{'' @ var_text p ms @ ''}'', r)"
proof -
  let ?r = "concat (map aio_mod_text ms) @ ''}'' @ r"
  have "\<not> is_word (hd ?r)" "hd ?r \<noteq> CHR ''.''"
    using assms(4) word_not_special[of "CHR '':''"] by (cases ms; auto simp: aio_mod_text_def)+
  note sp = take_drop_path[OF assms(3) _ this]
  have "length ms \<le> length ?r"
    by (induction ms) (auto simp: aio_mod_text_def)
  then have "match_modifiers (length ?r) ?r = Some (concat (map aio_mod_text ms), r)"
    using assms by (intro match_modifiers_text)
  moreover have "ident_start (hd (p @ ?r))" using assms by (cases p) auto
  ultimately show ?thesis
    using sp assms(1) replace_modifiers[OF assms(5)]
    by (simp add: match_simple_def py_startswith_def Let_def var_text_def)
qed

text \<open>A brace with a name that no modifier follows is left alone.\<close>

lemma match_simple_None:
  assumes "\<forall>c \<in> set p. is_word c \<or> c = CHR ''.''" "r \<noteq> []" "\<not> is_word (hd r)" "hd r \<notin> {CHR ''.'', CHR '':''}"
  shows "match_simple (''{'' @ p @ r) = None"
proof -
  have "match_simple_modifier r = None"
    using assms(2,4) by (cases r) (auto simp: match_simple_modifier_def py_startswith_def)
  then have "match_modifiers n r = None" for n
    by (cases n) auto
  then show ?thesis
    using take_drop_path[OF assms(1,2,3)] assms(4) by (simp add: match_simple_def Let_def)
qed

lemma sub_modifiers_plain: "CHR ''{'' \<notin> set s \<Longrightarrow> sub_modifiers (s @ r) = s @ sub_modifiers r"
proof (induction s)
  case (Cons c s)
  have "c \<noteq> CHR ''{''" using Cons.prems by auto
  then have "match_simple (c # s @ r) = None"
    by (simp add: match_simple_def py_startswith_def)
  with Cons show ?case by (simp add: sub_modifiers.simps[of "c # _"])
qed simp

lemma sub_modifiers_brace:
  assumes "match_simple (''{'' @ s @ r) = None" and "CHR ''{'' \<notin> set s"
  shows "sub_modifiers (''{'' @ s @ r) = ''{'' @ s @ sub_modifiers r"
proof -
  have "sub_modifiers (''{'' @ s @ r) = ''{'' @ sub_modifiers (s @ r)"
    using assms(1) by (simp add: sub_modifiers.simps[of "CHR ''{'' # _"])
  then show ?thesis using sub_modifiers_plain[OF assms(2)] by simp
qed

lemma sub_modifiers_Nil [simp]: "sub_modifiers [] = []"
  by (simp add: sub_modifiers.simps match_simple_def py_startswith_def)

definition sub_ok :: "token \<Rightarrow> bool" where
  "sub_ok t = (case t of
      TextToken s \<Rightarrow> CHR ''{'' \<notin> set s
    | VariableToken p ms \<Rightarrow> (\<forall>c \<in> set p. is_word c \<or> c = CHR ''.'') \<and> (\<forall>m \<in> set ms. wf_aio_modifier m)
    | IfToken c \<Rightarrow> CHR ''{'' \<notin> set c
    | ElifToken c \<Rightarrow> CHR ''{'' \<notin> set c
    | ElseToken \<Rightarrow> True
    | EndIfToken \<Rightarrow> True)"

lemma aio_mod_text_no_brace: "wf_aio_modifier m \<Longrightarrow> CHR ''{'' \<notin> set (mod_text m)"
proof -
  assume wf: "wf_aio_modifier m"
  then have "CHR ''{'' \<notin> set (fst m)"
    using word_not_special[of "CHR ''{''"] by (auto simp: wf_aio_modifier_def)
  then show ?thesis
    using wf by (cases m; cases "snd m") (auto simp: wf_aio_modifier_def mod_text_def unmarked_def)
qed

lemma var_text_no_brace:
  assumes "\<forall>c \<in> set p. is_word c \<or> c = CHR ''.''" "\<forall>m \<in> set ms. wf_aio_modifier m"
  shows "CHR ''{'' \<notin> set (var_text p ms)"
  using assms word_not_special[of "CHR ''{''"] aio_mod_text_no_brace by (auto simp: var_text_def)

lemma sub_modifiers_token: "sub_ok t \<Longrightarrow> sub_modifiers (token_text t @ r) = token_text t @ sub_modifiers r"
proof (cases t)
  case (VariableToken p ms)
  assume ok: "sub_ok t"
  define tl where "tl = concat (map (\<lambda>m. CHR ''|'' # mod_text m) ms) @ ''}'' @ r"
  have "hd tl = CHR ''|'' \<or> hd tl = CHR ''}''" "tl \<noteq> []"
    by (cases ms; simp add: tl_def)+
  then have "match_simple (''{'' @ p @ tl) = None"
    using ok word_not_special[of "hd tl"] by (intro match_simple_None) (auto simp: sub_ok_def VariableToken)
  then have "sub_modifiers (''{'' @ (var_text p ms @ ''}'') @ r) = ''{'' @ (var_text p ms @ ''}'') @ sub_modifiers r"
    using ok var_text_no_brace[of p ms]
    by (intro sub_modifiers_brace) (auto simp: tl_def var_text_def sub_ok_def VariableToken)
  then show ?thesis by (simp add: VariableToken)
next
  case (IfToken c)
  assume ok: "sub_ok t"
  have "match_simple (''{'' @ ''if'' @ '' '' @ c @ ''}'' @ r) = None"
    by (rule match_simple_None) (auto simp: is_word_def is_alpha_def is_upper_def is_lower_def is_digit_def)
  then show ?thesis
    using ok sub_modifiers_brace[of "''if '' @ c @ ''}''" r] by (simp add: IfToken sub_ok_def)
next
  case (ElifToken c)
  assume ok: "sub_ok t"
  have "match_simple (''{'' @ ''elif'' @ '' '' @ c @ ''}'' @ r) = None"
    by (rule match_simple_None) (auto simp: is_word_def is_alpha_def is_upper_def is_lower_def is_digit_def)
  then show ?thesis
    using ok sub_modifiers_brace[of "''elif '' @ c @ ''}''" r] by (simp add: ElifToken sub_ok_def)
next
  case ElseToken
  have "match_simple (''{'' @ ''else'' @ ''}'' @ r) = None"
    by (rule match_simple_None) (auto simp: is_word_def is_alpha_def is_upper_def is_lower_def is_digit_def)
  then show ?thesis
    using sub_modifiers_brace[of "''else}''" r] by (simp add: ElseToken)
next
  case EndIfToken
  have "match_simple (''{'' @ [] @ ''/if}'' @ r) = None"
    by (rule match_simple_None) (auto simp: is_word_def is_alpha_def is_upper_def is_lower_def is_digit_def)
  then show ?thesis
    using sub_modifiers_brace[of "''/if}''" r] by (simp add: EndIfToken)
qed (auto simp: sub_ok_def sub_modifiers_plain)

lemma sub_modifiers_tokens:
  "\<forall>t \<in> set ts. sub_ok t \<Longrightarrow> sub_modifiers (print_tokens ts @ r) = print_tokens ts @ sub_modifiers r"
  by (induction ts) (auto simp: print_tokens_def sub_modifiers_token)

section \<open>Conversion is correct\<close>

lemma not_in_if: "x \<notin> set a \<Longrightarrow> x \<notin> set b \<Longrightarrow> x \<notin> set (if c then a else b)"
  by simp

lemma convert_check_chars: "CHR ''{'' \<notin> set p \<Longrightarrow> CHR ''{'' \<notin> set check \<Longrightarrow> CHR ''{'' \<notin> set (convert_check p check)"
  unfolding convert_check_def by (intro not_in_if; force dest: in_set_dropD)

lemma converted_sub_ok:
  "wf_aio x \<Longrightarrow> \<forall>t \<in> set (flatten_node (to_node x)). sub_ok t"
  "wf_aios xs \<Longrightarrow> \<forall>t \<in> set (flatten (to_nodes xs)). sub_ok t"
proof (induction x and xs rule: wf_aio_wf_aios.induct)
  case (3 p check tb fb)
  then have "CHR ''{'' \<notin> set (convert_check p check)"
    by (intro convert_check_chars) (auto simp: unmarked_def)
  with 3 show ?case by (auto simp: sub_ok_def)
qed (auto simp: sub_ok_def unmarked_def)

abbreviation converted :: "aio list \<Rightarrow> string" where
  "converted xs \<equiv> print_tokens (flatten (to_nodes xs))"

lemma print_tokens_simps [simp]:
  "print_tokens [] = []" "print_tokens (t # ts) = token_text t @ print_tokens ts"
  "print_tokens (ts @ us) = print_tokens ts @ print_tokens us"
  by (simp_all add: print_tokens_def)

lemma token_text_hd: "wf_aio x \<Longrightarrow> \<exists>c s. print_tokens (flatten_node (to_node x)) = c # s \<and> c \<noteq> squote \<and> c \<noteq> dquote"
proof (cases x)
  case (AText s)
  assume "wf_aio x"
  with AText obtain c r where "s = c # r" "unmarked s" by (cases s) auto
  then show ?thesis by (simp add: AText unmarked_def)
qed (simp_all add: squote_def dquote_def)

lemma conditional_text_converted:
  assumes "wf_aios fb"
  shows "conditional_text c t (converted fb) =
     ''{if '' @ c @ ''}'' @ t @ (if fb = [] then [] else ''{else}'' @ converted fb) @ ''{/if}''"
proof (cases fb)
  case Nil
  then show ?thesis by (simp add: conditional_text_def)
next
  case (Cons x xs)
  then show ?thesis
    using assms token_text_hd[of x] by (auto simp: conditional_text_def)
qed

text \<open>After the loop: the conditionals are converted, the variables outside them are not.\<close>

fun half_text :: "aio \<Rightarrow> string" where
  "half_text (ACond p check tb fb) = print_tokens (flatten_node (to_node (ACond p check tb fb)))"
| "half_text x = aio_text x"

lemma sub_half_text:
  assumes "wf_aio x"
  shows "sub_modifiers (half_text x @ r) = print_tokens (flatten_node (to_node x)) @ sub_modifiers r"
proof (cases x)
  case (AText s)
  then have "CHR ''{'' \<notin> set s" using assms by (auto simp: unmarked_def)
  from sub_modifiers_plain[OF this] show ?thesis using AText by simp
next
  case (AVar p ms)
  show ?thesis
  proof (cases "ms = []")
    case True
    have "sub_ok (VariableToken p [])" using assms AVar by (simp add: sub_ok_def)
    from sub_modifiers_token[OF this, of r] show ?thesis
      using True AVar by (simp add: var_text_def)
  next
    case False
    have "match_simple (''{'' @ p @ concat (map aio_mod_text ms) @ ''}'' @ r) = Some (''{'' @ var_text p ms @ ''}'', r)"
      using assms AVar False by (intro match_simple_variable) auto
    then show ?thesis
      using AVar by (simp add: sub_modifiers.simps[of "CHR ''{'' # _"])
  qed
next
  case (ACond p check tb fb)
  then show ?thesis
    using sub_modifiers_tokens[OF converted_sub_ok(1)[OF assms]] by simp
qed

lemma sub_half_texts: "wf_aios xs \<Longrightarrow> sub_modifiers (concat (map half_text xs)) = converted xs"
  by (induction xs) (simp_all add: sub_half_text)

lemma convert_unfold: "convert_aiostreams_to_mediafusion s = sub_modifiers (convert_conditionals s)"
  by (simp add: convert_aiostreams_to_mediafusion.simps)

lemma modifiers_text_chars:
  assumes "\<forall>m \<in> set ms. wf_aio_modifier m" "c \<in> set (concat (map aio_mod_text ms))"
  shows "c \<notin> {CHR ''['', CHR ''{'', CHR ''}''}"
proof -
  from assms obtain m where "wf_aio_modifier m" "c \<in> set (aio_mod_text m)"
    by auto
  then have m: "wf_aio_modifier m" "c \<in> set ''::'' \<union> set (mod_text m)"
    by (simp_all add: aio_mod_text_def)
  then have n: "x \<in> set (fst m) \<Longrightarrow> x \<notin> {CHR ''['', CHR ''{'', CHR ''}''}" for x
    using word_not_special[of x] by (auto simp: wf_aio_modifier_def)
  obtain k arg where k: "m = (k, arg)" by (cases m)
  show ?thesis
    using m n[of c] by (cases arg) (auto simp: wf_aio_modifier_def mod_text_def unmarked_def k)
qed

lemma to_nodes_Nil [simp]: "to_nodes xs = [] \<longleftrightarrow> xs = []"
  by (cases xs) auto

lemma convert_conditionals_aio:
  "wf_aio x \<Longrightarrow> convert_conditionals (aio_text x @ r) = half_text x @ convert_conditionals r"
  "wf_aios xs \<Longrightarrow> convert_conditionals (aio_texts xs @ r) = concat (map half_text xs) @ convert_conditionals r"
proof (induction x and xs arbitrary: r and r rule: aio_text_aio_texts.induct)
  case (1 s)
  then have "CHR ''{'' \<notin> set s" by (auto simp: unmarked_def)
  from convert_conditionals_plain[OF this] show ?case by simp
next
  case (2 p ms)
  have "\<forall>c \<in> set (p @ concat (map aio_mod_text ms)). c \<notin> {CHR ''['', CHR ''{'', CHR ''}''}"
    using 2 word_not_special modifiers_text_chars[of ms] by (simp add: ball_Un)
  from convert_conditionals_variable[OF this, of r] show ?case by simp
next
  case (3 p check tb fb)
  have c: "convert_aiostreams_to_mediafusion (aio_texts tb) = converted tb"
    "convert_aiostreams_to_mediafusion (aio_texts fb) = converted fb"
    using "3.IH"(1)[of "[]"] "3.IH"(2)[of "[]"] "3.prems" by (simp_all add: convert_unfold sub_half_texts)
  have "convert_conditionals (aio_text (ACond p check tb fb) @ r) =
      conditional_text (convert_check p check) (converted tb) (converted fb) @ convert_conditionals r"
    using convert_conditionals_conditional[of p check "aio_texts tb" "aio_texts fb" r] neutral_aio "3.prems"
    by (simp add: c)
  then show ?case
    using conditional_text_converted[of fb] "3.prems" by simp
qed auto

lemma convert_aio: "wf_aios xs \<Longrightarrow> convert_aiostreams_to_mediafusion (aio_texts xs) = converted xs"
  using convert_conditionals_aio(2)[of xs "[]"] by (simp add: convert_unfold sub_half_texts)

text \<open>
  Property C2. Converting a template of the foreign syntax gives the template it stands for:
  the text of a well-formed foreign tree, with conditionals nested in the quoted branches of
  conditionals to any depth, converts to a template that compiles to the corresponding tree of
  variables, modifiers and \<open>if\<close>/\<open>else\<close> nodes.
\<close>

theorem converted_template_compiles:
  assumes "wf_aios xs" and "wf_tokens (flatten (to_nodes xs))"
    and "length (convert_aiostreams_to_mediafusion (aio_texts xs)) \<le> MAX_TEMPLATE_LENGTH"
  shows "compile_template (convert_aiostreams_to_mediafusion (aio_texts xs)) = Inr (to_nodes xs)"
  using assms convert_aio[OF assms(1)] tokenize_print[OF assms(2)] parse_flatten[of "to_nodes xs"]
  by (simp add: compile_template_def)

theorem converted_template_compiles_witness:
  "compile_template (convert_aiostreams_to_mediafusion
     (''{a.b::>=3['' @ [dquote] @ ''x{c::istrue['' @ [dquote] @ ''y{v::join(, )}'' @ [dquote] @ ''||'' @
      [dquote, dquote] @ '']}'' @ [dquote] @ ''||'' @ [dquote] @ ''n'' @ [dquote] @ '']}'')) =
   Inr [IfNode ''a.b >= 3''
          [TextNode ''x'', IfNode ''c'' [TextNode ''y'', VariableNode ''v'' [(''join'', Some '', '')]] [] []] []
          [TextNode ''n'']]"
proof -
  let ?xs = "[ACond ''a.b'' ''>=3''
      [AText ''x'', ACond ''c'' ''istrue'' [AText ''y'', AVar ''v'' [(''join'', Some '', '')]] []] [AText ''n'']]"
  have w: "wf_aios ?xs" "wf_tokens (flatten (to_nodes ?xs))"
    "length (convert_aiostreams_to_mediafusion (aio_texts ?xs)) \<le> MAX_TEMPLATE_LENGTH"
    by code_simp+
  have t: "aio_texts ?xs = ''{a.b::>=3['' @ [dquote] @ ''x{c::istrue['' @ [dquote] @ ''y{v::join(, )}'' @ [dquote] @
      ''||'' @ [dquote, dquote] @ '']}'' @ [dquote] @ ''||'' @ [dquote] @ ''n'' @ [dquote] @ '']}''"
    by code_simp
  have n: "to_nodes ?xs = [IfNode ''a.b >= 3''
          [TextNode ''x'', IfNode ''c'' [TextNode ''y'', VariableNode ''v'' [(''join'', Some '', '')]] [] []] []
          [TextNode ''n'']]"
    by code_simp
  show ?thesis
    using converted_template_compiles[OF w] unfolding t n .
qed

end
