(* ===== verification/Template_Format.thy ===== *)
theory Template_Format
  imports Template_Modifiers
begin

text \<open>
  What the formatting functions of \<open>utils/template_engine.py\<close> promise: decimal digits read
  back, a clock time reads back as its number of seconds, and \<open>escape_html\<close>, a chain of five
  replacements, is the simultaneous substitution of the five special characters, which an
  entity decoder inverts.
\<close>

section \<open>Digits\<close>

lemma digits_value_append: "digits_value (s @ [c]) = 10 * digits_value s + digit_value c"
  by (simp add: digits_value_def)

lemma digit_value_char: "0 \<le> d \<Longrightarrow> d < 10 \<Longrightarrow> digit_value (digit_char d) = d"
  by (simp add: digit_value_def digit_char_def code_char_of)

lemma is_digit_char: "0 \<le> d \<Longrightarrow> d < 10 \<Longrightarrow> is_digit (digit_char d)"
  by (simp add: is_digit_def digit_char_def code_char_of)

lemma digits_value_nat_digits: "0 \<le> n \<Longrightarrow> digits_value (nat_digits n) = n"
proof (induction n rule: nat_digits.induct)
  case (1 n)
  show ?case
  proof (cases "n < 10")
    case True
    with 1 show ?thesis
      by (simp add: nat_digits.simps digits_value_def digit_value_char)
  next
    case False
    with 1 show ?thesis
      by (simp add: nat_digits.simps[of n] digits_value_append digit_value_char)
  qed
qed

lemma nat_digits_digits: "0 \<le> n \<Longrightarrow> c \<in> set (nat_digits n) \<Longrightarrow> is_digit c"
proof (induction n rule: nat_digits.induct)
  case (1 n)
  then show ?case
    by (cases "n < 10") (auto simp: nat_digits.simps[of n] is_digit_char)
qed

lemma digits_value_zero: "digits_value (CHR ''0'' # s) = digits_value s"
  by (simp add: digits_value_def digit_value_def)

lemma digits_value_pad2: "0 \<le> n \<Longrightarrow> digits_value (pad2 n) = n"
  by (simp add: pad2_def digits_value_zero digits_value_nat_digits)

lemma pad2_digits: "0 \<le> n \<Longrightarrow> CHR '':'' \<notin> set (pad2 n)"
proof -
  have "\<not> is_digit (CHR '':'')" by code_simp
  then show "0 \<le> n \<Longrightarrow> CHR '':'' \<notin> set (pad2 n)"
    using nat_digits_digits[of n "CHR '':''"] by (auto simp: pad2_def)
qed

section \<open>Clock times\<close>

definition clock_value :: "string \<Rightarrow> int" where
  "clock_value s = foldl (\<lambda>a f. 60 * a + digits_value f) 0 (split_char (CHR '':'') s)"

definition clock_fields :: "int \<Rightarrow> int \<Rightarrow> int \<Rightarrow> int" where
  "clock_fields h m t = 60 * (60 * h + m) + t"

lemma clock_fields_combine:
  assumes "n = 3600 * h + r" "r = 60 * m + t"
  shows "clock_fields h m t = n"
  using assms by (simp add: clock_fields_def)

lemma clock_fields_sum: "clock_fields (n div 3600) ((n mod 3600) div 60) (n mod 60) = n"
proof (rule clock_fields_combine)
  show "n = 3600 * (n div 3600) + n mod 3600"
    by simp
  have "(n mod 3600) mod 60 = n mod 60"
    by (rule mod_mod_cancel) simp
  then show "n mod 3600 = 60 * ((n mod 3600) div 60) + n mod 60"
    by (metis mult_div_mod_eq)
qed

lemma clock_value_hms:
  "0 \<le> h \<Longrightarrow> 0 \<le> m \<Longrightarrow> 0 \<le> t \<Longrightarrow>
   clock_value (pad2 h @ '':'' @ pad2 m @ '':'' @ pad2 t) = clock_fields h m t"
  by (simp add: clock_value_def clock_fields_def split_char_append_sep split_char_single pad2_digits
      digits_value_pad2)

lemma clock_value_ms:
  "0 \<le> m \<Longrightarrow> 0 \<le> t \<Longrightarrow> clock_value (pad2 m @ '':'' @ pad2 t) = 60 * m + t"
  by (simp add: clock_value_def split_char_append_sep split_char_single pad2_digits digits_value_pad2)

text \<open>
  A formatted time reads back: splitting \<open>format_time n\<close> at the colons and reading
  the fields in base 60 gives the number of seconds, for every positive number of seconds,
  with or without an hours field.
\<close>

theorem format_time_roundtrip:
  assumes "0 < n"
  shows "clock_value (format_time n) = n"
proof (cases "0 < n div 3600")
  case True
  have "format_time n = pad2 (n div 3600) @ '':'' @ pad2 ((n mod 3600) div 60) @ '':'' @ pad2 (n mod 60)"
    using assms True by (simp add: format_time_def)
  then have "clock_value (format_time n) = clock_fields (n div 3600) ((n mod 3600) div 60) (n mod 60)"
    using clock_value_hms[of "n div 3600" "(n mod 3600) div 60" "n mod 60"] True by simp
  then show ?thesis by (simp only: clock_fields_sum)
next
  case False
  then have h: "n div 3600 = 0"
    using assms by (simp add: pos_imp_zdiv_pos_iff)
  have "format_time n = pad2 ((n mod 3600) div 60) @ '':'' @ pad2 (n mod 60)"
    using assms False by (simp add: format_time_def)
  then have "clock_value (format_time n) = clock_fields (n div 3600) ((n mod 3600) div 60) (n mod 60)"
    using clock_value_ms[of "(n mod 3600) div 60" "n mod 60"] h by (simp add: clock_fields_def)
  then show ?thesis by (simp only: clock_fields_sum)
qed

theorem format_time_roundtrip_witness: "clock_value (format_time 3725) = 3725 \<and> format_time 3725 = ''01:02:05''"
proof -
  have "format_time 3725 = ''01:02:05''" by code_simp
  then show ?thesis using format_time_roundtrip[of 3725] by simp
qed

section \<open>HTML escaping\<close>

definition escape_char :: "char \<Rightarrow> string" where
  "escape_char c =
     (if c = CHR ''&'' then ''&amp;''
      else if c = CHR ''<'' then ''&lt;''
      else if c = CHR ''>'' then ''&gt;''
      else if c = dquote then ''&quot;''
      else if c = squote then ''&#x27;''
      else [c])"

lemma replace_char_append: "py_replace [c] new (s @ t) = py_replace [c] new s @ py_replace [c] new t"
  by (simp add: replace_char)

lemma replace_char_Nil: "py_replace [c] new [] = []"
  by (simp add: replace_char)

lemma replace_char_Cons:
  "py_replace [c] new (x # s) = (if x = c then new else [x]) @ py_replace [c] new s"
  by (simp add: replace_char)

lemma escape_html_Nil: "escape_html [] = []"
  by (simp add: escape_html_def)

lemma escape_html_eq:
  "escape_html s =
     py_replace [squote] ''&#x27;'' (py_replace [dquote] ''&quot;'' (py_replace ''>'' ''&gt;''
       (py_replace ''<'' ''&lt;'' (py_replace ''&'' ''&amp;'' s))))"
  by (cases s) (simp_all only: escape_html_def replace_char_Nil if_True if_False refl list.simps simp_thms)

lemma escape_html_Cons: "escape_html (c # s) = escape_char c @ escape_html s"
  by (simp add: escape_html_eq replace_char_Cons replace_char_append replace_char_Nil escape_char_def squote_def
      dquote_def)

lemma escape_html_chars: "escape_html s = concat (map escape_char s)"
  by (induction s) (simp_all add: escape_html_Nil escape_html_Cons)

fun unescape_html :: "nat \<Rightarrow> string \<Rightarrow> string" where
  "unescape_html 0 s = s"
| "unescape_html (Suc n) s =
     (if s = [] then []
      else if py_startswith s ''&amp;'' then CHR ''&'' # unescape_html n (drop 5 s)
      else if py_startswith s ''&lt;'' then CHR ''<'' # unescape_html n (drop 4 s)
      else if py_startswith s ''&gt;'' then CHR ''>'' # unescape_html n (drop 4 s)
      else if py_startswith s ''&quot;'' then dquote # unescape_html n (drop 6 s)
      else if py_startswith s ''&#x27;'' then squote # unescape_html n (drop 6 s)
      else hd s # unescape_html n (tl s))"

lemma unescape_char: "unescape_html (Suc n) (escape_char c @ r) = c # unescape_html n r"
proof -
  consider "c = CHR ''&''" | "c = CHR ''<''" | "c = CHR ''>''" | "c = dquote" | "c = squote"
    | "c \<noteq> CHR ''&''" "c \<noteq> CHR ''<''" "c \<noteq> CHR ''>''" "c \<noteq> dquote" "c \<noteq> squote"
    by blast
  then show ?thesis
  proof cases
    case 4
    then show ?thesis by (simp add: escape_char_def py_startswith_def dquote_def)
  next
    case 5
    then show ?thesis by (simp add: escape_char_def py_startswith_def squote_def dquote_def)
  qed (simp_all add: escape_char_def py_startswith_def)
qed

lemma unescape_escape: "length s \<le> n \<Longrightarrow> unescape_html n (concat (map escape_char s)) = s"
proof (induction s arbitrary: n)
  case Nil
  then show ?case by (cases n) auto
next
  case (Cons c cs)
  then obtain m where "n = Suc m" and "unescape_html m (concat (map escape_char cs)) = cs"
    by (cases n) auto
  then show ?case
    using unescape_char[of m c "concat (map escape_char cs)"] by simp
qed

text \<open>
  \<open>escape_html\<close> is safe and loses nothing: its output holds no \<open><\<close>, \<open>>\<close> or quote,
  and decoding the five entities gives the input back, although the five replacements run one
  after the other and the first one inserts ampersands.
\<close>

theorem escape_html_safe:
  "set (escape_html s) \<inter> {CHR ''<'', CHR ''>'', dquote, squote} = {} \<and>
   unescape_html (length s) (escape_html s) = s"
proof
  show "set (escape_html s) \<inter> {CHR ''<'', CHR ''>'', dquote, squote} = {}"
    by (auto simp: escape_html_chars escape_char_def squote_def dquote_def split: if_splits)
  show "unescape_html (length s) (escape_html s) = s"
    by (simp add: escape_html_chars unescape_escape)
qed

end
