(* ===== verification/LZ_String.thy ===== *)
theory LZ_String
  imports Py_Prelude Memo_Cache "HOL-Library.Word"
begin

unbundle bit_operations_syntax

text \<open>
  The decompressor of \<open>utils/lzstring.py\<close>. Its output is a list of UTF-16 code units, as
  integers. The nonlocal variables of \<open>read_bits\<close> are the record \<open>bit_reader\<close>, the local
  variables of \<open>_decompress\<close> the record \<open>lz_state\<close>; the main loop runs on fuel, and
  \<open>lz_fuel\<close> is always enough (theory \<open>LZ_String_Correct\<close>).
\<close>

section \<open>The alphabet\<close>

definition URI_SAFE_ALPHABET :: string where
  "URI_SAFE_ALPHABET = ''ABCDEFGHIJKLMNOPQRSTUVWXYZabcdefghijklmnopqrstuvwxyz0123456789+-$''"

fun enumerate_from :: "int \<Rightarrow> string \<Rightarrow> (char \<rightharpoonup> int) \<Rightarrow> (char \<rightharpoonup> int)" where
  "enumerate_from idx [] d = d"
| "enumerate_from idx (ch # cs) d = enumerate_from (idx + 1) cs (d(ch \<mapsto> idx))"

definition reverse_dic :: "string \<Rightarrow> (char \<rightharpoonup> int)" where
  "reverse_dic alphabet = enumerate_from 0 alphabet Map.empty"

text \<open>\<open>_BASE_REVERSE_DIC[alphabet]\<close>, filled on first use.\<close>

definition fetch_reverse_dic ::
  "(string \<rightharpoonup> (char \<rightharpoonup> int)) \<Rightarrow> string \<Rightarrow> (char \<rightharpoonup> int) py_result \<times> (string \<rightharpoonup> (char \<rightharpoonup> int))" where
  "fetch_reverse_dic base_reverse_dic alphabet =
     (let filled = (if base_reverse_dic alphabet = None
                    then base_reverse_dic(alphabet \<mapsto> reverse_dic alphabet) else base_reverse_dic)
      in (case filled alphabet of Some d \<Rightarrow> Inr d | None \<Rightarrow> Inl KeyError, filled))"

definition lookup_char :: "(char \<rightharpoonup> int) \<Rightarrow> char \<Rightarrow> int py_result" where
  "lookup_char d character = (case d character of Some v \<Rightarrow> Inr v | None \<Rightarrow> Inl KeyError)"

definition get_base_value ::
  "(string \<rightharpoonup> (char \<rightharpoonup> int)) \<Rightarrow> string \<Rightarrow> char \<Rightarrow> int py_result \<times> (string \<rightharpoonup> (char \<rightharpoonup> int))" where
  "get_base_value base_reverse_dic alphabet character =
     (case fetch_reverse_dic base_reverse_dic alphabet of
        (d, filled) \<Rightarrow> (bind_result d (\<lambda>d. lookup_char d character), filled))"

text \<open>What \<open>get_base_value\<close> returns from any cache it filled itself.\<close>

definition base_value :: "char \<Rightarrow> int py_result" where
  "base_value character = lookup_char (reverse_dic URI_SAFE_ALPHABET) character"

section \<open>Reading bits\<close>

record bit_reader =
  data_val :: int
  data_position :: int
  data_index :: nat

text \<open>
  One round of the loop of \<open>read_bits\<close>: the bit under \<open>data_position\<close>, and the reader moved on.
\<close>

definition read_bit :: "nat \<Rightarrow> int \<Rightarrow> (nat \<Rightarrow> int py_result) \<Rightarrow> bit_reader \<Rightarrow> (bool \<times> bit_reader) py_result" where
  "read_bit len reset_value get_next_value rd =
     (let resb = data_val rd AND data_position rd;
          position = drop_bit 1 (data_position rd)
      in if position = 0
         then bind_result (if data_index rd < len then get_next_value (data_index rd) else Inr 0) (\<lambda>v.
                Inr (0 < resb, \<lparr>data_val = v, data_position = reset_value, data_index = data_index rd + 1\<rparr>))
         else Inr (0 < resb, rd\<lparr>data_position := position\<rparr>))"

text \<open>The loop runs until \<open>power\<close> (here \<open>pow\<close>) is \<open>1 << bit_count\<close>: \<open>bit_count\<close> rounds.\<close>

fun read_bits_loop ::
  "nat \<Rightarrow> int \<Rightarrow> (nat \<Rightarrow> int py_result) \<Rightarrow> nat \<Rightarrow> int \<Rightarrow> int \<Rightarrow> bit_reader \<Rightarrow> (int \<times> bit_reader) py_result" where
  "read_bits_loop len reset_value get_next_value 0 pow bits rd = Inr (bits, rd)"
| "read_bits_loop len reset_value get_next_value (Suc rounds) pow bits rd =
     bind_result (read_bit len reset_value get_next_value rd) (\<lambda>(b, rd').
       read_bits_loop len reset_value get_next_value rounds (push_bit 1 pow)
         (if b then bits OR pow else bits) rd')"

definition read_bits ::
  "nat \<Rightarrow> int \<Rightarrow> (nat \<Rightarrow> int py_result) \<Rightarrow> nat \<Rightarrow> bit_reader \<Rightarrow> (int \<times> bit_reader) py_result" where
  "read_bits len reset_value get_next_value bit_count rd =
     read_bits_loop len reset_value get_next_value bit_count 1 0 rd"

section \<open>The main loop\<close>

record lz_state =
  dictionary :: "int \<rightharpoonup> int list"
  enlarge_in :: int
  dict_size :: int
  num_bits :: nat
  w_entry :: "int list"
  result_parts :: "int list list"
  reader :: bit_reader

definition enlarge :: "lz_state \<Rightarrow> lz_state" where
  "enlarge st =
     (if enlarge_in st = 0
      then st\<lparr>enlarge_in := push_bit (num_bits st) 1, num_bits := num_bits st + 1\<rparr> else st)"

definition add_entry :: "int list \<Rightarrow> lz_state \<Rightarrow> lz_state" where
  "add_entry e st =
     st\<lparr>dictionary := (dictionary st)(dict_size st \<mapsto> e), dict_size := dict_size st + 1,
        enlarge_in := enlarge_in st - 1\<rparr>"

text \<open>\<open>s[0]\<close>, which raises on the empty string.\<close>

definition first_unit :: "int list \<Rightarrow> int py_result" where
  "first_unit s = (case s of [] \<Rightarrow> Inl IndexError | c # _ \<Rightarrow> Inr c)"

datatype lz_outcome =
    Finished "int list"
  | Continue lz_state

text \<open>The body of \<open>while True\<close>, from the code that was read on.\<close>

definition lz_entry :: "int \<Rightarrow> lz_state \<Rightarrow> lz_outcome py_result" where
  "lz_entry c_code st =
     (let st1 = enlarge st
      in bind_result
           (case dictionary st1 c_code of
              Some entry \<Rightarrow> Inr (Some entry)
            | None \<Rightarrow>
                if c_code = dict_size st1
                then bind_result (first_unit (w_entry st1)) (\<lambda>c. Inr (Some (w_entry st1 @ [c])))
                else Inr None) (\<lambda>found.
           case found of
             None \<Rightarrow> Inr (Finished [])
           | Some entry \<Rightarrow>
               bind_result (first_unit entry) (\<lambda>c.
                 Inr (Continue (enlarge
                   ((add_entry (w_entry st1 @ [c]) (st1\<lparr>result_parts := result_parts st1 @ [entry]\<rparr>))
                      \<lparr>w_entry := entry\<rparr>))))))"

definition lz_step :: "nat \<Rightarrow> int \<Rightarrow> (nat \<Rightarrow> int py_result) \<Rightarrow> lz_state \<Rightarrow> lz_outcome py_result" where
  "lz_step len reset_value get_next_value st =
     (if len < data_index (reader st) then Inr (Finished [])
      else bind_result (read_bits len reset_value get_next_value (num_bits st) (reader st)) (\<lambda>(c_code, rd).
        let st0 = st\<lparr>reader := rd\<rparr>
        in if c_code = 0 \<or> c_code = 1
           then bind_result (read_bits len reset_value get_next_value (if c_code = 0 then 8 else 16) rd) (\<lambda>(c, rd').
                  lz_entry (dict_size st0) (add_entry [c] (st0\<lparr>reader := rd'\<rparr>)))
           else if c_code = 2 then Inr (Finished (concat (result_parts st0)))
           else lz_entry c_code st0))"

fun lz_loop :: "nat \<Rightarrow> nat \<Rightarrow> int \<Rightarrow> (nat \<Rightarrow> int py_result) \<Rightarrow> lz_state \<Rightarrow> int list py_result option" where
  "lz_loop 0 len reset_value get_next_value st = None"
| "lz_loop (Suc n) len reset_value get_next_value st =
     (case lz_step len reset_value get_next_value st of
        Inl e \<Rightarrow> Some (Inl e)
      | Inr (Finished out) \<Rightarrow> Some (Inr out)
      | Inr (Continue st') \<Rightarrow> lz_loop n len reset_value get_next_value st')"

definition lz_fuel :: "nat \<Rightarrow> nat" where
  "lz_fuel len = 2 * len + 3"

definition lz_start :: "int \<Rightarrow> bit_reader \<Rightarrow> lz_state" where
  "lz_start c rd =
     \<lparr>dictionary = [0 \<mapsto> [], 1 \<mapsto> [], 2 \<mapsto> [], 3 \<mapsto> [c]], enlarge_in = 4, dict_size = 4, num_bits = 3,
      w_entry = [c], result_parts = [[c]], reader = rd\<rparr>"

definition lz_first :: "nat \<Rightarrow> nat \<Rightarrow> int \<Rightarrow> (nat \<Rightarrow> int py_result) \<Rightarrow> bit_reader \<Rightarrow> int list py_result option" where
  "lz_first bit_count len reset_value get_next_value rd =
     (case read_bits len reset_value get_next_value bit_count rd of
        Inl e \<Rightarrow> Some (Inl e)
      | Inr (c, rd') \<Rightarrow> lz_loop (lz_fuel len) len reset_value get_next_value (lz_start c rd'))"

definition decompress :: "nat \<Rightarrow> int \<Rightarrow> (nat \<Rightarrow> int py_result) \<Rightarrow> int list py_result option" where
  "decompress len reset_value get_next_value =
     (case get_next_value 0 of
        Inl e \<Rightarrow> Some (Inl e)
      | Inr v \<Rightarrow>
          (case read_bits len reset_value get_next_value 2
                  \<lparr>data_val = v, data_position = reset_value, data_index = 1\<rparr> of
             Inl e \<Rightarrow> Some (Inl e)
           | Inr (next_code, rd) \<Rightarrow>
               if next_code = 0 then lz_first 8 len reset_value get_next_value rd
               else if next_code = 1 then lz_first 16 len reset_value get_next_value rd
               else if next_code = 2 then Some (Inr [])
               else Some (Inl ValueError)))"

text \<open>Every exception becomes a \<open>ValueError\<close>; \<open>None\<close> as the argument is the Python \<open>None\<close>.\<close>

definition decompress_from_encoded_uri_component :: "string option \<Rightarrow> int list py_result option" where
  "decompress_from_encoded_uri_component compressed =
     (case compressed of
        None \<Rightarrow> Some (Inr [])
      | Some s \<Rightarrow>
          if s = [] then Some (Inr [])
          else let normalized = py_replace '' '' ''+'' s
               in map_option (\<lambda>r. case r of Inl _ \<Rightarrow> Inl ValueError | Inr out \<Rightarrow> Inr out)
                    (decompress (length normalized) 32 (\<lambda>index. base_value (normalized ! index))))"

section \<open>The cache of reverse alphabets\<close>

interpretation reverse_memo: memo_cache "\<lambda>alphabet. Inr (reverse_dic alphabet)" fetch_reverse_dic
  by unfold_locales (auto simp: fetch_reverse_dic_def Let_def)

lemma base_value_cached:
  assumes "reverse_memo.coherent cache"
  shows "fst (get_base_value cache URI_SAFE_ALPHABET c) = base_value c"
  using reverse_memo.fetch_transparent[OF assms, of URI_SAFE_ALPHABET]
  by (auto simp: get_base_value_def base_value_def split: prod.splits)

end
