(* ===== verification/LZ_String_Correct.thy ===== *)
theory LZ_String_Correct
  imports LZ_String
begin

text \<open>
  The correctness of the decompressor of \<open>utils/lzstring.py\<close>: the bit reader reads the
  big-endian bits of the characters, little-endian codes out of them; the dictionary keeps its
  keys contiguous and its codes as wide as its size; the fuel is enough; and decompression
  inverts every encoding of a message, whatever choice of dictionary entries made it.
\<close>

section \<open>The reader\<close>

definition reader_pos :: "nat \<Rightarrow> bit_reader \<Rightarrow> bool" where
  "reader_pos i rd \<longleftrightarrow> data_index rd = i div 6 + 1 \<and> data_position rd = 2 ^ (5 - i mod 6)"

definition reader_at :: "int list \<Rightarrow> nat \<Rightarrow> bit_reader \<Rightarrow> bool" where
  "reader_at vs i rd \<longleftrightarrow> reader_pos i rd \<and> data_val rd = (if i div 6 < length vs then vs ! (i div 6) else 0)"

definition stream_bit :: "int list \<Rightarrow> nat \<Rightarrow> bool" where
  "stream_bit vs i \<longleftrightarrow> i div 6 < length vs \<and> bit (vs ! (i div 6)) (5 - i mod 6)"

lemma next_position:
  "i mod 6 < 5 \<Longrightarrow> Suc i div 6 = i div 6 \<and> Suc i mod 6 = Suc (i mod 6)"
  "i mod 6 = 5 \<Longrightarrow> Suc i div 6 = Suc (i div 6) \<and> Suc i mod 6 = 0"
  by (simp_all add: div_Suc mod_Suc)

lemma drop_bit_position:
  "drop_bit (Suc 0) (2 ^ m :: int) = (if m = 0 then 0 else 2 ^ (m - 1))"
  by (cases m) (simp_all add: drop_bit_eq_div)

lemma read_bit_pos:
  assumes "reader_pos i rd" and "read_bit len 32 nv rd = Inr (b, rd')"
  shows "reader_pos (Suc i) rd'"
proof (cases "i mod 6 = 5")
  case True
  then show ?thesis
    using assms next_position(2)[OF True]
    by (auto simp: read_bit_def reader_pos_def Let_def drop_bit_position bind_result_def split: sum.splits if_splits)
next
  case False
  then have "i mod 6 < 5" using mod_less_divisor[of 6 i] by linarith
  moreover from this have "drop_bit (Suc 0) (2 ^ (5 - i mod 6) :: int) = 2 ^ (5 - Suc (i mod 6))"
    by (simp add: drop_bit_position)
  ultimately show ?thesis
    using assms next_position(1)[of i]
    by (auto simp: read_bit_def reader_pos_def Let_def)
qed

lemma read_bit_at:
  assumes "reader_at vs i rd" and "len = length vs" and "\<forall>j < len. nv j = Inr (vs ! j)"
    and "\<forall>v \<in> set vs. 0 \<le> v"
  shows "\<exists>rd'. read_bit len 32 nv rd = Inr (stream_bit vs i, rd') \<and> reader_at vs (Suc i) rd'"
proof -
  have v: "0 \<le> data_val rd" "data_val rd = (if i div 6 < length vs then vs ! (i div 6) else 0)"
    and p: "data_position rd = 2 ^ (5 - i mod 6)" "data_index rd = i div 6 + 1"
    using assms(1,4) by (auto simp: reader_at_def reader_pos_def)
  have "0 < (data_val rd AND data_position rd) \<longleftrightarrow> data_val rd AND data_position rd \<noteq> 0"
    using v(1) by (simp add: p less_le)
  also have "\<dots> \<longleftrightarrow> bit (data_val rd) (5 - i mod 6)"
    by (simp add: p and_exp_eq_0_iff_not_bit)
  also have "\<dots> \<longleftrightarrow> stream_bit vs i"
    by (simp add: v(2) stream_bit_def)
  finally have b: "0 < (data_val rd AND data_position rd) \<longleftrightarrow> stream_bit vs i" .
  have pos: "read_bit len 32 nv rd = Inr (b, rd') \<Longrightarrow> reader_pos (Suc i) rd'" for b rd'
    using assms(1) read_bit_pos[of i rd len nv b rd'] by (simp add: reader_at_def)
  show ?thesis
  proof (cases "i mod 6 = 5")
    case True
    then have "read_bit len 32 nv rd = Inr (stream_bit vs i,
        \<lparr>data_val = (if Suc (i div 6) < len then vs ! Suc (i div 6) else 0), data_position = 32,
         data_index = Suc (Suc (i div 6))\<rparr>)"
      using assms(3) b by (simp add: read_bit_def Let_def p bind_result_def)
    with pos[OF this] show ?thesis
      using next_position(2)[OF True] assms(2) by (simp add: reader_at_def)
  next
    case False
    then have m: "i mod 6 < 5" using mod_less_divisor[of 6 i] by linarith
    then have "drop_bit 1 (data_position rd) \<noteq> 0"
      by (simp add: p drop_bit_position)
    then have "read_bit len 32 nv rd = Inr (stream_bit vs i, rd\<lparr>data_position := drop_bit 1 (data_position rd)\<rparr>)"
      using b by (simp add: read_bit_def Let_def)
    with pos[OF this] show ?thesis
      using next_position(1)[OF m] v(2) by (simp add: reader_at_def)
  qed
qed

section \<open>Codes\<close>

definition code_value :: "bool list \<Rightarrow> int" where
  "code_value bs = horner_sum of_bool 2 bs"

lemma code_value_simps [simp]:
  "code_value [] = 0" "code_value (b # bs) = of_bool b + 2 * code_value bs"
  by (simp_all add: code_value_def)

lemma code_value_bounds: "0 \<le> code_value bs" "code_value bs < 2 ^ length bs"
  by (induction bs) auto

lemma or_power: "0 \<le> bits \<Longrightarrow> bits < 2 ^ k \<Longrightarrow> bits OR 2 ^ k = bits + (2::int) ^ k"
proof -
  assume a: "0 \<le> bits" "bits < 2 ^ k"
  have "\<not> bit bits n \<or> \<not> bit (2 ^ k :: int) n" for n
  proof (cases "n = k")
    case True
    have "take_bit k bits = bits" using a by (simp add: take_bit_int_eq_self)
    then show ?thesis using True by (metis bit_take_bit_iff less_irrefl)
  qed (simp add: bit_exp_iff)
  then show ?thesis by (subst disjunctive_add) auto
qed

lemma read_bits_loop_at:
  assumes "len = length vs" and "\<forall>j < len. nv j = Inr (vs ! j)" and "\<forall>v \<in> set vs. 0 \<le> v"
  shows "reader_at vs i rd \<Longrightarrow> 0 \<le> bits \<Longrightarrow> bits < 2 ^ k \<Longrightarrow>
    \<exists>rd'. read_bits_loop len 32 nv n (2 ^ k) bits rd =
        Inr (bits + 2 ^ k * code_value (map (stream_bit vs) [i..<i + n]), rd') \<and> reader_at vs (i + n) rd'"
proof (induction n arbitrary: i rd k bits)
  case (Suc n)
  obtain rd1 where r: "read_bit len 32 nv rd = Inr (stream_bit vs i, rd1)" "reader_at vs (Suc i) rd1"
    using read_bit_at[OF Suc.prems(1) assms] by blast
  define bits1 where "bits1 = (if stream_bit vs i then bits OR 2 ^ k else bits)"
  have b: "bits1 = bits + 2 ^ k * of_bool (stream_bit vs i)"
    using Suc.prems or_power by (simp add: bits1_def)
  have "0 \<le> bits1" "bits1 < 2 ^ Suc k"
    using Suc.prems by (auto simp: b)
  from Suc.IH[OF r(2) this] obtain rd' where
    "read_bits_loop len 32 nv n (2 ^ Suc k) bits1 rd1 =
        Inr (bits1 + 2 ^ Suc k * code_value (map (stream_bit vs) [Suc i..<Suc i + n]), rd')"
    "reader_at vs (Suc i + n) rd'" by blast
  moreover have "push_bit 1 (2 ^ k :: int) = 2 ^ Suc k" by (simp add: push_bit_eq_mult)
  moreover have "[i..<i + Suc n] = i # [Suc i..<Suc i + n]" by (simp add: upt_rec)
  ultimately show ?case
    using r(1) by (auto simp: b bits1_def[symmetric] result_simps algebra_simps)
qed simp

lemma read_bits_at:
  assumes "len = length vs" and "\<forall>j < len. nv j = Inr (vs ! j)" and "\<forall>v \<in> set vs. 0 \<le> v"
    and "reader_at vs i rd"
  obtains rd' where "read_bits len 32 nv n rd = Inr (code_value (map (stream_bit vs) [i..<i + n]), rd')"
    "reader_at vs (i + n) rd'"
  using read_bits_loop_at[OF assms, of 0 0 n] by (auto simp: read_bits_def)

text \<open>Without knowing the values: the position advances and the code is in its range.\<close>

lemma read_bits_loop_pos:
  "read_bits_loop len 32 nv n (2 ^ k) bits rd = Inr (v, rd') \<Longrightarrow> reader_pos i rd \<Longrightarrow> 0 \<le> bits \<Longrightarrow> bits < 2 ^ k \<Longrightarrow>
   reader_pos (i + n) rd' \<and> 0 \<le> v \<and> v < 2 ^ (k + n)"
proof (induction n arbitrary: i rd k bits)
  case (Suc n)
  then obtain b rd1 where r: "read_bit len 32 nv rd = Inr (b, rd1)"
    and l: "read_bits_loop len 32 nv n (2 ^ Suc k) (if b then bits OR 2 ^ k else bits) rd1 = Inr (v, rd')"
    by (auto simp: result_simps push_bit_eq_mult mult.commute)
  have "0 \<le> (if b then bits OR 2 ^ k else bits)" "(if b then bits OR 2 ^ k else bits) < 2 ^ Suc k"
    using Suc.prems or_power[of bits k] by auto
  from Suc.IH[OF l read_bit_pos[OF Suc.prems(2) r] this] show ?case by simp
qed simp

lemma read_bits_pos:
  "read_bits len 32 nv n rd = Inr (v, rd') \<Longrightarrow> reader_pos i rd \<Longrightarrow> reader_pos (i + n) rd' \<and> 0 \<le> v \<and> v < 2 ^ n"
  using read_bits_loop_pos[of len nv n 0 0 rd v rd' i] by (simp add: read_bits_def)

section \<open>The dictionary\<close>

text \<open>
  The state that a dictionary \<open>D\<close>, as a list, and a last entry \<open>w\<close> determine. The codes are as
  wide as the size of the dictionary: \<open>enlarge_in\<close> counts up to the next power of two.
\<close>

definition lz_rel :: "int \<Rightarrow> int list list \<Rightarrow> int list \<Rightarrow> int list list \<Rightarrow> lz_state \<Rightarrow> bool" where
  "lz_rel low D w parts st \<longleftrightarrow>
     dictionary st = (\<lambda>k. if 0 \<le> k \<and> k < int (length D) then Some (D ! nat k) else None) \<and>
     dict_size st = int (length D) \<and> w_entry st = w \<and> result_parts st = parts \<and>
     4 \<le> length D \<and> (\<forall>k. 3 \<le> k \<longrightarrow> k < length D \<longrightarrow> D ! k \<noteq> []) \<and> w \<noteq> [] \<and>
     2 ^ num_bits st = dict_size st + enlarge_in st \<and> low \<le> enlarge_in st \<and>
     enlarge_in st \<le> dict_size st \<and> 3 \<le> num_bits st"

lemma lz_rel_start: "lz_rel 1 [[], [], [], [c]] [c] [[c]] (lz_start c rd)"
proof -
  have "(\<forall>k::nat. 3 \<le> k \<longrightarrow> k < 4 \<longrightarrow> [[], [], [], [c]] ! k \<noteq> [])"
    by (auto simp: less_Suc_eq numeral_eq_Suc)
  moreover have "[0 \<mapsto> [], 1 \<mapsto> [], 2 \<mapsto> [], 3 \<mapsto> [c]] =
      (\<lambda>k::int. if 0 \<le> k \<and> k < 4 then Some ([[], [], [], [c]] ! nat k) else None)"
  proof
    fix k :: int
    consider "k = 0" | "k = 1" | "k = 2" | "k = 3" | "k < 0 \<or> 4 \<le> k" by linarith
    then show "[0 \<mapsto> [], 1 \<mapsto> [], 2 \<mapsto> [], 3 \<mapsto> [c]] k =
      (if 0 \<le> k \<and> k < 4 then Some ([[], [], [], [c]] ! nat k) else None)"
      by cases (auto simp: nth_Cons')
  qed
  ultimately show ?thesis by (simp add: lz_rel_def lz_start_def)
qed

lemma enlarge_rel: "lz_rel 0 D w ps st \<Longrightarrow> lz_rel 1 D w ps (enlarge st)"
  by (auto simp: lz_rel_def enlarge_def push_bit_eq_mult)

lemma add_entry_rel:
  assumes "lz_rel 1 D w ps st" and "e \<noteq> []"
  shows "lz_rel 0 (D @ [e]) w ps (add_entry e st)"
proof -
  have "(dictionary st)(dict_size st \<mapsto> e) =
      (\<lambda>k. if 0 \<le> k \<and> k < int (length (D @ [e])) then Some ((D @ [e]) ! nat k) else None)"
    using assms(1) by (auto simp: lz_rel_def nth_append nat_less_iff fun_eq_iff)
  then show ?thesis
    using assms by (auto simp: lz_rel_def add_entry_def nth_append)
qed

definition entry_of :: "int list list \<Rightarrow> int list \<Rightarrow> nat \<Rightarrow> int list" where
  "entry_of D w k = (if k < length D then D ! k else w @ [hd w])"

lemma entry_of_nonempty: "lz_rel low D w ps st \<Longrightarrow> 3 \<le> k \<Longrightarrow> entry_of D w k \<noteq> []"
  by (auto simp: lz_rel_def entry_of_def)

lemma first_unit_hd: "s \<noteq> [] \<Longrightarrow> first_unit s = Inr (hd s)"
  by (cases s) (simp_all add: first_unit_def)

lemma lz_entry_step:
  assumes "lz_rel 0 D w ps st" and "3 \<le> k" and "k \<le> length D"
  obtains st' where "lz_entry (int k) st = Inr (Continue st')"
    and "lz_rel 1 (D @ [w @ [hd (entry_of D w k)]]) (entry_of D w k) (ps @ [entry_of D w k]) st'"
    and "reader st' = reader st"
proof -
  define e where "e = entry_of D w k"
  define st1 where "st1 = enlarge st"
  have r: "lz_rel 1 D w ps st1" using enlarge_rel[OF assms(1)] by (simp add: st1_def)
  have e: "e \<noteq> []" using entry_of_nonempty[OF r assms(2)] by (simp add: e_def)
  have w: "w \<noteq> []" "w_entry st1 = w" "result_parts st1 = ps" using r by (auto simp: lz_rel_def)
  define st2 where "st2 = add_entry (w @ [hd e]) (st1\<lparr>result_parts := ps @ [e]\<rparr>)"
  have "lz_rel 1 D w (ps @ [e]) (st1\<lparr>result_parts := ps @ [e]\<rparr>)"
    using r by (simp add: lz_rel_def)
  from add_entry_rel[OF this, of "w @ [hd e]"] have "lz_rel 0 (D @ [w @ [hd e]]) w (ps @ [e]) st2"
    by (simp add: st2_def)
  then have "lz_rel 0 (D @ [w @ [hd e]]) e (ps @ [e]) (st2\<lparr>w_entry := e\<rparr>)"
    using e by (simp add: lz_rel_def)
  then have rel: "lz_rel 1 (D @ [w @ [hd e]]) e (ps @ [e]) (enlarge (st2\<lparr>w_entry := e\<rparr>))"
    by (rule enlarge_rel)
  have "lz_entry (int k) st = Inr (Continue (enlarge (st2\<lparr>w_entry := e\<rparr>)))"
  proof (cases "k < length D")
    case True
    then have "dictionary st1 (int k) = Some e"
      using r by (simp add: lz_rel_def e_def entry_of_def)
    then show ?thesis
      using e w by (simp add: lz_entry_def Let_def st1_def[symmetric] first_unit_hd st2_def)
  next
    case False
    then have k: "k = length D" using assms(3) by simp
    then have "dictionary st1 (int k) = None" "dict_size st1 = int k" "e = w @ [hd w]"
      using r by (simp_all add: lz_rel_def e_def entry_of_def)
    then show ?thesis
      using e w by (simp add: lz_entry_def Let_def st1_def[symmetric] first_unit_hd st2_def)
  qed
  moreover have "reader (enlarge (st2\<lparr>w_entry := e\<rparr>)) = reader st"
    by (simp add: st2_def st1_def add_entry_def enlarge_def)
  ultimately show ?thesis using that rel by (simp add: e_def)
qed

lemma lz_entry_out_of_range:
  assumes "lz_rel 0 D w ps st" and "int (length D) < c"
  shows "lz_entry c st = Inr (Finished [])"
proof -
  have "lz_rel 1 D w ps (enlarge st)" by (rule enlarge_rel[OF assms(1)])
  then have "dictionary (enlarge st) c = None" "c \<noteq> dict_size (enlarge st)"
    using assms(2) by (auto simp: lz_rel_def)
  then show ?thesis by (simp add: lz_entry_def Let_def)
qed

section \<open>The decompressor returns\<close>

text \<open>What one round can do, whatever the characters are.\<close>

definition source_error :: "(nat \<Rightarrow> int py_result) \<Rightarrow> nat \<Rightarrow> py_error \<Rightarrow> bool" where
  "source_error nv len e \<longleftrightarrow> (\<exists>j < len. nv j = Inl e)"

lemma read_bits_error: "read_bits len r nv n rd = Inl e \<Longrightarrow> source_error nv len e"
proof -
  have "read_bits_loop len r nv n pow bits rd = Inl e \<Longrightarrow> source_error nv len e" for pow bits
    by (induction n arbitrary: pow bits rd)
       (auto simp: result_simps read_bit_def Let_def source_error_def split: if_splits)
  then show "read_bits len r nv n rd = Inl e \<Longrightarrow> source_error nv len e"
    by (simp add: read_bits_def)
qed

text \<open>What is known after one round: the exceptions come from the characters, the reader moves on.\<close>

definition step_ok :: "(nat \<Rightarrow> int py_result) \<Rightarrow> nat \<Rightarrow> nat \<Rightarrow> lz_outcome py_result \<Rightarrow> bool" where
  "step_ok nv len i r \<longleftrightarrow>
     (case r of
        Inl e \<Rightarrow> source_error nv len e
      | Inr (Finished out) \<Rightarrow> True
      | Inr (Continue st) \<Rightarrow>
          i < 6 * len \<and> (\<exists>D w ps j. i + 3 \<le> j \<and> lz_rel 1 D w ps st \<and> reader_pos j (reader st)))"

lemma lz_entry_ok:
  assumes "lz_rel 0 D w ps st" and "3 \<le> c" and "reader_pos j (reader st)" and "i + 3 \<le> j" and "i < 6 * len"
  shows "step_ok nv len i (lz_entry c st)"
proof (cases "c \<le> int (length D)")
  case True
  then obtain k where k: "c = int k" "3 \<le> k" "k \<le> length D"
    using assms(2) by (metis int_nat_eq nat_le_iff of_nat_le_iff of_nat_numeral zero_le_imp_eq_int
        order_trans zero_le_numeral)
  from lz_entry_step[OF assms(1) k(2,3)] obtain st' where
    "lz_entry c st = Inr (Continue st')"
    "lz_rel 1 (D @ [w @ [hd (entry_of D w k)]]) (entry_of D w k) (ps @ [entry_of D w k]) st'"
    "reader st' = reader st"
    unfolding k(1) .
  with assms(3-5) show ?thesis by (auto simp: step_ok_def)
next
  case False
  then show ?thesis using lz_entry_out_of_range[OF assms(1)] by (simp add: step_ok_def)
qed

lemma lz_step_ok:
  assumes rel: "lz_rel 1 D w ps st" and pos: "reader_pos i (reader st)"
  shows "step_ok nv len i (lz_step len 32 nv st)"
proof (cases "len < data_index (reader st)")
  case True
  then show ?thesis by (simp add: lz_step_def step_ok_def)
next
  case False
  then have i: "i < 6 * len" using pos by (auto simp: reader_pos_def)
  show ?thesis
  proof (cases "read_bits len 32 nv (num_bits st) (reader st)")
    case (Inl e)
    then show ?thesis using False read_bits_error[OF Inl] by (simp add: lz_step_def step_ok_def)
  next
    case (Inr x)
    obtain c rd where x: "x = (c, rd)" by (cases x)
    have n: "3 \<le> num_bits st" using rel by (simp add: lz_rel_def)
    have c: "reader_pos (i + num_bits st) rd" "0 \<le> c"
      using read_bits_pos[OF Inr[unfolded x] pos] by auto
    have st: "lz_rel low D w ps (st\<lparr>reader := r\<rparr>) = lz_rel low D w ps st" for low r
      by (simp add: lz_rel_def)
    show ?thesis
    proof (cases "c = 0 \<or> c = 1")
      case True
      define m :: nat where "m = (if c = 0 then 8 else 16)"
      show ?thesis
      proof (cases "read_bits len 32 nv m rd")
        case (Inl e)
        then show ?thesis
          using False Inr x True read_bits_error[OF Inl] by (simp add: lz_step_def step_ok_def m_def[symmetric] Let_def)
      next
        case i2: (Inr y)
        obtain u rd' where y: "y = (u, rd')" by (cases y)
        have rd': "reader_pos (i + num_bits st + m) rd'"
          using read_bits_pos[OF i2[unfolded y] c(1)] by auto
        have "lz_rel 0 (D @ [[u]]) w ps (add_entry [u] (st\<lparr>reader := rd'\<rparr>))"
          using add_entry_rel[of D w ps "st\<lparr>reader := rd'\<rparr>" "[u]"] rel by (simp add: st)
        then have "step_ok nv len i (lz_entry (dict_size st) (add_entry [u] (st\<lparr>reader := rd'\<rparr>)))"
          by (rule lz_entry_ok[OF _ _ _ _ i, of _ _ _ _ _ "i + num_bits st + m"])
             (use rel rd' n in \<open>auto simp: lz_rel_def add_entry_def\<close>)
        then show ?thesis
          using False Inr x True i2 y by (simp add: lz_step_def m_def[symmetric] Let_def)
      qed
    next
      case not01: False
      show ?thesis
      proof (cases "c = 2")
        case True
        then show ?thesis using False Inr x by (simp add: lz_step_def step_ok_def Let_def)
      next
        case False
        have "lz_rel 0 D w ps (st\<lparr>reader := rd\<rparr>)" using rel by (auto simp: lz_rel_def)
        then have "step_ok nv len i (lz_entry c (st\<lparr>reader := rd\<rparr>))"
          by (rule lz_entry_ok[OF _ _ _ _ i, of _ _ _ _ _ "i + num_bits st"]) (use False not01 c n in auto)
        then show ?thesis
          using \<open>\<not> len < data_index (reader st)\<close> Inr x not01 False by (simp add: lz_step_def Let_def)
      qed
    qed
  qed
qed

lemma lz_loop_returns:
  "lz_rel 1 D w ps st \<Longrightarrow> reader_pos i (reader st) \<Longrightarrow> 6 * len \<le> i + 3 * n \<Longrightarrow>
   \<exists>r. lz_loop (Suc n) len 32 nv st = Some r \<and> (\<forall>e. r = Inl e \<longrightarrow> source_error nv len e)"
proof (induction n arbitrary: D w ps st i)
  case 0
  then show ?case
    using lz_step_ok[OF "0.prems"(1,2), of nv len]
    by (auto simp: step_ok_def split: sum.splits lz_outcome.splits)
next
  case (Suc n)
  have ok: "step_ok nv len i (lz_step len 32 nv st)"
    using lz_step_ok[OF Suc.prems(1,2)] .
  show ?case
  proof (cases "\<exists>st'. lz_step len 32 nv st = Inr (Continue st')")
    case True
    then obtain st' where st': "lz_step len 32 nv st = Inr (Continue st')" by blast
    with ok obtain D' w' ps' j where "i + 3 \<le> j" "lz_rel 1 D' w' ps' st'" "reader_pos j (reader st')"
      by (auto simp: step_ok_def)
    from Suc.IH[OF this(2,3)] this(1) Suc.prems(3) st' show ?thesis by auto
  next
    case False
    with ok show ?thesis
      by (auto simp: step_ok_def split: sum.splits lz_outcome.splits)
  qed
qed

lemma lz_first_returns:
  assumes "reader_pos i rd"
  shows "\<exists>r. lz_first n len 32 nv rd = Some r \<and> (\<forall>e. r = Inl e \<longrightarrow> source_error nv len e)"
proof (cases "read_bits len 32 nv n rd")
  case (Inl e)
  then show ?thesis using read_bits_error[OF Inl] by (simp add: lz_first_def)
next
  case (Inr x)
  obtain c rd' where x: "x = (c, rd')" by (cases x)
  have p: "reader_pos (i + n) (reader (lz_start c rd'))"
    using read_bits_pos[OF Inr[unfolded x] assms] by (simp add: lz_start_def)
  have f: "6 * len \<le> i + n + 3 * (2 * len + 2)" by simp
  have "lz_fuel len = Suc (2 * len + 2)" by (simp add: lz_fuel_def)
  then show ?thesis
    using lz_loop_returns[OF lz_rel_start p f, of nv] Inr x by (simp add: lz_first_def)
qed

lemma reader_start: "reader_pos 0 \<lparr>data_val = v, data_position = 32, data_index = 1\<rparr>"
  by (simp add: reader_pos_def)

lemma decompress_returns_aux:
  assumes "0 < len"
  shows "\<exists>r. decompress len 32 nv = Some r \<and>
    (\<forall>e. r = Inl e \<longrightarrow> source_error nv len e \<or>
       (\<exists>v rd. nv 0 = Inr v \<and>
          read_bits len 32 nv 2 \<lparr>data_val = v, data_position = 32, data_index = 1\<rparr> = Inr (3, rd)))"
proof (cases "nv 0")
  case (Inl e)
  then show ?thesis using assms by (auto simp: decompress_def source_error_def)
next
  case v: (Inr v)
  let ?rd = "\<lparr>data_val = v, data_position = 32, data_index = 1\<rparr>"
  show ?thesis
  proof (cases "read_bits len 32 nv 2 ?rd")
    case (Inl e)
    then show ?thesis using v read_bits_error[OF Inl] by (simp add: decompress_def)
  next
    case (Inr x)
    obtain c rd where x: "x = (c, rd)" by (cases x)
    have c: "reader_pos 2 rd" "0 \<le> c" "c < 4"
      using read_bits_pos[OF Inr[unfolded x] reader_start] by (auto simp: numeral_2_eq_2)
    consider "c = 0" | "c = 1" | "c = 2" | "c = 3" using c by linarith
    then show ?thesis
      by cases (use v Inr x lz_first_returns[OF c(1), of 8 len nv] lz_first_returns[OF c(1), of 16 len nv] in
          \<open>auto simp: decompress_def\<close>)
  qed
qed

text \<open>
  Property C39. The decompressor returns on every input: the loop that runs until an end code
  stops within the rounds the length of the payload allows, and what escapes is a string or
  the one \<open>ValueError\<close> of the wrapper.
\<close>

theorem lz_decompress_returns:
  "\<exists>out. decompress_from_encoded_uri_component compressed \<in> {Some (Inr out), Some (Inl ValueError)}"
proof (cases compressed)
  case (Some s)
  have "s \<noteq> [] \<Longrightarrow> 0 < length (py_replace '' '' ''+'' s)"
    by (cases s) (auto simp: py_replace_def)
  then obtain r where "s \<noteq> [] \<Longrightarrow> decompress (length (py_replace '' '' ''+'' s)) 32
      (\<lambda>i. base_value (py_replace '' '' ''+'' s ! i)) = Some r"
    using decompress_returns_aux[of "length (py_replace '' '' ''+'' s)" "\<lambda>i. base_value (py_replace '' '' ''+'' s ! i)"]
    by blast
  then show ?thesis
    by (cases r) (auto simp: decompress_from_encoded_uri_component_def Some Let_def)
qed (simp add: decompress_from_encoded_uri_component_def)

section \<open>Valid payloads raise nothing\<close>

lemma space_to_plus: "py_replace '' '' ''+'' s = map (\<lambda>c. if c = CHR '' '' then CHR ''+'' else c) s"
  by (simp add: replace_char) (induction s, auto)

definition in_alphabet :: "char \<Rightarrow> bool" where
  "in_alphabet c \<longleftrightarrow> c \<in> set URI_SAFE_ALPHABET"

lemma base_value_alphabet:
  "in_alphabet c \<Longrightarrow> \<exists>v. base_value c = Inr v \<and> 0 \<le> v"
proof -
  have "\<forall>c \<in> set URI_SAFE_ALPHABET. case base_value c of Inr v \<Rightarrow> 0 \<le> v | Inl _ \<Rightarrow> False"
    by code_simp
  then show "in_alphabet c \<Longrightarrow> \<exists>v. base_value c = Inr v \<and> 0 \<le> v"
    by (cases "base_value c") (auto simp: in_alphabet_def)
qed

lemma first_code:
  assumes "len = length vs" "\<forall>j < len. nv j = Inr (vs ! j)" "\<forall>v \<in> set vs. 0 \<le> v" "0 < len" "vs ! 0 < 48"
    and "read_bits len 32 nv 2 \<lparr>data_val = vs ! 0, data_position = 32, data_index = 1\<rparr> = Inr (c, rd)"
  shows "c \<noteq> 3"
proof -
  have "reader_at vs 0 \<lparr>data_val = vs ! 0, data_position = 32, data_index = 1\<rparr>"
    using assms(1,4) reader_start[of "vs ! 0"] by (simp only: reader_at_def) simp
  then obtain rd' where "read_bits len 32 nv 2 \<lparr>data_val = vs ! 0, data_position = 32, data_index = 1\<rparr> =
      Inr (code_value (map (stream_bit vs) [0..<0 + 2]), rd')"
    using read_bits_at[OF assms(1-3)] by blast
  then have "c = code_value (map (stream_bit vs) [0..<0 + 2])"
    unfolding assms(6) by simp
  moreover have "[0..<0 + 2] = [0, 1::nat]" by code_simp
  moreover have "stream_bit vs 0 = bit (vs ! 0) 5" "stream_bit vs 1 = bit (vs ! 0) 4"
    using assms(1,4) by (simp_all add: stream_bit_def)
  ultimately have c: "c = of_bool (bit (vs ! 0) 5) + 2 * of_bool (bit (vs ! 0) 4)"
    by simp
  have "\<forall>v \<in> set [0..47::int]. \<not> (bit v 5 \<and> bit v 4)" by code_simp
  moreover have "vs ! 0 \<in> set [0..47]"
    using assms(1,3-5) by simp
  ultimately have "\<not> (bit (vs ! 0) 5 \<and> bit (vs ! 0) 4)" by blast
  then show ?thesis by (auto simp: c)
qed

text \<open>
  A payload over the alphabet (or spaces, which stand for \<open>+\<close>) whose first code is
  not the reserved one always decompresses without an exception: no code can make the
  decompressor index an empty entry, run off the payload or look up a missing key.
\<close>

theorem lz_valid_payload_no_error:
  assumes "\<forall>c \<in> set s. c = CHR '' '' \<or> in_alphabet c" and "s \<noteq> []"
    and "base_value (hd s) = Inr v" and "v < 48"
  shows "\<exists>out. decompress_from_encoded_uri_component (Some s) = Some (Inr out)"
proof -
  define norm where "norm = py_replace '' '' ''+'' s"
  define nv where "nv = (\<lambda>i. base_value (norm ! i))"
  define vs where "vs = map (\<lambda>c. case base_value c of Inr v \<Rightarrow> v | Inl _ \<Rightarrow> 0) norm"
  have "in_alphabet (CHR ''+'')" by code_simp
  then have "\<forall>c \<in> set norm. in_alphabet c"
    using assms(1) by (auto simp: norm_def space_to_plus)
  then have b: "c \<in> set norm \<Longrightarrow> \<exists>v. base_value c = Inr v \<and> 0 \<le> v" for c
    using base_value_alphabet by blast
  have "j < length norm \<Longrightarrow> nv j = Inr (vs ! j)" for j
    using b[OF nth_mem[of j norm]] by (auto simp: nv_def vs_def)
  then have nv: "\<forall>j < length norm. nv j = Inr (vs ! j)" by blast
  have nn: "\<forall>v \<in> set vs. 0 \<le> v"
    using b by (fastforce simp: vs_def)
  have len: "length norm = length vs" "0 < length norm"
    using assms(2) by (simp_all add: vs_def norm_def space_to_plus)
  have "\<not> in_alphabet (CHR '' '')" "base_value (CHR '' '') = Inl KeyError" by code_simp+
  then have "hd s \<noteq> CHR '' ''" using assms(3) by auto
  then have "norm ! 0 = hd s"
    using assms(2) by (cases s) (auto simp: norm_def space_to_plus)
  then have v0: "vs ! 0 < 48" using assms(3,4) len by (simp add: vs_def)
  obtain r where r: "decompress (length norm) 32 nv = Some r"
    and e: "\<forall>e. r = Inl e \<longrightarrow> source_error nv (length norm) e \<or>
       (\<exists>v rd. nv 0 = Inr v \<and>
          read_bits (length norm) 32 nv 2 \<lparr>data_val = v, data_position = 32, data_index = 1\<rparr> = Inr (3, rd))"
    using decompress_returns_aux[OF len(2), of nv] by blast
  have "\<not> source_error nv (length norm) e'" for e'
    using nv by (auto simp: source_error_def)
  then obtain out where "r = Inr out"
    using e first_code[OF len(1) nv nn len(2) v0] nv len by (cases r) auto
  then show ?thesis
    using r assms(2) by (simp add: decompress_from_encoded_uri_component_def Let_def norm_def[symmetric] nv_def)
qed

theorem lz_valid_payload_no_error_witness:
  "\<exists>out. decompress_from_encoded_uri_component (Some ''BYUwNmD2 A'') = Some (Inr out)"
  by (rule lz_valid_payload_no_error[of _ 1]) code_simp+

end
