(* ===== verification/LZ_String_Roundtrip.thy ===== *)
theory LZ_String_Roundtrip
  imports LZ_String_Correct
begin

text \<open>
  The format that \<open>utils/lzstring.py\<close> reads, as an encoder: a message is a first code unit and
  a list of codes (literal units of 8 or 16 bits, or dictionary entries), each written in as many
  bits as the dictionary size has; the bits are packed six to a character. Any encoding of a
  string that follows the format decompresses to the string.
\<close>

section \<open>Codes and their meaning\<close>

datatype lz_code =
    Unit8 int
  | Unit16 int
  | Entry nat

fun code_entry :: "int list list \<Rightarrow> int list \<Rightarrow> lz_code \<Rightarrow> int list" where
  "code_entry D w (Unit8 c) = [c]"
| "code_entry D w (Unit16 c) = [c]"
| "code_entry D w (Entry k) = entry_of D w k"

fun code_dict :: "int list list \<Rightarrow> lz_code \<Rightarrow> int list list" where
  "code_dict D (Unit8 c) = D @ [[c]]"
| "code_dict D (Unit16 c) = D @ [[c]]"
| "code_dict D (Entry k) = D"

definition next_dict :: "int list list \<Rightarrow> int list \<Rightarrow> lz_code \<Rightarrow> int list list" where
  "next_dict D w t = code_dict D t @ [w @ [hd (code_entry D w t)]]"

fun code_ok :: "int list list \<Rightarrow> lz_code \<Rightarrow> bool" where
  "code_ok D (Unit8 c) = (0 \<le> c \<and> c < 256)"
| "code_ok D (Unit16 c) = (0 \<le> c \<and> c < 65536)"
| "code_ok D (Entry k) = (3 \<le> k \<and> k \<le> length D)"

fun codes_ok :: "int list list \<Rightarrow> int list \<Rightarrow> lz_code list \<Rightarrow> bool" where
  "codes_ok D w [] = True"
| "codes_ok D w (t # ts) = (code_ok D t \<and> codes_ok (next_dict D w t) (code_entry D w t) ts)"

fun expand :: "int list list \<Rightarrow> int list \<Rightarrow> lz_code list \<Rightarrow> int list" where
  "expand D w [] = []"
| "expand D w (t # ts) = code_entry D w t @ expand (next_dict D w t) (code_entry D w t) ts"

section \<open>Codes as bits\<close>

fun code_width :: "nat \<Rightarrow> nat" where
  "code_width n = (if n = 0 then 0 else Suc (code_width (n div 2)))"

declare code_width.simps [simp del]

definition code_bits :: "nat \<Rightarrow> int \<Rightarrow> bool list" where
  "code_bits n v = map (bit v) [0..<n]"

fun encode_code :: "int list list \<Rightarrow> lz_code \<Rightarrow> bool list" where
  "encode_code D (Unit8 c) = code_bits (code_width (length D)) 0 @ code_bits 8 c"
| "encode_code D (Unit16 c) = code_bits (code_width (length D)) 1 @ code_bits 16 c"
| "encode_code D (Entry k) = code_bits (code_width (length D)) (int k)"

fun encode_codes :: "int list list \<Rightarrow> int list \<Rightarrow> lz_code list \<Rightarrow> bool list" where
  "encode_codes D w [] = code_bits (code_width (length D)) 2"
| "encode_codes D w (t # ts) = encode_code D t @ encode_codes (next_dict D w t) (code_entry D w t) ts"

text \<open>A message: the width of its first unit, that unit, and the other codes.\<close>

definition message_bits :: "bool \<Rightarrow> int \<Rightarrow> lz_code list \<Rightarrow> bool list" where
  "message_bits wide c ts =
     code_bits 2 (if wide then 1 else 0) @ code_bits (if wide then 16 else 8) c @
     encode_codes [[], [], [], [c]] [c] ts"

definition message_ok :: "bool \<Rightarrow> int \<Rightarrow> lz_code list \<Rightarrow> bool" where
  "message_ok wide c ts \<longleftrightarrow> 0 \<le> c \<and> c < (if wide then 65536 else 256) \<and> codes_ok [[], [], [], [c]] [c] ts"

definition message_text :: "int \<Rightarrow> lz_code list \<Rightarrow> int list" where
  "message_text c ts = c # expand [[], [], [], [c]] [c] ts"

text \<open>Six bits to a character, the first bit the highest, padded with zeros.\<close>

definition sextet :: "bool list \<Rightarrow> int" where
  "sextet bs = code_value (rev (take 6 (bs @ replicate 6 False)))"

fun sextets :: "nat \<Rightarrow> bool list \<Rightarrow> int list" where
  "sextets 0 bs = []"
| "sextets (Suc n) bs = (if bs = [] then [] else sextet bs # sextets n (drop 6 bs))"

definition pack :: "bool list \<Rightarrow> string" where
  "pack bs = map (\<lambda>v. URI_SAFE_ALPHABET ! nat v) (sextets (length bs) bs)"

section \<open>The stream of a packed message\<close>

lemma bit_code_value: "bit (code_value bs) n \<longleftrightarrow> n < length bs \<and> bs ! n"
  by (simp add: code_value_def bit_horner_sum_bit_iff)

lemma sextet_bit: "i < 6 \<Longrightarrow> bit (sextet bs) (5 - i) \<longleftrightarrow> i < length bs \<and> bs ! i"
  by (auto simp: sextet_def bit_code_value rev_nth nth_append min_def)

lemma sextet_bounds: "0 \<le> sextet bs" "sextet bs < 64"
proof -
  have "length (rev (take 6 (bs @ replicate 6 False))) = 6" by simp
  then show "0 \<le> sextet bs" "sextet bs < 64"
    using code_value_bounds[of "rev (take 6 (bs @ replicate 6 False))"] by (simp_all only: sextet_def) simp
qed

lemma stream_bit_Cons:
  "stream_bit (v # vs) i = (if i < 6 then bit v (5 - i) else stream_bit vs (i - 6))"
  by (auto simp: stream_bit_def le_div_geq le_mod_geq)

lemma stream_bit_sextets: "length bs \<le> n \<Longrightarrow> i < length bs \<Longrightarrow> stream_bit (sextets n bs) i = bs ! i"
proof (induction n arbitrary: bs i)
  case (Suc n)
  then have "bs \<noteq> []" by auto
  moreover have "6 \<le> i \<Longrightarrow> stream_bit (sextets n (drop 6 bs)) (i - 6) = drop 6 bs ! (i - 6)"
    using Suc by (intro Suc.IH) auto
  ultimately show ?case
    using Suc.prems by (auto simp: stream_bit_Cons sextet_bit)
qed simp

lemma sextets_bounds: "v \<in> set (sextets n bs) \<Longrightarrow> 0 \<le> v \<and> v < 64"
  by (induction n arbitrary: bs) (auto simp: sextet_bounds split: if_splits)

lemma length_sextets: "length bs \<le> n \<Longrightarrow> length bs \<le> 6 * length (sextets n bs)"
proof (induction n arbitrary: bs)
  case (Suc n)
  have "length (drop 6 bs) \<le> 6 * length (sextets n (drop 6 bs))" if "bs \<noteq> []"
    using Suc that by (intro Suc.IH) (cases bs; simp)
  then show ?case by auto
qed simp

lemma base_value_code: "0 \<le> v \<Longrightarrow> v < 64 \<Longrightarrow> base_value (URI_SAFE_ALPHABET ! nat v) = Inr v"
proof -
  have "\<forall>v \<in> set [0..63]. base_value (URI_SAFE_ALPHABET ! nat v) = Inr v" by code_simp
  then show "0 \<le> v \<Longrightarrow> v < 64 \<Longrightarrow> base_value (URI_SAFE_ALPHABET ! nat v) = Inr v" by simp
qed

section \<open>Reading a code back\<close>

lemma code_value_bits: "0 \<le> v \<Longrightarrow> v < 2 ^ n \<Longrightarrow> code_value (code_bits n v) = v"
  by (simp add: code_value_def code_bits_def horner_sum_bit_eq_take_bit take_bit_int_eq_self)

lemma length_code_bits [simp]: "length (code_bits n v) = n"
  by (simp add: code_bits_def)

lemma code_width_unique: "2 ^ n \<le> d \<Longrightarrow> d < 2 ^ Suc n \<Longrightarrow> code_width d = Suc n"
proof (induction n arbitrary: d)
  case 0
  then show ?case by (simp add: code_width.simps)
next
  case (Suc n)
  then have "code_width (d div 2) = Suc n" by (intro Suc.IH) auto
  moreover have "d \<noteq> 0" using Suc.prems(1) by (cases d) auto
  ultimately show ?case by (simp add: code_width.simps[of d])
qed

text \<open>The width the decompressor keeps is the width of the dictionary size.\<close>

lemma num_bits_width:
  assumes "lz_rel 1 D w ps st"
  shows "num_bits st = code_width (length D)" and "int (length D) < 2 ^ num_bits st" and "3 \<le> num_bits st"
proof -
  obtain m where m: "num_bits st = Suc m"
    using assms by (cases "num_bits st") (auto simp: lz_rel_def)
  have p: "2 ^ num_bits st = int (length D) + enlarge_in st" "1 \<le> enlarge_in st" "enlarge_in st \<le> int (length D)"
    using assms by (auto simp: lz_rel_def)
  show l: "int (length D) < 2 ^ num_bits st" using p by linarith
  then have "length D < 2 ^ Suc m" by (metis m of_nat_less_iff of_nat_numeral of_nat_power)
  moreover have "2 ^ m \<le> int (length D)" using p unfolding m power_Suc by linarith
  then have "2 ^ m \<le> length D" by (metis of_nat_le_iff of_nat_numeral of_nat_power)
  ultimately show "num_bits st = code_width (length D)"
    using code_width_unique[of m "length D"] m by simp
  show "3 \<le> num_bits st" using assms by (simp add: lz_rel_def)
qed

abbreviation bits_at :: "int list \<Rightarrow> nat \<Rightarrow> bool list \<Rightarrow> bool" where
  "bits_at vs i bs \<equiv> map (stream_bit vs) [i..<i + length bs] = bs"

lemma bits_at_append: "bits_at vs i (a @ b) \<longleftrightarrow> bits_at vs i a \<and> bits_at vs (i + length a) b"
proof -
  have "[i..<i + length (a @ b)] = [i..<i + length a] @ [i + length a..<(i + length a) + length b]"
    using upt_add_eq_append[of i "i + length a" "length b"] by (simp add: add.assoc)
  then show ?thesis by (auto simp: append_eq_append_conv)
qed

lemma read_code:
  assumes "len = length vs" "\<forall>j < len. nv j = Inr (vs ! j)" "\<forall>v \<in> set vs. 0 \<le> v"
    and "reader_at vs i rd" and "bits_at vs i (code_bits n v)" and "0 \<le> v" "v < 2 ^ n"
  obtains rd' where "read_bits len 32 nv n rd = Inr (v, rd')" "reader_at vs (i + n) rd'"
  using read_bits_at[OF assms(1-4), of n] assms(5) code_value_bits[OF assms(6,7)] by auto

text \<open>One code through the decompressor.\<close>

lemma lz_step_code:
  assumes vs: "len = length vs" "\<forall>j < len. nv j = Inr (vs ! j)" "\<forall>v \<in> set vs. 0 \<le> v"
    and rel: "lz_rel 1 D w ps st" and at: "reader_at vs i (reader st)" and i: "i < 6 * len"
    and bits: "bits_at vs i (encode_code D t)" and ok: "code_ok D t"
  obtains st' where "lz_step len 32 nv st = Inr (Continue st')"
    and "lz_rel 1 (next_dict D w t) (code_entry D w t) (ps @ [code_entry D w t]) st'"
    and "reader_at vs (i + length (encode_code D t)) (reader st')"
proof -
  note result = that and W = num_bits_width[OF rel]
  have ix: "\<not> len < data_index (reader st)" using at i by (auto simp: reader_at_def reader_pos_def)
  have n1: "(1::int) < 2 ^ num_bits st"
    using power_increasing[OF W(3), of "2::int"] by simp
  have unit: thesis
    if t: "code_entry D w t = [c]" "code_dict D t = D @ [[c]]"
      and e: "encode_code D t = code_bits (code_width (length D)) sel @ code_bits m c"
      and s: "sel = 0 \<and> m = 8 \<or> sel = 1 \<and> m = 16" and c: "0 \<le> c" "c < 2 ^ m" for c sel m
  proof -
    have b: "bits_at vs i (code_bits (num_bits st) sel)" "bits_at vs (i + num_bits st) (code_bits m c)"
      using bits by (simp_all only: e bits_at_append W(1) length_code_bits)
    have "0 \<le> sel" "sel < 2 ^ num_bits st" using s n1 by auto
    from read_code[OF vs at b(1) this] obtain rd where
      r1: "read_bits len 32 nv (num_bits st) (reader st) = Inr (sel, rd)" "reader_at vs (i + num_bits st) rd" .
    from read_code[OF vs r1(2) b(2) c] obtain rd' where
      r2: "read_bits len 32 nv m rd = Inr (c, rd')" "reader_at vs (i + num_bits st + m) rd'" .
    define st1 where "st1 = add_entry [c] (st\<lparr>reader := rd'\<rparr>)"
    have st1: "lz_rel 0 (D @ [[c]]) w ps st1"
      using add_entry_rel[of D w ps "st\<lparr>reader := rd'\<rparr>" "[c]"] rel by (simp add: lz_rel_def st1_def)
    have D: "3 \<le> length D" "length D \<le> length (D @ [[c]])" "entry_of (D @ [[c]]) w (length D) = [c]"
      "dict_size st = int (length D)"
      using rel by (auto simp: lz_rel_def entry_of_def)
    from lz_entry_step[OF st1 D(1,2)] obtain st' where
      l: "lz_entry (int (length D)) st1 = Inr (Continue st')"
      "lz_rel 1 ((D @ [[c]]) @ [w @ [hd [c]]]) [c] (ps @ [[c]]) st'" "reader st' = reader st1"
      unfolding D(3) .
    have "lz_step len 32 nv st = lz_entry (dict_size st) st1"
      using ix r1(1) r2(1) s by (auto simp: lz_step_def Let_def st1_def)
    then show thesis
      using result l r2(2) by (simp add: D(4) e t next_dict_def st1_def add_entry_def W(1) add.assoc)
  qed
  show thesis
  proof (cases t)
    case (Unit8 c)
    then show thesis using ok by (intro unit[of c 0 8]) auto
  next
    case (Unit16 c)
    then show thesis using ok by (intro unit[of c 1 16]) auto
  next
    case (Entry k)
    then have k: "3 \<le> k" "k \<le> length D" "int k < 2 ^ num_bits st"
      using ok W(2) by auto
    have "bits_at vs i (code_bits (num_bits st) (int k))"
      using bits by (simp add: Entry W(1))
    from read_code[OF vs at this _ k(3)] obtain rd where
      r: "read_bits len 32 nv (num_bits st) (reader st) = Inr (int k, rd)" "reader_at vs (i + num_bits st) rd"
      by auto
    have "lz_rel 0 D w ps (st\<lparr>reader := rd\<rparr>)" using rel by (auto simp: lz_rel_def)
    from lz_entry_step[OF this k(1,2)] obtain st' where
      l: "lz_entry (int k) (st\<lparr>reader := rd\<rparr>) = Inr (Continue st')"
      "lz_rel 1 (D @ [w @ [hd (entry_of D w k)]]) (entry_of D w k) (ps @ [entry_of D w k]) st'"
      "reader st' = reader (st\<lparr>reader := rd\<rparr>)" .
    have "lz_step len 32 nv st = lz_entry (int k) (st\<lparr>reader := rd\<rparr>)"
      using ix r(1) k(1) by (auto simp: lz_step_def Let_def)
    then show thesis
      using result l r(2) by (simp add: Entry next_dict_def W(1))
  qed
qed

lemma lz_step_end:
  assumes vs: "len = length vs" "\<forall>j < len. nv j = Inr (vs ! j)" "\<forall>v \<in> set vs. 0 \<le> v"
    and rel: "lz_rel 1 D w ps st" and at: "reader_at vs i (reader st)" and i: "i < 6 * len"
    and bits: "bits_at vs i (code_bits (code_width (length D)) 2)"
  shows "lz_step len 32 nv st = Inr (Finished (concat ps))"
proof -
  note W = num_bits_width[OF rel]
  have ix: "\<not> len < data_index (reader st)" using at i by (auto simp: reader_at_def reader_pos_def)
  have "(2::int) ^ 3 \<le> 2 ^ num_bits st" using W(3) by (rule power_increasing) simp
  then have "(2::int) < 2 ^ num_bits st" by simp
  with read_code[OF vs at, of "num_bits st" 2] bits obtain rd where
    "read_bits len 32 nv (num_bits st) (reader st) = Inr (2, rd)"
    by (auto simp: W(1))
  then show ?thesis using ix rel by (simp add: lz_step_def lz_rel_def Let_def)
qed

lemma encode_code_pos: "lz_rel 1 D w ps st \<Longrightarrow> 3 \<le> length (encode_code D t)"
  using num_bits_width[of D w ps st] by (cases t) auto

lemma lz_loop_codes:
  assumes vs: "len = length vs" "\<forall>j < len. nv j = Inr (vs ! j)" "\<forall>v \<in> set vs. 0 \<le> v"
  shows "lz_rel 1 D w ps st \<Longrightarrow> reader_at vs i (reader st) \<Longrightarrow> bits_at vs i (encode_codes D w ts) \<Longrightarrow>
    i + length (encode_codes D w ts) \<le> 6 * len \<Longrightarrow> codes_ok D w ts \<Longrightarrow> 6 * len \<le> i + 3 * n \<Longrightarrow>
    lz_loop (Suc n) len 32 nv st = Some (Inr (concat ps @ expand D w ts))"
proof (induction ts arbitrary: D w ps st i n)
  case Nil
  have "3 \<le> length (encode_codes D w [])"
    using num_bits_width[OF Nil.prems(1)] by simp
  then have "i < 6 * len" using Nil.prems(4) by linarith
  from lz_step_end[OF vs Nil.prems(1,2) this] Nil.prems(3) show ?case by simp
next
  case (Cons t ts)
  have p: "3 \<le> length (encode_code D t)" using encode_code_pos[OF Cons.prems(1)] .
  have i: "i < 6 * len" using p Cons.prems(4) by simp
  obtain m where n: "n = Suc m" using i Cons.prems(6) by (cases n) auto
  have b: "bits_at vs i (encode_code D t)"
    "bits_at vs (i + length (encode_code D t)) (encode_codes (next_dict D w t) (code_entry D w t) ts)"
    using Cons.prems(3) by (simp_all only: encode_codes.simps bits_at_append)
  have "code_ok D t" using Cons.prems(5) by simp
  from lz_step_code[OF vs Cons.prems(1,2) i b(1) this] obtain st' where st':
    "lz_step len 32 nv st = Inr (Continue st')"
    "lz_rel 1 (next_dict D w t) (code_entry D w t) (ps @ [code_entry D w t]) st'"
    "reader_at vs (i + length (encode_code D t)) (reader st')" .
  have "lz_loop (Suc m) len 32 nv st' =
      Some (Inr (concat (ps @ [code_entry D w t]) @ expand (next_dict D w t) (code_entry D w t) ts))"
    using Cons.prems(4-6) p n by (intro Cons.IH[OF st'(2,3) b(2)]) auto
  then show ?case using st'(1) by (simp add: n)
qed

lemma decompress_message:
  assumes "message_ok wide c ts"
  defines "bs \<equiv> message_bits wide c ts"
  defines "vs \<equiv> sextets (length bs) bs"
  assumes len: "len = length vs" and nv: "\<forall>j < len. nv j = Inr (vs ! j)"
  shows "decompress len 32 nv = Some (Inr (message_text c ts))"
proof -
  have nn: "\<forall>v \<in> set vs. 0 \<le> v" using sextets_bounds by (auto simp: vs_def)
  have long: "length bs \<le> 6 * len" using length_sextets[of bs] by (simp add: len vs_def)
  have b: "bits_at vs 0 bs"
    by (rule nth_equalityI) (simp_all add: vs_def stream_bit_sextets)
  define m where "m = (if wide then 16 else 8 :: nat)"
  define sel :: int where "sel = (if wide then 1 else 0)"
  have e: "bs = code_bits 2 sel @ code_bits m c @ encode_codes [[], [], [], [c]] [c] ts"
    by (simp add: bs_def message_bits_def m_def sel_def)
  have b1: "bits_at vs 0 (code_bits 2 sel)" and b2: "bits_at vs (0 + 2) (code_bits m c)"
    and b3: "bits_at vs (0 + 2 + m) (encode_codes [[], [], [], [c]] [c] ts)"
    using b unfolding e by (simp_all only: bits_at_append length_code_bits)
  have c: "0 \<le> c" "c < 2 ^ m" "0 \<le> sel" "sel < 2 ^ 2" "codes_ok [[], [], [], [c]] [c] ts"
    using assms(1) by (auto simp: message_ok_def m_def sel_def split: if_splits)
  have "0 < len" using long by (cases len) (auto simp: e code_bits_def)
  then have at: "reader_at vs 0 \<lparr>data_val = vs ! 0, data_position = 32, data_index = 1\<rparr>"
    using len reader_start[of "vs ! 0"] by (simp add: reader_at_def)
  from read_code[OF len nv nn at b1 c(3,4)] obtain rd where
    r1: "read_bits len 32 nv 2 \<lparr>data_val = vs ! 0, data_position = 32, data_index = 1\<rparr> = Inr (sel, rd)"
    "reader_at vs (0 + 2) rd" .
  from read_code[OF len nv nn r1(2) b2 c(1,2)] obtain rd' where
    r2: "read_bits len 32 nv m rd = Inr (c, rd')" "reader_at vs (0 + 2 + m) rd'" .
  have at': "reader_at vs (0 + 2 + m) (reader (lz_start c rd'))"
    using r2(2) by (simp add: lz_start_def)
  have fuel: "lz_fuel len = Suc (2 * len + 2)" by (simp add: lz_fuel_def)
  have "lz_loop (Suc (2 * len + 2)) len 32 nv (lz_start c rd') =
      Some (Inr (concat [[c]] @ expand [[], [], [], [c]] [c] ts))"
    using long by (intro lz_loop_codes[OF len nv nn lz_rel_start at' b3 _ c(5)]) (auto simp: e)
  then have "lz_first m len 32 nv rd = Some (Inr (message_text c ts))"
    using r2(1) by (simp only: lz_first_def fuel message_text_def sum.case prod.case) simp
  moreover have "nv 0 = Inr (vs ! 0)" using nv \<open>0 < len\<close> by simp
  ultimately show ?thesis
    using r1(1) by (simp add: decompress_def sel_def m_def split: if_splits)
qed

text \<open>
  Property C3. Decompression inverts compression: every encoding of a string in the format, a
  first unit and any valid choice of literals and dictionary entries (the entry that is not
  complete yet included), packed six bits to a character, decompresses to that string.
\<close>

theorem lz_roundtrip:
  assumes "message_ok wide c ts"
  shows "decompress_from_encoded_uri_component (Some (pack (message_bits wide c ts))) =
    Some (Inr (message_text c ts))"
proof -
  define bs where "bs = message_bits wide c ts"
  define vs where "vs = sextets (length bs) bs"
  have p: "pack bs = map (\<lambda>v. URI_SAFE_ALPHABET ! nat v) vs" by (simp add: pack_def vs_def)
  have "\<forall>v \<in> set [0..63::int]. URI_SAFE_ALPHABET ! nat v \<noteq> CHR '' ''" by code_simp
  then have "v \<in> set vs \<Longrightarrow> URI_SAFE_ALPHABET ! nat v \<noteq> CHR '' ''" for v
    using sextets_bounds[of v "length bs" bs] by (auto simp: vs_def)
  then have n: "py_replace '' '' ''+'' (pack bs) = pack bs"
    by (simp add: space_to_plus p)
  have nv: "\<forall>j < length (pack bs). base_value (pack bs ! j) = Inr (vs ! j)"
    using sextets_bounds[of _ "length bs" bs] by (auto simp: p vs_def base_value_code)
  have "pack bs \<noteq> []"
    by (simp add: pack_def bs_def message_bits_def code_bits_def)
  moreover have "length (pack bs) = length vs" by (simp add: p)
  then have "decompress (length (pack bs)) 32 (\<lambda>i. base_value (pack bs ! i)) = Some (Inr (message_text c ts))"
    using decompress_message[OF assms] nv by (simp add: vs_def bs_def)
  ultimately show ?thesis
    by (simp add: decompress_from_encoded_uri_component_def n Let_def flip: bs_def)
qed

theorem lz_roundtrip_witness:
  "decompress_from_encoded_uri_component (Some (pack (message_bits False 97 [Entry 4, Unit16 8364, Entry 3]))) =
     Some (Inr [97, 97, 97, 8364, 97])"
proof -
  have "message_ok False 97 [Entry 4, Unit16 8364, Entry 3]" by code_simp
  moreover have "message_text 97 [Entry 4, Unit16 8364, Entry 3] = [97, 97, 97, 8364, 97]" by code_simp
  ultimately show ?thesis
    using lz_roundtrip[of False 97 "[Entry 4, Unit16 8364, Entry 3]"] by simp
qed

end
