(* ===== verification/Rbac.thy ===== *)
theory Rbac
  imports Py_Prelude
begin

text \<open>
  Role-based access control, \<open>api/rbac.py\<close>. Roles are the enumeration \<open>UserRole\<close> of
  \<open>db/enums.py\<close>, permissions are strings, the two dictionaries are association lists in the
  order of the source; a user is modelled by its role, the one attribute the code reads.
\<close>

datatype user_role = USER | PAID_USER | MODERATOR | ADMIN

text \<open>The string value of a member of the \<open>StrEnum\<close>; a member is falsy when it is empty.\<close>

fun role_value :: "user_role \<Rightarrow> string" where
  "role_value USER = ''user''"
| "role_value PAID_USER = ''paid_user''"
| "role_value MODERATOR = ''moderator''"
| "role_value ADMIN = ''admin''"

definition ROLE_HIERARCHY :: "(user_role \<times> int) list" where
  "ROLE_HIERARCHY = [(USER, 1), (PAID_USER, 2), (MODERATOR, 3), (ADMIN, 4)]"

definition dict_get :: "('k \<times> 'v) list \<Rightarrow> 'k \<Rightarrow> 'v \<Rightarrow> 'v" where
  "dict_get d k d0 = (case map_of d k of Some v \<Rightarrow> v | None \<Rightarrow> d0)"

record user =
  role :: user_role

definition has_minimum_role :: "user \<Rightarrow> user_role \<Rightarrow> bool" where
  "has_minimum_role u required_role =
     (let user_level = dict_get ROLE_HIERARCHY (role u) 0;
          required_level = dict_get ROLE_HIERARCHY required_role 999
      in required_level \<le> user_level)"

text \<open>The two handlers that raise \<open>HTTPException\<close>: its status code and its detail.\<close>

datatype http_error = HTTPException int string

definition check_permission :: "user \<Rightarrow> user_role \<Rightarrow> http_error + unit" where
  "check_permission u required_role =
     (if \<not> has_minimum_role u required_role
      then Inl (HTTPException 403 (''Insufficient permissions. Required role: '' @ role_value required_role))
      else Inr ())"

definition is_admin :: "user \<Rightarrow> bool" where
  "is_admin u = has_minimum_role u ADMIN"

definition is_moderator :: "user \<Rightarrow> bool" where
  "is_moderator u = has_minimum_role u MODERATOR"

definition is_paid_user :: "user \<Rightarrow> bool" where
  "is_paid_user u = has_minimum_role u PAID_USER"

definition PERMISSION_ROLES :: "(string \<times> user_role) list" where
  "PERMISSION_ROLES =
     [(''view_dashboard'', USER), (''manage_profiles'', USER), (''view_watch_history'', USER),
      (''view_downloads'', USER), (''submit_contribution'', USER), (''import_content'', USER),
      (''manage_own_rss'', USER),
      (''view_metrics'', MODERATOR), (''block_torrent'', MODERATOR), (''delete_torrent'', MODERATOR),
      (''review_contributions'', MODERATOR), (''run_scrapers'', MODERATOR),
      (''manage_users'', ADMIN), (''assign_roles'', ADMIN), (''view_all_rss'', ADMIN),
      (''manage_all_rss'', ADMIN), (''system_config'', ADMIN), (''manage_metadata'', ADMIN),
      (''manage_torrent_streams'', ADMIN), (''manage_tv_streams'', ADMIN)]"

definition has_permission :: "user \<Rightarrow> string \<Rightarrow> bool" where
  "has_permission u permission =
     (case map_of PERMISSION_ROLES permission of
        None \<Rightarrow> False
      | Some required_role \<Rightarrow>
          if role_value required_role = [] then False else has_minimum_role u required_role)"

fun check_permissions :: "user \<Rightarrow> string list \<Rightarrow> http_error + unit" where
  "check_permissions u [] = Inr ()"
| "check_permissions u (permission # rest) =
     (if \<not> has_permission u permission
      then Inl (HTTPException 403 (''Missing permission: '' @ permission))
      else check_permissions u rest)"

section \<open>Privileges grow with the role\<close>

definition role_level :: "user_role \<Rightarrow> int" where
  "role_level r = dict_get ROLE_HIERARCHY r 0"

instantiation user_role :: linorder
begin

definition less_eq_user_role :: "user_role \<Rightarrow> user_role \<Rightarrow> bool" where
  "less_eq_user_role a b \<longleftrightarrow> role_level a \<le> role_level b"

definition less_user_role :: "user_role \<Rightarrow> user_role \<Rightarrow> bool" where
  "less_user_role a b \<longleftrightarrow> role_level a < role_level b"

instance
proof
  fix a b c :: user_role
  show "a \<le> a" by (simp add: less_eq_user_role_def)
  show "a < b \<longleftrightarrow> a \<le> b \<and> \<not> b \<le> a"
    by (auto simp: less_eq_user_role_def less_user_role_def)
  show "a \<le> b \<Longrightarrow> b \<le> c \<Longrightarrow> a \<le> c"
    by (simp add: less_eq_user_role_def)
  show "a \<le> b \<or> b \<le> a"
    by (auto simp: less_eq_user_role_def)
  show "a \<le> b \<Longrightarrow> b \<le> a \<Longrightarrow> a = b"
    by (cases a; cases b) (simp_all add: less_eq_user_role_def role_level_def ROLE_HIERARCHY_def dict_get_def)
qed

end

lemma has_minimum_role_iff: "has_minimum_role u r \<longleftrightarrow> r \<le> role u"
  by (cases r; cases "role u")
     (simp_all add: has_minimum_role_def less_eq_user_role_def role_level_def ROLE_HIERARCHY_def dict_get_def)

lemma has_permission_iff:
  "has_permission u p \<longleftrightarrow> (\<exists>r. map_of PERMISSION_ROLES p = Some r \<and> r \<le> role u)"
proof -
  have "role_value r \<noteq> []" for r by (cases r) simp_all
  then show ?thesis by (simp add: has_permission_def has_minimum_role_iff split: option.split)
qed

lemma check_permissions_cases:
  "check_permissions u ps =
     (case dropWhile (has_permission u) ps of
        [] \<Rightarrow> Inr ()
      | p # _ \<Rightarrow> Inl (HTTPException 403 (''Missing permission: '' @ p)))"
  by (induction ps) auto

text \<open>
  Privileges only grow with the role: whatever permissions a user passes the check
  for, a user of the same or a higher role passes it for too; and nobody, an administrator
  included, passes it for a list that holds an unknown permission.
\<close>

theorem rbac_monotone:
  assumes "role u \<le> role u'" and "check_permissions u ps = Inr ()"
  shows "check_permissions u' ps = Inr () \<and> set ps \<subseteq> dom (map_of PERMISSION_ROLES)"
proof -
  have all: "\<forall>p \<in> set ps. has_permission u p"
    using assms(2) by (auto simp: check_permissions_cases dropWhile_eq_Nil_conv split: list.splits)
  then have "\<forall>p \<in> set ps. has_permission u' p"
    using assms(1) by (fastforce simp: has_permission_iff)
  then have "dropWhile (has_permission u') ps = []"
    by (simp add: dropWhile_eq_Nil_conv)
  moreover have "set ps \<subseteq> dom (map_of PERMISSION_ROLES)"
    using all by (auto simp: has_permission_iff)
  ultimately show ?thesis by (simp only: check_permissions_cases list.case)
qed

theorem rbac_monotone_witness:
  "check_permissions \<lparr>role = ADMIN\<rparr> [''block_torrent'', ''view_dashboard''] = Inr () \<and>
   set [''block_torrent'', ''view_dashboard''] \<subseteq> dom (map_of PERMISSION_ROLES)"
proof (rule rbac_monotone)
  show "role \<lparr>role = MODERATOR\<rparr> \<le> role \<lparr>role = ADMIN\<rparr>"
    by (simp add: less_eq_user_role_def role_level_def ROLE_HIERARCHY_def dict_get_def)
  show "check_permissions \<lparr>role = MODERATOR\<rparr> [''block_torrent'', ''view_dashboard''] = Inr ()"
    by code_simp
qed

end
