(* ===== verification/Breaker_Contract.thy ===== *)
theory Breaker_Contract
  imports Complex_Main "HOL-Library.Multiset"
begin

text \<open>
  What the two circuit breakers of the program promise their callers while they are closed: a
  closed breaker admits every call, a success clears the failures it counted, and a failure is
  counted and opens it when the count reaches the threshold. Times are rational numbers of
  seconds.
\<close>

locale failure_counter =
  fixes admits :: "rat \<Rightarrow> 's \<Rightarrow> bool \<times> 's"
    and succeeded :: "'s \<Rightarrow> 's"
    and failed :: "rat \<Rightarrow> 's \<Rightarrow> 's"
    and closed :: "'s \<Rightarrow> bool"
    and count :: "'s \<Rightarrow> int"
    and threshold :: "'s \<Rightarrow> int"
  assumes closed_admits: "closed s \<Longrightarrow> admits now s = (True, s)"
    and closed_success: "closed s \<Longrightarrow> closed (succeeded s) \<and> count (succeeded s) = 0 \<and>
      threshold (succeeded s) = threshold s"
    and closed_failure: "closed s \<Longrightarrow> count (failed now s) = count s + 1 \<and>
      threshold (failed now s) = threshold s \<and>
      (closed (failed now s) \<longleftrightarrow> count s + 1 < threshold s)"
begin

text \<open>The calls that were admitted, with their outcomes and the times they failed at.\<close>

fun outcomes :: "(bool \<times> rat) list \<Rightarrow> 's \<Rightarrow> 's" where
  "outcomes [] s = s"
| "outcomes ((ok, now) # os) s = outcomes os (if ok then succeeded s else failed now s)"

text \<open>The longest run of failures at the front: what the counter can reach before a success.\<close>

fun stays_closed :: "int \<Rightarrow> int \<Rightarrow> (bool \<times> rat) list \<Rightarrow> bool" where
  "stays_closed n m [] = True"
| "stays_closed n m ((ok, now) # os) =
     (if ok then stays_closed 0 m os else n + 1 < m \<and> stays_closed (n + 1) m os)"

lemma closed_while_few_failures:
  "closed s \<Longrightarrow> stays_closed (count s) (threshold s) os \<Longrightarrow> closed (outcomes os s)"
proof (induction os arbitrary: s)
  case (Cons x os)
  obtain ok now where x: "x = (ok, now)" by (cases x)
  show ?case
    using Cons.IH[of "succeeded s"] Cons.IH[of "failed now s"] Cons.prems
      closed_success[of s] closed_failure[of s now]
    by (simp add: x split: if_splits)
qed simp

lemma failures_open:
  "closed s \<Longrightarrow> count s < threshold s \<Longrightarrow> int (length ts) = threshold s - count s \<Longrightarrow>
   \<not> closed (outcomes (map (Pair False) ts) s)"
proof (induction ts arbitrary: s)
  case (Cons t ts)
  then show ?case
  proof (cases "count s + 1 < threshold s")
    case True
    then show ?thesis
      using Cons.IH[of "failed t s"] Cons.prems closed_failure[of s t] by simp
  next
    case False
    then have "ts = []" using Cons.prems(3) by (cases ts) auto
    then show ?thesis using False closed_failure[of s t] Cons.prems by simp
  qed
qed simp

end

end
