(* ===== verification/Circuit_Breaker.thy ===== *)
theory Circuit_Breaker
  imports Py_Prelude Breaker_Contract
begin

text \<open>
  The class \<open>CircuitBreaker\<close> of \<open>utils/network.py\<close>, as a record and its methods. The clock of
  the event loop is an argument: the time each method reads. A call of \<open>call\<close> checks the
  breaker, awaits the function and records the outcome; other calls may run while it waits, so
  the two halves are separate definitions and \<open>call\<close> is their composition.
\<close>

section \<open>State and methods\<close>

datatype breaker_state = CLOSED | OPEN | HALF_OPEN

record circuit_breaker =
  failure_threshold :: int
  recovery_timeout :: int
  half_open_attempts :: int
  state :: breaker_state
  failures :: int
  successful_attempts :: int
  last_failure_time :: "rat option"

definition new_breaker :: "int \<Rightarrow> int \<Rightarrow> int \<Rightarrow> circuit_breaker" where
  "new_breaker threshold timeout attempts =
     \<lparr>failure_threshold = threshold, recovery_timeout = timeout, half_open_attempts = attempts,
      state = CLOSED, failures = 0, successful_attempts = 0, last_failure_time = None\<rparr>"

text \<open>\<open>self.last_failure_time and ...\<close>: a time of zero is falsy.\<close>

definition recovered :: "rat \<Rightarrow> circuit_breaker \<Rightarrow> bool" where
  "recovered current_time cb =
     (case last_failure_time cb of
        None \<Rightarrow> False
      | Some t \<Rightarrow> t \<noteq> 0 \<and> of_int (recovery_timeout cb) \<le> current_time - t)"

definition is_closed :: "rat \<Rightarrow> circuit_breaker \<Rightarrow> bool \<times> circuit_breaker" where
  "is_closed current_time cb =
     (if state cb = CLOSED then (True, cb)
      else if state cb = HALF_OPEN then (True, cb)
      else if state cb = OPEN \<and> recovered current_time cb
      then (True, cb\<lparr>state := HALF_OPEN, failures := 0, successful_attempts := 0\<rparr>)
      else (False, cb))"

definition reset :: "circuit_breaker \<Rightarrow> circuit_breaker" where
  "reset cb = cb\<lparr>state := CLOSED, failures := 0, successful_attempts := 0, last_failure_time := None\<rparr>"

definition record_failure :: "rat \<Rightarrow> circuit_breaker \<Rightarrow> circuit_breaker" where
  "record_failure now cb =
     (let cb = cb\<lparr>failures := failures cb + 1, last_failure_time := Some now, successful_attempts := 0\<rparr>
      in if failure_threshold cb \<le> failures cb then cb\<lparr>state := OPEN\<rparr> else cb)"

definition record_success :: "circuit_breaker \<Rightarrow> circuit_breaker" where
  "record_success cb =
     (if state cb = HALF_OPEN
      then let cb = cb\<lparr>successful_attempts := successful_attempts cb + 1\<rparr>
           in if half_open_attempts cb \<le> successful_attempts cb then reset cb else cb
      else if state cb = CLOSED then cb\<lparr>failures := 0, successful_attempts := 0\<rparr>
      else cb)"

text \<open>What a task returns in place of a result: the breaker's refusal, or the exception raised.\<close>

datatype 'e task_error = CircuitBreakerOpen | Raised 'e

definition call_finish :: "rat \<Rightarrow> circuit_breaker \<Rightarrow> 'e + 'v \<Rightarrow> ('e task_error + 'v) \<times> circuit_breaker" where
  "call_finish now cb outcome =
     (case outcome of
        Inr v \<Rightarrow> (Inr v, record_success cb)
      | Inl e \<Rightarrow> (Inl (Raised e), record_failure now cb))"

definition call ::
  "rat \<Rightarrow> rat \<Rightarrow> circuit_breaker \<Rightarrow> 'i \<Rightarrow> 'e + 'v \<Rightarrow> ('i \<times> ('e task_error + 'v)) \<times> circuit_breaker" where
  "call start now cb item outcome =
     (case is_closed start cb of
        (False, cb') \<Rightarrow> ((item, Inl CircuitBreakerOpen), cb')
      | (True, cb') \<Rightarrow> (case call_finish now cb' outcome of (r, cb'') \<Rightarrow> ((item, r), cb'')))"

record breaker_status =
  status_state :: breaker_state
  status_failures :: int
  status_successful_attempts :: int
  status_last_failure_time :: "rat option"
  is_accepting_requests :: bool

text \<open>The dictionary is built in order: the last entry may move an open breaker to half-open.\<close>

definition get_status :: "rat \<Rightarrow> circuit_breaker \<Rightarrow> breaker_status \<times> circuit_breaker" where
  "get_status now cb =
     (case is_closed now cb of
        (accepting, cb') \<Rightarrow>
          (\<lparr>status_state = state cb, status_failures = failures cb,
            status_successful_attempts = successful_attempts cb,
            status_last_failure_time = last_failure_time cb, is_accepting_requests = accepting\<rparr>, cb'))"

section \<open>The contract while closed\<close>

interpretation net: failure_counter is_closed record_success record_failure
    "\<lambda>cb. state cb = CLOSED" failures failure_threshold
  by unfold_locales (auto simp: is_closed_def record_success_def record_failure_def Let_def)

section \<open>Reachable breakers\<close>

text \<open>What can happen to a breaker, in any order: checks, outcomes of calls, a manual reset.\<close>

inductive breaker_step :: "circuit_breaker \<Rightarrow> circuit_breaker \<Rightarrow> bool" where
  check: "breaker_step cb (snd (is_closed now cb))"
| success: "breaker_step cb (record_success cb)"
| failure: "breaker_step cb (record_failure now cb)"
| resetting: "breaker_step cb (reset cb)"

inductive reachable :: "circuit_breaker \<Rightarrow> bool" where
  start: "1 \<le> threshold \<Longrightarrow> 1 \<le> attempts \<Longrightarrow> reachable (new_breaker threshold timeout attempts)"
| step: "reachable cb \<Longrightarrow> breaker_step cb cb' \<Longrightarrow> reachable cb'"

inductive_cases breaker_stepE: "breaker_step cb cb'"

definition breaker_inv :: "circuit_breaker \<Rightarrow> bool" where
  "breaker_inv cb \<longleftrightarrow>
     1 \<le> failure_threshold cb \<and> 1 \<le> half_open_attempts cb \<and> 0 \<le> failures cb \<and> 0 \<le> successful_attempts cb \<and>
     (case state cb of
        CLOSED \<Rightarrow> failures cb < failure_threshold cb \<and> successful_attempts cb = 0
      | HALF_OPEN \<Rightarrow> failures cb < failure_threshold cb \<and> successful_attempts cb < half_open_attempts cb \<and>
          last_failure_time cb \<noteq> None
      | OPEN \<Rightarrow> failure_threshold cb \<le> failures cb \<and> last_failure_time cb \<noteq> None \<and> successful_attempts cb = 0)"

lemmas breaker_ops = is_closed_def record_success_def record_failure_def reset_def recovered_def Let_def

lemma breaker_inv_step: "breaker_inv cb \<Longrightarrow> breaker_step cb cb' \<Longrightarrow> breaker_inv cb'"
  by (erule breaker_stepE; cases "state cb")
     (auto simp: breaker_inv_def breaker_ops split: option.splits)

text \<open>
  Property C31. In every reachable state of a breaker the counters fit its state: closed and
  half-open breakers have counted fewer failures than the threshold, an open one has reached it
  and knows when it last failed, and a half-open one has not yet collected the successes that
  close it.
\<close>

theorem breaker_reachable_inv:
  assumes "reachable cb"
  shows "breaker_inv cb"
  using assms
proof induction
  case (start threshold attempts timeout)
  then show ?case by (simp add: breaker_inv_def new_breaker_def)
next
  case (step cb cb')
  then show ?case using breaker_inv_step by blast
qed

theorem breaker_reachable_inv_witness:
  "breaker_inv (record_failure 3 (record_failure 2 (new_breaker 2 60 3)))"
proof (rule breaker_reachable_inv)
  have "reachable (new_breaker 2 60 3)" by (rule reachable.start) simp_all
  then have "reachable (record_failure 2 (new_breaker 2 60 3))"
    using breaker_step.failure by (rule reachable.step)
  then show "reachable (record_failure 3 (record_failure 2 (new_breaker 2 60 3)))"
    using breaker_step.failure by (rule reachable.step)
qed

section \<open>Recovery\<close>

lemma half_open_successes:
  "state cb = HALF_OPEN \<Longrightarrow> successful_attempts cb + int n < half_open_attempts cb \<Longrightarrow>
   (record_success ^^ n) cb = cb\<lparr>successful_attempts := successful_attempts cb + int n\<rparr>"
  by (induction n) (simp_all add: record_success_def Let_def)

lemma closed_successes:
  "state cb = CLOSED \<Longrightarrow> failures cb = 0 \<Longrightarrow> successful_attempts cb = 0 \<Longrightarrow> (record_success ^^ n) cb = cb"
  by (induction n) (simp_all add: record_success_def)

lemma recovery_closes:
  assumes "state cb = HALF_OPEN" "successful_attempts cb = 0" "1 \<le> half_open_attempts cb"
    "half_open_attempts cb \<le> int n"
  shows "(record_success ^^ n) cb = reset cb"
proof -
  define m where "m = nat (half_open_attempts cb) - 1"
  have m: "int m + 1 = half_open_attempts cb" using assms(3) by (simp add: m_def)
  have "(record_success ^^ m) cb = cb\<lparr>successful_attempts := int m\<rparr>"
    using half_open_successes[of cb m] assms m by simp
  then have r: "(record_success ^^ Suc m) cb = reset cb"
    using assms(1) m by (simp add: record_success_def Let_def reset_def)
  have "n = (n - Suc m) + Suc m" using assms(4) m by simp
  then have "(record_success ^^ n) cb = (record_success ^^ (n - Suc m)) (reset cb)"
    using r by (metis comp_apply funpow_add)
  also have "\<dots> = reset cb"
    by (rule closed_successes) (simp_all add: reset_def)
  finally show ?thesis .
qed

text \<open>
  An open breaker refuses every call until its recovery timeout has passed and
  changes nothing; then it goes half-open, and exactly \<open>half_open_attempts\<close> successes in a row
  close it, with all counters cleared.
\<close>

theorem breaker_recovery:
  assumes "state cb = OPEN" and "last_failure_time cb = Some t" and "t \<noteq> 0" and "1 \<le> half_open_attempts cb"
  shows "if now < t + of_int (recovery_timeout cb) then is_closed now cb = (False, cb)
    else fst (is_closed now cb) \<and>
      (state ((record_success ^^ n) (snd (is_closed now cb))) = CLOSED \<longleftrightarrow> half_open_attempts cb \<le> int n)"
proof (cases "now < t + of_int (recovery_timeout cb)")
  case True
  then show ?thesis using assms by (simp add: is_closed_def recovered_def)
next
  case False
  define cb' where "cb' = cb\<lparr>state := HALF_OPEN, failures := 0, successful_attempts := 0\<rparr>"
  have c: "is_closed now cb = (True, cb')"
    using assms False by (simp add: is_closed_def recovered_def cb'_def)
  have "state ((record_success ^^ n) cb') = CLOSED \<longleftrightarrow> half_open_attempts cb \<le> int n"
    using half_open_successes[of cb' n] recovery_closes[of cb' n] assms(4)
    by (cases "half_open_attempts cb \<le> int n") (simp_all add: cb'_def reset_def)
  with c False show ?thesis by simp
qed

theorem breaker_recovery_witness:
  "fst (is_closed 70 (record_failure 5 (new_breaker 1 60 2))) \<and>
   state ((record_success ^^ 2) (snd (is_closed 70 (record_failure 5 (new_breaker 1 60 2))))) = CLOSED"
  using breaker_recovery[of "record_failure 5 (new_breaker 1 60 2)" 5 70 2]
  by (simp add: record_failure_def new_breaker_def Let_def)

text \<open>
  A fresh breaker opens on exactly the threshold: after any run of outcomes in
  which every success comes before the threshold-th failure in a row it is closed, and
  threshold failures in a row open it.
\<close>

theorem breaker_opens_on_threshold:
  assumes "1 \<le> threshold" and "int (length ts) = threshold"
  shows "state (net.outcomes (map (Pair False) ts) (new_breaker threshold timeout attempts)) \<noteq> CLOSED \<and>
    (net.stays_closed 0 threshold os \<longrightarrow>
       state (net.outcomes os (new_breaker threshold timeout attempts)) = CLOSED)"
  using assms net.failures_open[of "new_breaker threshold timeout attempts" ts]
    net.closed_while_few_failures[of "new_breaker threshold timeout attempts" os]
  by (simp add: new_breaker_def)

theorem breaker_opens_on_threshold_witness:
  "state (net.outcomes (map (Pair False) [1, 2]) (new_breaker 2 60 3)) \<noteq> CLOSED \<and>
   state (net.outcomes [(False, 1), (True, 2), (False, 3)] (new_breaker 2 60 3)) = CLOSED"
  using breaker_opens_on_threshold[of 2 "[1, 2]" 60 3 "[(False, 1), (True, 2), (False, 3)]"] by simp

end
