(* ===== verification/Batch_Process.thy ===== *)
theory Batch_Process
  imports Circuit_Breaker
begin

text \<open>
  The generator \<open>batch_process_with_circuit_breaker\<close> of \<open>utils/network.py\<close>. The tasks of a
  round run concurrently: the scheduler decides when each of them checks the breaker and when
  its function is done, so a round is run along a schedule of such events, an argument of the
  model. The outcomes of the processed function are an argument too. Items are yielded,
  logged or retried in the order in which their tasks complete.
\<close>

section \<open>One round\<close>

text \<open>Task \<open>k\<close> checks the breaker, or its function finishes, at a time.\<close>

datatype task_event = Start nat rat | Finish nat rat

record ('i, 'e, 'v) round_state =
  breaker :: circuit_breaker
  running :: "nat list"
  completed :: "('i \<times> ('e task_error + 'v)) list"

fun run_event ::
  "'i list \<Rightarrow> (nat \<Rightarrow> 'e + 'v) \<Rightarrow> task_event \<Rightarrow> ('i, 'e, 'v) round_state \<Rightarrow> ('i, 'e, 'v) round_state" where
  "run_event batch outcome (Start k now) st =
     (case is_closed now (breaker st) of
        (True, cb) \<Rightarrow> st\<lparr>breaker := cb, running := k # running st\<rparr>
      | (False, cb) \<Rightarrow> st\<lparr>breaker := cb, completed := completed st @ [(batch ! k, Inl CircuitBreakerOpen)]\<rparr>)"
| "run_event batch outcome (Finish k now) st =
     (if k \<in> set (running st)
      then (case call_finish now (breaker st) (outcome k) of
              (r, cb) \<Rightarrow> st\<lparr>breaker := cb, running := remove1 k (running st),
                          completed := completed st @ [(batch ! k, r)]\<rparr>)
      else st)"

definition run_round ::
  "circuit_breaker \<Rightarrow> 'i list \<Rightarrow> (nat \<Rightarrow> 'e + 'v) \<Rightarrow> task_event list \<Rightarrow> ('i, 'e, 'v) round_state" where
  "run_round cb batch outcome events =
     fold (run_event batch outcome) events \<lparr>breaker = cb, running = [], completed = []\<rparr>"

text \<open>Every task of the batch starts once, and its function finishes once, after the start.\<close>

fun starts :: "task_event list \<Rightarrow> nat list" where
  "starts [] = []"
| "starts (Start k t # es) = k # starts es"
| "starts (Finish k t # es) = starts es"

fun finishes :: "task_event list \<Rightarrow> nat list" where
  "finishes [] = []"
| "finishes (Start k t # es) = finishes es"
| "finishes (Finish k t # es) = k # finishes es"

fun ordered :: "nat list \<Rightarrow> task_event list \<Rightarrow> bool" where
  "ordered started [] = True"
| "ordered started (Start k t # es) = ordered (k # started) es"
| "ordered started (Finish k t # es) = (k \<in> set started \<and> ordered started es)"

definition complete_schedule :: "nat \<Rightarrow> task_event list \<Rightarrow> bool" where
  "complete_schedule n es \<longleftrightarrow> mset (starts es) = mset [0..<n] \<and> mset (finishes es) = mset [0..<n] \<and> ordered [] es"

section \<open>The rounds of a batch and the batches\<close>

fun retryable_error :: "('e \<Rightarrow> bool) \<Rightarrow> 'e task_error \<Rightarrow> bool" where
  "retryable_error retry_exceptions CircuitBreakerOpen = True"
| "retryable_error retry_exceptions (Raised e) = retry_exceptions e"

text \<open>What the rounds produce: values yielded, items with an unexpected error (logged), items given up.\<close>

record ('i, 'v) batch_log =
  yielded :: "('i \<times> 'v) list"
  logged :: "'i list"
  abandoned :: "'i list"
  sleeps :: "int list"
  rounds :: nat

definition split_round ::
  "('e \<Rightarrow> bool) \<Rightarrow> ('i \<times> ('e task_error + 'v)) list \<Rightarrow> ('i \<times> 'v) list \<times> 'i list \<times> 'i list" where
  "split_round retry_exceptions results =
     (concat (map (\<lambda>(i, r). case r of Inr v \<Rightarrow> [(i, v)] | Inl e \<Rightarrow> []) results),
      concat (map (\<lambda>(i, r). case r of Inr v \<Rightarrow> [] | Inl e \<Rightarrow> if retryable_error retry_exceptions e then [] else [i]) results),
      concat (map (\<lambda>(i, r). case r of Inr v \<Rightarrow> [] | Inl e \<Rightarrow> if retryable_error retry_exceptions e then [i] else []) results))"

text \<open>
  The \<open>while batch\<close> loop; \<open>retries_left\<close> is \<open>max_retries - batch_retries\<close>. \<open>schedule\<close> and
  \<open>outcome\<close> give, for the number of the round since the start, how its tasks run.
\<close>

fun process_batch ::
  "('e \<Rightarrow> bool) \<Rightarrow> int \<Rightarrow> (nat \<Rightarrow> nat \<Rightarrow> task_event list) \<Rightarrow> (nat \<Rightarrow> 'i list \<Rightarrow> nat \<Rightarrow> 'e + 'v) \<Rightarrow>
   nat \<Rightarrow> circuit_breaker \<Rightarrow> 'i list \<Rightarrow> ('i, 'v) batch_log \<Rightarrow> circuit_breaker \<times> ('i, 'v) batch_log" where
  "process_batch retry_exceptions rate_limit_delay schedule outcome retries_left cb batch lg =
     (if batch = [] then (cb, lg)
      else let st = run_round cb batch (outcome (rounds lg) batch) (schedule (rounds lg) (length batch));
               cb' = breaker st;
               parts = split_round retry_exceptions (completed st);
               retry_batch = snd (snd parts);
               lg' = lg\<lparr>yielded := yielded lg @ fst parts, logged := logged lg @ fst (snd parts),
                        rounds := rounds lg + 1\<rparr>
           in if retry_batch = [] then (cb', lg')
              else case retries_left of
                     0 \<Rightarrow> (cb', lg'\<lparr>abandoned := abandoned lg' @ retry_batch\<rparr>)
                   | Suc n \<Rightarrow>
                       process_batch retry_exceptions rate_limit_delay schedule outcome n cb' retry_batch
                         (lg'\<lparr>sleeps := sleeps lg' @ [recovery_timeout cb', rate_limit_delay]\<rparr>))"

declare process_batch.simps [simp del]

text \<open>\<open>range(0, len(data), batch_size)\<close>: a zero step raises, a negative one gives no batch.\<close>

fun chunks :: "nat \<Rightarrow> nat \<Rightarrow> 'i list \<Rightarrow> 'i list list" where
  "chunks 0 n xs = []"
| "chunks (Suc fuel) n xs = (if xs = [] then [] else take n xs # chunks fuel n (drop n xs))"

definition batches :: "int \<Rightarrow> 'i list \<Rightarrow> 'i list list py_result" where
  "batches batch_size data =
     (if batch_size = 0 then Inl ValueError
      else if batch_size < 0 then Inr []
      else Inr (chunks (length data) (nat batch_size) data))"

fun process_batches ::
  "('e \<Rightarrow> bool) \<Rightarrow> int \<Rightarrow> (nat \<Rightarrow> nat \<Rightarrow> task_event list) \<Rightarrow> (nat \<Rightarrow> 'i list \<Rightarrow> nat \<Rightarrow> 'e + 'v) \<Rightarrow>
   nat \<Rightarrow> circuit_breaker \<Rightarrow> 'i list list \<Rightarrow> ('i, 'v) batch_log \<Rightarrow> circuit_breaker \<times> ('i, 'v) batch_log" where
  "process_batches retry_exceptions rate_limit_delay schedule outcome max_retries cb [] lg = (cb, lg)"
| "process_batches retry_exceptions rate_limit_delay schedule outcome max_retries cb (b # bs) lg =
     (case process_batch retry_exceptions rate_limit_delay schedule outcome max_retries cb b lg of
        (cb', lg') \<Rightarrow> process_batches retry_exceptions rate_limit_delay schedule outcome max_retries cb' bs lg')"

definition batch_process_with_circuit_breaker ::
  "('e \<Rightarrow> bool) \<Rightarrow> int \<Rightarrow> (nat \<Rightarrow> nat \<Rightarrow> task_event list) \<Rightarrow> (nat \<Rightarrow> 'i list \<Rightarrow> nat \<Rightarrow> 'e + 'v) \<Rightarrow>
   nat \<Rightarrow> circuit_breaker \<Rightarrow> 'i list \<Rightarrow> int \<Rightarrow> (circuit_breaker \<times> ('i, 'v) batch_log) py_result" where
  "batch_process_with_circuit_breaker retry_exceptions rate_limit_delay schedule outcome max_retries cb data batch_size =
     map_sum id (\<lambda>bs. process_batches retry_exceptions rate_limit_delay schedule outcome max_retries cb bs
       \<lparr>yielded = [], logged = [], abandoned = [], sleeps = [], rounds = 0\<rparr>) (batches batch_size data)"

section \<open>A round completes every task once\<close>

text \<open>What holds between the events of a complete schedule.\<close>

definition round_ok :: "nat list \<Rightarrow> task_event list \<Rightarrow> ('i, 'e, 'v) round_state \<Rightarrow> bool" where
  "round_ok started es st \<longleftrightarrow>
     ordered started es \<and> distinct (starts es) \<and> set started \<inter> set (starts es) = {} \<and>
     distinct (finishes es) \<and> set (running st) \<subseteq> set started \<and> distinct (running st) \<and>
     set (running st) \<subseteq> set (finishes es) \<and> set (starts es) \<subseteq> set (finishes es)"

text \<open>The items of the tasks that have completed, are running, or have yet to start.\<close>

definition round_items :: "'i list \<Rightarrow> task_event list \<Rightarrow> ('i, 'e, 'v) round_state \<Rightarrow> 'i multiset" where
  "round_items batch es st =
     mset (map fst (completed st)) + mset (map ((!) batch) (running st)) + mset (map ((!) batch) (starts es))"

lemma mset_map_remove1: "k \<in> set xs \<Longrightarrow> add_mset (f k) (mset (map f (remove1 k xs))) = mset (map f xs)"
  by (induction xs) auto

lemma round_start:
  assumes "round_ok started (Start k t # es) st"
  shows "round_ok (k # started) es (run_event batch outcome (Start k t) st) \<and>
    round_items batch es (run_event batch outcome (Start k t) st) = round_items batch (Start k t # es) st"
proof -
  obtain ok cb where c: "is_closed t (breaker st) = (ok, cb)" by (cases "is_closed t (breaker st)")
  have "k \<notin> set (running st)" using assms by (auto simp: round_ok_def)
  with assms c show ?thesis
    by (cases ok) (auto simp: round_ok_def round_items_def)
qed

lemma round_finish:
  assumes "round_ok started (Finish k t # es) st"
  shows "round_ok started es (run_event batch outcome (Finish k t) st) \<and>
    round_items batch es (run_event batch outcome (Finish k t) st) = round_items batch (Finish k t # es) st"
proof (cases "k \<in> set (running st)")
  case True
  obtain r cb where c: "call_finish t (breaker st) (outcome k) = (r, cb)"
    by (cases "call_finish t (breaker st) (outcome k)")
  have "set (remove1 k (running st)) = set (running st) - {k}"
    using assms by (simp add: round_ok_def)
  with assms c True have "round_ok started es (run_event batch outcome (Finish k t) st)"
    by (auto simp: round_ok_def)
  moreover have "round_items batch es (run_event batch outcome (Finish k t) st) = round_items batch (Finish k t # es) st"
    using c True mset_map_remove1[OF True, of "(!) batch", symmetric] by (simp add: round_items_def)
  ultimately show ?thesis by blast
next
  case False
  with assms show ?thesis by (auto simp: round_ok_def round_items_def)
qed

lemma round_conservation:
  "round_ok started es st \<Longrightarrow>
   mset (map fst (completed (fold (run_event batch outcome) es st))) = round_items batch es st"
proof (induction es arbitrary: started st)
  case Nil
  then show ?case by (simp add: round_ok_def round_items_def)
next
  case (Cons e es)
  show ?case
  proof (cases e)
    case (Start k t)
    then show ?thesis
      using Cons.IH[of "k # started" "run_event batch outcome e st"] Cons.prems
        round_start[of started k t es st batch outcome] by simp
  next
    case (Finish k t)
    then show ?thesis
      using Cons.IH[of started "run_event batch outcome e st"] Cons.prems
        round_finish[of started k t es st batch outcome] by simp
  qed
qed

lemma run_round_items:
  assumes "complete_schedule (length batch) es"
  shows "mset (map fst (completed (run_round cb batch outcome es))) = mset batch"
proof -
  have s: "mset (starts es) = mset [0..<length batch]" "mset (finishes es) = mset [0..<length batch]"
    and o: "ordered [] es"
    using assms by (simp_all add: complete_schedule_def)
  have d: "distinct (starts es)" "distinct (finishes es)" "set (starts es) = set (finishes es)"
    using s by (metis distinct_upt mset_eq_imp_distinct_iff, metis distinct_upt mset_eq_imp_distinct_iff, metis mset_eq_setD)
  have "round_ok [] es \<lparr>breaker = cb, running = [], completed = []\<rparr>"
    using o d by (simp add: round_ok_def)
  from round_conservation[OF this, of batch outcome]
  have "mset (map fst (completed (run_round cb batch outcome es))) = image_mset ((!) batch) (mset (starts es))"
    by (simp add: run_round_def round_items_def)
  also have "\<dots> = mset (map ((!) batch) [0..<length batch])"
    by (simp add: s)
  also have "\<dots> = mset batch" by (simp only: map_nth)
  finally show ?thesis .
qed

lemma split_round_items:
  "mset (map fst (fst (split_round p results))) + mset (fst (snd (split_round p results))) +
   mset (snd (snd (split_round p results))) = mset (map fst results)"
  by (induction results) (auto simp: split_round_def split: sum.splits)

section \<open>Every item is accounted for\<close>

definition log_items :: "('i, 'v) batch_log \<Rightarrow> 'i multiset" where
  "log_items lg = mset (map fst (yielded lg)) + mset (logged lg) + mset (abandoned lg)"

lemma process_batch_items:
  assumes sched: "\<And>r n. complete_schedule n (schedule r n)"
  shows "process_batch p delay schedule outcome retries cb batch lg = (cb', lg') \<Longrightarrow>
    log_items lg' = log_items lg + mset batch \<and> rounds lg' \<le> rounds lg + retries + 1"
proof (induction retries arbitrary: cb batch lg)
  case 0
  define st where "st = run_round cb batch (outcome (rounds lg) batch) (schedule (rounds lg) (length batch))"
  have "mset (map fst (completed st)) = mset batch"
    unfolding st_def by (rule run_round_items[OF sched])
  with 0 split_round_items[of p "completed st"] show ?case
    by (auto simp: process_batch.simps[of _ _ _ _ 0] st_def[symmetric] log_items_def Let_def union_ac
        split: if_splits)
next
  case (Suc retries)
  define st where "st = run_round cb batch (outcome (rounds lg) batch) (schedule (rounds lg) (length batch))"
  define parts where "parts = split_round p (completed st)"
  define lg1 where "lg1 = lg\<lparr>yielded := yielded lg @ fst parts, logged := logged lg @ fst (snd parts),
      rounds := rounds lg + 1\<rparr>"
  have items: "mset (map fst (completed st)) = mset batch"
    unfolding st_def by (rule run_round_items[OF sched])
  have all: "mset (map fst (fst parts)) + mset (fst (snd parts)) + mset (snd (snd parts)) = mset batch"
    using split_round_items[of p "completed st"] items by (simp add: parts_def)
  have step: "process_batch p delay schedule outcome (Suc retries) cb batch lg =
      (if batch = [] then (cb, lg)
       else if snd (snd parts) = [] then (breaker st, lg1)
       else process_batch p delay schedule outcome retries (breaker st) (snd (snd parts))
              (lg1\<lparr>sleeps := sleeps lg1 @ [recovery_timeout (breaker st), delay]\<rparr>))"
    by (simp add: process_batch.simps[of _ _ _ _ "Suc retries"] st_def parts_def lg1_def Let_def)
  have lg1: "log_items lg1 + mset (snd (snd parts)) = log_items lg + mset batch"
    "rounds lg1 = rounds lg + 1"
    using all by (simp_all add: lg1_def log_items_def union_ac)
  have set_sleeps: "log_items (lg1\<lparr>sleeps := s\<rparr>) = log_items lg1" "rounds (lg1\<lparr>sleeps := s\<rparr>) = rounds lg1" for s
    by (simp_all add: log_items_def)
  show ?case
  proof (cases "batch = [] \<or> snd (snd parts) = []")
    case True
    then show ?thesis using Suc.prems step lg1 by (auto split: if_splits)
  next
    case False
    then have "process_batch p delay schedule outcome retries (breaker st) (snd (snd parts))
              (lg1\<lparr>sleeps := sleeps lg1 @ [recovery_timeout (breaker st), delay]\<rparr>) = (cb', lg')"
      using Suc.prems step by simp
    from Suc.IH[OF this] show ?thesis by (simp add: set_sleeps lg1)
  qed
qed

lemma process_batches_items:
  assumes "\<And>r n. complete_schedule n (schedule r n)"
  shows "process_batches p delay schedule outcome retries cb bs lg = (cb', lg') \<Longrightarrow>
    log_items lg' = log_items lg + mset (concat bs) \<and> rounds lg' \<le> rounds lg + (retries + 1) * length bs"
proof (induction bs arbitrary: cb lg)
  case (Cons b bs)
  obtain cb1 lg1 where b: "process_batch p delay schedule outcome retries cb b lg = (cb1, lg1)"
    by (cases "process_batch p delay schedule outcome retries cb b lg")
  with Cons.prems Cons.IH[of cb1 lg1] process_batch_items[OF assms b] show ?case by (simp add: union_ac)
qed simp

lemma concat_chunks: "0 < n \<Longrightarrow> length xs \<le> fuel \<Longrightarrow> concat (chunks fuel n xs) = xs"
  by (induction fuel n xs rule: chunks.induct) auto

lemma length_chunks: "0 < n \<Longrightarrow> n * length (chunks fuel n xs) \<le> length xs + (n - 1)"
proof (induction fuel n xs rule: chunks.induct)
  case (2 fuel n xs)
  then show ?case by (cases "n \<le> length xs"; cases fuel; cases xs) auto
qed simp

text \<open>
  Property C7. Batch processing loses and duplicates nothing: for a positive batch size and any
  interleaving of the tasks of a round, every item of the data is, with its multiplicity,
  exactly one of yielded, logged with an unexpected error, or given up after the retries; and a
  batch runs at most \<open>max_retries\<close> + 1 rounds.
\<close>

theorem batch_process_conserves_items:
  assumes "\<And>r n. complete_schedule n (schedule r n)" and "0 < batch_size"
  shows "\<exists>cb' lg. batch_process_with_circuit_breaker retry_exceptions delay schedule outcome max_retries cb data
      batch_size = Inr (cb', lg) \<and>
    mset (map fst (yielded lg)) + mset (logged lg) + mset (abandoned lg) = mset data \<and>
    rounds lg \<le> (max_retries + 1) * length (chunks (length data) (nat batch_size) data)"
proof -
  let ?lg = "\<lparr>yielded = [], logged = [], abandoned = [], sleeps = [], rounds = 0\<rparr>"
  let ?bs = "chunks (length data) (nat batch_size) data"
  obtain cb' lg' where r: "process_batches retry_exceptions delay schedule outcome max_retries cb ?bs ?lg = (cb', lg')"
    by (cases "process_batches retry_exceptions delay schedule outcome max_retries cb ?bs ?lg")
  have "concat ?bs = data" using assms(2) by (intro concat_chunks) auto
  with process_batches_items[OF assms(1) r] have
    "log_items lg' = mset data" "rounds lg' \<le> (max_retries + 1) * length ?bs"
    by (simp_all add: log_items_def)
  then show ?thesis
    using r assms(2) by (simp add: batch_process_with_circuit_breaker_def batches_def log_items_def)
qed

text \<open>A scheduler that runs the tasks of a round one after the other.\<close>

definition sequential :: "nat \<Rightarrow> nat \<Rightarrow> task_event list" where
  "sequential r n = map (\<lambda>k. Start k 0) [0..<n] @ map (\<lambda>k. Finish k 1) [0..<n]"

lemma starts_append: "starts (a @ b) = starts a @ starts b"
  by (induction a rule: starts.induct) auto

lemma finishes_append: "finishes (a @ b) = finishes a @ finishes b"
  by (induction a rule: finishes.induct) auto

lemma ordered_starts: "ordered s (map (\<lambda>k. Start k t) ks @ es) = ordered (rev ks @ s) es"
  by (induction ks arbitrary: s) auto

lemma ordered_finishes: "set ks \<subseteq> set s \<Longrightarrow> ordered s (map (\<lambda>k. Finish k t) ks)"
  by (induction ks) auto

lemma starts_map:
  "starts (map (\<lambda>k. Start k t) ks) = ks" "starts (map (\<lambda>k. Finish k t) ks) = []"
  "finishes (map (\<lambda>k. Start k t) ks) = []" "finishes (map (\<lambda>k. Finish k t) ks) = ks"
  by (induction ks) auto

lemma sequential_complete: "complete_schedule n (sequential r n)"
  by (simp add: complete_schedule_def sequential_def starts_append finishes_append starts_map ordered_starts
      ordered_finishes)

theorem batch_process_conserves_items_witness:
  "\<exists>cb' lg. batch_process_with_circuit_breaker (\<lambda>e::int. e = 1) 1 sequential
      (\<lambda>r b k. if b ! k = (7::int) then Inl 1 else if b ! k = 8 then Inl 2 else Inr (b ! k * 2)) 2
      (new_breaker 10 60 3) [5, 7, 8, 5] 3 = Inr (cb', lg) \<and>
    mset (map fst (yielded lg)) + mset (logged lg) + mset (abandoned lg) = mset [5, 7, 8, 5] \<and>
    rounds lg \<le> (2 + 1) * length (chunks (length [5, 7, 8, 5::int]) (nat 3) [5, 7, 8, 5::int])"
  by (rule batch_process_conserves_items[OF sequential_complete]) simp

section \<open>The delays\<close>

definition all_fine :: "('i, 'e, 'v) round_state \<Rightarrow> bool" where
  "all_fine st \<longleftrightarrow> state (breaker st) = CLOSED \<and> (\<forall>(i, r) \<in> set (completed st). \<exists>v. r = Inr v)"

lemma run_event_fine:
  "all_fine st \<Longrightarrow> (\<And>k. \<exists>v. outcome k = Inr v) \<Longrightarrow> all_fine (run_event batch outcome ev st)"
proof (cases ev)
  case (Start k t)
  then show "all_fine st \<Longrightarrow> ?thesis" by (simp add: all_fine_def is_closed_def)
next
  case (Finish k t)
  assume "all_fine st" "\<And>k. \<exists>v. outcome k = Inr v"
  moreover from this obtain v where "outcome k = Inr v" by blast
  ultimately show ?thesis
    using Finish by (auto simp: all_fine_def call_finish_def record_success_def)
qed

lemma run_round_fine:
  assumes "state cb = CLOSED" and "\<And>k. \<exists>v. outcome k = Inr v"
  shows "all_fine (run_round cb batch outcome es)"
proof -
  have f: "all_fine st \<Longrightarrow> all_fine (fold (run_event batch outcome) es st)" for st
    by (induction es arbitrary: st) (simp_all add: run_event_fine[OF _ assms(2)])
  have "all_fine \<lparr>breaker = cb, running = [], completed = []\<rparr>"
    using assms(1) by (simp add: all_fine_def)
  from f[OF this] show ?thesis by (simp add: run_round_def)
qed

lemma split_round_fine:
  "\<forall>(i, r) \<in> set results. \<exists>v. r = Inr v \<Longrightarrow> snd (split_round p results) = ([], [])"
  by (induction results) (auto simp: split_round_def)

lemma process_batch_fine:
  assumes "state cb = CLOSED" and "\<And>r b k. \<exists>v. outcome r b k = Inr v"
    and "process_batch p delay schedule outcome retries cb batch lg = (cb', lg')"
  shows "state cb' = CLOSED \<and> sleeps lg' = sleeps lg"
proof -
  have "all_fine (run_round cb batch (outcome (rounds lg) batch) (schedule (rounds lg) (length batch)))"
    using assms(1,2) by (intro run_round_fine) auto
  then show ?thesis
    using assms(3) split_round_fine[of "completed (run_round cb batch (outcome (rounds lg) batch)
        (schedule (rounds lg) (length batch)))" p] assms(1)
    by (auto simp: process_batch.simps[of _ _ _ _ retries] Let_def all_fine_def split: if_splits)
qed

text \<open>
  The rate limit is not applied between batches: while the function succeeds and
  the breaker is closed, the generator never sleeps, whatever the number of batches and the
  delay; only a retry sleeps.
\<close>

theorem batch_process_never_sleeps_on_success:
  assumes "state cb = CLOSED" and "\<And>r b k. \<exists>v. outcome r b k = Inr v"
    and "batch_process_with_circuit_breaker retry_exceptions delay schedule outcome max_retries cb data batch_size =
      Inr (cb', lg)"
  shows "sleeps lg = []"
proof -
  have "process_batches retry_exceptions delay schedule outcome max_retries cb bs lg0 = (cb', lg) \<Longrightarrow>
      sleeps lg = sleeps lg0" for bs lg0
    using assms(1)
  proof (induction bs arbitrary: cb lg0)
    case (Cons b bs)
    obtain cb1 lg1 where b: "process_batch retry_exceptions delay schedule outcome max_retries cb b lg0 = (cb1, lg1)"
      by (cases "process_batch retry_exceptions delay schedule outcome max_retries cb b lg0")
    with Cons.prems Cons.IH[of cb1 lg1] process_batch_fine[OF Cons.prems(2) assms(2) b] show ?case by simp
  qed simp
  then show ?thesis
    using assms(3) by (cases "batches batch_size data") (auto simp: batch_process_with_circuit_breaker_def)
qed

theorem batch_process_never_sleeps_on_success_witness:
  "\<exists>cb' lg. batch_process_with_circuit_breaker (\<lambda>e::int. True) 1000 sequential (\<lambda>r b k. Inr (b ! k :: int)) 2
      (new_breaker 10 60 3) [5, 7, 8 :: int] 1 = Inr (cb', lg) \<and> sleeps lg = []"
proof -
  let ?r = "batch_process_with_circuit_breaker (\<lambda>e::int. True) 1000 sequential (\<lambda>r b k. Inr (b ! k :: int)) 2
      (new_breaker 10 60 3) [5, 7, 8 :: int] 1"
  obtain cb' lg where r: "?r = Inr (cb', lg)"
    by (auto simp: batch_process_with_circuit_breaker_def batches_def)
       (metis surj_pair)
  have "sleeps lg = []"
    by (rule batch_process_never_sleeps_on_success[OF _ _ r]) (simp_all add: new_breaker_def)
  with r show ?thesis by blast
qed

end
