(* ===== verification/Redis_Client.thy ===== *)
theory Redis_Client
  imports Py_Value Breaker_Contract
begin

text \<open>
  The Redis client of \<open>db/redis_database.py\<close>: the circuit breaker, the retry loop and the
  wrapper's methods. The server is an argument: the outcome of each attempt, an exception or a
  value. The asynchronous and the synchronous variants of the code differ in \<open>await\<close> only and
  share a definition. Times are rational numbers of seconds.
\<close>

section \<open>The circuit breaker\<close>

datatype redis_breaker_state = BREAKER_CLOSED | BREAKER_OPEN | BREAKER_HALF_OPEN

record redis_breaker =
  rb_failure_threshold :: int
  rb_recovery_timeout :: int
  rb_failure_count :: int
  rb_last_failure_time :: "rat option"
  rb_state :: redis_breaker_state

definition redis_circuit_breaker :: redis_breaker where
  "redis_circuit_breaker =
     \<lparr>rb_failure_threshold = 5, rb_recovery_timeout = 60, rb_failure_count = 0, rb_last_failure_time = None,
      rb_state = BREAKER_CLOSED\<rparr>"

definition should_attempt_reset :: "rat \<Rightarrow> redis_breaker \<Rightarrow> bool" where
  "should_attempt_reset now b =
     (case rb_last_failure_time b of
        None \<Rightarrow> True
      | Some t \<Rightarrow> if t = 0 then True else of_int (rb_recovery_timeout b) < now - t)"

definition on_success :: "redis_breaker \<Rightarrow> redis_breaker" where
  "on_success b = b\<lparr>rb_failure_count := 0, rb_state := BREAKER_CLOSED\<rparr>"

definition on_failure :: "rat \<Rightarrow> redis_breaker \<Rightarrow> redis_breaker" where
  "on_failure now b =
     (let b = b\<lparr>rb_failure_count := rb_failure_count b + 1, rb_last_failure_time := Some now\<rparr>
      in if rb_failure_threshold b \<le> rb_failure_count b then b\<lparr>rb_state := BREAKER_OPEN\<rparr> else b)"

text \<open>The check at the head of the two wrappers.\<close>

definition breaker_admits :: "rat \<Rightarrow> redis_breaker \<Rightarrow> bool \<times> redis_breaker" where
  "breaker_admits now b =
     (if rb_state b = BREAKER_OPEN
      then if should_attempt_reset now b then (True, b\<lparr>rb_state := BREAKER_HALF_OPEN\<rparr>) else (False, b)
      else (True, b))"

section \<open>Values and commands\<close>

datatype rval =
    RNone
  | RBool bool
  | RInt int
  | RFloat rat
  | RStr string
  | RList "rval list"
  | RTuple "rval list"
  | RSet "rval list"
  | RDict "(rval \<times> rval) list"

text \<open>
  The wrapper around a function: \<open>expected\<close> are the exceptions the breaker counts; the others
  are swallowed without being counted.
\<close>

definition breaker_call ::
  "('e \<Rightarrow> bool) \<Rightarrow> rat \<Rightarrow> rat \<Rightarrow> redis_breaker \<Rightarrow> 'e + rval \<Rightarrow> rval \<times> redis_breaker" where
  "breaker_call expected start now b outcome =
     (case breaker_admits start b of
        (False, b') \<Rightarrow> (RNone, b')
      | (True, b') \<Rightarrow>
          (case outcome of
             Inr v \<Rightarrow> (v, on_success b')
           | Inl e \<Rightarrow> if expected e then (RNone, on_failure now b') else (RNone, b')))"

section \<open>Retries\<close>

text \<open>What a call raises: an exception of the operation, \<open>raise None\<close>, or a missing argument.\<close>

datatype 'e raised = Raised_by 'e | Raised_None | Missing_Argument

record retry_settings =
  redis_retry_attempts :: int
  redis_retry_delay :: rat

fun retry_from ::
  "('e \<Rightarrow> bool) \<Rightarrow> retry_settings \<Rightarrow> (nat \<Rightarrow> 'e + rval) \<Rightarrow> nat \<Rightarrow> nat \<Rightarrow> 'e raised \<Rightarrow> ('e raised + rval) \<times> rat list" where
  "retry_from connection_error cfg operation 0 attempt last_exception = (Inl last_exception, [])"
| "retry_from connection_error cfg operation (Suc n) attempt last_exception =
     (case operation attempt of
        Inr v \<Rightarrow> (Inr v, [])
      | Inl e \<Rightarrow>
          if connection_error e
          then let sleeps = (if int attempt < redis_retry_attempts cfg - 1
                             then [redis_retry_delay cfg * 2 ^ attempt] else [])
               in case retry_from connection_error cfg operation n (attempt + 1) (Raised_by e) of
                    (r, later) \<Rightarrow> (r, sleeps @ later)
          else (Inl (Raised_by e), []))"

text \<open>\<open>operation_name\<close> is a required argument: a call without it raises before the first attempt.\<close>

definition execute_with_retry ::
  "('e \<Rightarrow> bool) \<Rightarrow> retry_settings \<Rightarrow> (nat \<Rightarrow> 'e + rval) \<Rightarrow> string option \<Rightarrow> ('e raised + rval) \<times> rat list" where
  "execute_with_retry connection_error cfg operation operation_name =
     (case operation_name of
        None \<Rightarrow> (Inl Missing_Argument, [])
      | Some name \<Rightarrow> retry_from connection_error cfg operation (nat (redis_retry_attempts cfg)) 0 Raised_None)"

section \<open>The wrapper's methods\<close>

text \<open>A method names a command of the client, passes its arguments on, and has a default value.\<close>

record redis_command =
  method_name :: string
  arguments :: "rval list"
  keyword_args :: "(string \<times> rval) list"
  default_return :: rval

abbreviation command :: "string \<Rightarrow> rval list \<Rightarrow> rval \<Rightarrow> redis_command" where
  "command name args d \<equiv> \<lparr>method_name = name, arguments = args, keyword_args = [], default_return = d\<rparr>"

abbreviation command_kw :: "string \<Rightarrow> rval list \<Rightarrow> (string \<times> rval) list \<Rightarrow> rval \<Rightarrow> redis_command" where
  "command_kw name args kw d \<equiv> \<lparr>method_name = name, arguments = args, keyword_args = kw, default_return = d\<rparr>"

text \<open>Truth of an argument, and the keyword arguments a method passes when they are given.\<close>

fun rtruth :: "rval \<Rightarrow> bool" where
  "rtruth RNone = False"
| "rtruth (RBool b) = b"
| "rtruth (RInt i) = (i \<noteq> 0)"
| "rtruth (RFloat r) = (r \<noteq> 0)"
| "rtruth (RStr s) = (s \<noteq> [])"
| "rtruth (RList xs) = (xs \<noteq> [])"
| "rtruth (RTuple xs) = (xs \<noteq> [])"
| "rtruth (RSet xs) = (xs \<noteq> [])"
| "rtruth (RDict xs) = (xs \<noteq> [])"

definition if_truthy :: "string \<Rightarrow> rval \<Rightarrow> (string \<times> rval) list" where
  "if_truthy name v = (if rtruth v then [(name, v)] else [])"

definition if_given :: "string \<Rightarrow> rval \<Rightarrow> (string \<times> rval) list" where
  "if_given name v = (if v \<noteq> RNone then [(name, v)] else [])"

datatype keyspace_op =
    Op_get rval
  | Op_mget rval
  | Op_getex rval rval
  | Op_set rval rval rval "(string \<times> rval) list"
  | Op_setex rval rval rval "(string \<times> rval) list"
  | Op_delete "rval list"
  | Op_exists rval
  | Op_hget rval rval
  | Op_hset rval rval rval rval
  | Op_hsetnx rval rval rval
  | Op_hincrby rval rval rval
  | Op_hincrbyfloat rval rval rval
  | Op_hlen rval
  | Op_hgetall rval
  | Op_hmget rval rval
  | Op_hdel rval "rval list"
  | Op_hscan rval rval rval rval

fun keyspace_command :: "keyspace_op \<Rightarrow> redis_command" where
  "keyspace_command (Op_get key) = command ''get'' [key] RNone"
| "keyspace_command (Op_mget ks) = command ''mget'' [ks] (RList [])"
| "keyspace_command (Op_getex key ex) = command ''getex'' [key, ex] RNone"
| "keyspace_command (Op_set key v ex kwargs) = command_kw ''set'' [key, v] ((''ex'', ex) # kwargs) (RBool False)"
| "keyspace_command (Op_setex key ex v kwargs) = command_kw ''setex'' [key, ex, v] kwargs (RBool False)"
| "keyspace_command (Op_delete ks) = command ''delete'' ks (RInt 0)"
| "keyspace_command (Op_exists key) = command ''exists'' [key] (RBool False)"
| "keyspace_command (Op_hget name key) = command ''hget'' [name, key] RNone"
| "keyspace_command (Op_hset name key v mapping) = (if rtruth mapping then command_kw ''hset'' [name] [(''mapping'', mapping)] (RInt 0)
      else command ''hset'' [name, key, v] (RInt 0))"
| "keyspace_command (Op_hsetnx name key v) = command ''hsetnx'' [name, key, v] (RBool False)"
| "keyspace_command (Op_hincrby name key amount) = command ''hincrby'' [name, key, amount] (RInt 0)"
| "keyspace_command (Op_hincrbyfloat name key amount) = command ''hincrbyfloat'' [name, key, amount] (RFloat 0)"
| "keyspace_command (Op_hlen name) = command ''hlen'' [name] (RInt 0)"
| "keyspace_command (Op_hgetall name) = command ''hgetall'' [name] (RDict [])"
| "keyspace_command (Op_hmget name ks) = command ''hmget'' [name, ks] (RList [])"
| "keyspace_command (Op_hdel name ks) = command ''hdel'' (name # ks) (RInt 0)"
| "keyspace_command (Op_hscan name cursor pat cnt) = command_kw ''hscan'' [name, cursor] (if_truthy ''match'' pat @ if_truthy ''count'' cnt) (RTuple [RInt 0, RDict []])"

datatype collection_op =
    Op_zadd rval rval
  | Op_zscore rval rval
  | Op_zremrangebyscore rval rval rval
  | Op_zrevrangebyscore rval rval rval rval rval rval
  | Op_zrem rval "rval list"
  | Op_sadd rval "rval list"
  | Op_sismember rval rval
  | Op_srem rval "rval list"
  | Op_smembers rval
  | Op_scard rval
  | Op_lrange rval rval rval
  | Op_lpush rval "rval list"
  | Op_rpush rval "rval list"
  | Op_ltrim rval rval rval
  | Op_llen rval

fun collection_command :: "collection_op \<Rightarrow> redis_command" where
  "collection_command (Op_zadd name mapping) = command ''zadd'' [name, mapping] (RInt 0)"
| "collection_command (Op_zscore name v) = command ''zscore'' [name, v] RNone"
| "collection_command (Op_zremrangebyscore name lo hi) = command ''zremrangebyscore'' [name, lo, hi] (RInt 0)"
| "collection_command (Op_zrevrangebyscore name hi lo first number withscores) = command_kw ''zrevrangebyscore'' [name, hi, lo] (if_given ''start'' first @ if_given ''num'' number @ if_truthy ''withscores'' withscores) (RList [])"
| "collection_command (Op_zrem name values) = command ''zrem'' (name # values) (RInt 0)"
| "collection_command (Op_sadd name values) = command ''sadd'' (name # values) (RInt 0)"
| "collection_command (Op_sismember name v) = command ''sismember'' [name, v] (RBool False)"
| "collection_command (Op_srem name values) = command ''srem'' (name # values) (RInt 0)"
| "collection_command (Op_smembers name) = command ''smembers'' [name] (RSet [])"
| "collection_command (Op_scard name) = command ''scard'' [name] (RInt 0)"
| "collection_command (Op_lrange name first stop) = command ''lrange'' [name, first, stop] (RList [])"
| "collection_command (Op_lpush name values) = command ''lpush'' (name # values) (RInt 0)"
| "collection_command (Op_rpush name values) = command ''rpush'' (name # values) (RInt 0)"
| "collection_command (Op_ltrim name first stop) = command ''ltrim'' [name, first, stop] (RBool False)"
| "collection_command (Op_llen name) = command ''llen'' [name] (RInt 0)"

datatype server_op =
    Op_keys rval
  | Op_expire rval rval
  | Op_execute "rval list" "(string \<times> rval) list"
  | Op_incr rval
  | Op_incrby rval rval
  | Op_watch "rval list"
  | Op_unwatch
  | Op_info rval
  | Op_type rval
  | Op_ttl rval
  | Op_zcard rval
  | Op_zrange rval rval rval rval
  | Op_zrevrange rval rval rval rval
  | Op_zremrangebyrank rval rval rval
  | Op_pfadd rval "rval list"
  | Op_pfcount "rval list"
  | Op_memory_usage rval
  | Op_scan rval rval rval

fun server_command :: "server_op \<Rightarrow> redis_command" where
  "server_command (Op_keys pattern) = command ''keys'' [pattern] (RList [])"
| "server_command (Op_expire key ex) = command ''expire'' [key, ex] (RBool False)"
| "server_command (Op_execute args kwargs) = command_kw ''execute'' args kwargs RNone"
| "server_command (Op_incr name) = command ''incr'' [name] (RInt 0)"
| "server_command (Op_incrby name amount) = command ''incrby'' [name, amount] (RInt 0)"
| "server_command (Op_watch names) = command ''watch'' names RNone"
| "server_command Op_unwatch = command ''unwatch'' [] RNone"
| "server_command (Op_info section) = (if rtruth section then command ''info'' [section] (RDict []) else command ''info'' [] (RDict []))"
| "server_command (Op_type key) = command ''type'' [key] (RStr ''none'')"
| "server_command (Op_ttl key) = command ''ttl'' [key] (RInt (-2))"
| "server_command (Op_zcard name) = command ''zcard'' [name] (RInt 0)"
| "server_command (Op_zrange name first stop withscores) = command_kw ''zrange'' [name, first, stop] [(''withscores'', withscores)] (RList [])"
| "server_command (Op_zrevrange name first stop withscores) = command_kw ''zrevrange'' [name, first, stop] [(''withscores'', withscores)] (RList [])"
| "server_command (Op_zremrangebyrank name lo hi) = command ''zremrangebyrank'' [name, lo, hi] (RInt 0)"
| "server_command (Op_pfadd name values) = command ''pfadd'' (name # values) (RInt 0)"
| "server_command (Op_pfcount names) = command ''pfcount'' names (RInt 0)"
| "server_command (Op_memory_usage key) = command ''memory_usage'' [key] RNone"
| "server_command (Op_scan cursor pat cnt) = command_kw ''scan'' [cursor] (if_truthy ''match'' pat @ if_truthy ''count'' cnt) (RTuple [RInt 0, RList []])"

text \<open>\<open>lock\<close> hands its keyword arguments to the client directly, without the breaker.\<close>

definition lock_keywords :: "rval \<Rightarrow> rval \<Rightarrow> rval \<Rightarrow> rval \<Rightarrow> rval \<Rightarrow> (string \<times> rval) list" where
  "lock_keywords timeout sleep blocking_timeout lock_class thread_local =
     if_given ''timeout'' timeout @ if_given ''sleep'' sleep @ if_given ''blocking_timeout'' blocking_timeout @
     if_given ''lock_class'' lock_class @ if_given ''thread_local'' thread_local"

text \<open>
  The method that \<open>_create_method\<close> makes: the retries under a handler that returns the default,
  under the breaker. \<open>server\<close> is the client: the outcome of each attempt at a command.
\<close>

definition method_body ::
  "('e \<Rightarrow> bool) \<Rightarrow> retry_settings \<Rightarrow> (redis_command \<Rightarrow> nat \<Rightarrow> 'e + rval) \<Rightarrow> redis_command \<Rightarrow> rval" where
  "method_body connection_error cfg server c =
     (case fst (execute_with_retry connection_error cfg (server c) (Some (method_name c))) of
        Inr v \<Rightarrow> if v \<noteq> RNone then v else default_return c
      | Inl _ \<Rightarrow> default_return c)"

definition create_method ::
  "('e \<Rightarrow> bool) \<Rightarrow> retry_settings \<Rightarrow> (redis_command \<Rightarrow> nat \<Rightarrow> 'e + rval) \<Rightarrow> rat \<Rightarrow> rat \<Rightarrow> redis_breaker \<Rightarrow>
   redis_command \<Rightarrow> rval \<times> redis_breaker" where
  "create_method connection_error cfg server start now b c =
     breaker_call connection_error start now b (Inr (method_body connection_error cfg server c))"

section \<open>Ping and the health check\<close>

text \<open>\<open>ping\<close> passes the operation to the retry loop and no name.\<close>

definition ping_body :: "('e \<Rightarrow> bool) \<Rightarrow> retry_settings \<Rightarrow> (nat \<Rightarrow> 'e + rval) \<Rightarrow> rval" where
  "ping_body connection_error cfg operation =
     (case fst (execute_with_retry connection_error cfg operation None) of
        Inr v \<Rightarrow> RBool (v = RBool True)
      | Inl _ \<Rightarrow> RBool False)"

definition ping ::
  "('e \<Rightarrow> bool) \<Rightarrow> retry_settings \<Rightarrow> (nat \<Rightarrow> 'e + rval) \<Rightarrow> rat \<Rightarrow> rat \<Rightarrow> redis_breaker \<Rightarrow> rval \<times> redis_breaker" where
  "ping connection_error cfg operation start now b =
     breaker_call connection_error start now b (Inr (ping_body connection_error cfg operation))"

record health =
  health_status :: string
  response_time_ms :: rat
  circuit_breaker_state :: redis_breaker_state
  health_failure_count :: int

definition health_check ::
  "('e \<Rightarrow> bool) \<Rightarrow> retry_settings \<Rightarrow> (nat \<Rightarrow> 'e + rval) \<Rightarrow> rat \<Rightarrow> rat \<Rightarrow> redis_breaker \<Rightarrow> health \<times> redis_breaker" where
  "health_check connection_error cfg operation start now b =
     (case ping connection_error cfg operation start now b of
        (ping_result, b') \<Rightarrow>
          (\<lparr>health_status = (if rtruth ping_result then ''healthy'' else ''unhealthy''),
            response_time_ms = of_int (round_half_even ((now - start) * 1000 * 100)) / 100, circuit_breaker_state = rb_state b',
            health_failure_count = rb_failure_count b'\<rparr>, b'))"

section \<open>Clients per event loop\<close>

text \<open>
  \<open>get_redis_async_client\<close> and \<open>EventLoopAwareRedisClient._get_client\<close>: one client for each event
  loop, made on first use; a client is the number of clients that were made before it.
\<close>

record client_pool =
  clients :: "int \<rightharpoonup> nat"
  made :: nat

definition get_client :: "int option \<Rightarrow> client_pool \<Rightarrow> nat option \<times> client_pool" where
  "get_client running_loop pool =
     (let loop_id = (case running_loop of Some l \<Rightarrow> l | None \<Rightarrow> 0);
          pool' = (if clients pool loop_id = None
                   then pool\<lparr>clients := (clients pool)(loop_id \<mapsto> made pool), made := made pool + 1\<rparr> else pool)
      in (clients pool' loop_id, pool'))"

section \<open>The breaker by itself\<close>

interpretation rb: failure_counter breaker_admits on_success on_failure
    "\<lambda>b. rb_state b = BREAKER_CLOSED" rb_failure_count rb_failure_threshold
  by unfold_locales (auto simp: breaker_admits_def on_success_def on_failure_def Let_def)

lemma expected_failures:
  "rb_state b = BREAKER_CLOSED \<Longrightarrow> expected e \<Longrightarrow> snd (breaker_call expected start now b (Inl e)) = on_failure now b"
  by (simp add: breaker_call_def breaker_admits_def)

section \<open>The retry loop\<close>

lemma retry_from_success:
  "(\<And>j. j < k \<Longrightarrow> \<exists>e. operation (attempt + j) = Inl e \<and> connection_error e) \<Longrightarrow> k < n \<Longrightarrow>
   operation (attempt + k) = Inr v \<Longrightarrow> int (attempt + n) = redis_retry_attempts cfg \<Longrightarrow>
   retry_from connection_error cfg operation n attempt last_e =
     (Inr v, map (\<lambda>j. redis_retry_delay cfg * 2 ^ (attempt + j)) [0..<k])"
proof (induction k arbitrary: n attempt last_e)
  case 0
  then obtain m where "n = Suc m" by (cases n) auto
  with 0 show ?case by simp
next
  case (Suc k)
  then obtain m where n: "n = Suc m" by (cases n) auto
  from Suc.prems(1)[of 0] obtain e where e: "operation attempt = Inl e" "connection_error e" by auto
  have rest: "retry_from connection_error cfg operation m (attempt + 1) (Raised_by e) =
      (Inr v, map (\<lambda>j. redis_retry_delay cfg * 2 ^ (attempt + 1 + j)) [0..<k])"
  proof (rule Suc.IH)
    show "\<exists>e. operation (attempt + 1 + j) = Inl e \<and> connection_error e" if "j < k" for j
      using Suc.prems(1)[of "Suc j"] that by simp
  qed (use Suc.prems n in auto)
  have "int attempt < redis_retry_attempts cfg - 1" using Suc.prems(2,4) n by auto
  moreover have "map (\<lambda>j. redis_retry_delay cfg * 2 ^ (attempt + j)) [0..<Suc k] =
      redis_retry_delay cfg * 2 ^ attempt # map (\<lambda>j. redis_retry_delay cfg * 2 ^ (attempt + 1 + j)) [0..<k]"
    by (simp add: upt_rec[of 0] map_Suc_upt[symmetric] del: upt_Suc)
  ultimately show ?case using e rest by (simp add: n)
qed

text \<open>
  Retrying with exponential backoff: when the first \<open>k\<close> attempts fail with a
  connection error and the next one within the configured number of attempts succeeds, its
  value is the result, and the sleeps before it are the delay doubled each time.
\<close>

theorem redis_retry_backoff:
  assumes "\<And>j. j < k \<Longrightarrow> \<exists>e. operation j = Inl e \<and> connection_error e"
    and "operation k = Inr v" and "int k < redis_retry_attempts cfg"
  shows "execute_with_retry connection_error cfg operation (Some name) =
    (Inr v, map (\<lambda>j. redis_retry_delay cfg * 2 ^ j) [0..<k])"
  using retry_from_success[of k operation 0 connection_error "nat (redis_retry_attempts cfg)" v cfg Raised_None] assms
  by (simp add: execute_with_retry_def)

theorem redis_retry_backoff_witness:
  "execute_with_retry (\<lambda>e::int. True) \<lparr>redis_retry_attempts = 3, redis_retry_delay = 1/10\<rparr>
     (\<lambda>j. if j < 2 then Inl 0 else Inr (RInt 5)) (Some ''get'') =
   (Inr (RInt 5), map (\<lambda>j. redis_retry_delay \<lparr>redis_retry_attempts = 3, redis_retry_delay = 1/10\<rparr> * 2 ^ j) [0..<2])"
  by (rule redis_retry_backoff) simp_all

section \<open>The wrapper never trips its breaker\<close>

text \<open>Any sequence of calls of the wrapper's methods and of \<open>ping\<close>, at any times.\<close>

datatype wrapper_call = Method_call redis_command rat rat | Ping_call rat rat

fun run_call ::
  "('e \<Rightarrow> bool) \<Rightarrow> retry_settings \<Rightarrow> (redis_command \<Rightarrow> nat \<Rightarrow> 'e + rval) \<Rightarrow> (nat \<Rightarrow> 'e + rval) \<Rightarrow> wrapper_call \<Rightarrow>
   redis_breaker \<Rightarrow> redis_breaker" where
  "run_call connection_error cfg server ping_server (Method_call c start now) b =
     snd (create_method connection_error cfg server start now b c)"
| "run_call connection_error cfg server ping_server (Ping_call start now) b =
     snd (ping connection_error cfg ping_server start now b)"

lemma run_call_closed:
  "rb_state b = BREAKER_CLOSED \<Longrightarrow> run_call connection_error cfg server ping_server call b = on_success b"
  by (cases call) (simp_all add: create_method_def ping_def breaker_call_def breaker_admits_def)

text \<open>
  Property C28. The breaker that guards the client cannot open: the handler inside each method
  returns the default before the breaker can see the exception, so after any sequence of calls,
  with a server that fails every attempt, the breaker is closed with no failure counted.
\<close>

theorem redis_breaker_never_opens:
  "rb_state (fold (run_call connection_error cfg server ping_server) calls redis_circuit_breaker) = BREAKER_CLOSED \<and>
   rb_failure_count (fold (run_call connection_error cfg server ping_server) calls redis_circuit_breaker) = 0"
proof -
  have "rb_state b = BREAKER_CLOSED \<and> rb_failure_count b = 0 \<Longrightarrow>
      rb_state (fold (run_call connection_error cfg server ping_server) calls b) = BREAKER_CLOSED \<and>
      rb_failure_count (fold (run_call connection_error cfg server ping_server) calls b) = 0" for b
    by (induction calls arbitrary: b) (simp_all add: run_call_closed on_success_def)
  then show ?thesis by (simp add: redis_circuit_breaker_def)
qed

text \<open>
  The health check never reports a healthy server: the ping calls the retry loop
  without the name of the operation, the call raises before the first attempt, and the handler
  turns that into a failed ping, whatever the server answers and whatever state the breaker is in.
\<close>

theorem redis_health_check_never_healthy:
  "health_status (fst (health_check connection_error cfg operation start now b)) = ''unhealthy''"
  by (auto simp: health_check_def ping_def ping_body_def execute_with_retry_def breaker_call_def breaker_admits_def
      split: prod.splits)

end
