(* ===== verification/Db_Retry.thy ===== *)
theory Db_Retry
  imports Py_Prelude Complex_Main
begin

text \<open>
  The retry helpers of \<open>db/retry_utils.py\<close>. Exceptions are objects in a heap, a list of records:
  what \<open>isinstance\<close> and \<open>str\<close> say of each, and its links by index (the identity that \<open>id\<close>
  returns). Chains may be shared and cyclic. The operation that is retried, the callbacks and
  the sleeps are events of a log; times are rational numbers of seconds.
\<close>

section \<open>Exceptions\<close>

text \<open>The classes the code tests for; an object lists those it is an instance of.\<close>

datatype exc_class =
    BrokenPipeError
  | ConnectionError
  | TimeoutError
  | SQLAlchemyTimeoutError
  | SQLAlchemyInterfaceError
  | PendingRollbackError
  | DBAPIError
  | ConnectionDoesNotExistError
  | InternalClientError
  | StatementError
  | Runtime_Error
  | Exception

record exc =
  classes :: "exc_class list"
  message :: string
  cause_link :: "nat option"
  context_link :: "nat option"
  group_links :: "nat list"
  orig_link :: "nat option"
  connection_invalidated :: bool

definition isinstance :: "exc \<Rightarrow> exc_class \<Rightarrow> bool" where
  "isinstance e c \<longleftrightarrow> c \<in> set (classes e)"

definition opt_list :: "'a option \<Rightarrow> 'a list" where
  "opt_list x = (case x of None \<Rightarrow> [] | Some a \<Rightarrow> [a])"

text \<open>The objects pushed on the stack, in the order of the pushes.\<close>

definition tree_links :: "exc \<Rightarrow> nat list" where
  "tree_links e = opt_list (cause_link e) @ opt_list (context_link e) @ group_links e"

definition retry_links :: "exc \<Rightarrow> nat list" where
  "retry_links e = tree_links e @ (if isinstance e DBAPIError then opt_list (orig_link e) else [])"

section \<open>The traversal\<close>

text \<open>
  The loop over \<open>stack\<close> and \<open>seen\<close>, shared by the two functions: the objects in the order they
  are visited. The top of the stack is the head of the list. A link out of the heap does not
  occur in a running program; the model skips it.
\<close>

definition unseen :: "nat \<Rightarrow> nat list \<Rightarrow> nat" where
  "unseen n seen = card ({..<n} - set seen)"

lemma unseen_Cons: "x < n \<Longrightarrow> x \<notin> set seen \<Longrightarrow> unseen n (x # seen) < unseen n seen"
proof -
  assume x: "x < n" "x \<notin> set seen"
  have "{..<n} - set (x # seen) = ({..<n} - set seen) - {x}" by auto
  moreover have "x \<in> {..<n} - set seen" using x by simp
  ultimately show ?thesis
    unfolding unseen_def by (simp only:) (rule card_Diff1_less, simp)
qed

function visit_order :: "(exc \<Rightarrow> nat list) \<Rightarrow> exc list \<Rightarrow> nat list \<Rightarrow> nat list \<Rightarrow> nat list" where
  "visit_order links heap seen [] = []"
| "visit_order links heap seen (current # stack) =
     (if current \<in> set seen \<or> length heap \<le> current then visit_order links heap seen stack
      else current # visit_order links heap (current # seen) (rev (links (heap ! current)) @ stack))"
  by pat_completeness auto
termination
  by (relation "measures [\<lambda>(links, heap, seen, stack). unseen (length heap) seen,
        \<lambda>(links, heap, seen, stack). length stack]")
     (auto simp: unseen_Cons)

declare visit_order.simps(2) [simp del]

definition walk_exception_tree :: "exc list \<Rightarrow> nat \<Rightarrow> nat list" where
  "walk_exception_tree heap e = visit_order tree_links heap [] [e]"

definition pool_exhausted :: "exc \<Rightarrow> bool" where
  "pool_exhausted e \<longleftrightarrow> isinstance e SQLAlchemyTimeoutError \<and> py_contains ''queuepool'' (py_lower (message e))"

definition is_sqlalchemy_pool_exhaustion_error :: "exc list \<Rightarrow> nat \<Rightarrow> bool" where
  "is_sqlalchemy_pool_exhaustion_error heap e \<longleftrightarrow>
     list_ex (\<lambda>i. pool_exhausted (heap ! i)) (walk_exception_tree heap e)"

definition RETRYABLE_DB_ERROR_MARKERS :: "string list" where
  "RETRYABLE_DB_ERROR_MARKERS =
     [''broken pipe'', ''connection reset by peer'', ''connection does not exist'', ''connection is closed'',
      ''connection was closed'', ''underlying connection is closed'', ''closed in the middle of operation'',
      ''server closed the connection unexpectedly'', ''terminating connection due to administrator command'',
      ''another operation is in progress'', ''cannot call transaction.commit()'', ''cannot switch to state'',
      ''can'' @ [squote] @ ''t reconnect until invalid transaction is rolled back'', ''too many open files'',
      ''unexpected connection_lost() call'', ''conflict with recovery'',
      ''canceling statement due to conflict with recovery'', ''queuepool limit'', ''connection timed out'',
      ''connectiondoesnotexist'']"

text \<open>The verdict on one object: an early return, or nothing.\<close>

definition verdict :: "exc list \<Rightarrow> nat \<Rightarrow> bool option" where
  "verdict heap i =
     (let current = heap ! i
      in if isinstance current BrokenPipeError \<or> isinstance current ConnectionError \<or> isinstance current TimeoutError
         then Some True
         else if isinstance current SQLAlchemyTimeoutError
         then Some (\<not> is_sqlalchemy_pool_exhaustion_error heap i)
         else if isinstance current SQLAlchemyInterfaceError then Some True
         else if isinstance current PendingRollbackError then Some True
         else if isinstance current DBAPIError \<and> connection_invalidated current then Some True
         else if isinstance current ConnectionDoesNotExistError then Some True
         else if isinstance current InternalClientError then Some True
         else if list_ex (\<lambda>marker. py_contains marker (py_lower (message current))) RETRYABLE_DB_ERROR_MARKERS
         then Some True
         else None)"

text \<open>The first verdict in the order of the visits; the objects after it are not visited.\<close>

fun first_verdict :: "(nat \<Rightarrow> bool option) \<Rightarrow> nat list \<Rightarrow> bool" where
  "first_verdict v [] = False"
| "first_verdict v (i # is) = (case v i of Some b \<Rightarrow> b | None \<Rightarrow> first_verdict v is)"

definition is_retryable_db_error :: "exc list \<Rightarrow> nat \<Rightarrow> bool" where
  "is_retryable_db_error heap e =
     (if is_sqlalchemy_pool_exhaustion_error heap e then False
      else first_verdict (verdict heap) (visit_order retry_links heap [] [e]))"

section \<open>The traversal visits what is reachable\<close>

definition link_rel :: "(exc \<Rightarrow> nat list) \<Rightarrow> exc list \<Rightarrow> (nat \<times> nat) set" where
  "link_rel links heap = {(i, j). i < length heap \<and> j < length heap \<and> j \<in> set (links (heap ! i))}"

lemma visit_order_sound:
  "x \<in> set (visit_order links heap seen stack) \<Longrightarrow>
   \<exists>s \<in> set stack. s < length heap \<and> (s, x) \<in> (link_rel links heap)\<^sup>*"
proof (induction links heap seen stack rule: visit_order.induct)
  case (2 links heap seen current stack)
  show ?case
  proof (cases "current \<in> set seen \<or> length heap \<le> current")
    case True
    with 2 show ?thesis by (auto simp: visit_order.simps(2))
  next
    case False
    then consider "x = current"
      | "x \<in> set (visit_order links heap (current # seen) (rev (links (heap ! current)) @ stack))"
      using "2.prems" by (auto simp: visit_order.simps(2))
    then show ?thesis
    proof cases
      case 1
      then show ?thesis using False by auto
    next
      case 2
      with "2.IH"(2)[OF False] obtain s where s: "s \<in> set (links (heap ! current)) \<or> s \<in> set stack"
        "s < length heap" "(s, x) \<in> (link_rel links heap)\<^sup>*" by auto
      then have "s \<in> set (links (heap ! current)) \<Longrightarrow> (current, x) \<in> (link_rel links heap)\<^sup>*"
        using False by (intro converse_rtrancl_into_rtrancl[of current s]) (auto simp: link_rel_def)
      with s False show ?thesis by auto
    qed
  qed
qed simp

text \<open>Everything on the stack is visited, and the visited objects with the seen ones are closed under links.\<close>

lemma visit_order_closed:
  assumes "\<forall>i \<in> set seen. i < length heap \<longrightarrow>
    (\<forall>j \<in> set (links (heap ! i)). j < length heap \<longrightarrow> j \<in> set seen \<union> set stack)"
  shows "(\<forall>s \<in> set stack. s < length heap \<longrightarrow> s \<in> set seen \<union> set (visit_order links heap seen stack)) \<and>
    (\<forall>i \<in> set seen \<union> set (visit_order links heap seen stack). i < length heap \<longrightarrow>
      (\<forall>j \<in> set (links (heap ! i)). j < length heap \<longrightarrow>
         j \<in> set seen \<union> set (visit_order links heap seen stack)))"
  using assms
proof (induction links heap seen stack rule: visit_order.induct)
  case (1 links heap seen)
  then show ?case by auto
next
  case (2 links heap seen current stack)
  show ?case
  proof (cases "current \<in> set seen \<or> length heap \<le> current")
    case True
    have "\<forall>i \<in> set seen. i < length heap \<longrightarrow>
        (\<forall>j \<in> set (links (heap ! i)). j < length heap \<longrightarrow> j \<in> set seen \<union> set stack)"
      using "2.prems" True by fastforce
    from "2.IH"(1)[OF True this] True show ?thesis by (auto simp: visit_order.simps(2))
  next
    case False
    have "\<forall>i \<in> set (current # seen). i < length heap \<longrightarrow>
        (\<forall>j \<in> set (links (heap ! i)). j < length heap \<longrightarrow>
           j \<in> set (current # seen) \<union> set (rev (links (heap ! current)) @ stack))"
      using "2.prems" by fastforce
    from "2.IH"(2)[OF False this] False show ?thesis by (auto simp: visit_order.simps(2))
  qed
qed

lemma visit_order_complete:
  assumes "(e, x) \<in> (link_rel links heap)\<^sup>*" and "e < length heap"
  shows "x \<in> set (visit_order links heap [] [e])"
  using assms
proof (induction rule: rtrancl_induct)
  case base
  then show ?case using visit_order_closed[of "[]" heap links "[e]"] by auto
next
  case (step y z)
  then have "y \<in> set (visit_order links heap [] [e])" "y < length heap" "z < length heap"
    "z \<in> set (links (heap ! y))"
    by (auto simp: link_rel_def)
  then show ?case
    using visit_order_closed[of "[]" heap links "[e]"] by auto
qed

lemma visit_order_reachable:
  "e < length heap \<Longrightarrow> set (visit_order links heap [] [e]) = {x. (e, x) \<in> (link_rel links heap)\<^sup>*}"
  using visit_order_complete[of e _ links heap] visit_order_sound[of _ links heap "[]" "[e]"] by auto

text \<open>Each object is visited once.\<close>

lemma visit_order_distinct:
  "distinct (visit_order links heap seen stack) \<and> set (visit_order links heap seen stack) \<inter> set seen = {}"
  by (induction links heap seen stack rule: visit_order.induct) (auto simp: visit_order.simps(2))

lemma pool_exhaustion_iff:
  "e < length heap \<Longrightarrow> is_sqlalchemy_pool_exhaustion_error heap e \<longleftrightarrow>
     (\<exists>x. (e, x) \<in> (link_rel tree_links heap)\<^sup>* \<and> pool_exhausted (heap ! x))"
  by (auto simp: is_sqlalchemy_pool_exhaustion_error_def walk_exception_tree_def list_ex_iff visit_order_reachable)

text \<open>
  The traversal of an exception's causes, contexts and group members ends on any
  heap, shared and cyclic chains included, visits every object that is reachable exactly once
  and nothing else.
\<close>

theorem exception_walk_reachable:
  assumes "e < length heap"
  shows "set (walk_exception_tree heap e) = {x. (e, x) \<in> (link_rel tree_links heap)\<^sup>*} \<and>
    distinct (walk_exception_tree heap e)"
  using assms visit_order_distinct[of tree_links heap "[]" "[e]"]
  by (simp add: walk_exception_tree_def visit_order_reachable)

text \<open>An exception whose cause is the other one and conversely.\<close>

definition plain_exc :: "string \<Rightarrow> nat option \<Rightarrow> exc" where
  "plain_exc msg cause =
     \<lparr>classes = [], message = msg, cause_link = cause, context_link = None, group_links = [], orig_link = None,
      connection_invalidated = False\<rparr>"

theorem exception_walk_reachable_witness:
  "set (walk_exception_tree [plain_exc ''a'' (Some 1), plain_exc ''b'' (Some 0)] 0) =
     {x. (0, x) \<in> (link_rel tree_links [plain_exc ''a'' (Some 1), plain_exc ''b'' (Some 0)])\<^sup>*} \<and>
   distinct (walk_exception_tree [plain_exc ''a'' (Some 1), plain_exc ''b'' (Some 0)] 0)"
  by (rule exception_walk_reachable) simp

section \<open>Retryable errors\<close>

definition marks_retry :: "exc \<Rightarrow> bool" where
  "marks_retry e \<longleftrightarrow>
     set (classes e) \<inter> {BrokenPipeError, ConnectionError, TimeoutError, SQLAlchemyTimeoutError, SQLAlchemyInterfaceError,
       PendingRollbackError, ConnectionDoesNotExistError, InternalClientError} \<noteq> {} \<or>
     (DBAPIError \<in> set (classes e) \<and> connection_invalidated e) \<or>
     list_ex (\<lambda>marker. py_contains marker (py_lower (message e))) RETRYABLE_DB_ERROR_MARKERS"

lemma verdict_marks:
  assumes "\<not> is_sqlalchemy_pool_exhaustion_error heap i"
  shows "verdict heap i = (if marks_retry (heap ! i) then Some True else None)"
  using assms by (auto simp: verdict_def marks_retry_def isinstance_def Let_def)

lemma first_verdict_marks:
  "(\<And>i. i \<in> set is \<Longrightarrow> v i = (if P i then Some True else None)) \<Longrightarrow> first_verdict v is \<longleftrightarrow> (\<exists>i \<in> set is. P i)"
  by (induction "is") auto

text \<open>
  Property C30. When no exception that can be reached, through causes, contexts, groups and the
  driver's original errors, comes from an exhausted pool, an error is retryable exactly when
  one that can be reached has a class or a message of a lost connection.
\<close>

theorem retryable_iff_reachable:
  assumes "e < length heap"
    and "\<And>x. (e, x) \<in> (link_rel retry_links heap)\<^sup>* \<Longrightarrow> \<not> is_sqlalchemy_pool_exhaustion_error heap x"
  shows "is_retryable_db_error heap e \<longleftrightarrow> (\<exists>x. (e, x) \<in> (link_rel retry_links heap)\<^sup>* \<and> marks_retry (heap ! x))"
proof -
  have "\<not> is_sqlalchemy_pool_exhaustion_error heap e" using assms(2)[of e] by simp
  moreover have "first_verdict (verdict heap) (visit_order retry_links heap [] [e]) \<longleftrightarrow>
      (\<exists>i \<in> set (visit_order retry_links heap [] [e]). marks_retry (heap ! i))"
    using assms by (intro first_verdict_marks verdict_marks) (simp add: visit_order_reachable)
  ultimately show ?thesis
    using assms(1) by (simp add: is_retryable_db_error_def visit_order_reachable)
qed

theorem retryable_iff_reachable_witness:
  "is_retryable_db_error [plain_exc ''query failed'' (Some 1), plain_exc ''Broken pipe'' None] 0 \<longleftrightarrow>
     (\<exists>x. (0, x) \<in> (link_rel retry_links [plain_exc ''query failed'' (Some 1), plain_exc ''Broken pipe'' None])\<^sup>* \<and>
        marks_retry ([plain_exc ''query failed'' (Some 1), plain_exc ''Broken pipe'' None] ! x))"
proof (rule retryable_iff_reachable)
  let ?h = "[plain_exc ''query failed'' (Some 1), plain_exc ''Broken pipe'' None]"
  show "0 < length ?h" by simp
  fix x
  have "\<not> is_sqlalchemy_pool_exhaustion_error ?h 0" "\<not> is_sqlalchemy_pool_exhaustion_error ?h 1" by code_simp+
  moreover assume "(0, x) \<in> (link_rel retry_links ?h)\<^sup>*"
  then have "x < length ?h" by (induction rule: rtrancl_induct) (auto simp: link_rel_def)
  then have "x = 0 \<or> x = 1" by auto
  ultimately show "\<not> is_sqlalchemy_pool_exhaustion_error ?h x" by auto
qed

section \<open>The retry loop\<close>

text \<open>
  What a run does, in order: calls of the operation, callbacks, sleeps. A callback is absent, or
  a function that may raise; the model passes it the number of the attempt and the exception.
\<close>

datatype 'e retry_event =
    Call nat
  | Before_retry nat
  | On_retry nat
  | Sleep rat

text \<open>What comes out: the operation's value, an exception of the operation or of a callback, or the final one.\<close>

datatype 'e retry_error = Reraised 'e | Loop_exhausted

type_synonym 'e callback = "(int \<Rightarrow> int \<Rightarrow> 'e \<Rightarrow> 'e option) option"

definition run_callback :: "'e callback \<Rightarrow> int \<Rightarrow> int \<Rightarrow> 'e \<Rightarrow> 'e option" where
  "run_callback cb attempt max_attempts e = (case cb of None \<Rightarrow> None | Some f \<Rightarrow> f attempt max_attempts e)"

definition callback_event :: "'e callback \<Rightarrow> 'x \<Rightarrow> 'x list" where
  "callback_event cb ev = (if cb = None then [] else [ev])"

text \<open>
  The loop from attempt \<open>n\<close> on; \<open>operation n\<close> is the outcome of the n-th call. The remaining
  attempts make it structural.
\<close>

fun retry_loop ::
  "('e \<Rightarrow> bool) \<Rightarrow> 'e callback \<Rightarrow> 'e callback \<Rightarrow> nat \<Rightarrow> (nat \<Rightarrow> 'e + 'v) \<Rightarrow> nat \<Rightarrow> nat \<Rightarrow> rat \<Rightarrow>
   ('e retry_error + 'v) \<times> 'e retry_event list" where
  "retry_loop retryable before_retry on_retry max_attempts operation 0 n delay_seconds = (Inl Loop_exhausted, [])"
| "retry_loop retryable before_retry on_retry max_attempts operation (Suc left) n delay_seconds =
     (case operation n of
        Inr v \<Rightarrow> (Inr v, [Call n])
      | Inl e \<Rightarrow>
          if \<not> retryable e \<or> max_attempts \<le> n then (Inl (Reraised e), [Call n])
          else case run_callback before_retry (int n) (int max_attempts) e of
                 Some e' \<Rightarrow> (Inl (Reraised e'), Call n # callback_event before_retry (Before_retry n))
               | None \<Rightarrow>
                   (case run_callback on_retry (int n) (int max_attempts) e of
                      Some e' \<Rightarrow>
                        (Inl (Reraised e'), Call n # callback_event before_retry (Before_retry n) @
                           callback_event on_retry (On_retry n))
                    | None \<Rightarrow>
                        (case retry_loop retryable before_retry on_retry max_attempts operation left (n + 1)
                                (delay_seconds * 2) of
                           (r, events) \<Rightarrow>
                             (r, Call n # callback_event before_retry (Before_retry n) @
                                callback_event on_retry (On_retry n) @ Sleep delay_seconds # events))))"

definition run_db_operation_with_retry ::
  "('e \<Rightarrow> bool) \<Rightarrow> 'e callback \<Rightarrow> 'e callback \<Rightarrow> int \<Rightarrow> rat \<Rightarrow> (nat \<Rightarrow> 'e + 'v) \<Rightarrow>
   ('e retry_error + 'v) \<times> 'e retry_event list" where
  "run_db_operation_with_retry retryable before_retry on_retry max_attempts initial_delay_seconds operation =
     retry_loop retryable before_retry on_retry (nat max_attempts) operation (nat max_attempts) 1 initial_delay_seconds"

text \<open>
  The read with its fallback. \<open>Loop_exhausted\<close> is a \<open>RuntimeError\<close>, which is retryable exactly
  when its message is: \<open>retryable_exhausted\<close>.
\<close>

definition run_db_read_with_primary_fallback ::
  "('e \<Rightarrow> bool) \<Rightarrow> bool \<Rightarrow> 'e callback \<Rightarrow> int \<Rightarrow> int \<Rightarrow> rat \<Rightarrow> (nat \<Rightarrow> 'e + 'v) \<Rightarrow> (nat \<Rightarrow> 'e + 'v) \<Rightarrow>
   ('e retry_error + 'v) \<times> 'e retry_event list \<times> 'e retry_event list" where
  "run_db_read_with_primary_fallback retryable retryable_exhausted on_fallback read_max_attempts
       primary_max_attempts initial_delay_seconds read_operation primary_operation =
     (let primary = run_db_operation_with_retry retryable None None primary_max_attempts initial_delay_seconds
                      primary_operation
      in case run_db_operation_with_retry retryable None None read_max_attempts initial_delay_seconds read_operation of
           (Inr v, events) \<Rightarrow> (Inr v, events, [])
         | (Inl (Reraised e), events) \<Rightarrow>
             if \<not> retryable e then (Inl (Reraised e), events, [])
             else (case run_callback on_fallback 0 0 e of
                     Some e' \<Rightarrow> (Inl (Reraised e'), events, [])
                   | None \<Rightarrow> (fst primary, events, snd primary))
         | (Inl Loop_exhausted, events) \<Rightarrow>
             if \<not> retryable_exhausted then (Inl Loop_exhausted, events, [])
             else (fst primary, events, snd primary))"

section \<open>Attempts and delays\<close>

fun calls :: "'e retry_event list \<Rightarrow> nat list" where
  "calls [] = []"
| "calls (Call n # es) = n # calls es"
| "calls (_ # es) = calls es"

fun slept :: "'e retry_event list \<Rightarrow> rat list" where
  "slept [] = []"
| "slept (Sleep d # es) = d # slept es"
| "slept (_ # es) = slept es"

lemma calls_append [simp]: "calls (a @ b) = calls a @ calls b"
  by (induction a rule: calls.induct) auto

lemma slept_append [simp]: "slept (a @ b) = slept a @ slept b"
  by (induction a rule: slept.induct) auto

lemma callback_event_calls [simp]:
  "calls (callback_event cb (Before_retry n)) = []" "calls (callback_event cb (On_retry n)) = []"
  "slept (callback_event cb (Before_retry n)) = []" "slept (callback_event cb (On_retry n)) = []"
  by (simp_all add: callback_event_def)

text \<open>The callbacks that a run is given raise nothing.\<close>

definition quiet :: "'e callback \<Rightarrow> bool" where
  "quiet cb \<longleftrightarrow> (\<forall>a m e. run_callback cb a m e = None)"

text \<open>The n-th call fails with a lost connection.\<close>

definition lost_at :: "('e \<Rightarrow> bool) \<Rightarrow> (nat \<Rightarrow> 'e + 'v) \<Rightarrow> nat \<Rightarrow> bool" where
  "lost_at retryable operation n \<longleftrightarrow> (\<exists>e. operation n = Inl e \<and> retryable e)"

lemma retry_loop_stop:
  "(\<And>j. j < k \<Longrightarrow> lost_at retryable operation (n + j)) \<Longrightarrow> k < left \<Longrightarrow> n + left = Suc max_attempts \<Longrightarrow>
   quiet before_retry \<Longrightarrow> quiet on_retry \<Longrightarrow> \<not> lost_at retryable operation (n + k) \<or> n + k = max_attempts \<Longrightarrow>
   fst (retry_loop retryable before_retry on_retry max_attempts operation left n d) =
     map_sum Reraised (\<lambda>x. x) (operation (n + k)) \<and>
   calls (snd (retry_loop retryable before_retry on_retry max_attempts operation left n d)) = map ((+) n) [0..<Suc k] \<and>
   slept (snd (retry_loop retryable before_retry on_retry max_attempts operation left n d)) =
     map (\<lambda>j. d * 2 ^ j) [0..<k]"
proof (induction k arbitrary: n left d)
  case 0
  then obtain m where "left = Suc m" by (cases left) auto
  with 0 show ?case by (auto simp: lost_at_def split: sum.splits)
next
  case (Suc k)
  then obtain m where m: "left = Suc m" by (cases left) auto
  from Suc.prems(1)[of 0] obtain e where e: "operation n = Inl e" "retryable e" by (auto simp: lost_at_def)
  have q: "run_callback before_retry a b c = None" "run_callback on_retry a b c = None" for a b c
    using Suc.prems(4,5) by (simp_all add: quiet_def)
  have n: "n < max_attempts" using Suc.prems(2,3) by simp
  let ?rest = "retry_loop retryable before_retry on_retry max_attempts operation m (n + 1) (d * 2)"
  have rest: "fst ?rest = map_sum Reraised (\<lambda>x. x) (operation (n + 1 + k)) \<and>
      calls (snd ?rest) = map ((+) (n + 1)) [0..<Suc k] \<and> slept (snd ?rest) = map (\<lambda>j. d * 2 * 2 ^ j) [0..<k]"
  proof (rule Suc.IH)
    show "lost_at retryable operation (n + 1 + j)" if "j < k" for j
      using Suc.prems(1)[of "Suc j"] that by simp
  qed (use Suc.prems m in auto)
  have step: "retry_loop retryable before_retry on_retry max_attempts operation left n d =
      (fst ?rest, Call n # callback_event before_retry (Before_retry n) @
         callback_event on_retry (On_retry n) @ Sleep d # snd ?rest)"
    using e n by (simp add: m q split: prod.splits)
  have shift: "map ((+) n) [0..<Suc (Suc k)] = n # map ((+) (n + 1)) [0..<Suc k]"
    "map (\<lambda>j. d * 2 ^ j) [0..<Suc k] = d # map (\<lambda>j. d * 2 * 2 ^ j) [0..<k]"
    by (simp_all add: upt_rec[of 0] map_Suc_upt[symmetric] comp_def del: upt_Suc)
  show ?case
    using rest by (simp only: step fst_conv snd_conv calls.simps slept.simps calls_append slept_append
        callback_event_calls append_Nil shift) simp
qed

lemma retry_run_stop:
  assumes "\<And>j. j < k \<Longrightarrow> lost_at retryable operation (1 + j)" and "int k < m"
    and "quiet before_retry" and "quiet on_retry"
    and "\<not> lost_at retryable operation (1 + k) \<or> int (1 + k) = m"
  shows "fst (run_db_operation_with_retry retryable before_retry on_retry m d operation) =
     map_sum Reraised (\<lambda>x. x) (operation (1 + k)) \<and>
   calls (snd (run_db_operation_with_retry retryable before_retry on_retry m d operation)) = [1..<k + 2] \<and>
   slept (snd (run_db_operation_with_retry retryable before_retry on_retry m d operation)) = map (\<lambda>j. d * 2 ^ j) [0..<k]"
proof -
  have "k < nat m" "1 + nat m = Suc (nat m)" "\<not> lost_at retryable operation (1 + k) \<or> 1 + k = nat m"
    using assms(2,5) by linarith+
  moreover have "map ((+) 1) [0..<Suc k] = [1..<k + 2]"
    by (simp add: map_Suc_upt[symmetric] del: upt_Suc map_Suc_upt)
  ultimately show ?thesis
    unfolding run_db_operation_with_retry_def
    using retry_loop_stop[where n = 1 and k = k and left = "nat m" and max_attempts = "nat m" and d = d
        and retryable = retryable and operation = operation, OF assms(1) _ _ assms(3,4)] by simp
qed

text \<open>
  The retry loop calls the operation until an attempt does not fail with a lost
  connection or is the last one, and its outcome is the outcome of that attempt; the sleeps
  between the calls are the initial delay doubled each time.
\<close>

theorem db_retry_stops:
  assumes "\<And>j. j < k \<Longrightarrow> lost_at retryable operation (1 + j)" and "int k < max_attempts"
    and "quiet before_retry" and "quiet on_retry"
    and "\<not> lost_at retryable operation (1 + k) \<or> int (1 + k) = max_attempts"
  shows "case run_db_operation_with_retry retryable before_retry on_retry max_attempts delay operation of
    (r, events) \<Rightarrow> r = map_sum Reraised (\<lambda>x. x) (operation (1 + k)) \<and> calls events = [1..<k + 2] \<and>
      slept events = map (\<lambda>j. delay * 2 ^ j) [0..<k]"
  using retry_run_stop[where k = k and m = max_attempts and d = delay and operation = operation, OF assms]
  by (simp add: case_prod_unfold)

theorem db_retry_stops_witness:
  "case run_db_operation_with_retry (\<lambda>e::int. e = 1) None None 3 (1/2) (\<lambda>n. if n = 1 then Inl 1 else Inr n) of
    (r, events) \<Rightarrow> r = map_sum Reraised (\<lambda>x. x) (if (1 + 1::nat) = 1 then Inl 1 else Inr (1 + 1)) \<and> calls events = [1..<1 + 2] \<and>
      slept events = map (\<lambda>j. 1/2 * 2 ^ j) [0..<1]"
  by (rule db_retry_stops) (auto simp: quiet_def run_callback_def lost_at_def)

lemma retry_events_nonempty:
  "1 \<le> m \<Longrightarrow> snd (run_db_operation_with_retry retryable None None m delay operation) \<noteq> []"
  by (cases "nat m") (auto simp: run_db_operation_with_retry_def run_callback_def split: sum.splits prod.splits)

text \<open>The attempt the loop stops at, when there are no callbacks.\<close>

lemma retry_outcome:
  assumes "1 \<le> m"
  obtains k where "fst (run_db_operation_with_retry retryable None None m delay operation) =
      map_sum Reraised (\<lambda>x. x) (operation k)"
    and "lost_at retryable operation k \<longleftrightarrow> (\<forall>n \<in> {1..nat m}. lost_at retryable operation n)"
proof (cases "\<forall>n \<in> {1..nat m}. lost_at retryable operation n")
  case True
  define k where "k = nat m - 1"
  have k: "1 + k = nat m" "int k < m" "int (1 + k) = m" using assms by (simp_all add: k_def)
  have "fst (run_db_operation_with_retry retryable None None m delay operation) = map_sum Reraised (\<lambda>x. x) (operation (1 + k))"
    using retry_run_stop[where k = k and m = m and operation = operation and retryable = retryable] True k
    by (simp add: quiet_def run_callback_def)
  moreover have "lost_at retryable operation (1 + k)" using True k by simp
  ultimately show ?thesis using that True by blast
next
  case False
  then obtain n where n: "n \<in> {1..nat m}" "\<not> lost_at retryable operation n" by blast
  define k where "k = (LEAST j. \<not> lost_at retryable operation (1 + j))"
  have ex: "\<not> lost_at retryable operation (1 + (n - 1))" using n by simp
  have k: "\<not> lost_at retryable operation (1 + k)"
    unfolding k_def by (rule LeastI[of "\<lambda>j. \<not> lost_at retryable operation (1 + j)", OF ex])
  have "k \<le> n - 1"
    unfolding k_def by (rule Least_le[of "\<lambda>j. \<not> lost_at retryable operation (1 + j)", OF ex])
  then have "int k < m" using n assms by auto
  moreover have "j < k \<Longrightarrow> lost_at retryable operation (1 + j)" for j
    using not_less_Least[of j "\<lambda>j. \<not> lost_at retryable operation (1 + j)"] by (auto simp: k_def)
  ultimately have "fst (run_db_operation_with_retry retryable None None m delay operation) =
      map_sum Reraised (\<lambda>x. x) (operation (1 + k))"
    using retry_run_stop[where k = k and m = m and operation = operation and retryable = retryable] k
    by (simp add: quiet_def run_callback_def)
  then show ?thesis using that k False by blast
qed

text \<open>
  The primary is asked exactly when every one of the attempts on the read replica
  failed with a lost connection: not after a value, and not after any other error.
\<close>

theorem primary_iff_replica_lost:
  assumes "1 \<le> read_max" and "1 \<le> primary_max"
  shows "snd (snd (run_db_read_with_primary_fallback retryable retryable_exhausted None read_max primary_max delay
      read_operation primary_operation)) \<noteq> [] \<longleftrightarrow>
    (\<forall>n \<in> {1..nat read_max}. lost_at retryable read_operation n)"
proof -
  obtain k where k: "fst (run_db_operation_with_retry retryable None None read_max delay read_operation) =
      map_sum Reraised (\<lambda>x. x) (read_operation k)"
    "lost_at retryable read_operation k \<longleftrightarrow> (\<forall>n \<in> {1..nat read_max}. lost_at retryable read_operation n)"
    using retry_outcome[OF assms(1)] by blast
  have "snd (snd (run_db_read_with_primary_fallback retryable retryable_exhausted None read_max primary_max delay
      read_operation primary_operation)) \<noteq> [] \<longleftrightarrow> lost_at retryable read_operation k"
    using k(1) retry_events_nonempty[OF assms(2), of retryable delay primary_operation]
    by (cases "run_db_operation_with_retry retryable None None read_max delay read_operation";
        cases "read_operation k")
       (auto simp: run_db_read_with_primary_fallback_def Let_def run_callback_def lost_at_def)
  with k(2) show ?thesis by simp
qed

theorem primary_iff_replica_lost_witness:
  "snd (snd (run_db_read_with_primary_fallback (\<lambda>e::int. e = 1) False None 2 2 (1/2)
      (\<lambda>n. Inl 1 :: int + nat) (\<lambda>n. Inr n))) \<noteq> [] \<longleftrightarrow>
   (\<forall>n \<in> {1..nat 2}. lost_at (\<lambda>e::int. e = 1) (\<lambda>n. Inl 1 :: int + nat) n)"
  by (rule primary_iff_replica_lost) simp_all

end
