(* ===== verification/Stream_Const.thy ===== *)
theory Stream_Const
  imports Py_Prelude
begin

text \<open>
  The tables of \<open>utils/const.py\<close> that the selection of streams reads. A Python \<open>None\<close> in a list
  of strings is \<open>None\<close>; sets are lists, a dictionary is an association list in its order.
\<close>

definition RESOLUTIONS :: "string option list" where
  "RESOLUTIONS =
     [Some ''4k'', Some ''2160p'', Some ''1440p'', Some ''1080p'', Some ''720p'', Some ''576p'',
      Some ''480p'', Some ''360p'', Some ''240p'', None]"

definition SUPPORTED_RESOLUTIONS :: "string option list" where
  "SUPPORTED_RESOLUTIONS = RESOLUTIONS"

text \<open>The position in a list, counted from the end.\<close>

definition RESOLUTION_RANKING :: "(string option \<times> nat) list" where
  "RESOLUTION_RANKING = zip (rev RESOLUTIONS) [0..<length RESOLUTIONS]"

definition TORRENT_SORTING_PRIORITY :: "string list" where
  "TORRENT_SORTING_PRIORITY =
     [''cached'', ''resolution'', ''quality'', ''language'', ''size'', ''seeders'', ''created_at'']"

definition LANGUAGES_FILTERS :: "string option list" where
  "LANGUAGES_FILTERS =
     [Some ''English'', Some ''Tamil'', Some ''Hindi'', Some ''Malayalam'', Some ''Kannada'',
      Some ''Telugu'', Some ''Chinese'', Some ''Russian'', Some ''Arabic'', Some ''Japanese'',
      Some ''Korean'', Some ''Taiwanese'', Some ''Latino'', Some ''French'', Some ''Spanish'',
      Some ''Portuguese'', Some ''Italian'', Some ''German'', Some ''Ukrainian'', Some ''Polish'',
      Some ''Czech'', Some ''Thai'', Some ''Indonesian'', Some ''Vietnamese'', Some ''Dutch'',
      Some ''Bengali'', Some ''Turkish'', Some ''Greek'', Some ''Swedish'', Some ''Romanian'',
      Some ''Hungarian'', Some ''Finnish'', Some ''Norwegian'', Some ''Danish'', Some ''Hebrew'',
      Some ''Lithuanian'', Some ''Punjabi'', Some ''Marathi'', Some ''Gujarati'',
      Some ''Bhojpuri'', Some ''Nepali'', Some ''Urdu'', Some ''Tagalog'', Some ''Filipino'',
      Some ''Malay'', Some ''Mongolian'', Some ''Armenian'', Some ''Georgian'', None]"

definition SUPPORTED_LANGUAGES :: "string option list" where
  "SUPPORTED_LANGUAGES = LANGUAGES_FILTERS"

definition QUALITY_GROUPS :: "(string \<times> string option list) list" where
  "QUALITY_GROUPS =
     [(''BluRay/UHD'',
       [Some ''BluRay'', Some ''BluRay REMUX'', Some ''BRRip'', Some ''BDRip'', Some ''UHDRip'', Some ''REMUX'', Some ''BLURAY'']), (''WEB/HD'',
       [Some ''WEB-DL'', Some ''WEB-DLRip'', Some ''WEBRip'', Some ''HDRip'', Some ''WEBMux'']),
      (''DVD/TV/SAT'',
       [Some ''DVD'', Some ''DVDRip'', Some ''HDTV'', Some ''SATRip'', Some ''TVRip'', Some ''PPVRip'', Some ''PDTV'']), (''CAM/Screener'',
       [Some ''CAM'', Some ''TeleSync'', Some ''TeleCine'', Some ''SCR'']), (''Unknown'',
       [None])]"

definition SUPPORTED_QUALITIES :: "string option list" where
  "SUPPORTED_QUALITIES = concat (map snd QUALITY_GROUPS)"

definition QUALITY_RANKING :: "(string option \<times> nat) list" where
  "QUALITY_RANKING =
     concat (map (\<lambda>(rank, g, qs). map (\<lambda>q. (q, rank)) qs)
       (zip [0..<length QUALITY_GROUPS] (rev QUALITY_GROUPS)))"

definition HDR_FORMATS_FILTERS :: "string list" where
  "HDR_FORMATS_FILTERS =
     [''HDR10'', ''HDR10+'', ''Dolby Vision'', ''HLG'', ''SDR'', ''Unknown'']"

definition SUPPORTED_HDR_FORMATS :: "string list" where
  "SUPPORTED_HDR_FORMATS = HDR_FORMATS_FILTERS"

definition HDR_FORMAT_ALIASES :: "(string \<times> string) list" where
  "HDR_FORMAT_ALIASES =
     [(''hdr10'', ''HDR10''), (''hdr 10'', ''HDR10''), (''hdr-10'', ''HDR10''),
      (''hdr10+'', ''HDR10+''), (''hdr10plus'', ''HDR10+''), (''hdr 10+'', ''HDR10+''),
      (''dv'', ''Dolby Vision''), (''dovi'', ''Dolby Vision''), (''dovi.'', ''Dolby Vision''),
      (''dolby vision'', ''Dolby Vision''), (''dolby-vision'', ''Dolby Vision''),
      (''hlg'', ''HLG''), (''sdr'', ''SDR''), (''hdr'', ''HDR10''), (''uhdr'', ''HDR10'')]"

definition HDR_CANONICAL_TAGS :: "string list" where
  "HDR_CANONICAL_TAGS = filter (\<lambda>h. h \<noteq> ''Unknown'') HDR_FORMATS_FILTERS"

definition SUPPORTED_PRIVATE_TRACKER_STREAMING_PROVIDERS :: "string list" where
  "SUPPORTED_PRIVATE_TRACKER_STREAMING_PROVIDERS = [''debridlink'', ''qbittorrent'', ''torbox'']"

text \<open>The options by which a provider's credentials are complete: one group of fields of several.\<close>

definition STREAMING_SERVICE_REQUIREMENTS :: "(string \<times> string list list) list" where
  "STREAMING_SERVICE_REQUIREMENTS =
     [(''pikpak'', [[''email'', ''password'']]), (''qbittorrent'', [[''qbittorrent_config'']]),
      (''stremthru'', [[''url'', ''token'']]),
      (''seedr'', [[''token''], [''email'', ''password'']]), (''p2p'', [[]]),
      (''sabnzbd'', [[''sabnzbd_config'']]), (''nzbget'', [[''nzbget_config'']]),
      (''nzbdav'', [[''nzbdav_config'']]), (''easynews'', [[''easynews_config'']]),
      (''stremio_nntp'', [[]]), (''default'', [[''token'']])]"

section \<open>Provider credentials\<close>

definition get_service_auth_options :: "string \<Rightarrow> string list list" where
  "get_service_auth_options service =
     (case map_of STREAMING_SERVICE_REQUIREMENTS service of
        Some options \<Rightarrow> options
      | None \<Rightarrow> the (map_of STREAMING_SERVICE_REQUIREMENTS ''default''))"

definition provider_auth_satisfied :: "string \<Rightarrow> (string \<Rightarrow> bool) \<Rightarrow> bool" where
  "provider_auth_satisfied service has_field =
     list_ex (\<lambda>option. list_all has_field option) (get_service_auth_options service)"

text \<open>The loop over the options; \<open>best_missing\<close> is the shortest list of missing fields so far.\<close>

fun first_missing_loop :: "(string \<Rightarrow> bool) \<Rightarrow> string list list \<Rightarrow> string list option \<Rightarrow> string option" where
  "first_missing_loop has_field [] best_missing =
     (case best_missing of Some (f # fs) \<Rightarrow> Some f | _ \<Rightarrow> None)"
| "first_missing_loop has_field (option # options) best_missing =
     (let missing = filter (\<lambda>f. \<not> has_field f) option
      in if missing = [] then None
         else first_missing_loop has_field options
                (case best_missing of
                   None \<Rightarrow> Some missing
                 | Some b \<Rightarrow> if length missing < length b then Some missing else best_missing))"

definition provider_first_missing_field :: "string \<Rightarrow> (string \<Rightarrow> bool) \<Rightarrow> string option" where
  "provider_first_missing_field service has_field =
     (let options = get_service_auth_options service
      in if list_ex (\<lambda>option. option = []) options then None
         else first_missing_loop has_field options None)"

definition STREAMING_PROVIDER_FIELD_ALIASES :: "(string \<times> string) list" where
  "STREAMING_PROVIDER_FIELD_ALIASES =
     [(''token'', ''tk''), (''email'', ''em''), (''password'', ''pw''), (''url'', ''u''),
      (''qbittorrent_config'', ''qbc''), (''sabnzbd_config'', ''sbc''), (''nzbget_config'', ''ngc''),
      (''nzbdav_config'', ''ndc''), (''easynews_config'', ''enc'')]"

text \<open>A raw provider dictionary: the truth value of each key that is present.\<close>

definition dict_provider_has_field :: "(string \<rightharpoonup> bool) \<Rightarrow> string \<Rightarrow> bool" where
  "dict_provider_has_field sp field =
     (let alias = (case map_of STREAMING_PROVIDER_FIELD_ALIASES field of Some a \<Rightarrow> a | None \<Rightarrow> field)
      in sp field = Some True \<or> sp alias = Some True)"

definition dict_provider_auth_satisfied :: "(string \<rightharpoonup> bool) \<Rightarrow> string \<Rightarrow> bool" where
  "dict_provider_auth_satisfied sp service = provider_auth_satisfied service (dict_provider_has_field sp)"

definition dict_provider_first_missing_field :: "(string \<rightharpoonup> bool) \<Rightarrow> string \<Rightarrow> string option" where
  "dict_provider_first_missing_field sp service =
     provider_first_missing_field service (dict_provider_has_field sp)"

lemma first_missing_loop_None:
  "best \<noteq> Some [] \<Longrightarrow> first_missing_loop has_field options best = None \<longleftrightarrow>
     (options = [] \<and> best = None) \<or> list_ex (\<lambda>option. list_all has_field option) options"
proof (induction options arbitrary: best)
  case Nil
  then show ?case by (cases best) (auto split: list.splits)
next
  case (Cons option options)
  have m: "filter (\<lambda>f. \<not> has_field f) option = [] \<longleftrightarrow> list_all has_field option"
    by (auto simp: filter_empty_conv list_all_iff)
  show ?case
  proof (cases "list_all has_field option")
    case True
    then show ?thesis using m by simp
  next
    case False
    then have ne: "filter (\<lambda>f. \<not> has_field f) option \<noteq> []" using m by simp
    define best' where "best' = (case best of None \<Rightarrow> Some (filter (\<lambda>f. \<not> has_field f) option)
        | Some b \<Rightarrow> if length (filter (\<lambda>f. \<not> has_field f) option) < length b
                    then Some (filter (\<lambda>f. \<not> has_field f) option) else best)"
    have "best' \<noteq> Some []" "best' \<noteq> None"
      using ne Cons.prems by (auto simp: best'_def split: option.splits if_splits)
    then show ?thesis
      using Cons.IH[of best'] ne False by (auto simp: best'_def[symmetric] Let_def)
  qed
qed

lemma first_missing_loop_Some:
  "first_missing_loop has_field options best = Some f \<Longrightarrow>
   (\<forall>b. best = Some b \<longrightarrow> (\<forall>g \<in> set b. \<not> has_field g)) \<Longrightarrow> \<not> has_field f"
proof (induction options arbitrary: best)
  case Nil
  then show ?case by (auto split: option.splits list.splits)
next
  case (Cons option options)
  define best' where "best' = (case best of None \<Rightarrow> Some (filter (\<lambda>f. \<not> has_field f) option)
      | Some b \<Rightarrow> if length (filter (\<lambda>f. \<not> has_field f) option) < length b
                  then Some (filter (\<lambda>f. \<not> has_field f) option) else best)"
  have "first_missing_loop has_field options best' = Some f"
    using Cons.prems(1) by (simp add: best'_def Let_def split: if_splits)
  moreover have "\<forall>b. best' = Some b \<longrightarrow> (\<forall>g \<in> set b. \<not> has_field g)"
    using Cons.prems(2) by (auto simp: best'_def split: option.splits if_splits)
  ultimately show ?case by (rule Cons.IH)
qed

text \<open>
  The validation of credentials and its error message agree for every service: a
  provider has no first missing field exactly when one of its option groups is complete, and a
  field that is reported is one the provider does not have.
\<close>

theorem first_missing_iff_unsatisfied:
  "(provider_first_missing_field service has_field = None \<longleftrightarrow> provider_auth_satisfied service has_field) \<and>
   pred_option (\<lambda>f. \<not> has_field f) (provider_first_missing_field service has_field)"
proof -
  define options where "options = get_service_auth_options service"
  have "\<forall>(k, v) \<in> set STREAMING_SERVICE_REQUIREMENTS. v \<noteq> []"
    by (simp add: STREAMING_SERVICE_REQUIREMENTS_def)
  moreover have "the (map_of STREAMING_SERVICE_REQUIREMENTS ''default'') \<noteq> []"
    by (simp add: STREAMING_SERVICE_REQUIREMENTS_def)
  ultimately have "options \<noteq> []"
    by (auto simp: options_def get_service_auth_options_def dest!: map_of_SomeD split: option.splits)
  moreover have "[] \<in> set options \<Longrightarrow> list_ex (\<lambda>option. list_all has_field option) options"
    by (auto simp: list_ex_iff intro!: bexI[of _ "[]"])
  ultimately have "provider_first_missing_field service has_field = None \<longleftrightarrow> provider_auth_satisfied service has_field"
    using first_missing_loop_None[of None has_field options]
    by (auto simp: provider_first_missing_field_def provider_auth_satisfied_def options_def[symmetric] Let_def
        list_ex_iff split: if_splits)
  moreover have "pred_option (\<lambda>f. \<not> has_field f) (provider_first_missing_field service has_field)"
    using first_missing_loop_Some[of has_field options None]
    by (cases "provider_first_missing_field service has_field")
       (auto simp: provider_first_missing_field_def options_def[symmetric] Let_def split: if_splits)
  ultimately show ?thesis by blast
qed

end
