(* ===== verification/User_Config.thy ===== *)
theory User_Config
  imports Stream_Const Complex_Main "HOL-Library.Multiset"
begin

text \<open>
  The user's configuration, \<open>db/schemas/config.py\<close>: the fields of \<open>StreamingProvider\<close> and
  \<open>UserData\<close> that the selection of streams reads, their validators, and the methods that choose
  a provider. The server's settings are a record.
\<close>

section \<open>Providers and settings\<close>

record streaming_provider =
  provider_name :: string
  service :: string
  only_show_cached_streams :: bool
  priority :: int
  enabled :: bool
  use_mediaflow :: bool
  stremthru_store_name :: "string option"
  provider_token :: "string option"
  provider_email :: "string option"
  provider_password :: "string option"

record settings =
  default_nzbdav_url :: string
  default_nzbdav_api_key :: string
  disabled_providers :: "string list"
  is_scrap_from_public_usenet_indexers :: bool
  adult_content_filter_in_torrent_title :: bool
  store_stremthru_magnet_cache :: bool
  sync_debrid_cache_streams :: bool
  mediafusion_url :: string

record newznab_indexer =
  newznab_name :: string
  newznab_url :: "string option"
  newznab_enabled :: bool

record catalog_config =
  catalog_id :: string
  catalog_enabled :: bool

text \<open>\<open>max_size\<close> is a number of bytes or infinity.\<close>

datatype size_limit = Unlimited | Bytes rat

record sorting_option =
  sort_by :: string
  direction :: string

record user_data =
  streaming_providers :: "streaming_provider list"
  legacy_provider :: "streaming_provider option"
  catalog_configs :: "catalog_config list"
  selected_catalogs :: "string list"
  selected_resolutions :: "string option list"
  max_size :: size_limit
  min_size :: int
  max_streams_per_resolution :: int
  torrent_sorting_priority :: "sorting_option list"
  language_sorting :: "string option list"
  quality_filter :: "string list"
  hdr_filter :: "string list"
  newznab_indexers :: "newznab_indexer list"
  max_streams :: int
  provider_grouping :: string
  stream_name_filter_mode :: string
  stream_name_filter_patterns :: "string list"
  stream_name_filter_use_regex :: bool

section \<open>Validators\<close>

definition validate_selected_resolutions :: "string option list \<Rightarrow> string option list py_result" where
  "validate_selected_resolutions v = (if list_all (\<lambda>r. r \<in> set RESOLUTIONS) v then Inr v else Inl ValueError)"

datatype raw_size = Raw_float rat | Raw_inf | Raw_int int | Raw_str string | Raw_other

text \<open>\<open>str.isdigit\<close> and \<open>int\<close> of a digit string.\<close>

definition decimal_digits :: "string \<Rightarrow> bool" where
  "decimal_digits s \<longleftrightarrow> s \<noteq> [] \<and> list_all is_digit s"

definition decimal_of :: "string \<Rightarrow> int" where
  "decimal_of s = foldl (\<lambda>a c. 10 * a + digit_value c) 0 s"

definition parse_max_size :: "raw_size \<Rightarrow> size_limit py_result" where
  "parse_max_size v =
     (case v of
        Raw_float r \<Rightarrow> Inr (Bytes r)
      | Raw_inf \<Rightarrow> Inr Unlimited
      | Raw_int i \<Rightarrow> Inr (Bytes (of_int i))
      | Raw_str s \<Rightarrow>
          if s = ''inf'' then Inr Unlimited
          else if decimal_digits s then Inr (Bytes (of_int (decimal_of s)))
          else Inl ValueError
      | Raw_other \<Rightarrow> Inl ValueError)"

text \<open>\<open>int(v)\<close> truncates; infinity overflows.\<close>

definition parse_min_size :: "raw_size \<Rightarrow> int py_result" where
  "parse_min_size v =
     (case v of
        Raw_float r \<Rightarrow> Inr (max 0 (if 0 \<le> r then \<lfloor>r\<rfloor> else \<lceil>r\<rceil>))
      | Raw_inf \<Rightarrow> Inl OverflowError
      | Raw_int i \<Rightarrow> Inr (max 0 i)
      | Raw_str s \<Rightarrow> if decimal_digits s then Inr (max 0 (decimal_of s)) else Inr 0
      | Raw_other \<Rightarrow> Inr 0)"

text \<open>An item of the raw list: a dictionary with a key under \<open>k\<close> or \<open>key\<close>, or a string.\<close>

datatype raw_priority = Priority_dict "string option" string | Priority_name string

fun priority_valid :: "raw_priority \<Rightarrow> bool" where
  "priority_valid (Priority_dict None d) = False"
| "priority_valid (Priority_dict (Some k) d) = (k \<in> set TORRENT_SORTING_PRIORITY)"
| "priority_valid (Priority_name k) = (k \<in> set TORRENT_SORTING_PRIORITY)"

definition validate_torrent_sorting_priority :: "raw_priority list \<Rightarrow> raw_priority list py_result" where
  "validate_torrent_sorting_priority v =
     (if \<not> list_all priority_valid v then Inl ValueError
      else case v of
             Priority_name _ # _ \<Rightarrow>
               Inr (map (\<lambda>p. case p of Priority_name k \<Rightarrow> Priority_dict (Some k) ''desc'' | _ \<Rightarrow> p) v)
           | _ \<Rightarrow> Inr v)"

definition validate_quality_filter :: "string list \<Rightarrow> string list py_result" where
  "validate_quality_filter v = (if list_all (\<lambda>q. q \<in> set (map fst QUALITY_GROUPS)) v then Inr v else Inl ValueError)"

definition validate_hdr_filter :: "string list \<Rightarrow> string list py_result" where
  "validate_hdr_filter v = (if list_all (\<lambda>h. h \<in> set SUPPORTED_HDR_FORMATS) v then Inr v else Inl ValueError)"

definition validate_language_sorting :: "string option list \<Rightarrow> string option list py_result" where
  "validate_language_sorting v = (if list_all (\<lambda>l. l \<in> set SUPPORTED_LANGUAGES) v then Inr v else Inl ValueError)"

definition validate_max_streams :: "int \<Rightarrow> int" where
  "validate_max_streams v = max 1 (min v 100)"

definition valid_stream_types :: "string list" where
  "valid_stream_types = [''torrent'', ''usenet'', ''telegram'', ''http'', ''acestream'', ''youtube'']"

definition validate_stream_type_order :: "string list \<Rightarrow> string list py_result" where
  "validate_stream_type_order v = (if list_all (\<lambda>t. t \<in> set valid_stream_types) v then Inr v else Inl ValueError)"

definition MAX_STREAM_NAME_FILTER_PATTERNS :: nat where
  "MAX_STREAM_NAME_FILTER_PATTERNS = 10"

definition MAX_STREAM_NAME_FILTER_PATTERN_LENGTH :: nat where
  "MAX_STREAM_NAME_FILTER_PATTERN_LENGTH = 120"

text \<open>A raw pattern that is not a string is \<open>None\<close>.\<close>

fun normalize_patterns :: "string option list \<Rightarrow> string list \<Rightarrow> string list" where
  "normalize_patterns [] normalized = normalized"
| "normalize_patterns (None # raw) normalized = normalize_patterns raw normalized"
| "normalize_patterns (Some raw_pattern # raw) normalized =
     (let pattern = py_strip raw_pattern
      in if pattern = [] \<or> MAX_STREAM_NAME_FILTER_PATTERN_LENGTH < length pattern \<or> pattern \<in> set normalized
         then normalize_patterns raw normalized
         else normalize_patterns raw (normalized @ [pattern]))"

definition validate_stream_name_filter_patterns :: "string option list option \<Rightarrow> string list" where
  "validate_stream_name_filter_patterns v =
     (case v of
        None \<Rightarrow> []
      | Some raw \<Rightarrow> normalize_patterns (take MAX_STREAM_NAME_FILTER_PATTERNS raw) [])"

text \<open>The invariant of the accumulator: distinct patterns within the length limit.\<close>

definition patterns_ok :: "string list \<Rightarrow> bool" where
  "patterns_ok ps \<longleftrightarrow>
     distinct ps \<and> (\<forall>p \<in> set ps. p \<noteq> [] \<and> length p \<le> MAX_STREAM_NAME_FILTER_PATTERN_LENGTH)"

lemma normalize_patterns_step:
  "normalize_patterns (Some r # raw) ps =
   (if py_strip r = [] \<or> MAX_STREAM_NAME_FILTER_PATTERN_LENGTH < length (py_strip r) \<or> py_strip r \<in> set ps
    then normalize_patterns raw ps else normalize_patterns raw (ps @ [py_strip r]))"
  by (simp only: normalize_patterns.simps Let_def)

lemma patterns_ok_snoc:
  "patterns_ok ps \<Longrightarrow>
   \<not> (q = [] \<or> MAX_STREAM_NAME_FILTER_PATTERN_LENGTH < length q \<or> q \<in> set ps) \<Longrightarrow> patterns_ok (ps @ [q])"
  by (auto simp: patterns_ok_def not_less)

lemma normalize_patterns_inv:
  "patterns_ok ps \<Longrightarrow> patterns_ok (normalize_patterns raw ps) \<and>
     length (normalize_patterns raw ps) \<le> length ps + length raw"
proof (induction raw arbitrary: ps)
  case Nil
  then show ?case by simp
next
  case (Cons r raw)
  show ?case
  proof (cases r)
    case None
    then show ?thesis using Cons.IH[OF Cons.prems] by simp
  next
    case (Some q)
    show ?thesis
      using Cons.IH[OF Cons.prems] Cons.IH[OF patterns_ok_snoc[OF Cons.prems, of "py_strip q"]]
      unfolding Some normalize_patterns_step by (simp split: if_split)
  qed
qed

text \<open>
  Whatever patterns a configuration carries, the validated ones are at most ten,
  distinct, non-empty and at most 120 characters long.
\<close>

theorem validated_patterns_bounded:
  "length (validate_stream_name_filter_patterns v) \<le> MAX_STREAM_NAME_FILTER_PATTERNS \<and>
   patterns_ok (validate_stream_name_filter_patterns v)"
  using normalize_patterns_inv[of "[]" "take MAX_STREAM_NAME_FILTER_PATTERNS (the v)"]
  by (cases v) (auto simp: validate_stream_name_filter_patterns_def patterns_ok_def)

section \<open>Choosing a provider\<close>

definition operator_nzbdav :: streaming_provider where
  "operator_nzbdav =
     \<lparr>provider_name = ''operator-nzbdav'', service = ''nzbdav'', only_show_cached_streams = False, priority = 100,
      enabled = True, use_mediaflow = True, stremthru_store_name = None, provider_token = None,
      provider_email = None, provider_password = None\<rparr>"

text \<open>
  Constructing the virtual provider runs its validator, which rejects a disabled service.
  Python's \<open>sorted\<close> is stable, as \<open>sort_key\<close> is.
\<close>

definition configured_providers :: "user_data \<Rightarrow> streaming_provider list" where
  "configured_providers u =
     (if streaming_providers u \<noteq> [] then filter enabled (streaming_providers u)
      else case legacy_provider u of Some p \<Rightarrow> [p] | None \<Rightarrow> [])"

definition get_active_providers :: "settings \<Rightarrow> user_data \<Rightarrow> streaming_provider list py_result" where
  "get_active_providers cfg u =
     (let providers = configured_providers u
      in if default_nzbdav_url cfg \<noteq> [] \<and> default_nzbdav_api_key cfg \<noteq> [] \<and>
            \<not> list_ex (\<lambda>p. service p = ''nzbdav'') providers
         then if ''nzbdav'' \<in> set (disabled_providers cfg) then Inl ValueError
              else Inr (sort_key priority (providers @ [operator_nzbdav]))
         else Inr (sort_key priority providers))"

definition get_primary_provider :: "settings \<Rightarrow> user_data \<Rightarrow> streaming_provider option py_result" where
  "get_primary_provider cfg u =
     bind_result (get_active_providers cfg u) (\<lambda>providers.
       Inr (case providers of [] \<Rightarrow> None | p # _ \<Rightarrow> Some p))"

definition service_shorthands :: "(string \<times> string) list" where
  "service_shorthands =
     [(''rd'', ''realdebrid''), (''ad'', ''alldebrid''), (''pm'', ''premiumize''), (''dl'', ''debridlink''),
      (''tb'', ''torbox''), (''pk'', ''pikpak''), (''oc'', ''offcloud''), (''st'', ''stremthru''),
      (''ed'', ''easydebrid''), (''qb'', ''qbittorrent'')]"

text \<open>The first of several lookups that finds a provider.\<close>

definition or_else :: "'a option \<Rightarrow> 'a option \<Rightarrow> 'a option" where
  "or_else a b = (case a of Some x \<Rightarrow> Some x | None \<Rightarrow> b)"

definition own_provider_by_name :: "user_data \<Rightarrow> string \<Rightarrow> streaming_provider option" where
  "own_provider_by_name u name =
     (let target = map_of service_shorthands name
      in or_else (find (\<lambda>p. provider_name p = name \<and> enabled p) (streaming_providers u))
        (or_else (case target of
                    Some t \<Rightarrow> find (\<lambda>p. service p = t \<and> enabled p) (streaming_providers u)
                  | None \<Rightarrow> None)
        (or_else (if name = ''default'' then legacy_provider u else None)
                 (case (target, legacy_provider u) of
                    (Some t, Some p) \<Rightarrow> if service p = t then Some p else None
                  | _ \<Rightarrow> None))))"

definition get_provider_by_name :: "settings \<Rightarrow> user_data \<Rightarrow> string \<Rightarrow> streaming_provider option py_result" where
  "get_provider_by_name cfg u name =
     (case own_provider_by_name u name of
        Some p \<Rightarrow> Inr (Some p)
      | None \<Rightarrow>
          bind_result (get_active_providers cfg u) (\<lambda>providers.
            Inr (or_else (find (\<lambda>p. provider_name p = name) providers)
                   (case map_of service_shorthands name of
                      Some t \<Rightarrow> find (\<lambda>p. service p = t) providers
                    | None \<Rightarrow> None))))"

definition has_any_provider :: "user_data \<Rightarrow> bool" where
  "has_any_provider u \<longleftrightarrow> streaming_providers u \<noteq> [] \<or> legacy_provider u \<noteq> None"

definition is_sorting_option_present :: "user_data \<Rightarrow> string \<Rightarrow> bool" where
  "is_sorting_option_present u key \<longleftrightarrow> list_ex (\<lambda>s. sort_by s = key) (torrent_sorting_priority u)"

definition get_sorting_direction :: "user_data \<Rightarrow> string \<Rightarrow> string" where
  "get_sorting_direction u key =
     (case find (\<lambda>s. sort_by s = key) (torrent_sorting_priority u) of Some s \<Rightarrow> direction s | None \<Rightarrow> ''desc'')"

section \<open>Migrations and catalogs\<close>

definition migrate_to_multi_provider :: "user_data \<Rightarrow> user_data" where
  "migrate_to_multi_provider u =
     (case legacy_provider u of
        Some p \<Rightarrow> if streaming_providers u = [] then u\<lparr>streaming_providers := [p]\<rparr> else u
      | None \<Rightarrow> u)"

definition migrate_to_catalog_configs :: "user_data \<Rightarrow> user_data" where
  "migrate_to_catalog_configs u =
     (if selected_catalogs u \<noteq> [] \<and> catalog_configs u = []
      then u\<lparr>catalog_configs := map (\<lambda>c. \<lparr>catalog_id = c, catalog_enabled = True\<rparr>) (selected_catalogs u),
             selected_catalogs := []\<rparr>
      else u)"

definition model_post_init :: "user_data \<Rightarrow> user_data" where
  "model_post_init u = migrate_to_catalog_configs (migrate_to_multi_provider u)"

definition get_catalog_config :: "user_data \<Rightarrow> string \<Rightarrow> catalog_config option" where
  "get_catalog_config u c = find (\<lambda>config. catalog_id config = c) (catalog_configs u)"

definition get_enabled_catalog_ids :: "user_data \<Rightarrow> string list" where
  "get_enabled_catalog_ids u = map catalog_id (filter catalog_enabled (catalog_configs u))"

definition is_catalog_enabled :: "user_data \<Rightarrow> string \<Rightarrow> bool" where
  "is_catalog_enabled u c = (case get_catalog_config u c of Some config \<Rightarrow> catalog_enabled config | None \<Rightarrow> False)"

section \<open>Facts\<close>

lemma active_providers_cases:
  assumes "get_active_providers cfg u = Inr ps"
  obtains extra where "ps = sort_key priority (configured_providers u @ extra)"
    and "extra = [] \<or> extra = [operator_nzbdav] \<and> \<not> list_ex (\<lambda>p. service p = ''nzbdav'') (configured_providers u)"
proof (cases "default_nzbdav_url cfg \<noteq> [] \<and> default_nzbdav_api_key cfg \<noteq> [] \<and>
    \<not> list_ex (\<lambda>p. service p = ''nzbdav'') (configured_providers u)")
  case True
  then show ?thesis
    using assms that[of "[operator_nzbdav]"] by (simp add: get_active_providers_def Let_def split: if_splits)
next
  case False
  then have "ps = sort_key priority (configured_providers u)"
    using assms by (simp only: get_active_providers_def Let_def) (simp split: if_splits)
  then show ?thesis using that[of "[]"] by simp
qed

lemma find_in_set: "find P xs = Some x \<Longrightarrow> x \<in> set xs \<and> P x"
  by (induction xs) (auto split: if_splits)

lemma primary_provider_least:
  assumes "get_active_providers cfg u = Inr ps" and "get_primary_provider cfg u = Inr (Some p)"
  shows "p \<in> set ps \<and> (\<forall>q \<in> set ps. priority p \<le> priority q)"
proof -
  obtain extra where "ps = sort_key priority (configured_providers u @ extra)"
    using active_providers_cases[OF assms(1)] by blast
  then have "sorted (map priority ps)" by simp
  then show ?thesis
    using assms by (cases ps) (auto simp: get_primary_provider_def)
qed

text \<open>
  The primary provider is the best of the enabled ones: it is an enabled provider
  of the list, or the operator's virtual one, and no active provider has a smaller priority; a
  disabled provider of the list is never active.
\<close>

theorem primary_provider_enabled_and_first:
  assumes "streaming_providers u \<noteq> []" and "get_primary_provider cfg u = Inr (Some p)"
  shows "enabled p \<and> (p \<in> set (streaming_providers u) \<or> p = operator_nzbdav) \<and>
    list_all (\<lambda>q. priority p \<le> priority q) (filter enabled (streaming_providers u))"
proof -
  obtain ps where ps: "get_active_providers cfg u = Inr ps"
    using assms(2) by (cases "get_active_providers cfg u") (auto simp: get_primary_provider_def)
  obtain extra where e: "ps = sort_key priority (configured_providers u @ extra)"
    "extra = [] \<or> extra = [operator_nzbdav]"
    using active_providers_cases[OF ps] by blast
  have "set ps = {q \<in> set (streaming_providers u). enabled q} \<union> set extra"
    using assms(1) by (auto simp: e(1) configured_providers_def)
  moreover have "enabled operator_nzbdav" by (simp add: operator_nzbdav_def)
  ultimately show ?thesis
    using primary_provider_least[OF ps assms(2)] e(2) by (auto simp: list_all_iff)
qed

text \<open>A configuration with the given providers and the defaults of the schema.\<close>

definition default_user :: "streaming_provider list \<Rightarrow> user_data" where
  "default_user ps =
     \<lparr>streaming_providers = ps, legacy_provider = None, catalog_configs = [], selected_catalogs = [],
      selected_resolutions = RESOLUTIONS, max_size = Unlimited, min_size = 0, max_streams_per_resolution = 10,
      torrent_sorting_priority = map (\<lambda>k. \<lparr>sort_by = k, direction = ''desc''\<rparr>) TORRENT_SORTING_PRIORITY,
      language_sorting = LANGUAGES_FILTERS, quality_filter = map fst QUALITY_GROUPS,
      hdr_filter = HDR_FORMATS_FILTERS, newznab_indexers = [], max_streams = 25, provider_grouping = ''separate'',
      stream_name_filter_mode = ''disabled'', stream_name_filter_patterns = [], stream_name_filter_use_regex = False\<rparr>"

definition provider :: "string \<Rightarrow> string \<Rightarrow> int \<Rightarrow> bool \<Rightarrow> streaming_provider" where
  "provider name sv pr en =
     \<lparr>provider_name = name, service = sv, only_show_cached_streams = False, priority = pr, enabled = en,
      use_mediaflow = True, stremthru_store_name = None, provider_token = Some ''token'', provider_email = None,
      provider_password = None\<rparr>"

definition default_settings :: settings where
  "default_settings =
     \<lparr>default_nzbdav_url = [], default_nzbdav_api_key = [], disabled_providers = [],
      is_scrap_from_public_usenet_indexers = False, adult_content_filter_in_torrent_title = True,
      store_stremthru_magnet_cache = False, sync_debrid_cache_streams = False, mediafusion_url = []\<rparr>"

theorem primary_provider_enabled_and_first_witness:
  "enabled (provider ''b'' ''torbox'' 1 True) \<and>
   (provider ''b'' ''torbox'' 1 True \<in> set (streaming_providers (default_user
      [provider ''a'' ''pikpak'' 2 True, provider ''b'' ''torbox'' 1 True, provider ''c'' ''seedr'' 0 False])) \<or>
    provider ''b'' ''torbox'' 1 True = operator_nzbdav) \<and>
   list_all (\<lambda>q. priority (provider ''b'' ''torbox'' 1 True) \<le> priority q) (filter enabled (streaming_providers (default_user
      [provider ''a'' ''pikpak'' 2 True, provider ''b'' ''torbox'' 1 True, provider ''c'' ''seedr'' 0 False])))"
  by (rule primary_provider_enabled_and_first[where cfg = default_settings]) code_simp+

text \<open>
  Without the legacy field a provider found by its name or by its shorthand is one
  of the active providers: a disabled one is never returned.
\<close>

theorem provider_by_name_is_active:
  assumes "legacy_provider u = None" and "get_active_providers cfg u = Inr ps"
    and "get_provider_by_name cfg u name = Inr (Some p)"
  shows "p \<in> set ps \<and> enabled p"
proof -
  obtain extra where e: "ps = sort_key priority (configured_providers u @ extra)"
    "extra = [] \<or> extra = [operator_nzbdav]"
    using active_providers_cases[OF assms(2)] by blast
  have c: "configured_providers u = filter enabled (streaming_providers u)"
    using assms(1) by (auto simp: configured_providers_def)
  have en: "\<forall>q \<in> set ps. enabled q"
    using e(2) by (auto simp: e(1) c operator_nzbdav_def)
  have own: "own_provider_by_name u name = Some q \<Longrightarrow> q \<in> set (streaming_providers u) \<and> enabled q" for q
    using assms(1)
    by (auto simp: own_provider_by_name_def or_else_def Let_def dest!: find_in_set split: option.splits if_splits)
  show ?thesis
  proof (cases "own_provider_by_name u name")
    case None
    then have "p \<in> set ps"
      using assms(2,3)
      by (auto simp: get_provider_by_name_def or_else_def dest!: find_in_set split: option.splits)
    with en show ?thesis by blast
  next
    case (Some q)
    then show ?thesis
      using own[OF Some] assms(3) by (auto simp: get_provider_by_name_def e(1) c)
  qed
qed

theorem provider_by_name_is_active_witness:
  "provider ''x'' ''torbox'' 1 True \<in> set [provider ''x'' ''torbox'' 1 True] \<and> enabled (provider ''x'' ''torbox'' 1 True)"
  by (rule provider_by_name_is_active[where u = "default_user [provider ''x'' ''torbox'' 1 True, provider ''tb'' ''pikpak'' 0 False]"
        and cfg = default_settings and name = "''tb''"]) code_simp+

end
