(* ===== verification/Stream_Data.thy ===== *)
theory Stream_Data
  imports Py_Prelude Complex_Main
begin

text \<open>
  The streams the selection works on, \<open>db/schemas/media.py\<close>: \<open>StreamFileData\<close> and what
  \<open>TorrentStreamData\<close>, \<open>UsenetStreamData\<close> and the direct stream types have in common, with the
  methods on their file lists. An attribute that a type of stream does not have is \<open>None\<close>.
\<close>

datatype torrent_type = PUBLIC | SEMI_PRIVATE | PRIVATE | WEB_SEED

record stream_file =
  file_index :: int
  file_name :: string
  file_size :: int
  file_type :: string
  season_number :: "int option"
  episode_number :: "int option"

text \<open>\<open>created_at\<close>: no date, or the seconds since the epoch in UTC.\<close>

datatype creation_date = No_date | Created rat

record stream =
  stream_name :: string
  stream_size :: "int option"
  source :: "string option"
  indexer :: "string option"
  nzb_url :: "string option"
  info_hash :: "string option"
  stream_torrent_type :: "torrent_type option"
  resolution :: "string option"
  quality :: "string option"
  hdr_formats :: "string option list"
  languages :: "string list"
  seeders :: "int option"
  created_at :: creation_date
  files :: "stream_file list option"
  filtered_resolution :: "string option"
  filtered_quality :: "string option"
  filtered_hdr_formats :: "string list"
  filtered_languages :: "string option list"
  cached :: bool

text \<open>\<open>stream.size or 0\<close>.\<close>

definition size_or_0 :: "stream \<Rightarrow> int" where
  "size_or_0 s = (case stream_size s of Some n \<Rightarrow> n | None \<Rightarrow> 0)"

section \<open>Methods on the file list\<close>

text \<open>\<open>sorted(\<dots>, reverse=True)\<close> keeps the order of equal keys, as \<open>sort_key\<close> of the negated key does.\<close>

definition get_video_files :: "stream_file list \<Rightarrow> stream_file list" where
  "get_video_files fs = sort_key (\<lambda>f. - file_size f) (filter (\<lambda>f. file_type f = ''video'') fs)"

definition get_main_file :: "stream_file list \<Rightarrow> stream_file option" where
  "get_main_file fs = (case get_video_files fs of [] \<Rightarrow> None | f # _ \<Rightarrow> Some f)"

definition get_episode_files :: "int \<Rightarrow> int \<Rightarrow> stream_file list \<Rightarrow> stream_file list" where
  "get_episode_files season episode fs =
     filter (\<lambda>f. season_number f = Some season \<and> episode_number f = Some episode) fs"

definition get_file_for_episode :: "int \<Rightarrow> int \<Rightarrow> stream_file list \<Rightarrow> stream_file option" where
  "get_file_for_episode season episode fs =
     (case sort_key (\<lambda>f. - file_size f) (get_episode_files season episode fs) of
        [] \<Rightarrow> None
      | f # _ \<Rightarrow> Some f)"

text \<open>The head of a list sorted by a negated size is one of the largest elements.\<close>

lemma head_of_descending:
  "(case sort_key (\<lambda>f. - file_size f) fs of [] \<Rightarrow> None | f # _ \<Rightarrow> Some f) = Some g \<Longrightarrow>
   g \<in> set fs \<and> (\<forall>f \<in> set fs. file_size f \<le> file_size g)"
proof -
  assume a: "(case sort_key (\<lambda>f. - file_size f) fs of [] \<Rightarrow> None | f # _ \<Rightarrow> Some f) = Some g"
  then obtain gs where e: "sort_key (\<lambda>f. - file_size f) fs = g # gs"
    by (auto split: list.splits)
  have "sorted (map (\<lambda>f. - file_size f) (g # gs))" by (metis e sorted_sort_key)
  moreover have "set fs = set (g # gs)" by (metis e set_sort)
  ultimately show ?thesis by auto
qed

lemma head_of_descending_None:
  "(case sort_key k fs of [] \<Rightarrow> None | f # _ \<Rightarrow> Some f) = None \<longleftrightarrow> fs = []"
  by (metis length_0_conv length_sort list.case_eq_if option.distinct(1))

lemma main_file_largest:
  "get_main_file fs = Some g \<Longrightarrow>
   g \<in> set fs \<and> file_type g = ''video'' \<and> (\<forall>f \<in> set fs. file_type f = ''video'' \<longrightarrow> file_size f \<le> file_size g)"
  using head_of_descending[of "filter (\<lambda>f. file_type f = ''video'') fs" g]
  by (auto simp: get_main_file_def get_video_files_def)

lemma file_for_episode_largest:
  "get_file_for_episode season episode fs = Some g \<Longrightarrow>
   g \<in> set (get_episode_files season episode fs) \<and>
   (\<forall>f \<in> set (get_episode_files season episode fs). file_size f \<le> file_size g)"
  using head_of_descending[of "get_episode_files season episode fs" g]
  by (simp add: get_file_for_episode_def)

lemma file_for_episode_None:
  "get_file_for_episode season episode fs = None \<longleftrightarrow> get_episode_files season episode fs = []"
  by (simp only: get_file_for_episode_def head_of_descending_None)

end
