(* ===== verification/Usenet_Compat.thy ===== *)
theory Usenet_Compat
  imports User_Config Stream_Data
begin

text \<open>
  Which Usenet streams a provider may be offered: \<open>workers/providers/usenet_compatibility.py\<close> with
  the registry it reads, \<open>workers/scrapers/public_usenet_indexer_registry.py\<close>. Of \<open>urllib.parse\<close>
  the host of a URL is modelled; the validity of an address in brackets, which the module
  \<open>ipaddress\<close> decides, is the argument \<open>bracket_ok\<close>.
\<close>

section \<open>The host of a URL\<close>

definition scheme_char :: "char \<Rightarrow> bool" where
  "scheme_char c \<longleftrightarrow> is_alpha c \<or> is_digit c \<or> c \<in> set ''+-.''"

definition url_clean :: "string \<Rightarrow> string" where
  "url_clean url = filter (\<lambda>c. code c \<notin> {9, 10, 13}) (dropWhile (\<lambda>c. code c \<le> 32) url)"

definition url_after_scheme :: "string \<Rightarrow> string" where
  "url_after_scheme url =
     (case split_once '':'' url of
        Some (a, b) \<Rightarrow> if a \<noteq> [] \<and> is_alpha (hd a) \<and> list_all scheme_char a then b else url
      | None \<Rightarrow> url)"

definition url_netloc :: "string \<Rightarrow> string" where
  "url_netloc url =
     (let rest = url_after_scheme (url_clean url)
      in if py_startswith rest ''//'' then takeWhile (\<lambda>c. c \<notin> set ''/?#'') (drop 2 rest) else [])"

text \<open>The text before the first and after the first occurrence of a character.\<close>

definition before_char :: "char \<Rightarrow> string \<Rightarrow> string" where
  "before_char c s = takeWhile (\<lambda>x. x \<noteq> c) s"

definition netloc_host :: "string \<Rightarrow> string" where
  "netloc_host netloc =
     (let hostinfo = last (split_char (CHR ''@'') netloc)
      in case split_once ''['' hostinfo of
           Some (_, bracketed) \<Rightarrow> before_char (CHR '']'') bracketed
         | None \<Rightarrow> before_char (CHR '':'') hostinfo)"

definition urlparse_hostname :: "(string \<Rightarrow> bool) \<Rightarrow> string \<Rightarrow> string option py_result" where
  "urlparse_hostname bracket_ok url =
     (let netloc = url_netloc url; opening = CHR ''['' \<in> set netloc; closing = CHR '']'' \<in> set netloc
      in if opening \<noteq> closing \<or> (opening \<and> \<not> bracket_ok netloc) then Inl ValueError
         else Inr (if netloc_host netloc = [] then None else Some (netloc_host netloc)))"

definition extract_hostname :: "(string \<Rightarrow> bool) \<Rightarrow> string option \<Rightarrow> string option py_result" where
  "extract_hostname bracket_ok url =
     (case url of
        None \<Rightarrow> Inr None
      | Some u \<Rightarrow>
          if u = [] then Inr None
          else bind_result (urlparse_hostname bracket_ok (py_strip u)) (\<lambda>h. Inr (map_option py_lower h)))"

section \<open>Sources and markers\<close>

definition PROVIDER_BOUND_SOURCE_MARKERS :: "(string \<times> string list) list" where
  "PROVIDER_BOUND_SOURCE_MARKERS = [(''easynews'', [''easynews'']), (''torbox'', [''torbox''])]"

definition STRICT_INDEXER_BOUND_USENET_PROVIDERS :: "string list" where
  "STRICT_INDEXER_BOUND_USENET_PROVIDERS = [''sabnzbd'', ''nzbget'', ''nzbdav'', ''stremio_nntp'']"

definition normalize_text :: "string option \<Rightarrow> string" where
  "normalize_text v = (case v of None \<Rightarrow> [] | Some s \<Rightarrow> py_lower (py_strip s))"

definition stream_source_candidates :: "stream \<Rightarrow> string list" where
  "stream_source_candidates s = [normalize_text (source s), normalize_text (indexer s)]"

definition matches_source_markers :: "string list \<Rightarrow> string list \<Rightarrow> bool" where
  "matches_source_markers candidates markers \<longleftrightarrow>
     list_ex (\<lambda>c. c \<noteq> [] \<and> list_ex (\<lambda>m. py_contains m c) markers) candidates"

definition matches_host_markers :: "string option \<Rightarrow> string list \<Rightarrow> bool" where
  "matches_host_markers hostname markers \<longleftrightarrow>
     (case hostname of None \<Rightarrow> False | Some h \<Rightarrow> h \<noteq> [] \<and> list_ex (\<lambda>m. py_contains m h) markers)"

section \<open>Public indexers\<close>

record public_indexer =
  indexer_key :: string
  source_name :: string
  site_origin :: string

definition BINSEARCH_BASE :: string where
  "BINSEARCH_BASE = ''https://www.binsearch.info''"

definition NZBINDEX_ORIGIN :: string where
  "NZBINDEX_ORIGIN = ''https://www.nzbindex.com''"

definition ALL_PUBLIC_USENET_INDEXERS :: "public_indexer list" where
  "ALL_PUBLIC_USENET_INDEXERS =
     [\<lparr>indexer_key = ''binsearch'', source_name = ''Binsearch'', site_origin = []\<rparr>,
      \<lparr>indexer_key = ''nzbindex'', source_name = ''NZBIndex'', site_origin = NZBINDEX_ORIGIN\<rparr>]"

definition host_aliases :: "string \<Rightarrow> string list" where
  "host_aliases hn =
     (if hn = [] then []
      else if py_startswith hn ''www.'' then [hn, drop 4 hn] else [hn, ''www.'' @ hn])"

definition public_usenet_nzb_hosts :: "(string \<Rightarrow> bool) \<Rightarrow> string list py_result" where
  "public_usenet_nzb_hosts bracket_ok =
     bind_result
       (map_result (\<lambda>raw. urlparse_hostname bracket_ok (py_strip raw))
          (filter (\<lambda>raw. raw \<noteq> [])
             (BINSEARCH_BASE # filter (\<lambda>origin. origin \<noteq> []) (map site_origin ALL_PUBLIC_USENET_INDEXERS))))
       (\<lambda>hs. Inr (concat (map (\<lambda>h. host_aliases (case h of None \<Rightarrow> [] | Some x \<Rightarrow> py_lower x)) hs)))"

definition stream_matches_public_usenet_indexer ::
  "(string \<Rightarrow> bool) \<Rightarrow> settings \<Rightarrow> string list \<Rightarrow> string option \<Rightarrow> bool py_result" where
  "stream_matches_public_usenet_indexer bracket_ok cfg candidates host =
     (if \<not> is_scrap_from_public_usenet_indexers cfg then Inr False
      else if list_ex (\<lambda>d. indexer_key d \<in> set candidates \<or>
                normalize_text (Some (source_name d)) \<noteq> [] \<and>
                normalize_text (Some (source_name d)) \<in> set candidates) ALL_PUBLIC_USENET_INDEXERS
      then Inr True
      else case host of
             None \<Rightarrow> Inr False
           | Some h \<Rightarrow>
               if h = [] then Inr False
               else bind_result (public_usenet_nzb_hosts bracket_ok) (\<lambda>hosts. Inr (py_lower h \<in> set hosts)))"

section \<open>The user's indexers\<close>

fun newznab_signatures :: "(string \<Rightarrow> bool) \<Rightarrow> newznab_indexer list \<Rightarrow> (string list \<times> string list) py_result" where
  "newznab_signatures bracket_ok [] = Inr ([], [])"
| "newznab_signatures bracket_ok (i # is) =
     (if \<not> newznab_enabled i then newznab_signatures bracket_ok is
      else bind_result (extract_hostname bracket_ok (newznab_url i)) (\<lambda>host.
             bind_result (newznab_signatures bracket_ok is) (\<lambda>(names, hosts).
               let name = normalize_text (Some (newznab_name i))
               in Inr ((if name = [] then names else name # names),
                       (case host of None \<Rightarrow> hosts | Some h \<Rightarrow> if h = [] then hosts else h # hosts)))))"

definition get_enabled_newznab_signatures :: "(string \<Rightarrow> bool) \<Rightarrow> user_data \<Rightarrow> (string list \<times> string list) py_result" where
  "get_enabled_newznab_signatures bracket_ok u = newznab_signatures bracket_ok (newznab_indexers u)"

section \<open>The check\<close>

datatype incompatibility = Source_not_compatible | No_indexer_configured | Source_not_configured

definition is_usenet_stream_compatible ::
  "(string \<Rightarrow> bool) \<Rightarrow> settings \<Rightarrow> stream \<Rightarrow> streaming_provider \<Rightarrow> user_data \<Rightarrow> (bool \<times> incompatibility option) py_result" where
  "is_usenet_stream_compatible bracket_ok cfg s p u =
     (if nzb_url s = None \<or> nzb_url s = Some [] then Inr (True, None)
      else
        let candidates = stream_source_candidates s
        in bind_result (extract_hostname bracket_ok (nzb_url s)) (\<lambda>host.
             if (case map_of PROVIDER_BOUND_SOURCE_MARKERS (service p) of
                   Some markers \<Rightarrow> \<not> (matches_source_markers candidates markers \<or> matches_host_markers host markers)
                 | None \<Rightarrow> False)
             then Inr (False, Some Source_not_compatible)
             else if service p \<notin> set STRICT_INDEXER_BOUND_USENET_PROVIDERS then Inr (True, None)
             else
               bind_result (get_enabled_newznab_signatures bracket_ok u) (\<lambda>(names, hosts).
                 if list_ex (\<lambda>c. c \<noteq> [] \<and> c \<in> set names) candidates then Inr (True, None)
                 else if (case host of Some h \<Rightarrow> h \<noteq> [] \<and> h \<in> set hosts | None \<Rightarrow> False) then Inr (True, None)
                 else
                   bind_result (stream_matches_public_usenet_indexer bracket_ok cfg candidates host) (\<lambda>public.
                     if public then Inr (True, None)
                     else if names = [] \<and> hosts = [] then Inr (False, Some No_indexer_configured)
                     else Inr (False, Some Source_not_configured)))))"

section \<open>Facts\<close>

lemma extract_hostname_nonempty: "extract_hostname bracket_ok url = Inr (Some h) \<Longrightarrow> h \<noteq> []"
  by (auto simp: extract_hostname_def urlparse_hostname_def Let_def py_lower_def split: option.splits if_splits)

text \<open>A source and a host come from an indexer of the user that is enabled.\<close>

definition from_enabled_indexer :: "(string \<Rightarrow> bool) \<Rightarrow> user_data \<Rightarrow> string list \<Rightarrow> string option \<Rightarrow> bool" where
  "from_enabled_indexer bracket_ok u candidates host \<longleftrightarrow>
     (\<exists>i \<in> set (newznab_indexers u). newznab_enabled i \<and>
        (normalize_text (Some (newznab_name i)) \<noteq> [] \<and> normalize_text (Some (newznab_name i)) \<in> set candidates \<or>
         host \<noteq> None \<and> extract_hostname bracket_ok (newznab_url i) = Inr host))"

lemma newznab_signatures_sets:
  "newznab_signatures bracket_ok is = Inr (names, hosts) \<Longrightarrow>
   set names = {n. n \<noteq> [] \<and> (\<exists>i \<in> set is. newznab_enabled i \<and> n = normalize_text (Some (newznab_name i)))} \<and>
   set hosts = {h. \<exists>i \<in> set is. newznab_enabled i \<and> extract_hostname bracket_ok (newznab_url i) = Inr (Some h)}"
proof (induction "is" arbitrary: names hosts)
  case Nil
  then show ?case by simp
next
  case (Cons i "is")
  show ?case
  proof (cases "newznab_enabled i")
    case False
    then show ?thesis using Cons by auto
  next
    case True
    then obtain host ns hs where h: "extract_hostname bracket_ok (newznab_url i) = Inr host"
      and r: "newznab_signatures bracket_ok is = Inr (ns, hs)"
      and e: "names = (if normalize_text (Some (newznab_name i)) = [] then ns else normalize_text (Some (newznab_name i)) # ns)"
        "hosts = (case host of None \<Rightarrow> hs | Some h \<Rightarrow> if h = [] then hs else h # hs)"
      using Cons.prems by (auto simp: result_simps Let_def)
    show ?thesis
      using Cons.IH[OF r] True h e extract_hostname_nonempty[of bracket_ok "newznab_url i"]
      by (auto split: option.splits)
  qed
qed

lemma strict_not_marked:
  "service p \<in> set STRICT_INDEXER_BOUND_USENET_PROVIDERS \<Longrightarrow>
   map_of PROVIDER_BOUND_SOURCE_MARKERS (service p) = None"
  by (auto simp: STRICT_INDEXER_BOUND_USENET_PROVIDERS_def PROVIDER_BOUND_SOURCE_MARKERS_def)

text \<open>The check of a downloader of the strict set, with the host and the signatures at hand.\<close>

lemma strict_check:
  assumes "service p \<in> set STRICT_INDEXER_BOUND_USENET_PROVIDERS"
    and "nzb_url s \<noteq> None" and "nzb_url s \<noteq> Some []"
    and "is_usenet_stream_compatible bracket_ok cfg s p u = Inr (b, why)"
  obtains host names hosts where "extract_hostname bracket_ok (nzb_url s) = Inr host"
    and "newznab_signatures bracket_ok (newznab_indexers u) = Inr (names, hosts)"
    and "b \<longleftrightarrow> list_ex (\<lambda>c. c \<noteq> [] \<and> c \<in> set names) (stream_source_candidates s) \<or>
           (\<exists>h. host = Some h \<and> h \<in> set hosts) \<or>
           stream_matches_public_usenet_indexer bracket_ok cfg (stream_source_candidates s) host = Inr True"
proof -
  note result = that
  have ne: "\<not> (nzb_url s = None \<or> nzb_url s = Some [])" using assms(2,3) by simp
  note unfolded = assms(4)[unfolded is_usenet_stream_compatible_def Let_def if_not_P[OF ne] strict_not_marked[OF assms(1)]
      option.case if_False get_enabled_newznab_signatures_def]
  obtain host where h: "extract_hostname bracket_ok (nzb_url s) = Inr host"
    using unfolded by (cases "extract_hostname bracket_ok (nzb_url s)") simp_all
  obtain names hosts where n: "newznab_signatures bracket_ok (newznab_indexers u) = Inr (names, hosts)"
    using unfolded assms(1) by (cases "newznab_signatures bracket_ok (newznab_indexers u)") (auto simp: h)
  have hne: "(case host of Some x \<Rightarrow> x \<noteq> [] \<and> x \<in> set hosts | None \<Rightarrow> False) \<longleftrightarrow> (\<exists>x. host = Some x \<and> x \<in> set hosts)"
    using extract_hostname_nonempty[of bracket_ok "nzb_url s"] h by (cases host) auto
  have "b \<longleftrightarrow> list_ex (\<lambda>c. c \<noteq> [] \<and> c \<in> set names) (stream_source_candidates s) \<or>
           (\<exists>h. host = Some h \<and> h \<in> set hosts) \<or>
           stream_matches_public_usenet_indexer bracket_ok cfg (stream_source_candidates s) host = Inr True"
    using unfolded assms(1)
    by (cases "stream_matches_public_usenet_indexer bracket_ok cfg (stream_source_candidates s) host")
       (simp_all add: h n hne split: if_splits)
  then show ?thesis by (rule result[OF h n])
qed


definition plain_stream :: "string \<Rightarrow> stream" where
  "plain_stream name =
     \<lparr>stream_name = name, stream_size = None, source = None, indexer = None, nzb_url = None, info_hash = None,
      stream_torrent_type = None, resolution = None, quality = None, hdr_formats = [], languages = [],
      seeders = None, created_at = No_date, files = None, filtered_resolution = None, filtered_quality = None,
      filtered_hdr_formats = [], filtered_languages = [], cached = False\<rparr>"


text \<open>
  Configuring more indexers never takes a stream away: what is compatible with a
  configuration stays compatible when its list of indexers grows, wherever the check answers.
\<close>

theorem compatible_mono:
  assumes "set (newznab_indexers u) \<subseteq> set (newznab_indexers v)"
    and "is_usenet_stream_compatible bracket_ok cfg s p u = Inr (True, why)"
  shows "is_usenet_stream_compatible bracket_ok cfg s p v \<noteq> Inr (False, why')"
proof
  assume v: "is_usenet_stream_compatible bracket_ok cfg s p v = Inr (False, why')"
  show False
  proof (cases "service p \<in> set STRICT_INDEXER_BOUND_USENET_PROVIDERS \<and> nzb_url s \<noteq> None \<and> nzb_url s \<noteq> Some []")
    case False
    then show ?thesis
      using assms(2) v by (auto simp: is_usenet_stream_compatible_def Let_def result_simps split: if_splits)
  next
    case True
    then have st: "service p \<in> set STRICT_INDEXER_BOUND_USENET_PROVIDERS" "nzb_url s \<noteq> None" "nzb_url s \<noteq> Some []"
      by auto
    obtain host names hosts where h: "extract_hostname bracket_ok (nzb_url s) = Inr host"
      and n: "newznab_signatures bracket_ok (newznab_indexers u) = Inr (names, hosts)"
      and c: "True \<longleftrightarrow> list_ex (\<lambda>c. c \<noteq> [] \<and> c \<in> set names) (stream_source_candidates s) \<or>
             (\<exists>h. host = Some h \<and> h \<in> set hosts) \<or>
             stream_matches_public_usenet_indexer bracket_ok cfg (stream_source_candidates s) host = Inr True"
      by (rule strict_check[OF st assms(2)])
    obtain host' names' hosts' where h': "extract_hostname bracket_ok (nzb_url s) = Inr host'"
      and n': "newznab_signatures bracket_ok (newznab_indexers v) = Inr (names', hosts')"
      and c': "False \<longleftrightarrow> list_ex (\<lambda>c. c \<noteq> [] \<and> c \<in> set names') (stream_source_candidates s) \<or>
             (\<exists>h. host' = Some h \<and> h \<in> set hosts') \<or>
             stream_matches_public_usenet_indexer bracket_ok cfg (stream_source_candidates s) host' = Inr True"
      by (rule strict_check[OF st v])
    have "set names \<subseteq> set names' \<and> set hosts \<subseteq> set hosts'"
      using newznab_signatures_sets[OF n] newznab_signatures_sets[OF n'] assms(1) by auto
    then show ?thesis using c c' h h' by (auto simp: list_ex_iff)
  qed
qed

theorem compatible_mono_witness:
  "is_usenet_stream_compatible (\<lambda>_. True) default_settings
       ((plain_stream ''n'')\<lparr>source := Some ''geek'', nzb_url := Some ''http://nzb.org/1''\<rparr>) (provider ''s'' ''nzbget'' 1 True)
       ((default_user [])\<lparr>newznab_indexers :=
          [\<lparr>newznab_name = ''b'', newznab_url = None, newznab_enabled = True\<rparr>, \<lparr>newznab_name = ''Geek'', newznab_url = None, newznab_enabled = True\<rparr>]\<rparr>)
     \<noteq> Inr (False, Some No_indexer_configured)"
  by (rule compatible_mono[where why = None and
        u = "(default_user [])\<lparr>newznab_indexers := [\<lparr>newznab_name = ''Geek'', newznab_url = None, newznab_enabled = True\<rparr>]\<rparr>"]) code_simp+

end
