(* ===== verification/Stream_Filter.thy ===== *)
theory Stream_Filter
  imports Usenet_Compat Py_Value
begin

text \<open>
  The filtering of streams by a user's preferences, the first half of \<open>utils/parser.py\<close>: the
  helpers on languages, years, ages, resolutions and HDR tags, and
  \<open>filter_streams_by_user_preferences\<close>. The regular expression engine and the parser of adult
  titles are the fields of \<open>filter_env\<close>.
\<close>

section \<open>Helpers\<close>

definition get_language_code :: "string option \<Rightarrow> string option" where
  "get_language_code language =
     (case language of
        None \<Rightarrow> None
      | Some l \<Rightarrow>
          let letters_only = filter is_alpha l
          in if letters_only = [] then None else Some (py_upper (take 2 letters_only)))"

text \<open>The first match of \<open>(19|20)\d{2}\<close>.\<close>

fun extract_year :: "string \<Rightarrow> string option" where
  "extract_year (a # b # c # d # cs) =
     (if [a, b] \<in> {''19'', ''20''} \<and> is_digit c \<and> is_digit d then Some [a, b, c, d]
      else extract_year (b # c # d # cs))"
| "extract_year _ = None"

definition extract_year_from_text :: "string option \<Rightarrow> string option" where
  "extract_year_from_text t = (case t of None \<Rightarrow> None | Some s \<Rightarrow> extract_year s)"

definition calculate_age_fields :: "rat \<Rightarrow> creation_date \<Rightarrow> string option \<times> int option" where
  "calculate_age_fields now created =
     (case created of
        No_date \<Rightarrow> (None, None)
      | Created t \<Rightarrow>
          let age_hours = max \<lfloor>(now - t) / 3600\<rfloor> 0
          in if age_hours < 24 then (Some (int_digits age_hours @ ''h''), Some age_hours)
             else if age_hours < 24 * 30 then (Some (int_digits (age_hours div 24) @ ''d''), Some age_hours)
             else (Some (int_digits (age_hours div (24 * 30)) @ ''mo''), Some age_hours))"

definition resolution_map :: "(string \<times> int \<times> int) list" where
  "resolution_map =
     [(''4k'', 2160, 3840), (''2160p'', 2160, 3840), (''1440p'', 1440, 2560), (''1080p'', 1080, 1920),
      (''720p'', 720, 1280), (''576p'', 576, 720), (''480p'', 480, 640), (''360p'', 360, 480), (''240p'', 240, 320)]"

definition resolution_to_dimensions :: "string option \<Rightarrow> (int \<times> int) option" where
  "resolution_to_dimensions r =
     (case r of None \<Rightarrow> None | Some t \<Rightarrow> if t = [] then None else map_of resolution_map (py_lower t))"

section \<open>HDR tags\<close>

text \<open>\<open>s.split()\<close>: the words between runs of white space.\<close>

definition words_of :: "string \<Rightarrow> string list" where
  "words_of s = filter (\<lambda>w. w \<noteq> []) (split_char (CHR 0x20) (map (\<lambda>c. if py_isspace c then CHR 0x20 else c) s))"

definition hdr_normalize_token_key :: "string \<Rightarrow> string" where
  "hdr_normalize_token_key token = py_join '' '' (words_of (py_lower (py_strip token)))"

definition resolve_hdr_token_to_filter_value :: "string \<Rightarrow> string option" where
  "resolve_hdr_token_to_filter_value token =
     (let stripped = py_strip token; key = hdr_normalize_token_key stripped
      in if stripped = [] then None
         else if key = ''unknown'' then Some ''Unknown''
         else case map_of HDR_FORMAT_ALIASES key of
                Some mapped \<Rightarrow> Some mapped
              | None \<Rightarrow> if stripped \<in> set SUPPORTED_HDR_FORMATS then Some stripped else None)"

text \<open>The first occurrences, in their order.\<close>

fun dedup :: "'a list \<Rightarrow> 'a list \<Rightarrow> 'a list" where
  "dedup seen [] = []"
| "dedup seen (x # xs) = (if x \<in> set seen then dedup seen xs else x # dedup (x # seen) xs)"

definition hdr_raw_tokens :: "string option list \<Rightarrow> string list" where
  "hdr_raw_tokens raw_formats = filter (\<lambda>t. t \<noteq> []) (map py_strip (map the (filter (\<lambda>t. t \<noteq> None) raw_formats)))"

definition normalized_hdr_filter_and_display :: "string option list \<Rightarrow> string list \<times> string list" where
  "normalized_hdr_filter_and_display raw_formats =
     (let raw = hdr_raw_tokens raw_formats
      in if raw = [] then ([''Unknown''], [])
         else
           let resolved = map resolve_hdr_token_to_filter_value raw;
               formats = dedup [] (map the (filter (\<lambda>r. r \<noteq> None) resolved));
               filter_formats = (if None \<in> set resolved \<and> ''Unknown'' \<notin> set formats
                                 then formats @ [''Unknown''] else formats)
           in (filter_formats, filter (\<lambda>h. h \<noteq> ''Unknown'') filter_formats))"

section \<open>Video ids and sizes\<close>

definition season_episode_from_stremio_video_id :: "string \<Rightarrow> (int \<times> int) option" where
  "season_episode_from_stremio_video_id video_id =
     (let parts = split_char (CHR '':'') video_id
      in if length parts < 3 then None
         else case (int_of_string (last parts), int_of_string (last (butlast parts))) of
                (Inr episode, Inr season) \<Rightarrow> Some (season, episode)
              | _ \<Rightarrow> None)"

definition sort_size_bytes_for_stream :: "stream \<Rightarrow> (int \<times> int) option \<Rightarrow> int" where
  "sort_size_bytes_for_stream s se =
     (case (se, files s) of
        (Some (season, episode), Some fs) \<Rightarrow>
          (case get_file_for_episode season episode fs of
             Some f \<Rightarrow> if 0 < file_size f then file_size f else size_or_0 s
           | None \<Rightarrow> size_or_0 s)
      | _ \<Rightarrow> size_or_0 s)"

section \<open>The filter\<close>

record filter_env =
  bracket_ok :: "string \<Rightarrow> bool"
  compile_pattern :: "string \<Rightarrow> (string \<Rightarrow> bool) option"
  adult_title :: "string \<Rightarrow> bool"

datatype reason =
    Requires_Streaming_Provider
  | Requires_Private_Tracker_Support
  | Resolution_Not_Selected
  | Max_Size_Exceeded
  | Min_Size_Not_Met
  | Quality_Not_Selected
  | HDR_Not_Selected
  | Language_Not_Selected
  | Strict_Keyword_Filter
  | Stream_Name_Filter
  | No_Cached_Streams
  | Provider_Indexer_Mismatch

type_synonym reasons = "(reason \<times> nat) list"

definition initial_reasons :: reasons where
  "initial_reasons =
     map (\<lambda>r. (r, 0))
       [Requires_Streaming_Provider, Requires_Private_Tracker_Support, Resolution_Not_Selected, Max_Size_Exceeded,
        Min_Size_Not_Met, Quality_Not_Selected, HDR_Not_Selected, Language_Not_Selected, Strict_Keyword_Filter,
        Stream_Name_Filter, No_Cached_Streams]"

text \<open>\<open>d[r] = d.get(r, 0) + 1\<close> on a dictionary in insertion order.\<close>

fun count_reason :: "reason \<Rightarrow> reasons \<Rightarrow> reasons" where
  "count_reason r [] = [(r, 1)]"
| "count_reason r ((q, n) # rs) = (if q = r then (q, n + 1) # rs else (q, n) # count_reason r rs)"

text \<open>The compiled patterns are predicates on the name of a stream; an invalid expression is left out.\<close>

definition safe_filter_patterns :: "user_data \<Rightarrow> string list" where
  "safe_filter_patterns u =
     filter (\<lambda>p. length p \<le> MAX_STREAM_NAME_FILTER_PATTERN_LENGTH)
       (take MAX_STREAM_NAME_FILTER_PATTERNS (stream_name_filter_patterns u))"

definition compiled_name_patterns :: "filter_env \<Rightarrow> user_data \<Rightarrow> (string \<Rightarrow> bool) list" where
  "compiled_name_patterns env u =
     (if stream_name_filter_mode u = ''disabled'' \<or> safe_filter_patterns u = [] then []
      else if stream_name_filter_use_regex u
           then map the (filter (\<lambda>p. p \<noteq> None) (map (compile_pattern env) (safe_filter_patterns u)))
      else map (\<lambda>p name. py_contains (py_lower p) (py_lower name)) (safe_filter_patterns u))"

definition quality_filter_set :: "user_data \<Rightarrow> string option list py_result" where
  "quality_filter_set u =
     bind_result
       (map_result (\<lambda>group. case map_of QUALITY_GROUPS group of Some qs \<Rightarrow> Inr qs | None \<Rightarrow> Inl KeyError) (quality_filter u))
       (\<lambda>groups. Inr (concat groups))"

definition is_contain_18_plus_keywords :: "filter_env \<Rightarrow> settings \<Rightarrow> string \<Rightarrow> bool" where
  "is_contain_18_plus_keywords env cfg title \<longleftrightarrow> adult_content_filter_in_torrent_title cfg \<and> adult_title env title"

definition prepared :: "stream \<Rightarrow> stream" where
  "prepared s =
     s\<lparr>filtered_resolution := (if resolution s \<in> set SUPPORTED_RESOLUTIONS then resolution s else None),
       filtered_quality := (if quality s \<in> set SUPPORTED_QUALITIES then quality s else None),
       filtered_hdr_formats := fst (normalized_hdr_filter_and_display (hdr_formats s)),
       filtered_languages :=
         (let langs = filter (\<lambda>l. l \<in> set SUPPORTED_LANGUAGES) (map Some (languages s))
          in if langs = [] then [None] else langs),
       cached := False\<rparr>"

definition exceeds :: "int \<Rightarrow> size_limit \<Rightarrow> bool" where
  "exceeds n limit = (case limit of Unlimited \<Rightarrow> False | Bytes b \<Rightarrow> b < of_int n)"

definition effective_type :: "stream \<Rightarrow> torrent_type" where
  "effective_type s = (case stream_torrent_type s of None \<Rightarrow> PUBLIC | Some t \<Rightarrow> t)"

text \<open>The body of the loop: the first test a stream fails, or its prepared copy.\<close>

definition judge ::
  "filter_env \<Rightarrow> settings \<Rightarrow> user_data \<Rightarrow> string option list \<Rightarrow> (string \<Rightarrow> bool) list \<Rightarrow>
   streaming_provider option \<Rightarrow> stream \<Rightarrow> reason + stream" where
  "judge env cfg u qualities patterns primary s =
     (let s' = prepared s; matches_any = list_ex (\<lambda>p. p (stream_name s)) patterns
      in if effective_type s \<noteq> PUBLIC \<and> primary = None then Inl Requires_Streaming_Provider
         else if effective_type s \<noteq> PUBLIC \<and> effective_type s \<noteq> WEB_SEED \<and>
            (case primary of Some p \<Rightarrow> service p \<notin> set SUPPORTED_PRIVATE_TRACKER_STREAMING_PROVIDERS | None \<Rightarrow> False)
            then Inl Requires_Private_Tracker_Support
         else if filtered_resolution s' \<notin> set (selected_resolutions u) then Inl Resolution_Not_Selected
         else if exceeds (size_or_0 s') (max_size u) then Inl Max_Size_Exceeded
         else if min_size u > 0 \<and> size_or_0 s' > 0 \<and> size_or_0 s' < min_size u then Inl Min_Size_Not_Met
         else if filtered_quality s' \<notin> set qualities then Inl Quality_Not_Selected
         else if \<not> list_ex (\<lambda>h. h \<in> set (hdr_filter u)) (filtered_hdr_formats s') then Inl HDR_Not_Selected
         else if \<not> list_ex (\<lambda>l. l \<in> set (language_sorting u)) (filtered_languages s') then Inl Language_Not_Selected
         else if is_contain_18_plus_keywords env cfg (stream_name s) then Inl Strict_Keyword_Filter
         else if stream_name_filter_mode u \<noteq> ''disabled'' \<and> patterns \<noteq> [] \<and>
            stream_name_filter_mode u = ''include'' \<and> \<not> matches_any then Inl Stream_Name_Filter
         else if stream_name_filter_mode u \<noteq> ''disabled'' \<and> patterns \<noteq> [] \<and>
            stream_name_filter_mode u = ''exclude'' \<and> matches_any then Inl Stream_Name_Filter
         else Inr s')"

fun filter_loop :: "(stream \<Rightarrow> reason + stream) \<Rightarrow> stream list \<Rightarrow> stream list \<Rightarrow> reasons \<Rightarrow> stream list \<times> reasons" where
  "filter_loop f [] kept reasons = (kept, reasons)"
| "filter_loop f (s # ss) kept reasons =
     (case f s of
        Inl r \<Rightarrow> filter_loop f ss kept (count_reason r reasons)
      | Inr s' \<Rightarrow> filter_loop f ss (kept @ [s']) reasons)"

text \<open>The pass over Usenet streams before the loop.\<close>

fun usenet_pass ::
  "(stream \<Rightarrow> (bool \<times> incompatibility option) py_result) \<Rightarrow> stream list \<Rightarrow> stream list \<Rightarrow> reasons \<Rightarrow> (stream list \<times> reasons) py_result" where
  "usenet_pass compatible [] kept reasons = Inr (kept, reasons)"
| "usenet_pass compatible (s # ss) kept reasons =
     bind_result (compatible s) (\<lambda>(ok, _).
       if ok then usenet_pass compatible ss (kept @ [s]) reasons
       else usenet_pass compatible ss kept (count_reason Provider_Indexer_Mismatch reasons))"

definition chosen_provider :: "settings \<Rightarrow> user_data \<Rightarrow> streaming_provider option \<Rightarrow> streaming_provider option py_result" where
  "chosen_provider cfg u provider_override =
     (case provider_override of Some p \<Rightarrow> Inr (Some p) | None \<Rightarrow> get_primary_provider cfg u)"

definition filter_streams_by_user_preferences ::
  "filter_env \<Rightarrow> settings \<Rightarrow> user_data \<Rightarrow> streaming_provider option \<Rightarrow> bool \<Rightarrow> stream list \<Rightarrow>
   (stream list \<times> reasons) py_result" where
  "filter_streams_by_user_preferences env cfg u provider_override is_usenet streams =
     bind_result (quality_filter_set u) (\<lambda>qualities.
       bind_result (chosen_provider cfg u provider_override) (\<lambda>primary.
         bind_result
           (case primary of
              Some p \<Rightarrow>
                if is_usenet
                then usenet_pass (\<lambda>s. is_usenet_stream_compatible (bracket_ok env) cfg s p u) streams [] initial_reasons
                else Inr (streams, initial_reasons)
            | None \<Rightarrow> Inr (streams, initial_reasons))
           (\<lambda>(candidates, reasons).
             Inr (filter_loop (judge env cfg u qualities (compiled_name_patterns env u) primary) candidates [] reasons))))"

end
