(* ===== verification/Stream_Filter_Correct.thy ===== *)
theory Stream_Filter_Correct
  imports Stream_Filter
begin

text \<open>
  What the filter guarantees: a stream is kept exactly when it is wanted, every stream is either
  kept or counted under one reason, the default preferences keep every public stream, and the HDR
  tags compared are always among those a user can choose.
\<close>

section \<open>The loops\<close>

definition kept_by :: "(stream \<Rightarrow> reason + stream) \<Rightarrow> stream list \<Rightarrow> stream list" where
  "kept_by f ss = concat (map (\<lambda>s. case f s of Inl _ \<Rightarrow> [] | Inr s' \<Rightarrow> [s']) ss)"

definition total_reasons :: "reasons \<Rightarrow> nat" where
  "total_reasons rs = sum_list (map snd rs)"

lemma total_count_reason [simp]: "total_reasons (count_reason r rs) = Suc (total_reasons rs)"
  by (induction r rs rule: count_reason.induct) (auto simp: total_reasons_def)

lemma filter_loop_kept: "fst (filter_loop f ss kept rs) = kept @ kept_by f ss"
  by (induction ss arbitrary: kept rs) (auto simp: kept_by_def split: sum.splits)

lemma filter_loop_total:
  "length (fst (filter_loop f ss kept rs)) + total_reasons (snd (filter_loop f ss kept rs)) =
   length kept + total_reasons rs + length ss"
  by (induction ss arbitrary: kept rs) (auto split: sum.splits)

lemma usenet_pass_total:
  "usenet_pass compatible ss kept rs = Inr (kept', rs') \<Longrightarrow>
   length kept' + total_reasons rs' = length kept + total_reasons rs + length ss"
  by (induction ss arbitrary: kept rs) (auto simp: result_simps split: if_splits)

lemma usenet_pass_kept:
  "usenet_pass compatible ss kept rs = Inr (kept', rs') \<Longrightarrow>
   kept' = kept @ filter (\<lambda>s. \<exists>why. compatible s = Inr (True, why)) ss"
proof (induction ss arbitrary: kept rs)
  case Nil
  then show ?case by simp
next
  case (Cons s ss)
  obtain c why where c: "compatible s = Inr (c, why)"
    using Cons.prems by (auto simp: result_simps)
  then show ?case
    using Cons.prems Cons.IH by (cases c) (auto dest: Cons.IH)
qed

lemma total_initial [simp]: "total_reasons initial_reasons = 0"
  by (simp add: total_reasons_def initial_reasons_def)

section \<open>The verdict on a stream\<close>

text \<open>What a user asks of a stream.\<close>

definition playable :: "streaming_provider option \<Rightarrow> stream \<Rightarrow> bool" where
  "playable primary s \<longleftrightarrow>
     effective_type s = PUBLIC \<or>
     (\<exists>p. primary = Some p \<and>
        (effective_type s = WEB_SEED \<or> service p \<in> set SUPPORTED_PRIVATE_TRACKER_STREAMING_PROVIDERS))"

definition size_wanted :: "user_data \<Rightarrow> stream \<Rightarrow> bool" where
  "size_wanted u s \<longleftrightarrow>
     \<not> exceeds (size_or_0 s) (max_size u) \<and> (size_or_0 s \<le> 0 \<or> min_size u \<le> size_or_0 s)"

definition name_wanted :: "filter_env \<Rightarrow> user_data \<Rightarrow> stream \<Rightarrow> bool" where
  "name_wanted env u s \<longleftrightarrow>
     compiled_name_patterns env u = [] \<or>
     ((stream_name_filter_mode u = ''include'' \<longrightarrow> (\<exists>p \<in> set (compiled_name_patterns env u). p (stream_name s))) \<and>
      (stream_name_filter_mode u = ''exclude'' \<longrightarrow> (\<forall>p \<in> set (compiled_name_patterns env u). \<not> p (stream_name s))))"

definition quality_wanted :: "user_data \<Rightarrow> string option \<Rightarrow> bool" where
  "quality_wanted u q \<longleftrightarrow> (\<exists>g \<in> set (quality_filter u). \<exists>qs. map_of QUALITY_GROUPS g = Some qs \<and> q \<in> set qs)"

definition wanted :: "filter_env \<Rightarrow> settings \<Rightarrow> user_data \<Rightarrow> streaming_provider option \<Rightarrow> stream \<Rightarrow> bool" where
  "wanted env cfg u primary s \<longleftrightarrow>
     playable primary s \<and>
     filtered_resolution (prepared s) \<in> set (selected_resolutions u) \<and>
     size_wanted u s \<and>
     quality_wanted u (filtered_quality (prepared s)) \<and>
     set (filtered_hdr_formats (prepared s)) \<inter> set (hdr_filter u) \<noteq> {} \<and>
     set (filtered_languages (prepared s)) \<inter> set (language_sorting u) \<noteq> {} \<and>
     \<not> is_contain_18_plus_keywords env cfg (stream_name s) \<and>
     name_wanted env u s"

lemma quality_filter_set_wanted:
  "quality_filter_set u = Inr qualities \<Longrightarrow> q \<in> set qualities \<longleftrightarrow> quality_wanted u q"
proof -
  define look where "look = (\<lambda>g. case map_of QUALITY_GROUPS g of Some qs \<Rightarrow> Inr qs | None \<Rightarrow> Inl KeyError)"
  have "map_result look gs = Inr qss \<Longrightarrow>
      q \<in> set (concat qss) \<longleftrightarrow> (\<exists>g \<in> set gs. \<exists>qs. map_of QUALITY_GROUPS g = Some qs \<and> q \<in> set qs)" for gs qss
    by (induction gs arbitrary: qss) (auto simp: look_def result_simps split: option.splits)
  moreover assume "quality_filter_set u = Inr qualities"
  then obtain groups where "map_result look (quality_filter u) = Inr groups" "qualities = concat groups"
    by (auto simp: quality_filter_set_def look_def[symmetric] result_simps)
  ultimately show ?thesis by (simp add: quality_wanted_def)
qed

lemma compiled_disabled: "compiled_name_patterns env u \<noteq> [] \<Longrightarrow> stream_name_filter_mode u \<noteq> ''disabled''"
  by (auto simp: compiled_name_patterns_def)

lemma size_prepared [simp]: "size_or_0 (prepared s) = size_or_0 s"
  by (simp add: prepared_def size_or_0_def)

lemma judge_Inr:
  "judge env cfg u qualities patterns primary s = Inr s' \<Longrightarrow> s' = prepared s"
  by (simp add: judge_def Let_def split: if_splits)

lemma judge_wanted:
  assumes "quality_filter_set u = Inr qualities"
  shows "judge env cfg u qualities (compiled_name_patterns env u) primary s = Inr (prepared s) \<longleftrightarrow>
    wanted env cfg u primary s"
proof -
  have hdr: "list_ex (\<lambda>h. h \<in> set (hdr_filter u)) hs \<longleftrightarrow> set hs \<inter> set (hdr_filter u) \<noteq> {}" for hs
    by (auto simp: list_ex_iff)
  have lang: "list_ex (\<lambda>l. l \<in> set (language_sorting u)) ls \<longleftrightarrow> set ls \<inter> set (language_sorting u) \<noteq> {}" for ls
    by (auto simp: list_ex_iff)
  have play: "playable primary s \<longleftrightarrow> \<not> (effective_type s \<noteq> PUBLIC \<and> primary = None) \<and>
      \<not> (effective_type s \<noteq> PUBLIC \<and> effective_type s \<noteq> WEB_SEED \<and>
         (case primary of Some p \<Rightarrow> service p \<notin> set SUPPORTED_PRIVATE_TRACKER_STREAMING_PROVIDERS | None \<Rightarrow> False))"
    by (cases primary) (auto simp: playable_def)
  have name: "name_wanted env u s \<longleftrightarrow>
      \<not> (stream_name_filter_mode u \<noteq> ''disabled'' \<and> compiled_name_patterns env u \<noteq> [] \<and>
         stream_name_filter_mode u = ''include'' \<and> \<not> list_ex (\<lambda>p. p (stream_name s)) (compiled_name_patterns env u)) \<and>
      \<not> (stream_name_filter_mode u \<noteq> ''disabled'' \<and> compiled_name_patterns env u \<noteq> [] \<and>
         stream_name_filter_mode u = ''exclude'' \<and> list_ex (\<lambda>p. p (stream_name s)) (compiled_name_patterns env u))"
    using compiled_disabled[of env u] unfolding name_wanted_def list_ex_iff by blast
  have size: "size_wanted u s \<longleftrightarrow> \<not> exceeds (size_or_0 s) (max_size u) \<and>
      \<not> (min_size u > 0 \<and> size_or_0 s > 0 \<and> size_or_0 s < min_size u)"
    by (auto simp: size_wanted_def)
  show ?thesis
    unfolding judge_def wanted_def Let_def size_prepared hdr lang play name size
      quality_filter_set_wanted[OF assms, symmetric]
    by (simp split: if_split)
qed

lemma kept_by_judge:
  assumes "quality_filter_set u = Inr qualities"
  shows "kept_by (judge env cfg u qualities (compiled_name_patterns env u) primary) ss =
    map prepared (filter (wanted env cfg u primary) ss)"
proof -
  have "(case judge env cfg u qualities (compiled_name_patterns env u) primary s of Inl _ \<Rightarrow> [] | Inr s' \<Rightarrow> [s']) =
      (if wanted env cfg u primary s then [prepared s] else [])" for s
  proof (cases "judge env cfg u qualities (compiled_name_patterns env u) primary s")
    case (Inl r)
    then show ?thesis using judge_wanted[OF assms, of env cfg primary s] by (simp only: sum.simps simp_thms if_False)
  next
    case (Inr s')
    then show ?thesis
      using judge_wanted[OF assms, of env cfg primary s] judge_Inr[OF Inr] by (simp only: sum.simps simp_thms if_True)
  qed
  then show ?thesis by (induction ss) (simp_all add: kept_by_def)
qed

section \<open>The filter\<close>

text \<open>The streams that pass the check of Usenet sources, when there is one.\<close>

definition source_compatible ::
  "filter_env \<Rightarrow> settings \<Rightarrow> user_data \<Rightarrow> streaming_provider option \<Rightarrow> bool \<Rightarrow> stream \<Rightarrow> bool" where
  "source_compatible env cfg u primary is_usenet s \<longleftrightarrow>
     (is_usenet \<longrightarrow> (\<forall>p. primary = Some p \<longrightarrow>
        (\<exists>why. is_usenet_stream_compatible (bracket_ok env) cfg s p u = Inr (True, why))))"

lemma filter_streams_unfold:
  assumes "filter_streams_by_user_preferences env cfg u provider_override is_usenet streams = Inr (kept, reasons)"
  obtains qualities primary candidates rs where "quality_filter_set u = Inr qualities"
    and "chosen_provider cfg u provider_override = Inr primary"
    and "candidates = filter (source_compatible env cfg u primary is_usenet) streams"
    and "length candidates + total_reasons rs = length streams"
    and "(kept, reasons) = filter_loop (judge env cfg u qualities (compiled_name_patterns env u) primary) candidates [] rs"
proof -
  note result = that
  obtain qualities primary where q: "quality_filter_set u = Inr qualities"
    and p: "chosen_provider cfg u provider_override = Inr primary"
    using assms by (auto simp: filter_streams_by_user_preferences_def result_simps)
  show ?thesis
  proof (cases "is_usenet \<and> primary \<noteq> None")
    case False
    then have "(kept, reasons) =
        filter_loop (judge env cfg u qualities (compiled_name_patterns env u) primary) streams [] initial_reasons"
      using assms by (cases primary) (auto simp: filter_streams_by_user_preferences_def q p)
    moreover have "streams = filter (source_compatible env cfg u primary is_usenet) streams"
      using False by (auto simp: source_compatible_def filter_id_conv[symmetric])
    ultimately show ?thesis using result[OF q p, of streams initial_reasons] by simp
  next
    case True
    then obtain prov candidates rs where pr: "primary = Some prov"
      and c: "usenet_pass (\<lambda>s. is_usenet_stream_compatible (bracket_ok env) cfg s prov u) streams [] initial_reasons =
        Inr (candidates, rs)"
      and l: "(kept, reasons) =
        filter_loop (judge env cfg u qualities (compiled_name_patterns env u) primary) candidates [] rs"
      using assms by (auto simp: filter_streams_by_user_preferences_def q p result_simps)
    have "source_compatible env cfg u primary is_usenet =
        (\<lambda>s. \<exists>why. is_usenet_stream_compatible (bracket_ok env) cfg s prov u = Inr (True, why))"
      using True by (auto simp: source_compatible_def pr)
    then have "candidates = filter (source_compatible env cfg u primary is_usenet) streams"
      using usenet_pass_kept[OF c] by simp
    then show ?thesis using result[OF q p _ _ l] usenet_pass_total[OF c] by simp
  qed
qed

lemma filter_keeps_wanted_core:
  assumes "filter_streams_by_user_preferences env cfg u provider_override is_usenet streams = Inr (kept, reasons)"
    and "chosen_provider cfg u provider_override = Inr primary"
  shows "kept = map prepared (filter (\<lambda>s. source_compatible env cfg u primary is_usenet s \<and> wanted env cfg u primary s) streams)"
proof (rule filter_streams_unfold[OF assms(1)])
  fix qualities primary' candidates rs
  assume q: "quality_filter_set u = Inr qualities" and p: "chosen_provider cfg u provider_override = Inr primary'"
    and c: "candidates = filter (source_compatible env cfg u primary' is_usenet) streams"
    and l: "(kept, reasons) = filter_loop (judge env cfg u qualities (compiled_name_patterns env u) primary') candidates [] rs"
  have "kept = kept_by (judge env cfg u qualities (compiled_name_patterns env u) primary') candidates"
    using filter_loop_kept[of _ candidates "[]" rs] l by (metis append_Nil fst_conv)
  then show ?thesis
    using p assms(2) by (simp add: kept_by_judge[OF q] c conj_commute)
qed

text \<open>
  Property C4. The filter keeps exactly the streams the user wants, in their order: those that the
  chosen provider can play, of a selected resolution, quality, HDR format and language, within the
  size limits, with an accepted name, and, for Usenet, of a source the provider may use.
\<close>

theorem filter_keeps_wanted:
  assumes "filter_streams_by_user_preferences env cfg u provider_override is_usenet streams = Inr (kept, reasons)"
    and "chosen_provider cfg u provider_override = Inr primary"
  shows "kept = map prepared (filter (\<lambda>s. source_compatible env cfg u primary is_usenet s \<and> wanted env cfg u primary s) streams)"
  using assms by (rule filter_keeps_wanted_core)

text \<open>
  No stream gets lost uncounted: the streams kept and the counts of the reasons add up
  to the number of streams given.
\<close>

theorem filter_accounts_for_all:
  assumes "filter_streams_by_user_preferences env cfg u provider_override is_usenet streams = Inr (kept, reasons)"
  shows "length kept + total_reasons reasons = length streams"
proof (rule filter_streams_unfold[OF assms])
  fix qualities primary candidates rs
  assume t: "length candidates + total_reasons rs = length streams"
    and l: "(kept, reasons) = filter_loop (judge env cfg u qualities (compiled_name_patterns env u) primary) candidates [] rs"
  show ?thesis
    using filter_loop_total[of "judge env cfg u qualities (compiled_name_patterns env u) primary" candidates "[]" rs] t
    by (simp add: l[symmetric])
qed

section \<open>Witnesses\<close>

definition sample_env :: filter_env where
  "sample_env =
     \<lparr>bracket_ok = (\<lambda>_. True), compile_pattern = (\<lambda>_. None), adult_title = (\<lambda>t. py_contains ''XXX'' t)\<rparr>"

definition sample_streams :: "stream list" where
  "sample_streams =
     [(plain_stream ''Film 2160p'')\<lparr>resolution := Some ''2160p'', hdr_formats := [Some ''dv'', None], stream_size := Some 900\<rparr>,
      (plain_stream ''Film CAM'')\<lparr>quality := Some ''CAM'', languages := [''Tamil'', ''Klingon'']\<rparr>,
      (plain_stream ''Film XXX'')\<lparr>stream_torrent_type := Some PRIVATE\<rparr>]"

definition sample_user :: user_data where
  "sample_user = (default_user [provider ''a'' ''pikpak'' 1 True])\<lparr>max_size := Bytes 800\<rparr>"

theorem filter_keeps_wanted_witness:
  "map prepared [(plain_stream ''Film CAM'')\<lparr>quality := Some ''CAM'', languages := [''Tamil'', ''Klingon'']\<rparr>] =
   map prepared (filter (\<lambda>s. source_compatible sample_env default_settings sample_user (Some (provider ''a'' ''pikpak'' 1 True)) False s \<and>
     wanted sample_env default_settings sample_user (Some (provider ''a'' ''pikpak'' 1 True)) s) sample_streams)"
  by (rule filter_keeps_wanted[where provider_override = None and reasons =
        "map (\<lambda>(r, n). (r, if r \<in> {Max_Size_Exceeded, Requires_Private_Tracker_Support} then 1 else n)) initial_reasons"])
     code_simp+

theorem filter_accounts_for_all_witness:
  "length (map prepared [(plain_stream ''Film CAM'')\<lparr>quality := Some ''CAM'', languages := [''Tamil'', ''Klingon'']\<rparr>]) +
   total_reasons (map (\<lambda>(r, n). (r, if r \<in> {Max_Size_Exceeded, Requires_Private_Tracker_Support} then 1 else n)) initial_reasons) =
   length sample_streams"
  by (rule filter_accounts_for_all[where env = sample_env and cfg = default_settings and u = sample_user
        and provider_override = None and is_usenet = False]) code_simp

section \<open>HDR tags and default preferences\<close>

lemma dedup_distinct: "distinct (dedup seen xs) \<and> set (dedup seen xs) = set xs - set seen"
  by (induction seen xs rule: dedup.induct) auto

lemma aliases_supported: "\<forall>v \<in> set (map snd HDR_FORMAT_ALIASES). v \<in> set SUPPORTED_HDR_FORMATS"
  by code_simp

lemma resolved_hdr_supported:
  assumes "resolve_hdr_token_to_filter_value token = Some v"
  shows "v \<in> set SUPPORTED_HDR_FORMATS"
proof -
  have "''Unknown'' \<in> set SUPPORTED_HDR_FORMATS" by code_simp
  moreover have "map_of HDR_FORMAT_ALIASES k = Some x \<Longrightarrow> x \<in> set SUPPORTED_HDR_FORMATS" for k x
    using aliases_supported by (auto dest!: map_of_SomeD)
  ultimately show ?thesis
    using assms unfolding resolve_hdr_token_to_filter_value_def Let_def
    by (auto split: if_splits option.splits simp del: set_map)
qed

lemma hdr_formats_supported:
  "fst (normalized_hdr_filter_and_display raw) \<noteq> [] \<and>
   distinct (fst (normalized_hdr_filter_and_display raw)) \<and>
   set (fst (normalized_hdr_filter_and_display raw)) \<subseteq> set SUPPORTED_HDR_FORMATS \<and>
   snd (normalized_hdr_filter_and_display raw) = filter (\<lambda>h. h \<noteq> ''Unknown'') (fst (normalized_hdr_filter_and_display raw))"
proof (cases "hdr_raw_tokens raw = []")
  case True
  have "''Unknown'' \<in> set SUPPORTED_HDR_FORMATS" by code_simp
  then show ?thesis by (simp add: normalized_hdr_filter_and_display_def True)
next
  case False
  define resolved where "resolved = map resolve_hdr_token_to_filter_value (hdr_raw_tokens raw)"
  define formats where "formats = dedup [] (map the (filter (\<lambda>r. r \<noteq> None) resolved))"
  define ff where "ff = (if None \<in> set resolved \<and> ''Unknown'' \<notin> set formats then formats @ [''Unknown''] else formats)"
  have e: "normalized_hdr_filter_and_display raw = (ff, filter (\<lambda>h. h \<noteq> ''Unknown'') ff)"
    using False by (simp add: normalized_hdr_filter_and_display_def Let_def resolved_def formats_def ff_def)
  have f: "distinct formats" "set formats = the ` {r \<in> set resolved. r \<noteq> None}"
    using dedup_distinct[of "[]" "map the (filter (\<lambda>r. r \<noteq> None) resolved)"] by (auto simp: formats_def)
  have sup: "set formats \<subseteq> set SUPPORTED_HDR_FORMATS"
    using resolved_hdr_supported by (auto simp: f(2) resolved_def)
  have "''Unknown'' \<in> set SUPPORTED_HDR_FORMATS" by code_simp
  then have "set ff \<subseteq> set SUPPORTED_HDR_FORMATS \<and> distinct ff" using sup f(1) by (auto simp: ff_def)
  moreover have "ff \<noteq> []"
  proof (cases "None \<in> set resolved")
    case True
    then show ?thesis by (cases formats) (auto simp: ff_def)
  next
    case nn: False
    obtain r where r: "r \<in> set resolved" using False by (cases "hdr_raw_tokens raw") (auto simp: resolved_def)
    then have "r \<noteq> None" using nn by metis
    then have "the r \<in> set formats" unfolding f(2) using r by blast
    then show ?thesis using nn by (auto simp: ff_def)
  qed
  ultimately show ?thesis by (simp add: e)
qed

lemma hdr_formats_supported_nonempty:
  "set (fst (normalized_hdr_filter_and_display raw)) \<inter> set HDR_FORMATS_FILTERS \<noteq> {}"
  using hdr_formats_supported[of raw]
  by (cases "fst (normalized_hdr_filter_and_display raw)") (auto simp: SUPPORTED_HDR_FORMATS_def)

text \<open>
  Property C40. Whatever tags a stream carries, the formats compared with the user's selection are
  at least one, each once, and all among the formats that can be selected; those shown are the
  same ones without \<open>Unknown\<close>.
\<close>

theorem hdr_formats_selectable:
  "fst (normalized_hdr_filter_and_display raw) \<noteq> [] \<and>
   distinct (fst (normalized_hdr_filter_and_display raw)) \<and>
   set (fst (normalized_hdr_filter_and_display raw)) \<subseteq> set SUPPORTED_HDR_FORMATS \<and>
   snd (normalized_hdr_filter_and_display raw) = filter (\<lambda>h. h \<noteq> ''Unknown'') (fst (normalized_hdr_filter_and_display raw))"
  by (rule hdr_formats_supported)

text \<open>
  The default preferences hide nothing: a list of public streams of any resolution,
  quality, HDR tag and language passes the filter whole when the adult filter is off.
\<close>

theorem default_preferences_keep_all:
  assumes "list_all (\<lambda>s. effective_type s = PUBLIC) streams"
    and "\<not> adult_content_filter_in_torrent_title cfg"
    and "filter_streams_by_user_preferences env cfg (default_user ps) provider_override False streams = Inr (kept, reasons)"
  shows "kept = map prepared streams"
proof -
  obtain primary where p: "chosen_provider cfg (default_user ps) provider_override = Inr primary"
    using assms(3) by (rule filter_streams_unfold)
  have res: "filtered_resolution (prepared s) \<in> set RESOLUTIONS" for s
  proof -
    have "None \<in> set RESOLUTIONS" by code_simp
    then show ?thesis by (simp add: prepared_def SUPPORTED_RESOLUTIONS_def)
  qed
  have lang: "set (filtered_languages (prepared s)) \<inter> set LANGUAGES_FILTERS \<noteq> {}" for s
  proof -
    have "None \<in> set LANGUAGES_FILTERS" by code_simp
    then show ?thesis
      by (cases "filter (\<lambda>l. l \<in> set SUPPORTED_LANGUAGES) (map Some (languages s))")
         (auto simp: prepared_def SUPPORTED_LANGUAGES_def filter_eq_Cons_iff)
  qed
  have hdr: "set (filtered_hdr_formats (prepared s)) \<inter> set HDR_FORMATS_FILTERS \<noteq> {}" for s
    using hdr_formats_supported_nonempty[of "hdr_formats s"] by (simp add: prepared_def)
  have qual: "quality_wanted (default_user ps) (filtered_quality (prepared s))" for s
  proof -
    have "distinct (map fst QUALITY_GROUPS)" by code_simp
    then have "q \<in> set SUPPORTED_QUALITIES \<Longrightarrow> quality_wanted (default_user ps) q" for q
      by (force simp: quality_wanted_def default_user_def SUPPORTED_QUALITIES_def)
    moreover have "None \<in> set SUPPORTED_QUALITIES" by code_simp
    ultimately show ?thesis by (simp add: prepared_def)
  qed
  have "wanted env cfg (default_user ps) primary s" if "effective_type s = PUBLIC" for s
    using that assms(2) res[of s] lang[of s] hdr[of s] qual[of s]
    unfolding wanted_def playable_def size_wanted_def name_wanted_def is_contain_18_plus_keywords_def
    by (simp add: default_user_def exceeds_def compiled_name_patterns_def linorder_linear)
  then have "filter (\<lambda>s. source_compatible env cfg (default_user ps) primary False s \<and>
      wanted env cfg (default_user ps) primary s) streams = streams"
    using assms(1) by (auto simp: filter_id_conv source_compatible_def list_all_iff)
  then show ?thesis using filter_keeps_wanted_core[OF assms(3) p] by simp
qed

theorem default_preferences_keep_all_witness:
  "[(plain_stream ''a'')\<lparr>filtered_hdr_formats := [''Unknown''], filtered_languages := [None]\<rparr>,
    (plain_stream ''b'')\<lparr>resolution := Some ''8k'', hdr_formats := [Some ''weird''],
       filtered_hdr_formats := [''Unknown''], filtered_languages := [None]\<rparr>] =
   map prepared [plain_stream ''a'', (plain_stream ''b'')\<lparr>resolution := Some ''8k'', hdr_formats := [Some ''weird'']\<rparr>]"
  by (rule default_preferences_keep_all[where env = sample_env and ps = "[]" and provider_override = None
        and cfg = "default_settings\<lparr>adult_content_filter_in_torrent_title := False\<rparr>" and reasons = initial_reasons])
     code_simp+

end
