(* ===== verification/Expiring_Set.thy ===== *)
theory Expiring_Set
  imports Main
begin

text \<open>
  The contract of a store whose entries expire: putting keys gives them a new expiry time, tidying
  may only drop entries that have expired. Over any history with a clock that does not run
  backwards, a key is live exactly when it was put within the last \<open>ttl\<close> units of time.
\<close>

datatype ('k, 'q) expiring_op = Put int "'k list" | Tidy int 'q

fun op_time :: "('k, 'q) expiring_op \<Rightarrow> int" where
  "op_time (Put t ks) = t"
| "op_time (Tidy t q) = t"

locale expiring_set =
  fixes expiry :: "'s \<Rightarrow> 'k \<Rightarrow> int option"
    and put :: "int \<Rightarrow> 'k list \<Rightarrow> 's \<Rightarrow> 's"
    and tidy :: "int \<Rightarrow> 'q \<Rightarrow> 's \<Rightarrow> 's"
    and ttl :: int
  assumes expiry_put: "expiry (put t ks s) k = (if k \<in> set ks then Some (t + ttl) else expiry s k)"
    and expiry_tidy: "expiry (tidy t q s) k = expiry s k \<or>
      expiry (tidy t q s) k = None \<and> (\<forall>e. expiry s k = Some e \<longrightarrow> e \<le> t)"
begin

definition live :: "'s \<Rightarrow> int \<Rightarrow> 'k set" where
  "live s u = {k. \<exists>e. expiry s k = Some e \<and> u < e}"

fun apply_op :: "('k, 'q) expiring_op \<Rightarrow> 's \<Rightarrow> 's" where
  "apply_op (Put t ks) s = put t ks s"
| "apply_op (Tidy t q) s = tidy t q s"

lemma live_put: "live (put t ks s) u = (if u < t + ttl then live s u \<union> set ks else live s u - set ks)"
  by (auto simp: live_def expiry_put split: if_splits)

lemma live_tidy:
  assumes "t \<le> u"
  shows "live (tidy t q s) u = live s u"
proof -
  have "k \<in> live (tidy t q s) u \<longleftrightarrow> k \<in> live s u" for k
    using expiry_tidy[of t q s k]
  proof (elim disjE conjE)
    assume "expiry (tidy t q s) k = expiry s k"
    then show ?thesis by (simp add: live_def)
  next
    assume "expiry (tidy t q s) k = None" and "\<forall>e. expiry s k = Some e \<longrightarrow> e \<le> t"
    then show ?thesis using assms by (fastforce simp: live_def)
  qed
  then show ?thesis by blast
qed

lemma live_history:
  assumes "\<And>k. expiry s k = None"
    and "sorted (map op_time ops)" and "\<forall>p \<in> set ops. op_time p \<le> u"
  shows "k \<in> live (fold apply_op ops s) u \<longleftrightarrow>
    (\<exists>t ks. Put t ks \<in> set ops \<and> k \<in> set ks \<and> u < t + ttl)"
  using assms(2,3)
proof (induction ops rule: rev_induct)
  case Nil
  then show ?case by (simp add: live_def assms(1))
next
  case (snoc p ops)
  have IH: "k \<in> live (fold apply_op ops s) u \<longleftrightarrow> (\<exists>t ks. Put t ks \<in> set ops \<and> k \<in> set ks \<and> u < t + ttl)"
    using snoc by (simp add: sorted_append)
  show ?case
  proof (cases p)
    case (Put t ks)
    have earlier: "t' \<le> t" if "Put t' ks' \<in> set ops" for t' ks'
      using snoc.prems(1) that Put by (force simp: sorted_append)
    have step: "k \<in> live (fold apply_op (ops @ [p]) s) u \<longleftrightarrow>
        (if k \<in> set ks then u < t + ttl else k \<in> live (fold apply_op ops s) u)"
      by (simp add: Put live_put)
    show ?thesis
    proof (cases "k \<in> set ks")
      case True
      have "u < t + ttl" if "Put t' ks' \<in> set ops" "u < t' + ttl" for t' ks'
        using earlier[OF that(1)] that(2) by linarith
      then show ?thesis using step True Put by auto
    next
      case False
      then show ?thesis using step IH Put by auto
    qed
  next
    case (Tidy t q)
    then have "t \<le> u" using snoc.prems(2) by simp
    then show ?thesis using IH by (simp add: Tidy live_tidy)
  qed
qed

end

end
