(* ===== verification/Debrid_Cache.thy ===== *)
theory Debrid_Cache
  imports User_Config Expiring_Set "HOL-Library.AList"
begin

text \<open>
  The cache of debrid availability in Redis, \<open>workers/providers/cache_helpers.py\<close>. The state is the
  Redis server's: a hash of expiry times per service and the markers of finished checks. The clock
  is an argument, in seconds; the digest of credentials and the answer of another instance are
  arguments.
\<close>

section \<open>State\<close>

text \<open>A stored value that is no number is \<open>None\<close>.\<close>

type_synonym redis_hash = "(string \<times> int option) list"

record cache_state =
  hash_of :: "string \<Rightarrow> redis_hash"
  check_marks :: "string \<Rightarrow> int option"

definition empty_cache :: cache_state where
  "empty_cache = \<lparr>hash_of = (\<lambda>_. []), check_marks = (\<lambda>_. None)\<rparr>"

definition EXPIRY_SECONDS :: int where
  "EXPIRY_SECONDS = 7 * 24 * 3600"

definition CACHE_CHECK_TTL :: int where
  "CACHE_CHECK_TTL = 1800"

definition GLOBAL_CACHE_CHECK_PROVIDERS :: "string list" where
  "GLOBAL_CACHE_CHECK_PROVIDERS = [''torbox'', ''stremthru'', ''offcloud'', ''premiumize'']"

definition CACHE_CHECK_PREFIX :: string where
  "CACHE_CHECK_PREFIX = ''debrid_checked:''"

text \<open>The commands \<open>HSET\<close> with a mapping, \<open>HDEL\<close> and \<open>HMGET\<close>.\<close>

definition hset :: "string \<Rightarrow> (string \<times> int option) list \<Rightarrow> cache_state \<Rightarrow> cache_state" where
  "hset svc entries st =
     st\<lparr>hash_of := (hash_of st)(svc := fold (\<lambda>(k, v). AList.update k v) entries (hash_of st svc))\<rparr>"

definition hdel :: "string \<Rightarrow> string list \<Rightarrow> cache_state \<Rightarrow> cache_state" where
  "hdel svc ks st = st\<lparr>hash_of := (hash_of st)(svc := fold AList.delete ks (hash_of st svc))\<rparr>"

section \<open>Names and markers\<close>

definition truthy_field :: "string option \<Rightarrow> bool" where
  "truthy_field f \<longleftrightarrow> f \<noteq> None \<and> f \<noteq> Some []"

definition get_cache_service_name :: "streaming_provider \<Rightarrow> string" where
  "get_cache_service_name p =
     (if service p = ''stremthru'' \<and> truthy_field (stremthru_store_name p) then the (stremthru_store_name p)
      else service p)"

definition get_provider_user_hash :: "(string \<Rightarrow> string) \<Rightarrow> streaming_provider \<Rightarrow> string" where
  "get_provider_user_hash text_hash p =
     text_hash
       (if truthy_field (provider_token p) then the (provider_token p)
        else if truthy_field (provider_email p) \<and> truthy_field (provider_password p)
             then the (provider_email p) @ the (provider_password p)
        else service p)"

definition build_cache_check_key :: "(string \<Rightarrow> string) \<Rightarrow> streaming_provider \<Rightarrow> string \<Rightarrow> string" where
  "build_cache_check_key text_hash p media_id =
     (let svc = get_cache_service_name p
      in if svc \<in> set GLOBAL_CACHE_CHECK_PROVIDERS then CACHE_CHECK_PREFIX @ svc @ '':'' @ media_id
         else CACHE_CHECK_PREFIX @ svc @ '':'' @ get_provider_user_hash text_hash p @ '':'' @ media_id)"

text \<open>\<open>EXISTS\<close> of a key set with an expiry.\<close>

definition is_cache_check_done :: "(string \<Rightarrow> string) \<Rightarrow> int \<Rightarrow> streaming_provider \<Rightarrow> string \<Rightarrow> cache_state \<Rightarrow> bool" where
  "is_cache_check_done text_hash now p media_id st =
     (case check_marks st (build_cache_check_key text_hash p media_id) of None \<Rightarrow> False | Some e \<Rightarrow> now < e)"

definition mark_cache_check_done :: "(string \<Rightarrow> string) \<Rightarrow> int \<Rightarrow> streaming_provider \<Rightarrow> string \<Rightarrow> cache_state \<Rightarrow> cache_state" where
  "mark_cache_check_done text_hash now p media_id st =
     st\<lparr>check_marks := (check_marks st)(build_cache_check_key text_hash p media_id \<mapsto> now + CACHE_CHECK_TTL)\<rparr>"

section \<open>Cached hashes\<close>

definition store_cached_info_hashes ::
  "settings \<Rightarrow> int \<Rightarrow> streaming_provider \<Rightarrow> string list \<Rightarrow> string option \<Rightarrow> cache_state \<Rightarrow> cache_state" where
  "store_cached_info_hashes cfg now p info_hashes service_override st =
     (if info_hashes = [] then st
      else if service p = ''stremthru'' \<and> \<not> store_stremthru_magnet_cache cfg then st
      else hset (if truthy_field service_override then the service_override else get_cache_service_name p)
             (map (\<lambda>h. (h, Some (now + EXPIRY_SECONDS))) info_hashes) st)"

definition live_entry :: "int \<Rightarrow> int option option \<Rightarrow> bool" where
  "live_entry now v = (case v of Some (Some e) \<Rightarrow> now < e | _ \<Rightarrow> False)"

text \<open>
  The question to the public instance: \<open>remote\<close> is its \<open>cached_status\<close>, \<open>None\<close> when the request
  fails. What it says is cached is stored.
\<close>

definition fetch_cache_status ::
  "(string list \<Rightarrow> (string \<times> bool) list option) \<Rightarrow> settings \<Rightarrow> int \<Rightarrow> streaming_provider \<Rightarrow> string list \<Rightarrow>
   cache_state \<Rightarrow> (string \<rightharpoonup> bool) \<times> cache_state" where
  "fetch_cache_status remote cfg now p info_hashes st =
     (if info_hashes = [] \<or> mediafusion_url cfg = [] then (Map.empty, st)
      else case remote info_hashes of
             None \<Rightarrow> (Map.empty, st)
           | Some status \<Rightarrow>
               (map_of status, store_cached_info_hashes cfg now p (map fst (filter snd status)) None st))"

definition get_cached_status ::
  "(string list \<Rightarrow> (string \<times> bool) list option) \<Rightarrow> settings \<Rightarrow> int \<Rightarrow> streaming_provider \<Rightarrow> string list \<Rightarrow>
   cache_state \<Rightarrow> (string \<rightharpoonup> bool) \<times> cache_state" where
  "get_cached_status remote cfg now p info_hashes st =
     (let svc = get_cache_service_name p;
          value_of = map_of (hash_of st svc);
          live = filter (\<lambda>h. live_entry now (value_of h)) info_hashes;
          check_needed = filter (\<lambda>h. \<not> live_entry now (value_of h)) info_hashes;
          expired = filter (\<lambda>h. value_of h \<noteq> None) check_needed;
          result = map_of (map (\<lambda>h. (h, True)) live);
          st' = (if expired \<noteq> [] then hdel svc expired st else st)
      in if info_hashes = [] then (Map.empty, st)
         else if check_needed \<noteq> [] \<and> sync_debrid_cache_streams cfg
              then (let (found, st'') = fetch_cache_status remote cfg now p check_needed st' in (result ++ found, st''))
         else (result ++ map_of (map (\<lambda>h. (h, False)) check_needed), st'))"

text \<open>
  The clean-up: \<open>chunks\<close> are the fields that each \<open>HSCAN\<close> call returns, the last with cursor 0.
\<close>

fun cleanup_loop :: "int \<Rightarrow> string \<Rightarrow> string list list \<Rightarrow> string list \<Rightarrow> cache_state \<Rightarrow> cache_state" where
  "cleanup_loop now svc [] expired st = st"
| "cleanup_loop now svc (chunk # chunks) expired st =
     (let value_of = map_of (hash_of st svc);
          expired' = expired @ filter (\<lambda>h. value_of h \<noteq> None \<and> \<not> live_entry now (value_of h)) chunk
      in if expired' \<noteq> [] \<and> (1000 \<le> length expired' \<or> chunks = [])
         then cleanup_loop now svc chunks [] (hdel svc expired' st)
         else cleanup_loop now svc chunks expired' st)"

definition cleanup_service_cache :: "int \<Rightarrow> string \<Rightarrow> string list list \<Rightarrow> cache_state \<Rightarrow> cache_state" where
  "cleanup_service_cache now svc chunks st = cleanup_loop now svc chunks [] st"

definition cleanup_expired_cache :: "int \<Rightarrow> (string \<times> string list list) list \<Rightarrow> cache_state \<Rightarrow> cache_state" where
  "cleanup_expired_cache now services st = fold (\<lambda>(svc, chunks). cleanup_service_cache now svc chunks) services st"

section \<open>The entries of a hash\<close>

definition entry_of :: "string \<Rightarrow> cache_state \<Rightarrow> string \<Rightarrow> int option option" where
  "entry_of svc st h = map_of (hash_of st svc) h"

lemma fold_update_const:
  "map_of (fold (\<lambda>(k, v). AList.update k v) (map (\<lambda>h. (h, c)) ks) al) k =
   (if k \<in> set ks then Some c else map_of al k)"
  by (induction ks arbitrary: al) (auto simp: update_conv')

lemma entry_hset:
  "entry_of svc' (hset svc (map (\<lambda>h. (h, c)) ks) st) h =
   (if svc' = svc \<and> h \<in> set ks then Some c else entry_of svc' st h)"
  by (simp add: entry_of_def hset_def fold_update_const)

lemma entry_hdel:
  "entry_of svc' (hdel svc ks st) h = (if svc' = svc \<and> h \<in> set ks then None else entry_of svc' st h)"
proof -
  have "map_of (fold AList.delete ks al) h = (if h \<in> set ks then None else map_of al h)" for al :: redis_hash
    by (induction ks arbitrary: al) (auto simp: delete_conv')
  then show ?thesis by (simp add: entry_of_def hdel_def)
qed

lemma entry_cleanup_loop:
  assumes "\<forall>h \<in> set expired. \<not> live_entry now (entry_of svc st h)"
  shows "entry_of svc (cleanup_loop now svc chunks expired st) h =
    (if chunks \<noteq> [] \<and> (h \<in> set expired \<or> h \<in> set (concat chunks)) \<and> \<not> live_entry now (entry_of svc st h) then None
     else entry_of svc st h)"
  using assms
proof (induction chunks arbitrary: expired st)
  case Nil
  then show ?case by simp
next
  case (Cons chunk chunks)
  define expired' where
    "expired' = expired @ filter (\<lambda>h. entry_of svc st h \<noteq> None \<and> \<not> live_entry now (entry_of svc st h)) chunk"
  have dead: "\<forall>h \<in> set expired'. \<not> live_entry now (entry_of svc st h)"
    using Cons.prems by (auto simp: expired'_def)
  have cover: "(h \<in> set expired \<or> h \<in> set chunk) \<and> \<not> live_entry now (entry_of svc st h) \<longleftrightarrow>
      h \<in> set expired' \<or> h \<in> set chunk \<and> entry_of svc st h = None \<and> \<not> live_entry now (entry_of svc st h)"
    using Cons.prems by (auto simp: expired'_def)
  show ?case
  proof (cases "expired' \<noteq> [] \<and> (1000 \<le> length expired' \<or> chunks = [])")
    case True
    then have "cleanup_loop now svc (chunk # chunks) expired st = cleanup_loop now svc chunks [] (hdel svc expired' st)"
      unfolding cleanup_loop.simps Let_def entry_of_def[symmetric] expired'_def[symmetric] by (rule if_P)
    then show ?thesis
      using Cons.IH[of "[]" "hdel svc expired' st"] dead cover by (auto simp: entry_hdel live_entry_def)
  next
    case False
    then have "cleanup_loop now svc (chunk # chunks) expired st = cleanup_loop now svc chunks expired' st"
      unfolding cleanup_loop.simps Let_def entry_of_def[symmetric] expired'_def[symmetric] by (rule if_not_P)
    then show ?thesis
      using Cons.IH[OF dead] dead cover False by auto
  qed
qed

section \<open>The cache as an expiring set\<close>

definition entry_expiry :: "string \<Rightarrow> cache_state \<Rightarrow> string \<Rightarrow> int option" where
  "entry_expiry svc st h = (case entry_of svc st h of Some (Some e) \<Rightarrow> Some e | _ \<Rightarrow> None)"

definition cache_put :: "string \<Rightarrow> int \<Rightarrow> string list \<Rightarrow> cache_state \<Rightarrow> cache_state" where
  "cache_put svc now ks st = hset svc (map (\<lambda>h. (h, Some (now + EXPIRY_SECONDS))) ks) st"

text \<open>Dropping the expired ones among the hashes asked for, or a whole clean-up.\<close>

definition cache_tidy :: "string \<Rightarrow> int \<Rightarrow> string list + string list list \<Rightarrow> cache_state \<Rightarrow> cache_state" where
  "cache_tidy svc now q st =
     (case q of
        Inl ks \<Rightarrow>
          (let expired = filter (\<lambda>h. entry_of svc st h \<noteq> None) (filter (\<lambda>h. \<not> live_entry now (entry_of svc st h)) ks)
           in if expired \<noteq> [] then hdel svc expired st else st)
      | Inr chunks \<Rightarrow> cleanup_service_cache now svc chunks st)"

interpretation cache: expiring_set "entry_expiry svc" "cache_put svc" "cache_tidy svc" EXPIRY_SECONDS for svc
proof
  show "entry_expiry svc (cache_put svc t ks s) k = (if k \<in> set ks then Some (t + EXPIRY_SECONDS) else entry_expiry svc s k)"
    for t ks s k
    by (simp add: entry_expiry_def cache_put_def entry_hset)
  have dead: "\<not> live_entry t (entry_of svc s k) \<Longrightarrow> entry_expiry svc s k = Some e \<Longrightarrow> e \<le> t" for t s k e
    by (auto simp: live_entry_def entry_expiry_def split: option.splits)
  show "entry_expiry svc (cache_tidy svc t q s) k = entry_expiry svc s k \<or>
      entry_expiry svc (cache_tidy svc t q s) k = None \<and> (\<forall>e. entry_expiry svc s k = Some e \<longrightarrow> e \<le> t)" for t q s k
  proof (cases q)
    case (Inl ks)
    then show ?thesis using dead[of t s k]
      by (simp add: cache_tidy_def Let_def entry_expiry_def entry_hdel)
  next
    case (Inr chunks)
    then show ?thesis using dead[of t s k]
      by (simp add: cache_tidy_def cleanup_service_cache_def entry_cleanup_loop entry_expiry_def)
  qed
qed

lemma store_is_put:
  "service p \<noteq> ''stremthru'' \<or> store_stremthru_magnet_cache cfg \<Longrightarrow>
   store_cached_info_hashes cfg now p ks None st = cache_put (get_cache_service_name p) now ks st"
  by (cases ks) (auto simp: store_cached_info_hashes_def cache_put_def truthy_field_def hset_def)

lemma status_is_tidy:
  assumes "\<not> sync_debrid_cache_streams cfg"
  shows "snd (get_cached_status remote cfg now p ks st) = cache_tidy (get_cache_service_name p) now (Inl ks) st"
  using assms by (cases ks) (simp_all add: get_cached_status_def cache_tidy_def entry_of_def Let_def)

lemma live_iff_entry: "h \<in> cache.live svc st now \<longleftrightarrow> live_entry now (entry_of svc st h)"
  by (auto simp: cache.live_def live_entry_def entry_expiry_def split: option.splits)

lemma status_is_live:
  assumes "\<not> sync_debrid_cache_streams cfg" and "h \<in> set ks"
  shows "fst (get_cached_status remote cfg now p ks st) h = Some (h \<in> cache.live (get_cache_service_name p) st now)"
proof -
  define L where "L = (\<lambda>h. live_entry now (map_of (hash_of st (get_cache_service_name p)) h))"
  have const: "map_of (map (\<lambda>h. (h, c)) xs) h = (if h \<in> set xs then Some c else None)" for c :: bool and xs
    by (induction xs) auto
  have "ks \<noteq> []" using assms(2) by auto
  then have "fst (get_cached_status remote cfg now p ks st) =
      map_of (map (\<lambda>h. (h, True)) (filter L ks)) ++ map_of (map (\<lambda>h. (h, False)) (filter (\<lambda>h. \<not> L h) ks))"
    using assms(1) by (simp add: get_cached_status_def L_def Let_def)
  moreover have "L h \<longleftrightarrow> h \<in> cache.live (get_cache_service_name p) st now"
    by (simp add: live_iff_entry entry_of_def L_def)
  ultimately show ?thesis
    using assms(2) by (auto simp: const map_add_def)
qed

section \<open>Properties\<close>

text \<open>What happens to the cache of a provider: hashes are stored, asked for, or cleaned up.\<close>

datatype cache_op =
    Store_hashes int "string list"
  | Ask_status int "string list"
  | Clean_up int "string list list"

fun cache_op_time :: "cache_op \<Rightarrow> int" where
  "cache_op_time (Store_hashes t ks) = t"
| "cache_op_time (Ask_status t ks) = t"
| "cache_op_time (Clean_up t chunks) = t"

fun run_cache_op ::
  "(string list \<Rightarrow> (string \<times> bool) list option) \<Rightarrow> settings \<Rightarrow> streaming_provider \<Rightarrow> cache_op \<Rightarrow> cache_state \<Rightarrow> cache_state" where
  "run_cache_op remote cfg p (Store_hashes t ks) st = store_cached_info_hashes cfg t p ks None st"
| "run_cache_op remote cfg p (Ask_status t ks) st = snd (get_cached_status remote cfg t p ks st)"
| "run_cache_op remote cfg p (Clean_up t chunks) st = cleanup_service_cache t (get_cache_service_name p) chunks st"

fun as_expiring_op :: "cache_op \<Rightarrow> (string, string list + string list list) expiring_op" where
  "as_expiring_op (Store_hashes t ks) = Put t ks"
| "as_expiring_op (Ask_status t ks) = Tidy t (Inl ks)"
| "as_expiring_op (Clean_up t chunks) = Tidy t (Inr chunks)"

lemma op_time_as_expiring [simp]: "op_time (as_expiring_op p) = cache_op_time p"
  by (cases p) simp_all

lemma run_cache_ops:
  assumes "\<not> sync_debrid_cache_streams cfg" and "service p \<noteq> ''stremthru'' \<or> store_stremthru_magnet_cache cfg"
  shows "fold (run_cache_op remote cfg p) ops st =
    fold (cache.apply_op (get_cache_service_name p)) (map as_expiring_op ops) st"
proof -
  have "run_cache_op remote cfg p x s = cache.apply_op (get_cache_service_name p) (as_expiring_op x) s" for x s
    by (cases x) (simp_all add: store_is_put[OF assms(2)] status_is_tidy[OF assms(1)] cache_tidy_def)
  then show ?thesis by (induction ops arbitrary: st) simp_all
qed

definition stored_recently :: "int \<Rightarrow> string \<Rightarrow> cache_op \<Rightarrow> bool" where
  "stored_recently now h x = (case x of Store_hashes t ks \<Rightarrow> h \<in> set ks \<and> now < t + EXPIRY_SECONDS | _ \<Rightarrow> False)"

lemma stored_recently_iff:
  "stored_recently now h x \<longleftrightarrow> (\<exists>t ks. x = Store_hashes t ks \<and> h \<in> set ks \<and> now < t + EXPIRY_SECONDS)"
  by (cases x) (simp_all add: stored_recently_def)

text \<open>
  Property C6. The cache implements a set with a life time of seven days: after any history of
  storing, asking and cleaning up, a hash is reported as cached exactly when it was stored within
  the last seven days.
\<close>

theorem cached_iff_stored_recently:
  assumes "\<not> sync_debrid_cache_streams cfg" and "service p \<noteq> ''stremthru'' \<or> store_stremthru_magnet_cache cfg"
    and "sorted (map cache_op_time ops)" and "list_all (\<lambda>x. cache_op_time x \<le> now) ops" and "h \<in> set ks"
  shows "fst (get_cached_status remote cfg now p ks (fold (run_cache_op remote cfg p) ops empty_cache)) h =
    Some (list_ex (stored_recently now h) ops)"
proof -
  let ?svc = "get_cache_service_name p"
  have times: "map op_time (map as_expiring_op ops) = map cache_op_time ops" by (simp add: comp_def)
  then have "h \<in> cache.live ?svc (fold (cache.apply_op ?svc) (map as_expiring_op ops) empty_cache) now \<longleftrightarrow>
      (\<exists>t ks. Put t ks \<in> set (map as_expiring_op ops) \<and> h \<in> set ks \<and> now < t + EXPIRY_SECONDS)"
    using assms(3,4)
    by (intro cache.live_history) (auto simp: times entry_expiry_def entry_of_def empty_cache_def list_all_iff simp del: map_map)
  moreover have "Put t ks = as_expiring_op x \<longleftrightarrow> x = Store_hashes t ks" for t ks x
    by (cases x) auto
  ultimately have "h \<in> cache.live ?svc (fold (run_cache_op remote cfg p) ops empty_cache) now \<longleftrightarrow>
      list_ex (stored_recently now h) ops"
    unfolding run_cache_ops[OF assms(1,2)] list_ex_iff stored_recently_iff by (auto simp: image_iff)
  then show ?thesis by (simp add: status_is_live[OF assms(1,5)])
qed

theorem cached_iff_stored_recently_witness:
  "fst (get_cached_status (\<lambda>_. None) default_settings 700000 (provider ''a'' ''torbox'' 1 True) [''h1'', ''h2'']
     (fold (run_cache_op (\<lambda>_. None) default_settings (provider ''a'' ''torbox'' 1 True))
        [Store_hashes 0 [''h1'', ''h2''], Ask_status 604900 [''h1''], Store_hashes 604901 [''h2''], Clean_up 690000 [[''h2'']]]
        empty_cache)) ''h2'' =
   Some (list_ex (stored_recently 700000 ''h2'')
        [Store_hashes 0 [''h1'', ''h2''], Ask_status 604900 [''h1''], Store_hashes 604901 [''h2''], Clean_up 690000 [[''h2'']]])"
  by (rule cached_iff_stored_recently) code_simp+

text \<open>
  A clean-up whose scan returns every field of the hash removes exactly the expired
  entries and leaves the others untouched, in chunks of any size.
\<close>

theorem cleanup_removes_exactly_expired:
  assumes "set (map fst (hash_of st svc)) \<subseteq> set (concat chunks)"
  shows "entry_of svc (cleanup_service_cache now svc chunks st) h =
    (if live_entry now (entry_of svc st h) then entry_of svc st h else None)"
proof (cases "entry_of svc st h = None")
  case True
  then show ?thesis by (simp add: cleanup_service_cache_def entry_cleanup_loop)
next
  case False
  then have "h \<in> set (map fst (hash_of st svc))"
    by (simp add: entry_of_def map_of_eq_None_iff)
  then have "h \<in> set (concat chunks)" using assms by blast
  moreover from this have "chunks \<noteq> []" by auto
  ultimately show ?thesis
    by (simp add: cleanup_service_cache_def entry_cleanup_loop del: set_concat)
qed

theorem cleanup_removes_exactly_expired_witness:
  "entry_of ''torbox'' (cleanup_service_cache 10 ''torbox'' [[''a''], [''b'', ''c'']]
     (hset ''torbox'' [(''a'', Some 10), (''b'', Some 11), (''c'', None)] empty_cache)) ''c'' =
   (if live_entry 10 (entry_of ''torbox'' (hset ''torbox'' [(''a'', Some 10), (''b'', Some 11), (''c'', None)] empty_cache) ''c'')
    then entry_of ''torbox'' (hset ''torbox'' [(''a'', Some 10), (''b'', Some 11), (''c'', None)] empty_cache) ''c'' else None)"
  by (rule cleanup_removes_exactly_expired) code_simp

lemma colon_split:
  assumes "a @ CHR '':'' # x = b @ CHR '':'' # y" and "CHR '':'' \<notin> set a" and "CHR '':'' \<notin> set b"
  shows "a = b \<and> x = y"
proof -
  have "takeWhile (\<lambda>c. c \<noteq> CHR '':'') (s @ CHR '':'' # z) = s" if "CHR '':'' \<notin> set s" for s z
    using that by (induction s) auto
  then have "a = b" using assms by metis
  then show ?thesis using assms(1) by simp
qed

text \<open>
  A finished check is never taken for another one: two markers have the same key only
  for the same service and the same title, and, for a provider with personal caches, the same
  digest of credentials.
\<close>

theorem check_key_injective:
  assumes "build_cache_check_key text_hash p m = build_cache_check_key text_hash q n"
    and "\<And>t. length (text_hash t) = 10"
    and "CHR '':'' \<notin> set (get_cache_service_name p)" and "CHR '':'' \<notin> set (get_cache_service_name q)"
  shows "get_cache_service_name p = get_cache_service_name q \<and> m = n \<and>
    (get_cache_service_name p \<in> set GLOBAL_CACHE_CHECK_PROVIDERS \<or>
     get_provider_user_hash text_hash p = get_provider_user_hash text_hash q)"
proof -
  define rest where "rest = (\<lambda>p m. if get_cache_service_name p \<in> set GLOBAL_CACHE_CHECK_PROVIDERS then m
      else get_provider_user_hash text_hash p @ '':'' @ m)"
  have key: "build_cache_check_key text_hash r k = CHECK @ get_cache_service_name r @ CHR '':'' # rest r k"
    if "CHECK = CACHE_CHECK_PREFIX" for r k CHECK
    by (simp add: build_cache_check_key_def rest_def Let_def that)
  have "get_cache_service_name p @ CHR '':'' # rest p m = get_cache_service_name q @ CHR '':'' # rest q n"
    using assms(1) key[OF refl] by simp
  then have s: "get_cache_service_name p = get_cache_service_name q" and r: "rest p m = rest q n"
    using colon_split assms(3,4) by blast+
  have "length (get_provider_user_hash text_hash x) = 10" for x
    by (simp add: get_provider_user_hash_def assms(2))
  then show ?thesis
    using s r by (auto simp: rest_def split: if_splits)
qed

theorem check_key_injective_witness:
  "get_cache_service_name (provider ''a'' ''pikpak'' 1 True) = get_cache_service_name (provider ''b'' ''pikpak'' 2 True) \<and>
   ''tt1:1:2'' = ''tt1:1:2'' \<and>
   (get_cache_service_name (provider ''a'' ''pikpak'' 1 True) \<in> set GLOBAL_CACHE_CHECK_PROVIDERS \<or>
    get_provider_user_hash (\<lambda>t. take 10 (t @ ''##########'')) (provider ''a'' ''pikpak'' 1 True) =
    get_provider_user_hash (\<lambda>t. take 10 (t @ ''##########'')) (provider ''b'' ''pikpak'' 2 True))"
proof (rule check_key_injective)
  show "build_cache_check_key (\<lambda>t. take 10 (t @ ''##########'')) (provider ''a'' ''pikpak'' 1 True) ''tt1:1:2'' =
      build_cache_check_key (\<lambda>t. take 10 (t @ ''##########'')) (provider ''b'' ''pikpak'' 2 True) ''tt1:1:2''"
    by code_simp
  show "length (take 10 (t @ ''##########'')) = 10" for t :: string by simp
qed code_simp+

end
