(* ===== verification/Stream_Sort.thy ===== *)
theory Stream_Sort
  imports Stream_Filter_Correct Debrid_Cache "HOL-Library.List_Lexorder"
begin

text \<open>
  \<open>filter_and_sort_streams\<close> of \<open>utils/parser.py\<close>: the filter, the cache status of torrents, the
  dynamic sort and the caps. The provider's own cache check is an argument: the flags it sets on
  the streams it is given, in order, and the service name it returns, or that it raises. The
  validators of \<open>torrent_sorting_priority\<close> admit the seven keys below, so the branch for other
  attributes is never taken.
\<close>

section \<open>Sort keys\<close>

text \<open>\<open>xs.index(x)\<close>, with the length of the list for a missing element.\<close>

fun index_or_length :: "'a \<Rightarrow> 'a list \<Rightarrow> nat" where
  "index_or_length x [] = 0"
| "index_or_length x (y # ys) = (if x = y then 0 else Suc (index_or_length x ys))"

fun group_rank :: "string option \<Rightarrow> string list \<Rightarrow> nat" where
  "group_rank q [] = 0"
| "group_rank q (g # gs) =
     (if (case map_of QUALITY_GROUPS g of Some qs \<Rightarrow> q \<in> set qs | None \<Rightarrow> False) then 0 else Suc (group_rank q gs))"

definition quality_rank :: "user_data \<Rightarrow> string option \<Rightarrow> nat" where
  "quality_rank u q =
     (case q of
        Some name \<Rightarrow> if name \<in> set (quality_filter u) then index_or_length name (quality_filter u)
                     else group_rank q (quality_filter u)
      | None \<Rightarrow> group_rank q (quality_filter u))"

text \<open>The smallest position of a language of the stream among the user's, their number by default.\<close>

definition language_rank :: "user_data \<Rightarrow> string option list \<Rightarrow> nat" where
  "language_rank u langs =
     (case map (\<lambda>l. index_or_length l (language_sorting u)) (filter (\<lambda>l. l \<in> set (language_sorting u)) langs) of
        [] \<Rightarrow> length (language_sorting u)
      | r # rs \<Rightarrow> fold min rs r)"

definition DATETIME_MIN :: rat where
  "DATETIME_MIN = -62135596800"

definition raw_key :: "user_data \<Rightarrow> (int \<times> int) option \<Rightarrow> stream \<Rightarrow> string \<Rightarrow> rat" where
  "raw_key u se s key =
     (if key = ''cached'' then (if cached s then 1 else 0)
      else if key = ''resolution'' then - of_nat (index_or_length (filtered_resolution s) (selected_resolutions u))
      else if key = ''quality'' then - of_nat (quality_rank u (filtered_quality s))
      else if key = ''size'' then of_int (sort_size_bytes_for_stream s se)
      else if key = ''seeders'' then of_int (case seeders s of Some n \<Rightarrow> n | None \<Rightarrow> 0)
      else if key = ''created_at'' then (case created_at s of Created t \<Rightarrow> t | No_date \<Rightarrow> DATETIME_MIN)
      else if key = ''language'' then - of_nat (language_rank u (filtered_languages s))
      else 0)"

definition key_value :: "user_data \<Rightarrow> (int \<times> int) option \<Rightarrow> stream \<Rightarrow> sorting_option \<Rightarrow> rat" where
  "key_value u se s opt = (if direction opt = ''asc'' then 1 else -1) * raw_key u se s (sort_by opt)"

text \<open>Tuples of equal length compare lexicographically, as lists do.\<close>

definition dynamic_sort_key :: "user_data \<Rightarrow> (int \<times> int) option \<Rightarrow> stream \<Rightarrow> rat list" where
  "dynamic_sort_key u se s = map (key_value u se s) (torrent_sorting_priority u)"

section \<open>Caps\<close>

fun cap_loop :: "int \<Rightarrow> (string option \<Rightarrow> int) \<Rightarrow> stream list \<Rightarrow> stream list" where
  "cap_loop limit seen [] = []"
| "cap_loop limit seen (s # ss) =
     (if seen (filtered_resolution s) < limit
      then s # cap_loop limit (seen(filtered_resolution s := seen (filtered_resolution s) + 1)) ss
      else cap_loop limit seen ss)"

text \<open>\<open>xs[:n]\<close>.\<close>

definition slice_up_to :: "int \<Rightarrow> 'a list \<Rightarrow> 'a list" where
  "slice_up_to n xs = (if 0 \<le> n then take (nat n) xs else take (length xs - nat (- n)) xs)"

section \<open>Cache status\<close>

definition CACHE_UPDATE_SERVICES :: "string list" where
  "CACHE_UPDATE_SERVICES =
     [''alldebrid'', ''debridlink'', ''offcloud'', ''pikpak'', ''realdebrid'', ''seedr'', ''torbox'', ''premiumize'',
      ''qbittorrent'', ''stremthru'', ''easydebrid'', ''debrider'']"

record sort_env =
  filtering :: filter_env
  text_hash :: "string \<Rightarrow> string"
  clock :: int
  remote_status :: "string list \<Rightarrow> (string \<times> bool) list option"
  provider_check :: "stream list \<Rightarrow> bool list \<times> string option option"

text \<open>The flags of the check on the uncached streams; a stream it does not reach stays uncached.\<close>

fun merge_flags :: "stream list \<Rightarrow> bool list \<Rightarrow> stream list" where
  "merge_flags [] flags = []"
| "merge_flags (s # ss) flags =
     (if cached s then s # merge_flags ss flags
      else case flags of
             [] \<Rightarrow> s # merge_flags ss []
           | b # bs \<Rightarrow> s\<lparr>cached := b\<rparr> # merge_flags ss bs)"

definition update_cache_status ::
  "sort_env \<Rightarrow> settings \<Rightarrow> streaming_provider \<Rightarrow> string \<Rightarrow> stream list \<Rightarrow> cache_state \<Rightarrow> stream list \<times> cache_state" where
  "update_cache_status env cfg p video_id streams st =
     (let (statuses, st1) = get_cached_status (remote_status env) cfg (clock env) p (map (the \<circ> info_hash) streams) st;
          marked = map (\<lambda>s. s\<lparr>cached := (statuses (the (info_hash s)) = Some True)\<rparr>) streams;
          uncached = filter (\<lambda>s. \<not> cached s) marked
      in if uncached = [] then (marked, st1)
         else if is_cache_check_done (text_hash env) (clock env) p video_id st1 then (marked, st1)
         else
           let (flags, returned) = (if service p \<in> set CACHE_UPDATE_SERVICES then provider_check env uncached else ([], None));
               checked = merge_flags marked flags;
               new_hashes = map (the \<circ> info_hash) (filter cached (merge_flags uncached flags));
               st2 = (case returned of
                       Some service_name \<Rightarrow>
                         if new_hashes = [] then st1
                         else store_cached_info_hashes cfg (clock env) p new_hashes service_name st1
                     | None \<Rightarrow> st1)
           in (checked, mark_cache_check_done (text_hash env) (clock env) p video_id st2))"

section \<open>Filter, sort and cap\<close>

fun set_reason :: "reason \<Rightarrow> nat \<Rightarrow> reasons \<Rightarrow> reasons" where
  "set_reason r n [] = [(r, n)]"
| "set_reason r n ((q, m) # rs) = (if q = r then (q, n) # rs else (q, m) # set_reason r n rs)"

definition sort_and_cap :: "user_data \<Rightarrow> (int \<times> int) option \<Rightarrow> bool \<Rightarrow> stream list \<Rightarrow> stream list" where
  "sort_and_cap u se disable_total_stream_cap streams =
     (let limited = cap_loop (max_streams_per_resolution u) (\<lambda>_. 0) (sort_key (dynamic_sort_key u se) streams)
      in if disable_total_stream_cap then limited else slice_up_to (max_streams u) limited)"

definition filter_and_sort_streams ::
  "sort_env \<Rightarrow> settings \<Rightarrow> user_data \<Rightarrow> string \<Rightarrow> streaming_provider option \<Rightarrow> bool \<Rightarrow> bool \<Rightarrow> stream list \<Rightarrow>
   cache_state \<Rightarrow> ((stream list \<times> reasons) \<times> cache_state) py_result" where
  "filter_and_sort_streams env cfg u video_id provider_override disable_total_stream_cap is_usenet streams st =
     bind_result (filter_streams_by_user_preferences (filtering env) cfg u provider_override is_usenet streams)
       (\<lambda>(filtered, reasons).
          if filtered = [] then Inr ((filtered, reasons), st)
          else
            let se = season_episode_from_stremio_video_id video_id
            in bind_result (chosen_provider cfg u provider_override) (\<lambda>primary.
                 case primary of
                   Some p \<Rightarrow>
                     if info_hash (hd filtered) = None
                     then Inr ((sort_and_cap u se disable_total_stream_cap filtered, reasons), st)
                     else if list_ex (\<lambda>s. info_hash s = None) filtered then Inl AttributeError
                     else
                       let (checked, st') = update_cache_status env cfg p video_id filtered st
                       in if only_show_cached_streams p
                          then (let only_cached = filter cached checked
                                in if only_cached = []
                                   then Inr ((checked, set_reason No_Cached_Streams (length checked) reasons), st')
                                   else Inr ((sort_and_cap u se disable_total_stream_cap only_cached, reasons), st'))
                          else Inr ((sort_and_cap u se disable_total_stream_cap checked, reasons), st')
                 | None \<Rightarrow> Inr ((sort_and_cap u se disable_total_stream_cap filtered, reasons), st)))"

end
