(* ===== verification/Stream_Sort_Correct.thy ===== *)
theory Stream_Sort_Correct
  imports Stream_Sort
begin

text \<open>
  What the sort and the caps guarantee: for each resolution the result is the best streams of that
  resolution in the user's order, its length is bounded, and everything shown was wanted.
\<close>

section \<open>Caps\<close>

lemma cap_loop_filter:
  "filter (\<lambda>s. filtered_resolution s = r) (cap_loop limit seen ss) =
   take (nat (limit - seen r)) (filter (\<lambda>s. filtered_resolution s = r) ss)"
proof (induction ss arbitrary: seen)
  case Nil
  then show ?case by simp
next
  case (Cons s ss)
  show ?case
  proof (cases "filtered_resolution s = r \<and> seen r < limit")
    case True
    then have "nat (limit - seen r) = Suc (nat (limit - (seen r + 1)))"
      using Suc_nat_eq_nat_zadd1[of "limit - (seen r + 1)"] by simp
    then show ?thesis using True Cons.IH by simp
  next
    case False
    then show ?thesis using Cons.IH by auto
  qed
qed

lemma cap_loop_subseq: "subseq (cap_loop limit seen ss) ss"
  by (induction ss arbitrary: seen) auto

lemma cap_loop_set: "set (cap_loop limit seen ss) \<subseteq> set ss"
  by (induction ss arbitrary: seen) (auto split: if_splits)

lemma cap_loop_sorted: "sorted (map f ss) \<Longrightarrow> sorted (map f (cap_loop limit seen ss))"
proof (induction ss arbitrary: seen)
  case Nil
  then show ?case by simp
next
  case (Cons s ss)
  then have s: "sorted (map f ss)" "\<forall>x \<in> set ss. f s \<le> f x" by simp_all
  have "\<forall>x \<in> set (cap_loop limit seen' ss). f s \<le> f x" for seen'
    using s(2) cap_loop_set[of limit seen' ss] by blast
  then show ?case using Cons.IH[OF s(1)] by simp
qed

lemma slice_up_to_set: "set (slice_up_to n xs) \<subseteq> set xs"
  by (auto simp: slice_up_to_def dest: in_set_takeD)

lemma slice_up_to_prefix: "prefix (slice_up_to n xs) xs"
  by (simp add: slice_up_to_def take_is_prefix)

lemma sort_and_cap_set: "set (sort_and_cap u se disable streams) \<subseteq> set streams"
proof -
  define capped where "capped = cap_loop (max_streams_per_resolution u) (\<lambda>_. 0) (sort_key (dynamic_sort_key u se) streams)"
  have "set capped \<subseteq> set streams"
    unfolding capped_def by (rule subset_trans[OF cap_loop_set]) simp
  moreover have "sort_and_cap u se disable streams = (if disable then capped else slice_up_to (max_streams u) capped)"
    by (simp add: sort_and_cap_def capped_def Let_def)
  ultimately show ?thesis using slice_up_to_set[of "max_streams u" capped] by (cases disable) auto
qed


text \<open>
  The list shown is in the user's order, holds at most \<open>max_streams_per_resolution\<close>
  streams of each resolution and at most \<open>max_streams\<close> in all.
\<close>

theorem shown_sorted_and_bounded:
  assumes "0 \<le> max_streams u"
  shows "sorted (map (dynamic_sort_key u se) (sort_and_cap u se False streams)) \<and>
    length (filter (\<lambda>s. filtered_resolution s = r) (sort_and_cap u se False streams)) \<le> nat (max_streams_per_resolution u) \<and>
    int (length (sort_and_cap u se False streams)) \<le> max_streams u"
proof -
  define capped where "capped = cap_loop (max_streams_per_resolution u) (\<lambda>_. 0) (sort_key (dynamic_sort_key u se) streams)"
  have e: "sort_and_cap u se False streams = take (nat (max_streams u)) capped"
    using assms by (simp add: sort_and_cap_def Let_def capped_def slice_up_to_def)
  have "sorted (map (dynamic_sort_key u se) capped)"
    unfolding capped_def by (rule cap_loop_sorted) simp
  then have "sorted (map (dynamic_sort_key u se) (take (nat (max_streams u)) capped))"
    by (simp add: sorted_wrt_take flip: take_map)
  moreover have "length (filter P (take n xs)) \<le> length (filter P xs)" for P n and xs :: "stream list"
    by (metis append_take_drop_id filter_append length_append le_add1)
  then have "length (filter (\<lambda>s. filtered_resolution s = r) (take (nat (max_streams u)) capped))
      \<le> nat (max_streams_per_resolution u)"
    by (metis (no_types, lifting) capped_def cap_loop_filter length_take min.cobounded2 min.commute order.trans diff_zero)
  moreover have "int (length (take (nat (max_streams u)) capped)) \<le> max_streams u"
    using assms by simp
  ultimately show ?thesis by (simp add: e)
qed

theorem shown_sorted_and_bounded_witness:
  "sorted (map (dynamic_sort_key sample_user None) (sort_and_cap sample_user None False (map prepared sample_streams))) \<and>
   length (filter (\<lambda>s. filtered_resolution s = None) (sort_and_cap sample_user None False (map prepared sample_streams)))
     \<le> nat (max_streams_per_resolution sample_user) \<and>
   int (length (sort_and_cap sample_user None False (map prepared sample_streams))) \<le> max_streams sample_user"
  by (rule shown_sorted_and_bounded) code_simp

section \<open>The whole pipeline\<close>

abbreviation uncached_copy :: "stream \<Rightarrow> stream" where
  "uncached_copy s \<equiv> s\<lparr>cached := False\<rparr>"

lemma merge_flags_uncached: "map uncached_copy (merge_flags ss flags) = map uncached_copy ss"
  by (induction ss flags rule: merge_flags.induct) (auto split: list.splits)

lemma update_cache_uncached:
  "map uncached_copy (fst (update_cache_status env cfg p video_id streams st)) = map uncached_copy streams"
  by (simp add: update_cache_status_def Let_def merge_flags_uncached comp_def split: prod.splits)

lemma update_cache_length [simp]:
  "length (fst (update_cache_status env cfg p video_id streams st)) = length streams"
  by (metis update_cache_uncached length_map)

lemma prepared_uncached [simp]: "uncached_copy (prepared s) = prepared s"
  by (simp add: prepared_def)

text \<open>What the pipeline returns comes from the filtered streams, with their cache status set.\<close>

lemma pipeline_source:
  assumes "filter_and_sort_streams env cfg u video_id provider_override disable is_usenet streams st = Inr ((shown, rs), st')"
    and "filter_streams_by_user_preferences (filtering env) cfg u provider_override is_usenet streams = Inr (filtered, reasons)"
  shows "uncached_copy ` set shown \<subseteq> uncached_copy ` set filtered"
proof (cases "filtered = []")
  case True
  then show ?thesis using assms by (simp add: filter_and_sort_streams_def)
next
  case False
  obtain primary where p: "chosen_provider cfg u provider_override = Inr primary"
    using assms False by (auto simp: filter_and_sort_streams_def Let_def result_simps)
  have plain: "set (sort_and_cap u se disable filtered) \<subseteq> set filtered" for se
    by (rule sort_and_cap_set)
  show ?thesis
  proof (cases "primary = None \<or> info_hash (hd filtered) = None")
    case True
    then show ?thesis
      using assms False plain by (auto simp: filter_and_sort_streams_def p Let_def split: option.splits)
  next
    case nn: False
    then obtain prov where prov: "primary = Some prov" by auto
    obtain checked st'' where c: "update_cache_status env cfg prov video_id filtered st = (checked, st'')"
      by (cases "update_cache_status env cfg prov video_id filtered st")
    have same: "uncached_copy ` set checked = uncached_copy ` set filtered"
      using update_cache_uncached[of env cfg prov video_id filtered st] unfolding c by (metis fst_conv set_map)
    have "set shown \<subseteq> set checked"
      using assms False nn sort_and_cap_set[of u _ disable checked] sort_and_cap_set[of u _ disable "filter cached checked"]
      by (auto simp: filter_and_sort_streams_def p prov c Let_def split: if_splits)
    then show ?thesis using same by blast
  qed
qed

text \<open>The streams of a result; none when the pipeline raises.\<close>

definition shown_of :: "((stream list \<times> reasons) \<times> cache_state) py_result \<Rightarrow> stream list" where
  "shown_of r = (case r of Inr ((shown, _), _) \<Rightarrow> shown | Inl _ \<Rightarrow> [])"

text \<open>
  Property C5. Everything shown was wanted: a stream in the result of the filter, the cache check,
  the sort and the caps is the prepared copy of a given stream that the user's preferences admit,
  with only its cache status set.
\<close>

theorem shown_streams_wanted:
  assumes "chosen_provider cfg u provider_override = Inr primary"
  shows "uncached_copy ` set (shown_of (filter_and_sort_streams env cfg u video_id provider_override disable is_usenet streams st))
    \<subseteq> prepared ` {s \<in> set streams. wanted (filtering env) cfg u primary s}"
proof (cases "filter_and_sort_streams env cfg u video_id provider_override disable is_usenet streams st")
  case (Inl e)
  then show ?thesis by (simp add: shown_of_def)
next
  case (Inr result)
  obtain shown rs st' where r: "result = ((shown, rs), st')" by (metis prod.exhaust)
  obtain filtered reasons where f:
    "filter_streams_by_user_preferences (filtering env) cfg u provider_override is_usenet streams = Inr (filtered, reasons)"
    using Inr by (auto simp: filter_and_sort_streams_def result_simps)
  have k: "filtered = map prepared (filter (\<lambda>s. source_compatible (filtering env) cfg u primary is_usenet s \<and>
      wanted (filtering env) cfg u primary s) streams)"
    by (rule filter_keeps_wanted_core[OF f assms])
  have "uncached_copy ` set filtered \<subseteq> prepared ` {s \<in> set streams. wanted (filtering env) cfg u primary s}"
    by (auto simp: k)
  then show ?thesis
    using pipeline_source[OF Inr[unfolded r] f] by (simp add: Inr r shown_of_def)
qed

definition quiet_env :: sort_env where
  "quiet_env =
     \<lparr>filtering = sample_env, text_hash = (\<lambda>t. take 10 (t @ ''##########'')), clock = 0,
      remote_status = (\<lambda>_. None), provider_check = (\<lambda>ss. (map (\<lambda>s. stream_name s = ''b'') ss, Some None))\<rparr>"

definition two_torrents :: "stream list" where
  "two_torrents = [(plain_stream ''a'')\<lparr>info_hash := Some ''h1''\<rparr>, (plain_stream ''b'')\<lparr>info_hash := Some ''h2''\<rparr>]"

theorem shown_streams_wanted_witness:
  "uncached_copy ` set (shown_of (filter_and_sort_streams quiet_env default_settings (default_user [provider ''p'' ''torbox'' 1 True])
      ''tt1'' None False False two_torrents empty_cache))
   \<subseteq> prepared ` {s \<in> set two_torrents. wanted (filtering quiet_env) default_settings
     (default_user [provider ''p'' ''torbox'' 1 True]) (Some (provider ''p'' ''torbox'' 1 True)) s}"
  by (rule shown_streams_wanted) code_simp

text \<open>In this run the provider reports the second torrent as cached, which then comes first.\<close>

lemma two_torrents_shown:
  "map (\<lambda>s. (stream_name s, cached s)) (shown_of (filter_and_sort_streams quiet_env default_settings
      (default_user [provider ''p'' ''torbox'' 1 True]) ''tt1'' None False False two_torrents empty_cache)) =
   [(''b'', True), (''a'', False)]"
  by code_simp

text \<open>
  The option to show only cached streams is not honoured when there are none: if no
  wanted torrent is cached the result is all of them, uncached, past every cap and in the order of
  arrival.
\<close>

theorem only_cached_shows_uncached:
  assumes "filter_streams_by_user_preferences (filtering env) cfg u (Some p) False streams = Inr (filtered, reasons)"
    and "filtered \<noteq> []" and "list_all (\<lambda>s. info_hash s \<noteq> None) filtered" and "only_show_cached_streams p"
    and "\<not> list_ex cached (fst (update_cache_status env cfg p video_id filtered st))"
  shows "\<exists>shown rs st'. filter_and_sort_streams env cfg u video_id (Some p) disable False streams st = Inr ((shown, rs), st') \<and>
    length shown = length filtered \<and> \<not> list_ex cached shown"
proof -
  obtain checked st' where c: "update_cache_status env cfg p video_id filtered st = (checked, st')"
    by (cases "update_cache_status env cfg p video_id filtered st")
  have l: "length checked = length filtered" by (metis c fst_conv update_cache_length)
  have "filter cached checked = []" using assms(5) by (simp add: c filter_empty_conv list_ex_iff)
  moreover obtain h where "info_hash (hd filtered) = Some h" using assms(2,3) by (cases filtered) auto
  moreover have "\<not> list_ex (\<lambda>s. info_hash s = None) filtered" using assms(3) by (auto simp: list_ex_iff list_all_iff)
  ultimately have "filter_and_sort_streams env cfg u video_id (Some p) disable False streams st =
      Inr ((checked, set_reason No_Cached_Streams (length checked) reasons), st')"
    using assms(1,2,4) by (simp add: filter_and_sort_streams_def chosen_provider_def c Let_def)
  then show ?thesis using l assms(5) by (simp add: c)
qed

theorem only_cached_shows_uncached_witness:
  "\<exists>shown rs st'. filter_and_sort_streams (quiet_env\<lparr>provider_check := (\<lambda>ss. ([], Some None))\<rparr>) default_settings (default_user []) ''tt1''
      (Some ((provider ''p'' ''torbox'' 1 True)\<lparr>only_show_cached_streams := True\<rparr>)) False False two_torrents empty_cache =
     Inr ((shown, rs), st') \<and>
   length shown = length (map prepared two_torrents) \<and> \<not> list_ex cached shown"
  by (rule only_cached_shows_uncached[where reasons = initial_reasons]) code_simp+

end
