(* ===== verification/Stream_Providers.thy ===== *)
theory Stream_Providers
  imports Stream_Sort_Correct "HOL-Library.Multiset"
begin

text \<open>
  \<open>parse_stream_data\<close> of \<open>utils/parser.py\<close>: which providers are asked for which kind of stream,
  and how their results are combined into the list shown. The builder of display entries is the
  argument \<open>build\<close>. The providers of \<open>asyncio.gather\<close> are run one after the other on the cache.
\<close>

section \<open>The providers to ask\<close>

definition VIDEO_URL_SERVICES :: "string list" where
  "VIDEO_URL_SERVICES =
     [''alldebrid'', ''debridlink'', ''offcloud'', ''pikpak'', ''premiumize'', ''qbittorrent'', ''realdebrid'', ''seedr'',
      ''torbox'', ''stremthru'', ''easydebrid'', ''debrider'']"

definition USENET_CAPABLE_PROVIDERS :: "string list" where
  "USENET_CAPABLE_PROVIDERS =
     [''torbox'', ''debrider'', ''sabnzbd'', ''nzbget'', ''nzbdav'', ''easynews'', ''stremio_nntp'']"

record stream_kind =
  is_usenet :: bool
  is_telegram :: bool
  is_http :: bool
  is_youtube :: bool

text \<open>\<open>None\<close>: the function returns an empty list at once.\<close>

definition provider_list :: "settings \<Rightarrow> stream_kind \<Rightarrow> streaming_provider list \<Rightarrow> streaming_provider option list option" where
  "provider_list cfg kind active_providers =
     (if is_telegram kind \<or> is_http kind \<or> is_youtube kind then Some [None]
      else if is_usenet kind
      then (let ps = filter (\<lambda>p. service p \<in> set USENET_CAPABLE_PROVIDERS) active_providers
            in if ps = [] then None else Some (map Some ps))
      else (let ps = filter (\<lambda>p. service p \<in> set VIDEO_URL_SERVICES) active_providers
            in if ps \<noteq> [] then Some (map Some ps)
               else if list_ex (\<lambda>p. service p = ''p2p'') active_providers then Some [None]
               else if active_providers \<noteq> [] then None
               else Some (if ''p2p'' \<notin> set (disabled_providers cfg) then [None] else [])))"

section \<open>Combining the results\<close>

text \<open>One turn of the loop takes the next element of every iterator and then drops the exhausted ones.\<close>

function round_robin :: "'a list list \<Rightarrow> 'a list" where
  "round_robin iterators =
     (if iterators = [] then []
      else map hd (filter (\<lambda>it. it \<noteq> []) iterators) @ round_robin (map tl (filter (\<lambda>it. it \<noteq> []) iterators)))"
  by pat_completeness auto
termination
proof (relation "measure (\<lambda>its. sum_list (map (\<lambda>it. Suc (length it)) its))", simp)
  fix iterators :: "'a list list"
  assume ne: "iterators \<noteq> []"
  have le: "sum_list (map (\<lambda>it. Suc (length it)) (map tl (filter (\<lambda>it. it \<noteq> []) its))) \<le>
      sum_list (map (\<lambda>it. length it) its)" for its :: "'a list list"
    by (induction its) auto
  have "sum_list (map (\<lambda>it. length it) its) + length its = sum_list (map (\<lambda>it. Suc (length it)) its)" for its :: "'a list list"
    by (induction its) auto
  then have "sum_list (map (\<lambda>it. length it) iterators) < sum_list (map (\<lambda>it. Suc (length it)) iterators)"
    using ne by (metis length_greater_0_conv less_add_same_cancel1)
  then show "(map tl (filter (\<lambda>it. it \<noteq> []) iterators), iterators)
      \<in> measure (\<lambda>its. sum_list (map (\<lambda>it. Suc (length it)) its))"
    using le[of iterators] by simp
qed

declare round_robin.simps [simp del]

definition combine_streams :: "string \<Rightarrow> 'e list list \<Rightarrow> 'e list" where
  "combine_streams grouping per_provider =
     (if per_provider = [] then []
      else if grouping = ''mixed'' \<and> 1 < length per_provider then round_robin per_provider
      else concat per_provider)"

section \<open>The whole function\<close>

datatype 'e shown_list =
    Shown "'e list"
  | No_provider_configured
  | All_filtered reasons

text \<open>\<open>f"{meta_id}:{season}:{episode}"\<close>.\<close>

definition number_text :: "int option \<Rightarrow> string" where
  "number_text n = (case n of None \<Rightarrow> ''None'' | Some i \<Rightarrow> int_digits i)"

definition stremio_video_id :: "string \<Rightarrow> bool \<Rightarrow> int option \<Rightarrow> int option \<Rightarrow> string" where
  "stremio_video_id meta_id is_series season episode =
     (if is_series then meta_id @ '':'' @ number_text season @ '':'' @ number_text episode else meta_id)"

definition process_single_provider ::
  "sort_env \<Rightarrow> settings \<Rightarrow> user_data \<Rightarrow> stream_kind \<Rightarrow> (streaming_provider option \<Rightarrow> stream list \<Rightarrow> 'e list) \<Rightarrow> bool \<Rightarrow>
   string \<Rightarrow> stream list \<Rightarrow> streaming_provider option \<Rightarrow> cache_state \<Rightarrow> (('e list \<times> reasons) \<times> cache_state) py_result" where
  "process_single_provider env cfg u kind build no_cap video_id streams current st =
     bind_result (filter_and_sort_streams env cfg u video_id current no_cap (is_usenet kind) streams st)
       (\<lambda>((filtered, reasons), st'). Inr ((if filtered = [] then [] else build current filtered, reasons), st'))"

fun gather ::
  "(streaming_provider option \<Rightarrow> cache_state \<Rightarrow> (('e list \<times> reasons) \<times> cache_state) py_result) \<Rightarrow>
   streaming_provider option list \<Rightarrow> cache_state \<Rightarrow> (('e list \<times> reasons) list \<times> cache_state) py_result" where
  "gather process [] st = Inr ([], st)"
| "gather process (p # ps) st =
     bind_result (process p st) (\<lambda>(r, st1).
       bind_result (gather process ps st1) (\<lambda>(rs, st2). Inr (r # rs, st2)))"

definition present :: "bool \<Rightarrow> 'e list \<Rightarrow> reasons \<Rightarrow> streaming_provider list \<Rightarrow> stream_kind \<Rightarrow> 'e shown_list" where
  "present return_rich all_streams last_reasons active_providers kind =
     (if all_streams \<noteq> [] then Shown all_streams
      else if active_providers = [] \<and> \<not> is_telegram kind
      then (if return_rich then Shown [] else No_provider_configured)
      else if return_rich then Shown [] else All_filtered (filter (\<lambda>(r, n). 0 < n) last_reasons))"

definition parse_stream_data ::
  "sort_env \<Rightarrow> settings \<Rightarrow> user_data \<Rightarrow> stream_kind \<Rightarrow> (streaming_provider option \<Rightarrow> stream list \<Rightarrow> 'e list) \<Rightarrow> bool \<Rightarrow> bool \<Rightarrow>
   string \<Rightarrow> stream list \<Rightarrow> cache_state \<Rightarrow> ('e shown_list \<times> cache_state) py_result" where
  "parse_stream_data env cfg u kind build return_rich no_cap video_id streams st =
     (if streams = [] then Inr (Shown [], st)
      else bind_result (get_active_providers cfg u) (\<lambda>active_providers.
             case provider_list cfg kind active_providers of
               None \<Rightarrow> Inr (Shown [], st)
             | Some ps \<Rightarrow>
                 bind_result (gather (process_single_provider env cfg u kind build no_cap video_id streams) ps st)
                   (\<lambda>(results, st').
                      let per_provider = filter (\<lambda>es. es \<noteq> []) (map fst results);
                          last_reasons = (if results = [] then [] else snd (last results))
                      in Inr (present return_rich (combine_streams (provider_grouping u) per_provider) last_reasons
                                active_providers kind, st'))))"

section \<open>Facts on the round robin\<close>

text \<open>The elements of one turn: the \<open>k\<close>-th of every list that has one.\<close>

definition turn :: "nat \<Rightarrow> 'a list list \<Rightarrow> 'a list" where
  "turn k its = map (\<lambda>it. it ! k) (filter (\<lambda>it. k < length it) its)"

lemma turn_0: "turn 0 its = map hd (filter (\<lambda>it. it \<noteq> []) its)"
  by (auto simp: turn_def hd_conv_nth intro: map_cong filter_cong)

lemma turn_Suc: "turn (Suc k) its = turn k (map tl (filter (\<lambda>it. it \<noteq> []) its))"
  by (induction its) (auto simp: turn_def nth_tl)

lemma turn_beyond: "\<forall>it \<in> set its. length it \<le> k \<Longrightarrow> turn k its = []"
  by (auto simp: turn_def filter_empty_conv)

lemma round_robin_turns:
  "\<forall>it \<in> set its. length it \<le> n \<Longrightarrow> round_robin its = concat (map (\<lambda>k. turn k its) [0..<n])"
proof (induction its arbitrary: n rule: round_robin.induct)
  case (1 its)
  let ?rest = "map tl (filter (\<lambda>it. it \<noteq> []) its)"
  show ?case
  proof (cases "its = []")
    case True
    then show ?thesis by (simp add: round_robin.simps turn_def)
  next
    case ne: False
    have e: "round_robin its = turn 0 its @ round_robin ?rest"
      using ne by (subst round_robin.simps) (simp add: turn_0)
    show ?thesis
    proof (cases n)
      case 0
      then have "filter (\<lambda>it. it \<noteq> []) its = []" using "1.prems" by (simp add: filter_empty_conv)
      then show ?thesis using e 0 by (simp add: turn_0 round_robin.simps[of "[]"])
    next
      case (Suc m)
      have "\<forall>it \<in> set ?rest. length it \<le> m" using "1.prems" Suc by (auto simp: le_diff_conv)
      then have "round_robin ?rest = concat (map (\<lambda>k. turn k ?rest) [0..<m])" by (rule "1.IH"[OF ne])
      also have "\<dots> = concat (map (\<lambda>k. turn k its) (map Suc [0..<m]))" by (simp add: turn_Suc comp_def)
      finally show ?thesis using e Suc by (simp add: map_Suc_upt upt_conv_Cons del: upt_Suc)
    qed
  qed
qed

lemma round_robin_mset: "mset (round_robin its) = mset (concat its)"
proof (induction its rule: round_robin.induct)
  case (1 its)
  have split: "mset (map hd (filter (\<lambda>it. it \<noteq> []) xs)) + mset (concat (map tl (filter (\<lambda>it. it \<noteq> []) xs))) = mset (concat xs)"
    for xs :: "'a list list"
  proof (induction xs)
    case (Cons x xs)
    then show ?case by (cases x) (auto simp: ac_simps)
  qed simp
  show ?case
    using 1 split[of its] by (cases "its = []") (simp_all add: round_robin.simps[of its] round_robin.simps[of "[]"])
qed

lemma gather_length: "gather process ps st = Inr (rs, st') \<Longrightarrow> length rs = length ps"
  by (induction ps arbitrary: st rs st') (auto simp: result_simps)

text \<open>The length of the longest list.\<close>

definition longest :: "'a list list \<Rightarrow> nat" where
  "longest its = Max (insert 0 (length ` set its))"

lemma longest_bound: "\<forall>it \<in> set its. length it \<le> longest its"
  by (auto simp: longest_def)

section \<open>Properties\<close>

text \<open>
  Mixing the results of several providers loses and duplicates nothing and is fair:
  the list shown is the first entry of every provider in priority order, then the second of every
  provider that has one, and so on to the longest.
\<close>

theorem mixed_grouping_fair:
  assumes "1 < length per_provider"
  shows "combine_streams ''mixed'' per_provider = concat (map (\<lambda>k. turn k per_provider) [0..<longest per_provider]) \<and>
    mset (combine_streams ''mixed'' per_provider) = mset (concat per_provider)"
proof -
  have "combine_streams ''mixed'' per_provider = round_robin per_provider"
    using assms by (auto simp: combine_streams_def)
  then show ?thesis
    using round_robin_turns[OF longest_bound, of per_provider] round_robin_mset[of per_provider] by simp
qed

theorem mixed_grouping_fair_witness:
  "combine_streams ''mixed'' [[1, 2, 3], [4], [5, 6 :: nat]] =
     concat (map (\<lambda>k. turn k [[1, 2, 3], [4], [5, 6]]) [0..<longest [[1, 2, 3], [4], [5, 6 :: nat]]]) \<and>
   mset (combine_streams ''mixed'' [[1, 2, 3], [4], [5, 6]]) = mset (concat [[1, 2, 3], [4], [5, 6 :: nat]])"
  by (rule mixed_grouping_fair) simp

lemma mixed_example: "combine_streams ''mixed'' [[1, 2, 3], [4], [5, 6 :: nat]] = [1, 4, 5, 2, 6, 3]"
  by (simp add: combine_streams_def round_robin.simps)

text \<open>
  A provider is only asked for streams it can play: of the active providers those with
  a playback function for torrents, those capable of Usenet for Usenet, and none for direct
  streams.
\<close>

theorem asked_providers_capable:
  assumes "provider_list cfg kind active_providers = Some ps" and "Some p \<in> set ps"
  shows "p \<in> set active_providers \<and>
    \<not> is_telegram kind \<and> \<not> is_http kind \<and> \<not> is_youtube kind \<and>
    service p \<in> set (if is_usenet kind then USENET_CAPABLE_PROVIDERS else VIDEO_URL_SERVICES)"
  using assms by (auto simp: provider_list_def Let_def split: if_splits)

theorem asked_providers_capable_witness:
  "provider ''t'' ''torbox'' 1 True \<in> set [provider ''s'' ''sabnzbd'' 0 True, provider ''t'' ''torbox'' 1 True] \<and>
   \<not> False \<and> \<not> False \<and> \<not> False \<and> service (provider ''t'' ''torbox'' 1 True) \<in> set VIDEO_URL_SERVICES"
  using asked_providers_capable[of default_settings "\<lparr>is_usenet = False, is_telegram = False, is_http = False, is_youtube = False\<rparr>"
      "[provider ''s'' ''sabnzbd'' 0 True, provider ''t'' ''torbox'' 1 True]" "[Some (provider ''t'' ''torbox'' 1 True)]"
      "provider ''t'' ''torbox'' 1 True"]
  by (simp add: provider_list_def provider_def USENET_CAPABLE_PROVIDERS_def VIDEO_URL_SERVICES_def)

text \<open>What a call returns to the user, if it returns.\<close>

definition returned :: "('e shown_list \<times> cache_state) py_result \<Rightarrow> 'e shown_list option" where
  "returned r = (case r of Inr (shown, _) \<Rightarrow> Some shown | Inl _ \<Rightarrow> None)"

text \<open>
  A user is never left with an empty list without a reason: when some provider is
  asked for a non-empty list of streams, the plain list returned has an entry or is a message.
\<close>

theorem never_empty_without_reason:
  assumes "streams \<noteq> []" and "get_active_providers cfg u = Inr active_providers"
    and "provider_list cfg kind active_providers \<noteq> None"
  shows "returned (parse_stream_data env cfg u kind build False no_cap video_id streams st) \<noteq> Some (Shown [])"
proof -
  obtain ps where ps: "provider_list cfg kind active_providers = Some ps" using assms(3) by auto
  have "present False all_streams last_reasons active_providers kind \<noteq> Shown []" for all_streams :: "'a list" and last_reasons
    by (simp add: present_def)
  then show ?thesis
    using assms(1,2) ps
    by (cases "gather (process_single_provider env cfg u kind build no_cap video_id streams) ps st")
       (auto simp: parse_stream_data_def returned_def Let_def)
qed

theorem never_empty_without_reason_witness:
  "returned (parse_stream_data quiet_env default_settings (default_user [provider ''p'' ''torbox'' 1 True])
     \<lparr>is_usenet = False, is_telegram = False, is_http = False, is_youtube = False\<rparr> (\<lambda>_ ss. map stream_name ss)
     False False ''tt1'' two_torrents empty_cache) \<noteq> Some (Shown [])"
  by (rule never_empty_without_reason[where active_providers = "[provider ''p'' ''torbox'' 1 True]"]) code_simp+

end
