(* ===== verification/Py_Regex.thy ===== *)
theory Py_Regex
  imports Py_Prelude
begin

text \<open>
  The part of Python's module \<open>re\<close> that the parsers of file names use: a backtracking matcher that
  lists the ways to match in the order in which they are tried. Repetition is of single
  characters, so every pattern matches in finitely many ways. The classes are those of Python on
  ASCII text.
\<close>

section \<open>Patterns\<close>

datatype rx =
    Rep "char \<Rightarrow> bool" nat "nat option" bool
  | Alt "rx list list"
  | Opt "rx list"
  | Grp nat "rx list"
  | Ahead bool "char \<Rightarrow> bool"
  | Behind bool "char \<Rightarrow> bool"
  | Bos
  | Eos

text \<open>A position in the text: what is behind it, reversed, what is ahead, and the groups captured so far.\<close>

type_synonym rx_state = "string \<times> string \<times> (nat \<times> string) list"

text \<open>The numbers of repetitions in the order they are tried: greedy ones from the longest down.\<close>

definition rep_counts :: "nat \<Rightarrow> nat option \<Rightarrow> bool \<Rightarrow> nat \<Rightarrow> nat list" where
  "rep_counts lo hi greedy available =
     (let top = (case hi of None \<Rightarrow> available | Some h \<Rightarrow> min h available); ns = [lo..<Suc top]
      in if greedy then rev ns else ns)"

definition advance :: "nat \<Rightarrow> rx_state \<Rightarrow> rx_state" where
  "advance n s = (case s of (behind, ahead, groups) \<Rightarrow> (rev (take n ahead) @ behind, drop n ahead, groups))"

fun rx_match :: "rx \<Rightarrow> rx_state \<Rightarrow> rx_state list"
and rx_seq :: "rx list \<Rightarrow> rx_state \<Rightarrow> rx_state list"
and rx_alts :: "rx list list \<Rightarrow> rx_state \<Rightarrow> rx_state list" where
  "rx_match (Rep p lo hi greedy) s =
     map (\<lambda>n. advance n s) (rep_counts lo hi greedy (length (takeWhile p (fst (snd s)))))"
| "rx_match (Alt ys) s = rx_alts ys s"
| "rx_match (Opt xs) s = rx_seq xs s @ [s]"
| "rx_match (Grp n xs) s =
     map (\<lambda>(b, a, g). (b, a, (n, take (length (fst (snd s)) - length a) (fst (snd s))) # g)) (rx_seq xs s)"
| "rx_match (Ahead positive p) s =
     (if positive = (case fst (snd s) of [] \<Rightarrow> False | c # cs \<Rightarrow> p c) then [s] else [])"
| "rx_match (Behind positive p) s = (if positive = (case fst s of [] \<Rightarrow> False | c # cs \<Rightarrow> p c) then [s] else [])"
| "rx_match Bos s = (if fst s = [] then [s] else [])"
| "rx_match Eos s = (if fst (snd s) = [] \<or> fst (snd s) = [newline] then [s] else [])"
| "rx_seq [] s = [s]"
| "rx_seq (x # xs) s = concat (map (rx_seq xs) (rx_match x s))"
| "rx_alts [] s = []"
| "rx_alts (y # ys) s = rx_seq y s @ rx_alts ys s"

section \<open>Searching\<close>

record rx_found =
  found_start :: nat
  found_text :: string
  found_groups :: "(nat \<times> string) list"

text \<open>\<open>search\<close>: the first position where the pattern matches.\<close>

fun rx_find :: "rx list \<Rightarrow> string \<Rightarrow> string \<Rightarrow> (rx_found \<times> string \<times> string) option" where
  "rx_find r behind [] =
     (case rx_seq r (behind, [], []) of
        (b, a, g) # _ \<Rightarrow> Some (\<lparr>found_start = length behind, found_text = [], found_groups = g\<rparr>, b, a)
      | [] \<Rightarrow> None)"
| "rx_find r behind (c # cs) =
     (case rx_seq r (behind, c # cs, []) of
        (b, a, g) # _ \<Rightarrow>
          Some (\<lparr>found_start = length behind, found_text = take (Suc (length cs) - length a) (c # cs), found_groups = g\<rparr>, b, a)
      | [] \<Rightarrow> rx_find r (c # behind) cs)"

definition rx_search :: "rx list \<Rightarrow> string \<Rightarrow> rx_found option" where
  "rx_search r text = map_option fst (rx_find r [] text)"

text \<open>\<open>finditer\<close>, for patterns that match no empty text: each search goes on where the last match ended.\<close>

fun rx_find_all :: "nat \<Rightarrow> rx list \<Rightarrow> string \<Rightarrow> string \<Rightarrow> rx_found list" where
  "rx_find_all 0 r behind ahead = []"
| "rx_find_all (Suc n) r behind ahead =
     (case rx_find r behind ahead of
        None \<Rightarrow> []
      | Some (m, b, a) \<Rightarrow> m # rx_find_all n r b a)"

definition rx_finditer :: "rx list \<Rightarrow> string \<Rightarrow> rx_found list" where
  "rx_finditer r text = rx_find_all (Suc (length text)) r [] text"

definition group :: "nat \<Rightarrow> rx_found \<Rightarrow> string" where
  "group n m = (case map_of (found_groups m) n of Some t \<Rightarrow> t | None \<Rightarrow> [])"

text \<open>\<open>sub\<close> with the empty text, for a pattern that is anchored at the end: at most one match.\<close>

definition rx_remove_once :: "rx list \<Rightarrow> string \<Rightarrow> string" where
  "rx_remove_once r text =
     (case rx_search r text of
        None \<Rightarrow> text
      | Some m \<Rightarrow> take (found_start m) text @ drop (found_start m + length (found_text m)) text)"

section \<open>Building patterns\<close>

definition one :: "(char \<Rightarrow> bool) \<Rightarrow> rx" where "one p = Rep p 1 (Some 1) True"
definition lit :: "char \<Rightarrow> rx" where "lit c = one (\<lambda>x. x = c)"
definition lits :: "string \<Rightarrow> rx list" where "lits s = map lit s"
definition any_of :: "string \<Rightarrow> rx" where "any_of cs = one (\<lambda>x. x \<in> set cs)"
definition ci :: "char \<Rightarrow> rx" where "ci c = one (\<lambda>x. char_lower x = char_lower c)"
definition digits :: "nat \<Rightarrow> nat option \<Rightarrow> rx" where "digits lo hi = Rep is_digit lo hi True"

section \<open>Facts\<close>

text \<open>A match consumes a prefix of what is ahead.\<close>

definition consumes :: "rx_state \<Rightarrow> rx_state \<Rightarrow> bool" where
  "consumes s t \<longleftrightarrow> (\<exists>u. fst (snd s) = u @ fst (snd t) \<and> fst t = rev u @ fst s)"

lemma consumes_refl: "consumes s s"
  by (simp add: consumes_def)

lemma consumes_trans: "consumes s t \<Longrightarrow> consumes t u \<Longrightarrow> consumes s u"
  by (auto simp: consumes_def)

lemma consumes_advance: "consumes s (advance n s)"
proof -
  obtain b a g where s: "s = (b, a, g)" by (cases s)
  show ?thesis unfolding consumes_def s advance_def by (intro exI[of _ "take n a"]) simp
qed

lemma match_consumes:
  "t \<in> set (rx_match r s) \<Longrightarrow> consumes s t"
  "t \<in> set (rx_seq rs s) \<Longrightarrow> consumes s t"
  "t \<in> set (rx_alts ys s) \<Longrightarrow> consumes s t"
proof (induction r s and rs s and ys s arbitrary: t and t and t rule: rx_match_rx_seq_rx_alts.induct)
  case (4 n xs s)
  then obtain b a g where "(b, a, g) \<in> set (rx_seq xs s)" "fst t = b" "fst (snd t) = a" by auto
  then show ?case using 4(1)[of "(b, a, g)"] by (simp add: consumes_def)
next
  case (10 x xs s)
  then obtain m where "m \<in> set (rx_match x s)" "t \<in> set (rx_seq xs m)" by auto
  then show ?case using 10 consumes_trans by blast
qed (auto simp: consumes_refl consumes_advance split: if_splits)

text \<open>What a search finds is a part of the text, where the pattern matches.\<close>

definition found_at :: "rx list \<Rightarrow> string \<Rightarrow> string \<Rightarrow> rx_found \<Rightarrow> string \<Rightarrow> string \<Rightarrow> string \<Rightarrow> bool" where
  "found_at r behind ahead m b a skip \<longleftrightarrow>
     ahead = skip @ found_text m @ a \<and> found_start m = length behind + length skip \<and>
     (b, a, found_groups m) \<in> set (rx_seq r (rev skip @ behind, found_text m @ a, []))"

lemma found_at_Cons: "found_at r (c # behind) cs m b a skip \<Longrightarrow> found_at r behind (c # cs) m b a (c # skip)"
  by (simp add: found_at_def)

lemma find_part: "rx_find r behind ahead = Some (m, b, a) \<Longrightarrow> \<exists>skip. found_at r behind ahead m b a skip"
proof (induction r behind ahead rule: rx_find.induct)
  case (1 r behind)
  show ?case
  proof (cases "rx_seq r (behind, [], [])")
    case (Cons t ts)
    then obtain g where "t = (b, a, g)" "found_text m = []" "found_start m = length behind" "found_groups m = g"
      using 1 by (cases t) auto
    then show ?thesis
      using match_consumes(2)[of t r "(behind, [], [])"] Cons by (simp add: consumes_def found_at_def)
  qed (use 1 in simp)
next
  case (2 r behind c cs)
  show ?case
  proof (cases "rx_seq r (behind, c # cs, [])")
    case Nil
    then have "rx_find r (c # behind) cs = Some (m, b, a)" using 2(2) by simp
    then show ?thesis using 2(1)[OF Nil] found_at_Cons by blast
  next
    case (Cons t ts)
    then obtain g where t: "t = (b, a, g)" "found_text m = take (Suc (length cs) - length a) (c # cs)"
      "found_start m = length behind" "found_groups m = g"
      using 2(2) by (cases t) auto
    then have "consumes (behind, c # cs, []) (b, a, g)"
      using match_consumes(2)[of t r] Cons by simp
    then obtain u where u: "c # cs = u @ a" by (auto simp: consumes_def)
    then have "found_text m = u" unfolding t(2) by (metis append_eq_conv_conj diff_add_inverse2 length_Cons length_append)
    then have "found_at r behind (c # cs) m b a []" using t Cons u by (simp add: found_at_def)
    then show ?thesis ..
  qed
qed

lemma search_part:
  assumes "rx_search r text = Some m"
  shows "\<exists>b a skip. found_at r [] text m b a skip"
proof -
  obtain b a where "rx_find r [] text = Some (m, b, a)"
    using assms by (auto simp: rx_search_def)
  from find_part[OF this] show ?thesis by blast
qed

text \<open>Matching a single character, and a text letter by letter.\<close>

lemma one_match [simp]:
  "rx_match (one p) (b, [], g) = []"
  "rx_match (one p) (b, c # cs, g) = (if p c then [(c # b, cs, g)] else [])"
  by (auto simp: one_def rep_counts_def advance_def min_def)

lemma lits_match: "rx_seq (lits s) (b, a, g) = (if prefix s a then [(rev s @ b, drop (length s) a, g)] else [])"
proof (induction s arbitrary: b a)
  case (Cons c s)
  then show ?case by (cases a) (auto simp: lits_def lit_def)
qed (simp add: lits_def)

text \<open>Nothing is found where no position matches.\<close>

fun no_match_in :: "rx list \<Rightarrow> string \<Rightarrow> string \<Rightarrow> string \<Rightarrow> bool" where
  "no_match_in r behind [] ahead \<longleftrightarrow> True"
| "no_match_in r behind (c # skip) ahead \<longleftrightarrow>
     rx_seq r (behind, c # skip @ ahead, []) = [] \<and> no_match_in r (c # behind) skip ahead"

lemma find_skip: "no_match_in r behind skip ahead \<Longrightarrow> rx_find r behind (skip @ ahead) = rx_find r (rev skip @ behind) ahead"
  by (induction skip arbitrary: behind) simp_all

end
