(* ===== verification/Episode_Labels.thy ===== *)
theory Episode_Labels
  imports Py_Regex
begin

text \<open>
  Season and episode read off a file name when the title parser finds none: the table of patterns
  and \<open>fallback_parse_season_episode\<close> of \<open>workers/providers/parser.py\<close>, and the expression for dates
  of \<open>utils/runtime_const.py\<close>. File names are ASCII.
\<close>

section \<open>Patterns\<close>

definition number :: "nat \<Rightarrow> nat \<Rightarrow> rx" where "number n k = Grp n [digits 1 (Some k)]"
definition spaces :: "nat \<Rightarrow> rx" where "spaces lo = Rep py_isspace lo None True"
definition anything_lazy :: rx where "anything_lazy = Rep (\<lambda>c. c \<noteq> newline) 0 None False"
definition separators :: rx where "separators = Rep (\<lambda>c. c = CHR ''.'' \<or> c = CHR ''-'' \<or> py_isspace c) 0 None True"
definition dot_or_space :: rx where "dot_or_space = one (\<lambda>c. c = CHR ''.'' \<or> py_isspace c)"
definition ci_lits :: "string \<Rightarrow> rx list" where "ci_lits s = map ci s"

fun digits_value :: "int \<Rightarrow> string \<Rightarrow> int" where
  "digits_value acc [] = acc"
| "digits_value acc (c # cs) = digits_value (10 * acc + digit_value c) cs"

definition group_int :: "nat \<Rightarrow> rx_found \<Rightarrow> int" where
  "group_int n m = digits_value 0 (group n m)"

definition both_numbers :: "rx_found \<Rightarrow> int option \<Rightarrow> int option \<times> int option" where
  "both_numbers m default_season = (Some (group_int 1 m), Some (group_int 2 m))"

definition only_episode :: "rx_found \<Rightarrow> int option \<Rightarrow> int option \<times> int option" where
  "only_episode m default_season = (default_season, Some (group_int 1 m))"

record label_rule =
  rule_name :: string
  rule_regex :: "rx list"
  rule_extract :: "rx_found \<Rightarrow> int option \<Rightarrow> int option \<times> int option"

definition rule :: "string \<Rightarrow> rx list \<Rightarrow> (rx_found \<Rightarrow> int option \<Rightarrow> int option \<times> int option) \<Rightarrow> label_rule" where
  "rule nm r x = \<lparr>rule_name = nm, rule_regex = r, rule_extract = x\<rparr>"

definition SEASON_EPISODE_PATTERNS :: "label_rule list" where
  "SEASON_EPISODE_PATTERNS =
     [rule ''standard'' [any_of ''sS'', number 1 2, any_of ''eE'', number 2 2] both_numbers,
      rule ''separator_x''
        [Behind False is_word, number 1 2, any_of ''xX'', number 2 2, Ahead False is_word] both_numbers,
      rule ''text_based''
        ([any_of ''sS''] @ lits ''eason'' @ [spaces 1, number 1 2, anything_lazy, any_of ''eE''] @ lits ''pisode'' @
         [spaces 1, number 2 2]) both_numbers,
      rule ''season_ep''
        [Alt [any_of ''sS'' # lits ''eason'', any_of ''sS'' # lits ''eries''], separators, number 1 2, anything_lazy,
         Opt [Alt [[any_of ''eE'', lit CHR ''p''], any_of ''eE'' # lits ''pisode'']], separators, number 2 2] both_numbers,
      rule ''no_separator'' [ci CHR ''S'', number 1 2, ci CHR ''E'', number 2 2] both_numbers,
      rule ''simple_episode'' [Behind True py_isspace, number 1 2, Alt [[one py_isspace], [Eos], [lit CHR ''.'']]] only_episode,
      rule ''bracketed''
        [any_of ''[('', Opt [any_of ''sS''], number 1 2, Opt [dot_or_space], any_of ''eExX'', number 2 2, any_of ''])'']
        both_numbers,
      rule ''period_sep''
        [Behind False is_word, number 1 2, lit CHR ''.'', Grp 2 [digits 2 (Some 2)], Ahead False is_word] both_numbers,
      rule ''episode_only'' [any_of ''_-'', any_of ''eE'', Opt [lit CHR ''p''], number 1 2] only_episode,
      rule ''absolute_ep''
        (ci_lits ''ep'' @ [Opt (ci_lits ''isode''), dot_or_space, number 1 3, Ahead False is_word]) only_episode,
      rule ''zero_padded'' [Behind False is_digit, Grp 1 [digits 2 None], Ahead False is_digit] only_episode]"

definition ANIME_PATTERNS :: "label_rule list" where
  "ANIME_PATTERNS =
     [rule ''standalone_episode''
        [Alt [[Bos], [one py_isspace], [lit CHR ''[''], [lit CHR ''('']], number 1 2,
         Alt [[one py_isspace], [Eos], [lit CHR '']''], [lit CHR '')'']]] only_episode]"

definition date_shapes :: "(nat \<times> nat \<times> nat) \<Rightarrow> rx list list" where
  "date_shapes shape =
     (case shape of (a, b, c) \<Rightarrow>
        map (\<lambda>between. [digits a (Some a), between, digits b (Some b), between, digits c (Some c)])
          [lit CHR ''.'', lit CHR ''-'', lit CHR ''_'', spaces 1])"

definition DATE_STR_REGEX :: "rx list" where
  "DATE_STR_REGEX = [Alt (date_shapes (4, 2, 2) @ date_shapes (2, 2, 4))]"

definition date_regex_search :: "string \<Rightarrow> string option" where
  "date_regex_search text = map_option found_text (rx_search DATE_STR_REGEX text)"

section \<open>The fallback parser\<close>

definition is_likely_hash :: "string \<Rightarrow> string \<Rightarrow> bool" where
  "is_likely_hash match_str filename =
     (if \<not> py_contains match_str filename then False
      else (case rx_search ([lit CHR ''['', Rep (\<lambda>c. c \<noteq> CHR '']'') 0 None True] @ lits match_str @
                   [Rep (\<lambda>c. c \<noteq> CHR ''['') 0 None True, lit CHR '']'']) filename of
              Some m \<Rightarrow> 10 < length (found_text m) \<and> list_ex is_alpha (found_text m)
            | None \<Rightarrow> False) \<or> list_ex is_alpha match_str)"

definition known_extensions :: "string list" where
  "known_extensions = [''mkv'', ''mp4'', ''avi'', ''mov'', ''wmv'', ''flv'']"

definition base_filename :: "string \<Rightarrow> string" where
  "base_filename filename =
     rx_remove_once [lit CHR ''.'', Alt (map lits known_extensions), Eos] (last (split_char CHR ''/'' filename))"

fun try_rules :: "label_rule list \<Rightarrow> string \<Rightarrow> int option \<Rightarrow> (int option \<times> int option) option" where
  "try_rules [] base default_season = None"
| "try_rules (r # rs) base default_season =
     (case rx_search (rule_regex r) base of
        None \<Rightarrow> try_rules rs base default_season
      | Some m \<Rightarrow>
          if rule_name r = ''simple_episode'' \<and> is_likely_hash (found_text m) base then try_rules rs base default_season
          else Some (rule_extract r m default_season))"

definition anime_match :: "string \<Rightarrow> rx_found \<Rightarrow> bool" where
  "anime_match base m \<longleftrightarrow> \<not> is_likely_hash (found_text m) base \<and> 5 < found_start m \<and> group_int 1 m < 100"

fun try_anime :: "label_rule list \<Rightarrow> string \<Rightarrow> int option \<Rightarrow> (int option \<times> int option) option" where
  "try_anime [] base default_season = None"
| "try_anime (r # rs) base default_season =
     (case find (anime_match base) (rx_finditer (rule_regex r) base) of
        Some m \<Rightarrow> Some (rule_extract r m default_season)
      | None \<Rightarrow> try_anime rs base default_season)"

definition fallback_parse_season_episode :: "string \<Rightarrow> int option \<Rightarrow> int option \<times> int option" where
  "fallback_parse_season_episode filename default_season =
     (case try_rules SEASON_EPISODE_PATTERNS (base_filename filename) default_season of
        Some r \<Rightarrow> r
      | None \<Rightarrow>
          (case try_anime ANIME_PATTERNS (base_filename filename) default_season of Some r \<Rightarrow> r | None \<Rightarrow> (None, None)))"

section \<open>Names with a marker\<close>

text \<open>Before the marker no letter S is followed by a digit.\<close>

fun no_marker :: "string \<Rightarrow> bool" where
  "no_marker (c # d # cs) \<longleftrightarrow> \<not> (c \<in> set ''sS'' \<and> is_digit d) \<and> no_marker (d # cs)"
| "no_marker cs \<longleftrightarrow> True"

definition marker :: "char \<Rightarrow> char \<Rightarrow> char \<Rightarrow> char \<Rightarrow> char \<Rightarrow> char \<Rightarrow> string" where
  "marker s a b e c d = [s, a, b, e, c, d]"

lemma length_marker [simp]: "length (marker s a b e c d) = 6"
  by (simp add: marker_def)

lemma number_match:
  "is_digit c \<Longrightarrow> is_digit d \<Longrightarrow>
     rx_match (number n 2) (b, c # d # cs, g) = [(d # c # b, cs, (n, [c, d]) # g), (c # b, d # cs, (n, [c]) # g)]"
  "\<not> is_digit c \<Longrightarrow> rx_match (number n k) (b, c # cs, g) = []"
  "rx_match (number n k) (b, [], g) = []"
  by (auto simp: number_def digits_def rep_counts_def advance_def min_def numeral_2_eq_2)

abbreviation standard_regex :: "rx list" where
  "standard_regex \<equiv> [any_of ''sS'', number 1 2, any_of ''eE'', number 2 2]"

lemma no_marker_no_match:
  assumes "\<not> is_digit s"
  shows "no_marker p \<Longrightarrow> no_match_in standard_regex behind p (s # cs)"
proof (induction p arbitrary: behind)
  case (Cons c p)
  then show ?case using assms by (cases p) (auto simp: any_of_def number_match)
qed simp

lemma not_digit: "s \<in> set ''sS'' \<Longrightarrow> \<not> is_digit s" "e \<in> set ''eE'' \<Longrightarrow> \<not> is_digit e"
  by (auto simp: is_digit_def)

lemma marker_found:
  assumes "no_marker p" and "s \<in> set ''sS''" and "e \<in> set ''eE''" and "list_all is_digit [a, b, c, d]"
  shows "\<exists>m. rx_search standard_regex (p @ marker s a b e c d @ rest) = Some m \<and>
    both_numbers m x = (Some (10 * digit_value a + digit_value b), Some (10 * digit_value c + digit_value d))"
proof -
  have "rx_find standard_regex [] (p @ marker s a b e c d @ rest) = rx_find standard_regex (rev p) (marker s a b e c d @ rest)"
    using find_skip[OF no_marker_no_match[OF not_digit(1)[OF assms(2)] assms(1)], of "[]"] by (simp add: marker_def)
  moreover have "rx_seq standard_regex (rev p, s # a # b # e # c # d # rest, []) =
    [(d # c # e # b # a # s # rev p, rest, [(2, [c, d]), (1, [a, b])]), (c # e # b # a # s # rev p, d # rest, [(2, [c]), (1, [a, b])])]"
  proof -
    have "b \<notin> set ''eE''" using assms(4) by (auto simp: is_digit_def)
    then show ?thesis using assms not_digit(2)[OF assms(3)] by (simp add: any_of_def number_match del: set_simps)
  qed
  ultimately show ?thesis
    by (simp add: rx_search_def marker_def both_numbers_def group_int_def group_def)
qed

abbreviation extension_regex :: "rx list" where
  "extension_regex \<equiv> [lit CHR ''.'', Alt (map lits known_extensions), Eos]"

lemma alts_lits: "t \<in> set (rx_alts (map lits es) (b, a, g)) \<longleftrightarrow> list_ex (\<lambda>s. prefix s a \<and> t = (rev s @ b, drop (length s) a, g)) es"
  by (induction es) (auto simp: lits_match)

lemma extension_match:
  assumes "(b', a', g') \<in> set (rx_seq extension_regex (b, a, g))"
  shows "\<exists>cs. a = CHR ''.'' # cs \<and> length cs \<le> 4 \<and> length a' \<le> 1"
proof (cases a)
  case (Cons c cs)
  then have c: "c = CHR ''.''" and alts: "(b', a', g') \<in> set (rx_seq [Alt (map lits known_extensions), Eos] (c # b, cs, g))"
    using assms by (auto simp: lit_def split: if_splits)
  then obtain u where u: "u \<in> set (rx_alts (map lits known_extensions) (CHR ''.'' # b, cs, g))" "(b', a', g') \<in> set (rx_match Eos u)"
    by auto
  then obtain s where s: "s \<in> set known_extensions" "prefix s cs" "u = (rev s @ CHR ''.'' # b, drop (length s) cs, g)"
    by (auto simp: alts_lits list_ex_iff)
  then have last: "drop (length s) cs = [] \<or> drop (length s) cs = [newline]" and a': "a' = drop (length s) cs"
    using u(2) by (auto split: if_splits)
  have "length s = 3" using s(1) by (auto simp: known_extensions_def)
  have short: "length (drop (length s) cs) \<le> 1" using last by (elim disjE) (simp_all only: list.size)
  then have "length cs \<le> 4" using \<open>length s = 3\<close> by simp
  moreover have "length a' \<le> 1" using short unfolding a' .
  ultimately show ?thesis using Cons c by simp
qed (use assms in \<open>simp add: lit_def\<close>)

text \<open>Removing the extension leaves the part with the marker.\<close>

lemma base_filename_marker:
  assumes "CHR ''/'' \<notin> set (p @ marker s a b e c d @ rest)" and "CHR ''.'' \<notin> {s, a, b, e, c, d}"
  shows "\<exists>rest'. base_filename (p @ marker s a b e c d @ rest) = p @ marker s a b e c d @ rest'"
proof -
  let ?text = "p @ marker s a b e c d @ rest"
  have whole: "base_filename ?text = rx_remove_once extension_regex ?text"
    unfolding base_filename_def split_char_single[OF assms(1)] by simp
  show ?thesis
  proof (cases "rx_search extension_regex ?text")
    case None
    then show ?thesis unfolding whole rx_remove_once_def by auto
  next
    case (Some m)
    then obtain b' a' skip where at: "found_at extension_regex [] ?text m b' a' skip"
      using search_part by blast
    then have split: "?text = skip @ found_text m @ a'" and start: "found_start m = length skip" by (simp_all add: found_at_def)
    obtain cs where cs: "found_text m @ a' = CHR ''.'' # cs" "length cs \<le> 4"
      using extension_match at unfolding found_at_def by blast
    have long: "length p + 6 \<le> length skip"
    proof (rule ccontr)
      assume short: "\<not> ?thesis"
      have "length skip + length (CHR ''.'' # cs) = length p + 6 + length rest"
        using arg_cong[OF split[unfolded cs(1)], of length] by (simp add: marker_def)
      then have "length p < length skip" using cs(2) by simp
      moreover have "?text ! length skip = CHR ''.''"
        unfolding split cs(1) by simp
      moreover have inside: "length skip - length p < length (marker s a b e c d)" using short by simp
      ultimately have "marker s a b e c d ! (length skip - length p) = CHR ''.''"
        by (simp add: nth_append)
      then have "CHR ''.'' \<in> set (marker s a b e c d)" using nth_mem[OF inside] by simp
      then show False using assms(2) by (simp add: marker_def)
    qed
    have "rx_remove_once extension_regex ?text = skip @ a'"
      using Some start split by (simp add: rx_remove_once_def)
    moreover have "skip = take (length skip) (p @ marker s a b e c d @ rest)"
      using split by simp
    then have "skip = p @ marker s a b e c d @ take (length skip - (length p + 6)) rest"
      using long by (simp add: take_append)
    ultimately have "rx_remove_once extension_regex ?text =
        p @ marker s a b e c d @ (take (length skip - (length p + 6)) rest @ a')" by (metis append_assoc)
    then show ?thesis unfolding whole by blast
  qed
qed

text \<open>
  Property C18. A file name with a season and episode in the usual form is read, whatever comes after
  it and whatever precedes it without a letter S before a digit; the season asked for does not matter.
\<close>

theorem marked_episode_read:
  assumes "no_marker p" and "CHR ''/'' \<notin> set (p @ rest)"
    and "s \<in> set ''sS''" and "e \<in> set ''eE''" and "list_all is_digit [a, b, c, d]"
  shows "fallback_parse_season_episode (p @ marker s a b e c d @ rest) default_season =
    (Some (10 * digit_value a + digit_value b), Some (10 * digit_value c + digit_value d))"
proof -
  have plain: "CHR ''/'' \<notin> {s, a, b, e, c, d}" "CHR ''.'' \<notin> {s, a, b, e, c, d}"
    using assms(3-5) by (auto simp: is_digit_def)
  then have "CHR ''/'' \<notin> set (p @ marker s a b e c d @ rest)" using assms(2) by (auto simp: marker_def)
  from base_filename_marker[OF this plain(2)] obtain rest' where
    base: "base_filename (p @ marker s a b e c d @ rest) = p @ marker s a b e c d @ rest'" by blast
  obtain m where "rx_search standard_regex (p @ marker s a b e c d @ rest') = Some m"
    "both_numbers m default_season = (Some (10 * digit_value a + digit_value b), Some (10 * digit_value c + digit_value d))"
    using marker_found[OF assms(1,3,4,5), where x = default_season and rest = rest'] by blast
  then show ?thesis by (simp add: fallback_parse_season_episode_def base SEASON_EPISODE_PATTERNS_def rule_def)
qed

theorem marked_episode_read_witness:
  "fallback_parse_season_episode (''Show 2019 - '' @ marker CHR ''s'' CHR ''0'' CHR ''3'' CHR ''E'' CHR ''1'' CHR ''2'' @ '' 1080p.mkv'') None =
   (Some (10 * digit_value CHR ''0'' + digit_value CHR ''3''), Some (10 * digit_value CHR ''1'' + digit_value CHR ''2''))"
  by (rule marked_episode_read) code_simp+

text \<open>
  Names the patterns do not mean to match: a season of two digits alone is split into a
  season and an episode, a resolution is an episode, and an episode written 1.04 after a space is episode 1.
\<close>

theorem unmarked_numbers_misread:
  "fallback_parse_season_episode ''Season 12'' s = (Some 1, Some 2) \<and>
   fallback_parse_season_episode ''Show.1080p'' s = (s, Some 1080) \<and>
   fallback_parse_season_episode ''Show 1.04'' s = (s, Some 1)"
  by (intro conjI; code_simp)

end
