(* ===== verification/Usenet_Select.thy ===== *)
theory Usenet_Select
  imports Episode_Labels
begin

text \<open>
  The choice of the file to play in a Usenet download, \<open>workers/providers/usenet_file_selection.py\<close>.
  The third-party title parsers (the packages PTT and \<open>dateparser\<close>) are the fields of \<open>label_parsers\<close>.
\<close>

section \<open>Labels\<close>

definition USENET_VIDEO_EXTENSIONS :: "string list" where
  "USENET_VIDEO_EXTENSIONS = [''.mkv'', ''.mp4'', ''.avi'', ''.mov'', ''.wmv'', ''.webm'']"

definition is_usenet_video_basename :: "string \<Rightarrow> bool" where
  "is_usenet_video_basename filename =
     (let name = py_lower filename in list_ex (\<lambda>ext. py_endswith name ext) USENET_VIDEO_EXTENSIONS)"

definition normalize_extension_field :: "string option \<Rightarrow> string" where
  "normalize_extension_field ext =
     (case ext of
        None \<Rightarrow> []
      | Some raw \<Rightarrow>
          if py_strip raw = [] then []
          else let e = py_lower (py_strip raw) in if py_startswith e ''.'' then e else ''.'' @ e)"

record easynews_row =
  row_extension :: "string option"
  row_filename :: "string option"
  row_subject :: "string option"

text \<open>\<open>x or ""\<close>.\<close>

definition text_or_empty :: "string option \<Rightarrow> string" where
  "text_or_empty t = (case t of None \<Rightarrow> [] | Some s \<Rightarrow> s)"

definition easynews_row_looks_like_video :: "easynews_row \<Rightarrow> bool" where
  "easynews_row_looks_like_video row =
     (let dotted = normalize_extension_field (row_extension row)
      in (dotted \<noteq> [] \<and> dotted \<in> set USENET_VIDEO_EXTENSIONS) \<or>
         is_usenet_video_basename (text_or_empty (row_filename row)))"

definition easynews_episode_match_text :: "easynews_row \<Rightarrow> string" where
  "easynews_episode_match_text row =
     (if text_or_empty (row_filename row) \<noteq> [] then text_or_empty (row_filename row)
      else text_or_empty (row_subject row))"

record ptt_title =
  ptt_seasons :: "int list"
  ptt_episodes :: "int list"
  ptt_date :: "string option"

text \<open>
  \<open>parse_date\<close> is the ISO date \<open>dateparser\<close> finds, \<open>None\<close> when it finds none or raises one of
  the caught exceptions.
\<close>

record label_parsers =
  parse_title :: "string \<Rightarrow> ptt_title"
  parse_date :: "string \<Rightarrow> string option"

definition normalize_calendar_date :: "label_parsers \<Rightarrow> string option \<Rightarrow> string option" where
  "normalize_calendar_date parsers v =
     (case v of
        None \<Rightarrow> None
      | Some raw \<Rightarrow>
          let s = py_strip raw
          in if 10 \<le> length s \<and> s ! 4 = CHR ''-'' \<and> s ! 7 = CHR ''-'' then Some (take 10 s)
             else parse_date parsers s)"

text \<open>An empty date counts as none.\<close>

definition truthy_text :: "string option \<Rightarrow> bool" where
  "truthy_text t = (t \<noteq> None \<and> t \<noteq> Some [])"

definition extract_air_date_from_label :: "label_parsers \<Rightarrow> string \<Rightarrow> string option" where
  "extract_air_date_from_label parsers label =
     (let text = py_strip label
      in if text = [] then None
         else let normalized = normalize_calendar_date parsers (ptt_date (parse_title parsers text))
              in if truthy_text normalized then normalized
                 else case date_regex_search (py_replace [CHR 0x5C] ''/'' text) of
                        None \<Rightarrow> None
                      | Some found \<Rightarrow> parse_date parsers found)"

definition usenet_label_matches_air_date :: "label_parsers \<Rightarrow> string \<Rightarrow> string \<Rightarrow> bool" where
  "usenet_label_matches_air_date parsers label air_date_iso =
     (let target = normalize_calendar_date parsers (Some air_date_iso)
      in truthy_text target \<and> truthy_text (extract_air_date_from_label parsers label) \<and>
         extract_air_date_from_label parsers label = target)"

definition usenet_label_matches_season_episode :: "label_parsers \<Rightarrow> string \<Rightarrow> int \<Rightarrow> int \<Rightarrow> bool" where
  "usenet_label_matches_season_episode parsers label season episode =
     (let text = py_strip label; parsed = parse_title parsers text
      in if text = [] then False
         else case (ptt_seasons parsed, ptt_episodes parsed) of
                (s # _, e # _) \<Rightarrow> s = season \<and> e = episode
              | ([], e # _) \<Rightarrow> e = episode
              | _ \<Rightarrow> (case fallback_parse_season_episode text (Some season) of
                        (Some fs, Some fe) \<Rightarrow> fs = season \<and> fe = episode
                      | _ \<Rightarrow> False))"

section \<open>Selection\<close>

text \<open>The loops over \<open>enumerate(files)\<close> return the first index that qualifies.\<close>

fun first_index :: "('a \<Rightarrow> bool) \<Rightarrow> 'a list \<Rightarrow> nat option" where
  "first_index P [] = None"
| "first_index P (x # xs) = (if P x then Some 0 else map_option Suc (first_index P xs))"

text \<open>\<open>max(indices, key=size)\<close>: the first of the largest.\<close>

fun max_by :: "('a \<Rightarrow> int) \<Rightarrow> 'a \<Rightarrow> 'a list \<Rightarrow> 'a" where
  "max_by k best [] = best"
| "max_by k best (x # xs) = max_by k (if k best < k x then x else best) xs"

datatype select_error = Files_empty | No_video_file

definition filename_matches :: "bool \<Rightarrow> string \<Rightarrow> string \<Rightarrow> bool" where
  "filename_matches match_path_suffix filename label =
     (let want = py_lower (py_strip filename); ll = py_lower label
      in ll = want \<or> (match_path_suffix \<and> py_endswith ll (''/'' @ want)))"

text \<open>\<open>size_of\<close> is \<open>int(files[i].get(size_key, 0))\<close>, \<open>None\<close> when that raises.\<close>

definition file_size_or_0 :: "('f \<Rightarrow> int option) \<Rightarrow> 'f \<Rightarrow> int" where
  "file_size_or_0 size_of f = (case size_of f of Some n \<Rightarrow> n | None \<Rightarrow> 0)"

definition first_match :: "nat option \<Rightarrow> nat option \<Rightarrow> nat option" where
  "first_match a b = (case a of Some i \<Rightarrow> Some i | None \<Rightarrow> b)"

definition index_by_filename :: "('f \<Rightarrow> string) \<Rightarrow> bool \<Rightarrow> 'f list \<Rightarrow> string option \<Rightarrow> nat option" where
  "index_by_filename display_name match_path_suffix fs filename =
     (case filename of
        Some w \<Rightarrow>
          if py_strip w = [] then None
          else first_index (\<lambda>f. is_usenet_video_basename (display_name f) \<and>
                 filename_matches match_path_suffix w (display_name f)) fs
      | None \<Rightarrow> None)"

definition index_by_episode ::
  "label_parsers \<Rightarrow> ('f \<Rightarrow> string) \<Rightarrow> 'f list \<Rightarrow> int option \<Rightarrow> int option \<Rightarrow> nat option" where
  "index_by_episode parsers display_name fs season episode =
     (case (season, episode) of
        (Some s, Some e) \<Rightarrow>
          first_index (\<lambda>f. is_usenet_video_basename (display_name f) \<and>
            usenet_label_matches_season_episode parsers (display_name f) s e) fs
      | _ \<Rightarrow> None)"

definition index_by_air_date :: "label_parsers \<Rightarrow> ('f \<Rightarrow> string) \<Rightarrow> 'f list \<Rightarrow> string option \<Rightarrow> nat option" where
  "index_by_air_date parsers display_name fs air_date =
     (case air_date of
        Some d \<Rightarrow>
          if d = [] then None
          else first_index (\<lambda>f. is_usenet_video_basename (display_name f) \<and>
                 usenet_label_matches_air_date parsers (display_name f) d) fs
      | None \<Rightarrow> None)"

definition video_indices :: "('f \<Rightarrow> string) \<Rightarrow> 'f list \<Rightarrow> nat list" where
  "video_indices display_name fs = filter (\<lambda>i. is_usenet_video_basename (display_name (fs ! i))) [0..<length fs]"

definition select_usenet_file_index ::
  "label_parsers \<Rightarrow> ('f \<Rightarrow> string) \<Rightarrow> ('f \<Rightarrow> int option) \<Rightarrow> bool \<Rightarrow> 'f list \<Rightarrow> string option \<Rightarrow>
   int option \<Rightarrow> int option \<Rightarrow> string option \<Rightarrow> select_error + nat" where
  "select_usenet_file_index parsers display_name size_of match_path_suffix fs filename season episode air_date =
     (if fs = [] then Inl Files_empty
      else case first_match (index_by_filename display_name match_path_suffix fs filename)
                 (first_match (index_by_episode parsers display_name fs season episode)
                    (index_by_air_date parsers display_name fs air_date)) of
             Some i \<Rightarrow> Inr i
           | None \<Rightarrow>
               (case video_indices display_name fs of
                  [] \<Rightarrow> Inl No_video_file
                | i # is \<Rightarrow> Inr (max_by (\<lambda>i. file_size_or_0 size_of (fs ! i)) i is)))"

definition select_usenet_file_dict ::
  "label_parsers \<Rightarrow> ('f \<Rightarrow> string) \<Rightarrow> ('f \<Rightarrow> int option) \<Rightarrow> bool \<Rightarrow> 'f list \<Rightarrow> string option \<Rightarrow>
   int option \<Rightarrow> int option \<Rightarrow> string option \<Rightarrow> select_error + 'f option" where
  "select_usenet_file_dict parsers display_name size_of match_path_suffix fs filename season episode air_date =
     (if fs = [] then Inr None
      else case select_usenet_file_index parsers display_name size_of match_path_suffix fs filename season episode
                  air_date of
             Inl e \<Rightarrow> Inl e
           | Inr i \<Rightarrow> Inr (Some (fs ! i)))"

section \<open>Facts\<close>

lemma first_index_Some:
  "first_index P xs = Some i \<longleftrightarrow> i < length xs \<and> P (xs ! i) \<and> (\<forall>j < i. \<not> P (xs ! j))"
proof (induction xs arbitrary: i)
  case Nil
  then show ?case by simp
next
  case (Cons x xs)
  show ?case
    by (cases i) (auto simp: Cons.IH less_Suc_eq_0_disj)
qed

lemma first_index_None: "first_index P xs = None \<longleftrightarrow> (\<forall>x \<in> set xs. \<not> P x)"
  by (induction xs) auto

lemma max_by_in: "max_by k best xs \<in> set (best # xs)"
  by (induction xs arbitrary: best) (auto split: if_splits)

lemma max_by_ge: "x \<in> set (best # xs) \<Longrightarrow> k x \<le> k (max_by k best xs)"
proof (induction xs arbitrary: best x)
  case Nil
  then show ?case by simp
next
  case (Cons y ys)
  let ?b = "if k best < k y then y else best"
  have "k ?b \<le> k (max_by k ?b ys)" by (rule Cons.IH) simp
  then have "k best \<le> k (max_by k ?b ys)" "k y \<le> k (max_by k ?b ys)" by (auto split: if_splits)
  moreover have "x \<in> set ys \<Longrightarrow> k x \<le> k (max_by k ?b ys)" by (rule Cons.IH) simp
  ultimately show ?case using Cons.prems by auto
qed

lemma first_match_Some: "first_match a b = Some i \<longleftrightarrow> a = Some i \<or> a = None \<and> b = Some i"
  by (cases a) (auto simp: first_match_def)

lemma first_match_None: "first_match a b = None \<longleftrightarrow> a = None \<and> b = None"
  by (cases a) (auto simp: first_match_def)

text \<open>Every index a search returns is one of a video file.\<close>

lemma search_video:
  "first_index (\<lambda>f. V f \<and> Q f) fs = Some i \<Longrightarrow> i < length fs \<and> V (fs ! i)"
  by (simp add: first_index_Some)

lemma searches_video:
  "index_by_filename display_name sfx fs filename = Some i \<Longrightarrow>
     i < length fs \<and> is_usenet_video_basename (display_name (fs ! i))"
  "index_by_episode parsers display_name fs season episode = Some i \<Longrightarrow>
     i < length fs \<and> is_usenet_video_basename (display_name (fs ! i))"
  "index_by_air_date parsers display_name fs air_date = Some i \<Longrightarrow>
     i < length fs \<and> is_usenet_video_basename (display_name (fs ! i))"
  by (auto simp: index_by_filename_def index_by_episode_def index_by_air_date_def dest: search_video
      split: option.splits if_splits)

lemma video_indices_iff:
  "i \<in> set (video_indices display_name fs) \<longleftrightarrow> i < length fs \<and> is_usenet_video_basename (display_name (fs ! i))"
  by (auto simp: video_indices_def)

lemma searches_None_select:
  assumes "index_by_filename display_name sfx fs filename = None"
    and "index_by_episode parsers display_name fs season episode = None"
    and "index_by_air_date parsers display_name fs air_date = None"
    and "select_usenet_file_index parsers display_name size_of sfx fs filename season episode air_date = Inr i"
  shows "i \<in> set (video_indices display_name fs) \<and>
    (\<forall>j \<in> set (video_indices display_name fs). file_size_or_0 size_of (fs ! j) \<le> file_size_or_0 size_of (fs ! i))"
proof -
  let ?k = "\<lambda>i. file_size_or_0 size_of (fs ! i)"
  obtain v vs where v: "video_indices display_name fs = v # vs" and i: "i = max_by ?k v vs"
    using assms by (auto simp: select_usenet_file_index_def first_match_def split: if_splits list.splits)
  show ?thesis
    using max_by_in[of ?k v vs] max_by_ge[of _ v vs ?k] by (auto simp: v i)
qed

text \<open>
  The selection never returns a file that is not a video: an index it returns lies
  in the list and names a video, whatever the parsers of titles answer.
\<close>

theorem selected_file_is_video:
  assumes "select_usenet_file_index parsers display_name size_of sfx fs filename season episode air_date = Inr i"
  shows "i < length fs \<and> is_usenet_video_basename (display_name (fs ! i))"
proof (cases "first_match (index_by_filename display_name sfx fs filename)
    (first_match (index_by_episode parsers display_name fs season episode) (index_by_air_date parsers display_name fs air_date))")
  case None
  then show ?thesis
    using searches_None_select assms video_indices_iff unfolding first_match_None by metis
next
  case (Some j)
  then have "i = j" using assms by (simp add: select_usenet_file_index_def split: if_splits)
  then show ?thesis
    using Some searches_video unfolding first_match_Some by metis
qed

definition no_parsers :: label_parsers where
  "no_parsers =
     \<lparr>parse_title = (\<lambda>_. \<lparr>ptt_seasons = [], ptt_episodes = [], ptt_date = None\<rparr>),
      parse_date = (\<lambda>_. None)\<rparr>"

theorem selected_file_is_video_witness:
  "2 < length [(''a.nfo'', 9 :: int), (''b.MKV'', 5), (''c.mp4'', 7)] \<and>
   is_usenet_video_basename (fst ([(''a.nfo'', 9 :: int), (''b.MKV'', 5), (''c.mp4'', 7)] ! 2))"
  by (rule selected_file_is_video[where parsers = no_parsers and size_of = "\<lambda>f. Some (snd f)" and sfx = False
        and filename = None and season = "Some 1" and episode = "Some 2" and air_date = None]) code_simp

text \<open>
  On a list with files the selection fails exactly when none of them is a video.
\<close>

theorem selection_fails_iff_no_video:
  assumes "fs \<noteq> []"
  shows "select_usenet_file_index parsers display_name size_of sfx fs filename season episode air_date = Inl e \<longleftrightarrow>
    e = No_video_file \<and> \<not> list_ex (\<lambda>f. is_usenet_video_basename (display_name f)) fs"
proof -
  have nov: "video_indices display_name fs = [] \<longleftrightarrow> \<not> list_ex (\<lambda>f. is_usenet_video_basename (display_name f)) fs"
    by (auto simp: video_indices_def filter_empty_conv list_ex_iff set_conv_nth)
  show ?thesis
  proof (cases "first_match (index_by_filename display_name sfx fs filename)
      (first_match (index_by_episode parsers display_name fs season episode) (index_by_air_date parsers display_name fs air_date))")
    case None
    then show ?thesis
      using assms nov by (auto simp: select_usenet_file_index_def split: list.splits)
  next
    case (Some j)
    then have "j < length fs \<and> is_usenet_video_basename (display_name (fs ! j))"
      using searches_video unfolding first_match_Some by metis
    then show ?thesis
      using Some assms by (auto simp: select_usenet_file_index_def list_ex_iff)
  qed
qed

theorem selection_fails_iff_no_video_witness:
  "select_usenet_file_index no_parsers (\<lambda>f. f) (\<lambda>_. None) True [''a.nfo'', ''b.par2''] (Some ''b.par2'') None None None =
     Inl No_video_file \<longleftrightarrow>
   No_video_file = No_video_file \<and> \<not> list_ex (\<lambda>f. is_usenet_video_basename f) [''a.nfo'', ''b.par2'']"
  by (rule selection_fails_iff_no_video) simp

text \<open>
  The wanted name wins: when some video of the list has it, the selected file is the
  first such video, whatever season, episode, date or size the others have.
\<close>

theorem wanted_name_wins:
  assumes "py_strip want \<noteq> []"
    and "f \<in> set fs" and "is_usenet_video_basename (display_name f)" and "filename_matches sfx want (display_name f)"
  shows "\<exists>i < length fs. filename_matches sfx want (display_name (fs ! i)) \<and>
    select_usenet_file_index parsers display_name size_of sfx fs (Some want) season episode air_date = Inr i \<and>
    \<not> list_ex (\<lambda>g. is_usenet_video_basename (display_name g) \<and> filename_matches sfx want (display_name g)) (take i fs)"
proof -
  let ?P = "\<lambda>f. is_usenet_video_basename (display_name f) \<and> filename_matches sfx want (display_name f)"
  obtain i where i: "first_index ?P fs = Some i"
    using first_index_None[of ?P fs] assms(2-4) by (cases "first_index ?P fs") auto
  then have "i < length fs" "?P (fs ! i)" "\<forall>j < i. \<not> ?P (fs ! j)"
    unfolding first_index_Some by blast+
  moreover have "\<not> list_ex ?P (take i fs)"
    using calculation by (auto simp: list_ex_iff in_set_conv_nth)
  moreover have "select_usenet_file_index parsers display_name size_of sfx fs (Some want) season episode air_date = Inr i"
    using i assms(1,2) by (auto simp: select_usenet_file_index_def index_by_filename_def first_match_def)
  ultimately show ?thesis by blast
qed

theorem wanted_name_wins_witness:
  "\<exists>i < length [''x/big.mkv'', ''y/Show.mkv'']. filename_matches True '' show.MKV'' ([''x/big.mkv'', ''y/Show.mkv''] ! i) \<and>
    select_usenet_file_index no_parsers (\<lambda>f. f) (\<lambda>_. None) True [''x/big.mkv'', ''y/Show.mkv''] (Some '' show.MKV'') (Some 1) (Some 1) None = Inr i \<and>
    \<not> list_ex (\<lambda>g. is_usenet_video_basename g \<and> filename_matches True '' show.MKV'' g) (take i [''x/big.mkv'', ''y/Show.mkv''])"
  by (rule wanted_name_wins[where f = "''y/Show.mkv''" and display_name = "\<lambda>f. f"]) code_simp+

end
