(* ===== verification/Task_Queue.thy ===== *)
theory Task_Queue
  imports Py_Prelude Complex_Main "HOL-Library.AList" "HOL-Library.List_Lexorder" "HOL-Library.Char_ord"
begin

text \<open>
  The background task queue, \<open>workers/task_queue.py\<close>: the registration of actors, the records of
  tasks in Redis, enqueueing, cancellation, the guard on the interval between runs, and the
  execution of an actor with its life cycle. The broker is the list of messages sent; the clock,
  the fresh task ids, the outcome of a task's function, the interval of a cron expression and the
  text Python prints for a value are arguments. The Redis server answers; the life times of records
  and markers are longer than a run and are not modelled.
\<close>

section \<open>Arguments of tasks\<close>

text \<open>The value of an argument; \<open>A_tuple\<close> is a tuple or a set and \<open>A_object\<close> carries the \<open>repr\<close> of any other object.\<close>

datatype arg_value =
    A_none
  | A_bool bool
  | A_int int
  | A_float rat
  | A_str string
  | A_dict "(string \<times> arg_value) list"
  | A_list "arg_value list"
  | A_tuple "arg_value list"
  | A_object string

text \<open>\<open>_safe_json_value\<close>: values nested deeper than four levels become \<open>None\<close>.\<close>

function safe_json_value :: "nat \<Rightarrow> arg_value \<Rightarrow> arg_value" where
  "safe_json_value depth v =
     (if 4 < depth then A_none
      else case v of
             A_dict kvs \<Rightarrow> A_dict (map (\<lambda>(k, w). (k, safe_json_value (depth + 1) w)) kvs)
           | A_list vs \<Rightarrow> A_list (map (safe_json_value (depth + 1)) vs)
           | A_tuple vs \<Rightarrow> A_list (map (safe_json_value (depth + 1)) vs)
           | A_object r \<Rightarrow> A_str r
           | _ \<Rightarrow> v)"
  by pat_completeness auto
termination by (relation "measure (\<lambda>(depth, v). 5 - depth)") auto

declare safe_json_value.simps [simp del]

definition shorten :: "string \<Rightarrow> string" where
  "shorten s = (if length s \<le> 240 then s else take 237 s @ ''...'')"

function safe_preview :: "nat \<Rightarrow> arg_value \<Rightarrow> arg_value" where
  "safe_preview depth v =
     (if 2 < depth then A_str ''...''
      else case v of
             A_str s \<Rightarrow> A_str (shorten s)
           | A_dict kvs \<Rightarrow> A_dict (map (\<lambda>(k, w). (k, safe_preview (depth + 1) w)) (take 20 kvs))
           | A_list vs \<Rightarrow> A_list (map (safe_preview (depth + 1)) (take 20 vs))
           | A_tuple vs \<Rightarrow> A_list (map (safe_preview (depth + 1)) (take 20 vs))
           | A_object r \<Rightarrow> A_str (shorten r)
           | _ \<Rightarrow> v)"
  by pat_completeness auto
termination by (relation "measure (\<lambda>(depth, v). 3 - depth)") auto

declare safe_preview.simps [simp del]

type_synonym args = "arg_value list"
type_synonym kwargs = "(string \<times> arg_value) list"

definition build_args_preview :: "args \<Rightarrow> arg_value" where
  "build_args_preview as = A_list (map (safe_preview 0) as)"

definition build_kwargs_preview :: "kwargs \<Rightarrow> arg_value" where
  "build_kwargs_preview ks = A_dict (map (\<lambda>(k, v). (k, safe_preview 0 v)) ks)"

definition build_args_payload :: "args \<Rightarrow> arg_value" where
  "build_args_payload as = A_list (map (safe_json_value 0) as)"

definition build_kwargs_payload :: "kwargs \<Rightarrow> arg_value" where
  "build_kwargs_payload ks = A_dict (map (\<lambda>(k, v). (k, safe_json_value 0 v)) ks)"

definition arg_truth :: "arg_value \<Rightarrow> bool" where
  "arg_truth v = (v \<notin> {A_none, A_bool False, A_int 0, A_float 0, A_str [], A_dict [], A_list [], A_tuple []})"

section \<open>Actors\<close>

datatype time_limit = No_limit | Infinite_limit | Millis rat

record registration =
  actor_name :: string
  queue_name :: string
  actor_priority :: int
  time_limit_ms :: time_limit
  max_retries :: "int option"
  minimum_run_interval :: "rat option"

definition time_limit_to_timeout_seconds :: "time_limit \<Rightarrow> int option" where
  "time_limit_to_timeout_seconds l =
     (case l of Millis ms \<Rightarrow> if ms \<le> 0 then None else Some (max \<lceil>ms / 1000\<rceil> 1) | _ \<Rightarrow> None)"

record task_labels =
  timeout_label :: "int option"
  retry_on_error :: bool
  max_retries_label :: "int option"

definition build_taskiq_task_labels :: "time_limit \<Rightarrow> int option \<Rightarrow> task_labels" where
  "build_taskiq_task_labels l retries =
     \<lparr>timeout_label = time_limit_to_timeout_seconds l, retry_on_error = (retries \<noteq> None),
      max_retries_label = map_option (\<lambda>n. max n 0) retries\<rparr>"

definition resolve_runtime_queue_name :: "bool \<Rightarrow> string \<Rightarrow> string" where
  "resolve_runtime_queue_name single_worker_mode queue = (if single_worker_mode then ''default'' else queue)"

definition get_taskiq_queue_name :: "bool \<Rightarrow> string \<Rightarrow> string" where
  "get_taskiq_queue_name single_worker_mode queue =
     ''mediafusion:taskiq:'' @ resolve_runtime_queue_name single_worker_mode queue"

section \<open>State\<close>

type_synonym task_record = "(string \<times> arg_value) list"

record message =
  message_task :: string
  message_actor :: string
  message_queue :: string
  message_args :: args
  message_kwargs :: kwargs

text \<open>A guard holds the time of the last run and the time it expires, if it does.\<close>

record queue_state =
  task_records :: "string \<Rightarrow> task_record"
  recent_tasks :: "string list"
  running_tasks :: "string set"
  cancel_marks :: "string set"
  run_guards :: "string \<Rightarrow> (rat \<times> rat option) option"
  sent :: "message list"

definition empty_queue :: queue_state where
  "empty_queue =
     \<lparr>task_records = (\<lambda>_. []), recent_tasks = [], running_tasks = {}, cancel_marks = {}, run_guards = (\<lambda>_. None), sent = []\<rparr>"

definition TASK_RECENT_TASKS_MAX :: nat where
  "TASK_RECENT_TASKS_MAX = 2000"

text \<open>\<open>dict.setdefault\<close> and \<open>dict.update\<close>; no stored record is the empty list.\<close>

definition set_default :: "string \<Rightarrow> arg_value \<Rightarrow> task_record \<Rightarrow> task_record" where
  "set_default k v r = (if map_of r k = None then r @ [(k, v)] else r)"

definition dict_update :: "task_record \<Rightarrow> task_record \<Rightarrow> task_record" where
  "dict_update payload r = fold (\<lambda>(k, v). AList.update k v) payload r"

definition upsert_task_record :: "rat \<Rightarrow> string \<Rightarrow> task_record \<Rightarrow> queue_state \<Rightarrow> queue_state" where
  "upsert_task_record now task_id payload st =
     (let old = task_records st task_id;
          r = dict_update payload (set_default ''task_id'' (A_str task_id) old);
          new = AList.update ''updated_at'' (A_float now) (set_default ''created_at'' (A_float now) r);
          st' = st\<lparr>task_records := (task_records st)(task_id := new)\<rparr>
      in if old = [] then st'\<lparr>recent_tasks := take TASK_RECENT_TASKS_MAX (task_id # recent_tasks st)\<rparr> else st')"

definition get_task_record :: "string \<Rightarrow> queue_state \<Rightarrow> task_record option" where
  "get_task_record task_id st = (if task_records st task_id = [] then None else Some (task_records st task_id))"

definition list_task_records :: "nat \<Rightarrow> nat \<Rightarrow> queue_state \<Rightarrow> task_record list" where
  "list_task_records limit offset st =
     filter (\<lambda>r. r \<noteq> []) (map (task_records st) (take limit (drop offset (recent_tasks st))))"

definition request_task_cancellation :: "rat \<Rightarrow> string \<Rightarrow> string \<Rightarrow> queue_state \<Rightarrow> queue_state" where
  "request_task_cancellation now task_id reason st =
     upsert_task_record now task_id
       [(''cancellation_requested'', A_bool True), (''cancellation_reason'', A_str reason),
        (''cancellation_requested_at'', A_float now)]
       (st\<lparr>cancel_marks := insert task_id (cancel_marks st)\<rparr>)"

section \<open>Enqueueing\<close>

definition INTERNAL_TASK_ID_KWARG :: string where
  "INTERNAL_TASK_ID_KWARG = ''_taskiq_task_id''"

definition limit_value :: "time_limit \<Rightarrow> arg_value" where
  "limit_value l = (case l of No_limit \<Rightarrow> A_none | Infinite_limit \<Rightarrow> A_str ''inf'' | Millis ms \<Rightarrow> A_float ms)"

definition enqueue_payload :: "string \<Rightarrow> registration \<Rightarrow> string \<Rightarrow> task_record \<Rightarrow> args \<Rightarrow> kwargs \<Rightarrow> task_record" where
  "enqueue_payload task_id reg status extra as ks =
     (let sanitized = AList.delete INTERNAL_TASK_ID_KWARG ks
      in [(''task_id'', A_str task_id), (''actor_name'', A_str (actor_name reg)), (''queue_name'', A_str (queue_name reg)),
          (''priority'', A_int (actor_priority reg)), (''status'', A_str status)] @ extra @
         [(''args_preview'', build_args_preview as), (''kwargs_preview'', build_kwargs_preview sanitized),
          (''args_payload'', build_args_payload as), (''kwargs_payload'', build_kwargs_payload sanitized),
          (''max_retries'', (case max_retries reg of None \<Rightarrow> A_none | Some n \<Rightarrow> A_int n)),
          (''time_limit_ms'', limit_value (time_limit_ms reg))])"

datatype queue_error = Broker_failed string string | Task_cancelled | Task_retry_error | Crontab_error | Function_failed string string | Interrupted

text \<open>\<open>failure\<close>: the class and message of an exception of the broker, if it raises one.\<close>

definition send_taskiq_message ::
  "bool \<Rightarrow> rat \<Rightarrow> (string \<times> string) option \<Rightarrow> registration \<Rightarrow> args \<Rightarrow> kwargs \<Rightarrow> string \<Rightarrow> queue_state \<Rightarrow> (queue_error + string) \<times> queue_state" where
  "send_taskiq_message single now failure reg as ks task_id st =
     (let st' = upsert_task_record now task_id (enqueue_payload task_id reg ''queued'' [] as ks) st
      in case failure of
           None \<Rightarrow>
             (Inr task_id,
              st'\<lparr>sent := sent st' @
                [\<lparr>message_task = task_id, message_actor = actor_name reg, message_queue = get_taskiq_queue_name single (queue_name reg),
                  message_args = as, message_kwargs = AList.update INTERNAL_TASK_ID_KWARG (A_str task_id) ks\<rparr>]\<rparr>)
         | Some (cls, msg) \<Rightarrow>
             (Inl (Broker_failed cls msg),
              upsert_task_record now task_id
                [(''status'', A_str ''enqueue_failed''), (''finished_at'', A_float now), (''error_type'', A_str cls),
                 (''error_message'', A_str (take 500 msg))] st'))"

text \<open>A delayed job is recorded at once; its sending is a step of its own, \<open>delayed_send\<close>.\<close>

definition enqueue_actor_job ::
  "bool \<Rightarrow> rat \<Rightarrow> (string \<times> string) option \<Rightarrow> registration \<Rightarrow> args \<Rightarrow> kwargs \<Rightarrow> int option \<Rightarrow> string \<Rightarrow> queue_state \<Rightarrow>
   (queue_error + string) \<times> queue_state" where
  "enqueue_actor_job single now failure reg as ks delay_ms task_id st =
     (case delay_ms of
        Some d \<Rightarrow>
          if 0 < d
          then (Inr task_id,
                upsert_task_record now task_id
                  (enqueue_payload task_id reg ''scheduled''
                     [(''created_at'', A_float now), (''scheduled_for_ms'', A_int d)] as ks) st)
          else send_taskiq_message single now failure reg as ks task_id st
      | None \<Rightarrow> send_taskiq_message single now failure reg as ks task_id st)"

definition delayed_send ::
  "bool \<Rightarrow> rat \<Rightarrow> (string \<times> string) option \<Rightarrow> registration \<Rightarrow> args \<Rightarrow> kwargs \<Rightarrow> string \<Rightarrow> queue_state \<Rightarrow> (queue_error + string) \<times> queue_state" where
  "delayed_send single now failure reg as ks task_id st = send_taskiq_message single now failure reg as ks task_id st"

definition retry_task_by_id ::
  "bool \<Rightarrow> rat \<Rightarrow> (string \<times> string) option \<Rightarrow> (string \<Rightarrow> registration option) \<Rightarrow> string \<Rightarrow> string \<Rightarrow> queue_state \<Rightarrow>
   (queue_error + string) \<times> queue_state" where
  "retry_task_by_id single now failure registry task_id new_id st =
     (case get_task_record task_id st of
        None \<Rightarrow> (Inl Task_retry_error, st)
      | Some r \<Rightarrow>
          (case map_of r ''actor_name'' of
             Some (A_str name) \<Rightarrow>
               (case (if name = [] then None else registry name) of
                  None \<Rightarrow> (Inl Task_retry_error, st)
                | Some reg \<Rightarrow>
                    (case (map_of r ''args_payload'', map_of r ''kwargs_payload'') of
                       (Some (A_list as), Some (A_dict ks)) \<Rightarrow> send_taskiq_message single now failure reg as ks new_id st
                     | (None, Some (A_dict ks)) \<Rightarrow> send_taskiq_message single now failure reg [] ks new_id st
                     | (Some (A_list as), None) \<Rightarrow> send_taskiq_message single now failure reg as [] new_id st
                     | (None, None) \<Rightarrow> send_taskiq_message single now failure reg [] [] new_id st
                     | _ \<Rightarrow> (Inl Task_retry_error, st)))
           | _ \<Rightarrow> (Inl Task_retry_error, st)))"

end
