(* ===== verification/Task_Execution.thy ===== *)
theory Task_Execution
  imports Task_Queue
begin

text \<open>
  The execution of an actor, \<open>_execute_actor\<close> of \<open>workers/task_queue.py\<close>, with the guard on the
  interval between runs. \<open>start_actor\<close> is the part before the task's function is called and
  \<open>finish_actor\<close> the part after it, so that tasks of several workers can interleave between them.
  The telemetry of the worker's memory is left out.
\<close>

section \<open>The guard on the interval\<close>

definition rstrip_underscores :: "string \<Rightarrow> string" where
  "rstrip_underscores s = rev (dropWhile (\<lambda>c. c = CHR ''_'') (rev s))"

definition build_task_key :: "(arg_value \<Rightarrow> string) \<Rightarrow> string \<Rightarrow> args \<Rightarrow> kwargs \<Rightarrow> string" where
  "build_task_key str_of task_name as ks =
     (case map_of ks ''spider_name'' of
        Some spider \<Rightarrow>
          if arg_truth spider then ''background_tasks:run_spider:spider_name='' @ str_of spider
          else rstrip_underscores
                 (''background_tasks:'' @ task_name @ '':'' @ py_join ''_'' (map str_of as) @ ''_'' @
                  py_join ''_'' (map (\<lambda>(k, v). k @ ''='' @ str_of v) (sort_key fst ks)))
      | None \<Rightarrow>
          rstrip_underscores
            (''background_tasks:'' @ task_name @ '':'' @ py_join ''_'' (map str_of as) @ ''_'' @
             py_join ''_'' (map (\<lambda>(k, v). k @ ''='' @ str_of v) (sort_key fst ks))))"

record execution_context =
  task_key :: string
  min_interval :: rat
  set_cache_expiry :: bool

definition guard_time :: "rat \<Rightarrow> string \<Rightarrow> queue_state \<Rightarrow> rat option" where
  "guard_time now key st =
     (case run_guards st key of
        None \<Rightarrow> None
      | Some (t, None) \<Rightarrow> Some t
      | Some (t, Some e) \<Rightarrow> if now < e then Some t else None)"

text \<open>\<open>SET\<close> with the expiry in whole seconds; the server rejects an expiry of zero.\<close>

definition set_guard :: "rat \<Rightarrow> execution_context \<Rightarrow> queue_state \<Rightarrow> queue_state" where
  "set_guard now c st =
     (if set_cache_expiry c
      then (if \<lfloor>min_interval c\<rfloor> \<le> 0 then st
            else st\<lparr>run_guards := (run_guards st)(task_key c \<mapsto> (now, Some (now + of_int \<lfloor>min_interval c\<rfloor>)))\<rparr>)
      else st\<lparr>run_guards := (run_guards st)(task_key c \<mapsto> (now, None))\<rparr>)"

definition PROCESSING_TIME_BUFFER_SECONDS :: rat where
  "PROCESSING_TIME_BUFFER_SECONDS = 10"

text \<open>The interval that applies, whether the guard expires, and the keyword arguments of its key.\<close>

definition guard_interval ::
  "(arg_value \<Rightarrow> rat option) \<Rightarrow> registration \<Rightarrow> kwargs \<Rightarrow> queue_error + (rat option \<times> bool \<times> kwargs)" where
  "guard_interval cron_interval reg ks =
     (case map_of ks ''crontab_expression'' of
        Some expression \<Rightarrow>
          if arg_truth expression
          then (case cron_interval expression of
                  None \<Rightarrow> Inl Crontab_error
                | Some d \<Rightarrow> Inr (Some d, False, AList.delete ''crontab_expression'' ks))
          else Inr (minimum_run_interval reg, True, ks)
      | None \<Rightarrow> Inr (minimum_run_interval reg, True, ks))"

definition prepare_task_execution ::
  "(arg_value \<Rightarrow> string) \<Rightarrow> (arg_value \<Rightarrow> rat option) \<Rightarrow> rat \<Rightarrow> registration \<Rightarrow> args \<Rightarrow> kwargs \<Rightarrow> queue_state \<Rightarrow>
   queue_error + ((bool \<times> execution_context option) \<times> queue_state)" where
  "prepare_task_execution str_of cron_interval now reg as ks st =
     (let forced = (case map_of ks ''force_run'' of Some v \<Rightarrow> arg_truth v | None \<Rightarrow> False);
          ks' = AList.delete ''force_run'' ks
      in if forced then Inr ((False, None), st)
         else bind_result (guard_interval cron_interval reg ks') (\<lambda>(interval, expires, ks'').
           case interval of
             None \<Rightarrow> Inr ((False, None), st)
           | Some d \<Rightarrow>
               if d = 0 then Inr ((False, None), st)
               else
                 let c = \<lparr>task_key = build_task_key str_of (actor_name reg) as ks'', min_interval = d, set_cache_expiry = expires\<rparr>
                 in (case guard_time now (task_key c) st of
                       Some last_run \<Rightarrow>
                         if now - last_run < d - PROCESSING_TIME_BUFFER_SECONDS then Inr ((True, None), st)
                         else Inr ((False, Some c), set_guard now c st)
                     | None \<Rightarrow> Inr ((False, Some c), set_guard now c st))))"

definition finalize_task_execution :: "rat \<Rightarrow> bool \<Rightarrow> execution_context option \<Rightarrow> queue_state \<Rightarrow> queue_state" where
  "finalize_task_execution now failed context st =
     (case context of
        None \<Rightarrow> st
      | Some c \<Rightarrow>
          if failed then st\<lparr>run_guards := (run_guards st)(task_key c := None)\<rparr> else set_guard now c st)"

section \<open>Execution\<close>

text \<open>
  How the task's function ends: it returns, raises an exception (class, message, and whether it is
  a \<open>TaskCancelledError\<close>), or is interrupted by an exception that is no \<open>Exception\<close>, as
  the cancellation of a task past its time limit is.
\<close>

datatype run_outcome = Returns | Raises string string bool | Interrupts

datatype start_result = Refused queue_error | Skipped | Started "execution_context option"

definition start_actor ::
  "(arg_value \<Rightarrow> string) \<Rightarrow> (arg_value \<Rightarrow> rat option) \<Rightarrow> rat \<Rightarrow> int \<Rightarrow> registration \<Rightarrow> args \<Rightarrow> kwargs \<Rightarrow> string option \<Rightarrow>
   queue_state \<Rightarrow> start_result \<times> queue_state" where
  "start_actor str_of cron_interval now pid reg as ks task_id st =
     (case task_id of
        Some t \<Rightarrow>
          if t \<in> cancel_marks st
          then (Refused Task_cancelled,
                upsert_task_record now t
                  [(''status'', A_str ''cancelled''), (''started_at'', A_float now), (''finished_at'', A_float now),
                   (''error_type'', A_str ''TaskCancelledError''),
                   (''error_message'', A_str (''Task '' @ t @ '' was cancelled before execution.''))] st)
          else
            (let st1 = upsert_task_record now t
                         [(''status'', A_str ''running''), (''started_at'', A_float now), (''worker_pid'', A_int pid)]
                         (st\<lparr>running_tasks := insert t (running_tasks st)\<rparr>)
             in case prepare_task_execution str_of cron_interval now reg as ks st1 of
                  Inl e \<Rightarrow> (Refused e, st1)
                | Inr ((True, _), st2) \<Rightarrow>
                    (Skipped,
                     (upsert_task_record now t [(''status'', A_str ''skipped''), (''finished_at'', A_float now)] st2)
                       \<lparr>running_tasks := running_tasks st2 - {t}\<rparr>)
                | Inr ((False, c), st2) \<Rightarrow> (Started c, st2))
      | None \<Rightarrow>
          (case prepare_task_execution str_of cron_interval now reg as ks st of
             Inl e \<Rightarrow> (Refused e, st)
           | Inr ((True, _), st2) \<Rightarrow> (Skipped, st2)
           | Inr ((False, c), st2) \<Rightarrow> (Started c, st2)))"

definition outcome_failed :: "run_outcome \<Rightarrow> bool" where
  "outcome_failed out = (case out of Raises _ _ _ \<Rightarrow> True | _ \<Rightarrow> False)"

definition outcome_status :: "run_outcome \<Rightarrow> string" where
  "outcome_status out = (case out of Raises _ _ cancelled \<Rightarrow> if cancelled then ''cancelled'' else ''error'' | _ \<Rightarrow> ''success'')"

definition finish_actor ::
  "rat \<Rightarrow> rat \<Rightarrow> run_outcome \<Rightarrow> execution_context option \<Rightarrow> string option \<Rightarrow> queue_state \<Rightarrow> queue_error option \<times> queue_state" where
  "finish_actor now duration_ms out context task_id st =
     (let st1 = finalize_task_execution now (outcome_failed out) context st;
          st2 = (case task_id of
                   None \<Rightarrow> st1
                 | Some t \<Rightarrow>
                     (upsert_task_record now t
                        [(''status'', A_str (outcome_status out)), (''finished_at'', A_float now),
                         (''duration_ms'', A_float duration_ms),
                         (''error_type'', (case out of Raises cls _ _ \<Rightarrow> A_str cls | _ \<Rightarrow> A_none)),
                         (''error_message'', (case out of Raises _ msg _ \<Rightarrow> A_str (take 500 msg) | _ \<Rightarrow> A_none))] st1)
                       \<lparr>running_tasks := running_tasks st1 - {t}, cancel_marks := cancel_marks st1 - {t}\<rparr>)
      in (case out of Returns \<Rightarrow> None | Raises cls msg _ \<Rightarrow> Some (Function_failed cls msg) | Interrupts \<Rightarrow> Some Interrupted, st2))"

definition task_status :: "string \<Rightarrow> queue_state \<Rightarrow> arg_value option" where
  "task_status t st = map_of (task_records st t) ''status''"

section \<open>Facts on records\<close>

lemma map_of_dict_update: "map_of (dict_update payload r) = map_of r ++ map_of (rev payload)"
proof (induction payload arbitrary: r)
  case Nil
  then show ?case by (simp add: dict_update_def)
next
  case (Cons kv payload)
  obtain k v where kv: "kv = (k, v)" by force
  have "dict_update (kv # payload) r = dict_update payload (AList.update k v r)"
    by (simp add: dict_update_def kv)
  then show ?case
    by (auto simp: Cons kv update_conv' map_add_def fun_eq_iff split: option.splits)
qed

lemma map_of_set_default: "map_of (set_default k v r) j = (if j = k \<and> map_of r k = None then Some v else map_of r j)"
  by (auto simp: set_default_def map_add_def split: option.splits)

lemma record_upsert_same:
  "map_of (task_records (upsert_task_record now t payload st) t) k =
     (if k = ''updated_at'' then Some (A_float now)
      else case map_of (rev payload) k of
             Some v \<Rightarrow> Some v
           | None \<Rightarrow>
               (case map_of (task_records st t) k of
                  Some v \<Rightarrow> Some v
                | None \<Rightarrow> if k = ''created_at'' then Some (A_float now) else if k = ''task_id'' then Some (A_str t) else None))"
  by (auto simp: upsert_task_record_def Let_def update_conv' map_of_set_default map_of_dict_update map_add_def
      split: option.splits)

lemma record_upsert_other:
  "t \<noteq> u \<Longrightarrow> task_records (upsert_task_record now t payload st) u = task_records st u"
  by (simp add: upsert_task_record_def Let_def)

lemma upsert_fields [simp]:
  "running_tasks (upsert_task_record now t payload st) = running_tasks st"
  "cancel_marks (upsert_task_record now t payload st) = cancel_marks st"
  "run_guards (upsert_task_record now t payload st) = run_guards st"
  "sent (upsert_task_record now t payload st) = sent st"
  by (simp_all add: upsert_task_record_def Let_def)

lemma set_guard_fields [simp]:
  "running_tasks (set_guard now c st) = running_tasks st"
  "cancel_marks (set_guard now c st) = cancel_marks st"
  "task_records (set_guard now c st) = task_records st"
  "recent_tasks (set_guard now c st) = recent_tasks st"
  by (simp_all add: set_guard_def)

lemma finalize_fields [simp]:
  "running_tasks (finalize_task_execution now f c st) = running_tasks st"
  "cancel_marks (finalize_task_execution now f c st) = cancel_marks st"
  "task_records (finalize_task_execution now f c st) = task_records st"
  by (simp_all add: finalize_task_execution_def split: option.splits)

lemma prepare_fields:
  "prepare_task_execution str_of cron now reg as ks st = Inr ((b, c), st') \<Longrightarrow>
   running_tasks st' = running_tasks st \<and> cancel_marks st' = cancel_marks st \<and> task_records st' = task_records st"
  by (auto simp: prepare_task_execution_def Let_def result_simps split: if_splits option.splits)

section \<open>Workers\<close>

text \<open>
  What happens to the queue, in any interleaving: a task is enqueued (at once, delayed, or a delayed
  one is sent), its cancellation is requested, a worker starts executing it, or finishes.
\<close>

record worker_env =
  single_worker :: bool
  str_of :: "arg_value \<Rightarrow> string"
  cron_interval :: "arg_value \<Rightarrow> rat option"
  worker_pid :: int

type_synonym machine = "queue_state \<times> (string \<times> execution_context option) list"

datatype queue_event =
    Enqueue rat "(string \<times> string) option" registration args kwargs "int option" string
  | Cancel rat string string
  | Start rat registration args kwargs string
  | Finish rat rat run_outcome string

inductive queue_step :: "worker_env \<Rightarrow> machine \<Rightarrow> queue_event \<Rightarrow> machine \<Rightarrow> bool" for env where
  enqueue: "queue_step env (st, active) (Enqueue now failure reg as ks delay t)
     (snd (enqueue_actor_job (single_worker env) now failure reg as ks delay t st), active)"
| cancel: "queue_step env (st, active) (Cancel now t reason) (request_task_cancellation now t reason st, active)"
| start_task: "t \<notin> fst ` set active \<Longrightarrow>
     start_actor (str_of env) (cron_interval env) now (worker_pid env) reg as ks (Some t) st = (Started c, st') \<Longrightarrow>
     queue_step env (st, active) (Start now reg as ks t) (st', (t, c) # active)"
| start_nothing: "t \<notin> fst ` set active \<Longrightarrow>
     start_actor (str_of env) (cron_interval env) now (worker_pid env) reg as ks (Some t) st = (r, st') \<Longrightarrow>
     \<not> (\<exists>c. r = Started c) \<Longrightarrow>
     queue_step env (st, active) (Start now reg as ks t) (st', active)"
| finish: "(t, c) \<in> set active \<Longrightarrow>
     queue_step env (st, active) (Finish now duration out t)
       (snd (finish_actor now duration out c (Some t) st), filter (\<lambda>p. fst p \<noteq> t) active)"

inductive queue_reachable :: "worker_env \<Rightarrow> machine \<Rightarrow> bool" for env where
  initial: "queue_reachable env (empty_queue, [])"
| step: "queue_reachable env m \<Longrightarrow> queue_step env m e m' \<Longrightarrow> queue_reachable env m'"

inductive_cases queue_stepE: "queue_step env (st, active) e m'"

lemma enqueue_running [simp]:
  "running_tasks (snd (enqueue_actor_job single now failure reg as ks delay t st)) = running_tasks st"
  by (auto simp: enqueue_actor_job_def send_taskiq_message_def Let_def split: option.splits)

lemma cancel_running [simp]: "running_tasks (request_task_cancellation now t reason st) = running_tasks st"
  by (simp add: request_task_cancellation_def)

lemma finish_running [simp]:
  "running_tasks (snd (finish_actor now d out c (Some t) st)) = running_tasks st - {t}"
  by (simp add: finish_actor_def Let_def)

lemma start_running:
  assumes "start_actor f g now pid reg as ks (Some t) st = (r, st')"
    and "\<And>e. g e \<noteq> None" and "t \<notin> running_tasks st"
  shows "running_tasks st' = (if \<exists>c. r = Started c then insert t (running_tasks st) else running_tasks st)"
proof (cases "t \<in> cancel_marks st")
  case True
  then show ?thesis using assms(1) by (auto simp: start_actor_def)
next
  case False
  define st1 where "st1 = upsert_task_record now t
      [(''status'', A_str ''running''), (''started_at'', A_float now), (''worker_pid'', A_int pid)]
      (st\<lparr>running_tasks := insert t (running_tasks st)\<rparr>)"
  have "guard_interval g reg ks' \<noteq> Inl e" for ks' e
  proof
    assume "guard_interval g reg ks' = Inl e"
    then obtain x where "g x = None" by (auto simp: guard_interval_def split: option.splits if_splits)
    then show False using assms(2) by blast
  qed
  then obtain b c st2 where p: "prepare_task_execution f g now reg as ks st1 = Inr ((b, c), st2)"
    by (cases "prepare_task_execution f g now reg as ks st1")
       (auto simp: prepare_task_execution_def Let_def result_simps split: if_splits option.splits)
  have "running_tasks st2 = insert t (running_tasks st)"
    using prepare_fields[OF p] by (simp add: st1_def)
  then show ?thesis
    using assms(1,3) False p by (cases b) (auto simp: start_actor_def Let_def st1_def[symmetric])
qed

lemma running_step:
  assumes "queue_step env (st, active) e (st', active')" and "\<And>x. cron_interval env x \<noteq> None"
    and "running_tasks st = fst ` set active"
  shows "running_tasks st' = fst ` set active'"
  using assms(1)
proof (cases rule: queue_step.cases)
  case (start_task t now reg as ks c)
  then show ?thesis using start_running[OF start_task(4) assms(2)] assms(3) by auto
next
  case (start_nothing t now reg as ks r)
  then show ?thesis using start_running[OF start_nothing(4) assms(2)] assms(3) by auto
next
  case (finish t c now duration out)
  then show ?thesis using assms(3) by auto
qed (use assms(3) in auto)

section \<open>Properties\<close>


definition sample_registration :: registration where
  "sample_registration =
     \<lparr>actor_name = ''scrape'', queue_name = ''default'', actor_priority = 0, time_limit_ms = Millis 300000,
      max_retries = None, minimum_run_interval = Some 60\<rparr>"

definition sample_worker :: worker_env where
  "sample_worker = \<lparr>single_worker = False, str_of = (\<lambda>v. case v of A_str s \<Rightarrow> s | _ \<Rightarrow> []), cron_interval = (\<lambda>_. Some 600), worker_pid = 7\<rparr>"

definition started_state :: queue_state where
  "started_state = snd (start_actor (str_of sample_worker) (cron_interval sample_worker) 100 7 sample_registration [A_str ''tt1''] [] (Some ''t1'') empty_queue)"

definition started_context :: "execution_context option" where
  "started_context = Some \<lparr>task_key = ''background_tasks:scrape:tt1'', min_interval = 60, set_cache_expiry = True\<rparr>"

lemma started_state_reachable: "queue_reachable sample_worker (started_state, [(''t1'', started_context)])"
proof -
  have "fst (start_actor (str_of sample_worker) (cron_interval sample_worker) 100 7 sample_registration [A_str ''tt1''] [] (Some ''t1'') empty_queue) =
      Started started_context"
    by code_simp
  then have "start_actor (str_of sample_worker) (cron_interval sample_worker) 100 (worker_pid sample_worker) sample_registration
      [A_str ''tt1''] [] (Some ''t1'') empty_queue = (Started started_context, started_state)"
    by (simp add: started_state_def prod_eq_iff sample_worker_def)
  then have "queue_step sample_worker (empty_queue, []) (Start 100 sample_registration [A_str ''tt1''] [] ''t1'')
      (started_state, [(''t1'', started_context)])"
    by (intro queue_step.start_task) simp_all
  then show ?thesis by (rule queue_reachable.step[OF queue_reachable.initial])
qed


text \<open>
  A task that is interrupted, as one past its time limit is, is recorded as a success:
  the handler only catches \<open>Exception\<close>, so the record says \<open>success\<close> without an error and
  the guard on the interval is kept as after a successful run.
\<close>

theorem interrupted_task_recorded_as_success:
  "task_status t (snd (finish_actor now duration Interrupts context (Some t) st)) = Some (A_str ''success'') \<and>
   map_of (task_records (snd (finish_actor now duration Interrupts context (Some t) st)) t) ''error_type'' = Some A_none \<and>
   run_guards (snd (finish_actor now duration Interrupts context (Some t) st)) =
   run_guards (snd (finish_actor now duration Returns context (Some t) st))"
  by (simp add: finish_actor_def Let_def task_status_def record_upsert_same outcome_failed_def outcome_status_def)

text \<open>
  An invalid cron expression leaves its task in the set of running tasks with the
  status \<open>running\<close> although its function is never called.
\<close>

theorem invalid_cron_leaks_running_task:
  assumes "map_of ks ''crontab_expression'' = Some e" and "arg_truth e" and "g e = None"
    and "map_of ks ''force_run'' = None" and "t \<notin> cancel_marks st"
  shows "fst (start_actor f g now pid reg as ks (Some t) st) = Refused Crontab_error \<and>
    t \<in> running_tasks (snd (start_actor f g now pid reg as ks (Some t) st)) \<and>
    task_status t (snd (start_actor f g now pid reg as ks (Some t) st)) = Some (A_str ''running'')"
proof -
  have "guard_interval g reg (AList.delete ''force_run'' ks) = Inl Crontab_error"
    using assms(1-3) by (simp add: guard_interval_def delete_conv')
  then have "prepare_task_execution f g now reg as ks st1 = Inl Crontab_error" for st1
    using assms(4) by (simp add: prepare_task_execution_def Let_def)
  then show ?thesis
    using assms(5) by (simp add: start_actor_def Let_def task_status_def record_upsert_same)
qed

theorem invalid_cron_leaks_running_task_witness:
  "fst (start_actor (\<lambda>_. []) (\<lambda>_. None) 5 7 sample_registration [] [(''crontab_expression'', A_str ''bad'')] (Some ''t1'') empty_queue) =
     Refused Crontab_error \<and>
   ''t1'' \<in> running_tasks (snd (start_actor (\<lambda>_. []) (\<lambda>_. None) 5 7 sample_registration []
     [(''crontab_expression'', A_str ''bad'')] (Some ''t1'') empty_queue)) \<and>
   task_status ''t1'' (snd (start_actor (\<lambda>_. []) (\<lambda>_. None) 5 7 sample_registration []
     [(''crontab_expression'', A_str ''bad'')] (Some ''t1'') empty_queue)) = Some (A_str ''running'')"
  by (rule invalid_cron_leaks_running_task[where e = "A_str ''bad''"])
     (simp_all add: arg_truth_def empty_queue_def)

section \<open>Cancellation\<close>

lemma send_marks [simp]: "cancel_marks (snd (send_taskiq_message single now failure reg as ks t st)) = cancel_marks st"
  by (auto simp: send_taskiq_message_def Let_def split: option.splits)

lemma enqueue_marks [simp]:
  "cancel_marks (snd (enqueue_actor_job single now failure reg as ks delay t st)) = cancel_marks st"
  by (auto simp: enqueue_actor_job_def split: option.splits)

lemma start_marks:
  "start_actor f g now pid reg as ks (Some t) st = (r, st') \<Longrightarrow> cancel_marks st' = cancel_marks st"
  by (auto simp: start_actor_def Let_def dest!: prepare_fields split: if_splits sum.splits prod.splits bool.splits)

lemma finish_marks [simp]:
  "cancel_marks (snd (finish_actor now d out c (Some t) st)) = cancel_marks st - {t}"
  by (simp add: finish_actor_def Let_def)

lemma cancel_marks_request [simp]:
  "cancel_marks (request_task_cancellation now t reason st) = insert t (cancel_marks st)"
  by (simp add: request_task_cancellation_def)

lemma marked_not_started:
  "start_actor f g now pid reg as ks (Some t) st = (Started c, st') \<Longrightarrow> t \<notin> cancel_marks st"
  by (auto simp: start_actor_def)

text \<open>A task that is marked and not executing stays so.\<close>

lemma marked_step:
  assumes "queue_step env (st, active) e (st', active')" and "t \<in> cancel_marks st" and "t \<notin> fst ` set active"
  shows "t \<in> cancel_marks st' \<and> t \<notin> fst ` set active'"
  using assms(1)
proof (cases rule: queue_step.cases)
  case (start_task u now reg as ks c)
  then show ?thesis using start_marks[OF start_task(4)] marked_not_started[OF start_task(4)] assms(2,3) by auto
next
  case (start_nothing u now reg as ks r)
  then show ?thesis using start_marks[OF start_nothing(4)] assms(2,3) by auto
next
  case (finish u c now duration out)
  then show ?thesis using assms(2,3) by force
qed (use assms(2,3) in auto)

text \<open>
  A task whose cancellation is requested while no worker executes it is never
  executed, however the queue goes on (as long as the mark of the cancellation lasts, a day).
\<close>

theorem cancelled_task_never_runs:
  assumes "t \<notin> fst ` set active"
    and "(\<lambda>m m'. \<exists>e. queue_step env m e m')\<^sup>*\<^sup>* (request_task_cancellation now t reason st, active) (st', active')"
  shows "t \<notin> fst ` set active'"
proof -
  have "t \<in> cancel_marks (fst (st', active')) \<and> t \<notin> fst ` set (snd (st', active'))"
    using assms(2)
  proof (induction rule: rtranclp_induct)
    case base
    then show ?case using assms(1) by simp
  next
    case (step m m')
    then show ?case using marked_step[of env "fst m" "snd m" _ "fst m'" "snd m'" t] by auto
  qed
  then show ?thesis by simp
qed

theorem cancelled_task_never_runs_witness: "''t9'' \<notin> fst ` set [(''t1'', started_context)]"
  by (rule cancelled_task_never_runs[where now = 1 and reason = "[]" and st = started_state
        and active = "[(''t1'', started_context)]" and env = sample_worker])
     (simp, rule rtranclp.rtrancl_refl)

section \<open>The interval between runs\<close>

lemma prepare_plain:
  assumes "minimum_run_interval reg = Some d" and "d \<noteq> 0" and "map_of ks ''force_run'' = None"
    and "map_of ks ''crontab_expression'' = None"
  shows "prepare_task_execution f g now reg as ks st =
    (let c = \<lparr>task_key = build_task_key f (actor_name reg) as (AList.delete ''force_run'' ks), min_interval = d, set_cache_expiry = True\<rparr>
     in case guard_time now (task_key c) st of
          Some last_run \<Rightarrow> if now - last_run < d - PROCESSING_TIME_BUFFER_SECONDS then Inr ((True, None), st)
                           else Inr ((False, Some c), set_guard now c st)
        | None \<Rightarrow> Inr ((False, Some c), set_guard now c st))"
  using assms by (simp add: prepare_task_execution_def Let_def guard_interval_def delete_conv')

text \<open>
  Property C33. The interval between runs of an actor is enforced after a success and lifted after a
  failure: once a run has finished, a later start with the same arguments is skipped exactly when
  the run did not fail and less than the interval, shortened by ten seconds, has passed.
\<close>

theorem interval_enforced:
  assumes "minimum_run_interval reg = Some d" and "10 < d" and "map_of ks ''force_run'' = None"
    and "map_of ks ''crontab_expression'' = None" and "finished \<le> now"
    and "start_actor f g started pid reg as ks (Some t) st = (Started c, st1)"
    and "u \<notin> cancel_marks (snd (finish_actor finished duration out c (Some t) st1))"
  shows "fst (start_actor f g now pid' reg as ks (Some u) (snd (finish_actor finished duration out c (Some t) st1))) = Skipped \<longleftrightarrow>
    \<not> outcome_failed out \<and> now - finished < d - 10"
proof -
  let ?k = "build_task_key f (actor_name reg) as (AList.delete ''force_run'' ks)"
  let ?c = "\<lparr>task_key = ?k, min_interval = d, set_cache_expiry = True\<rparr>"
  let ?st = "snd (finish_actor finished duration out c (Some t) st1)"
  have d: "d \<noteq> 0" "\<not> \<lfloor>d\<rfloor> \<le> 0" "d - 10 < of_int \<lfloor>d\<rfloor>"
    using assms(2) floor_correct[of d] by auto
  note plain = prepare_plain[OF assms(1) d(1) assms(3,4)]
  have c: "c = Some ?c"
    using assms(6)
    by (auto simp: start_actor_def Let_def plain split: if_splits option.splits)
  have "run_guards ?st ?k = (if outcome_failed out then None else Some (finished, Some (finished + of_int \<lfloor>d\<rfloor>)))"
    using d(2) by (simp add: finish_actor_def Let_def c finalize_task_execution_def set_guard_def)
  then have "guard_time now ?k st' = (if \<not> outcome_failed out \<and> now < finished + of_int \<lfloor>d\<rfloor> then Some finished else None)"
    if "run_guards st' = run_guards ?st" for st'
    by (simp add: guard_time_def that)
  then have p: "prepare_task_execution f g now reg as ks st' =
      (if \<not> outcome_failed out \<and> now - finished < d - 10 then Inr ((True, None), st')
       else Inr ((False, Some ?c), set_guard now ?c st'))" if "run_guards st' = run_guards ?st" for st'
    using that d(3) by (auto simp: plain Let_def PROCESSING_TIME_BUFFER_SECONDS_def)
  show ?thesis
    using assms(7) by (simp add: start_actor_def Let_def p)
qed

theorem interval_enforced_witness:
  "(fst (start_actor (str_of sample_worker) (cron_interval sample_worker) 150 7 sample_registration [A_str ''tt1''] [] (Some ''t2'')
      (snd (finish_actor 110 10000 Returns started_context (Some ''t1'') started_state))) = Skipped) =
    (\<not> outcome_failed Returns \<and> (150 :: rat) - 110 < 60 - 10)"
proof -
  let ?r = "start_actor (str_of sample_worker) (cron_interval sample_worker) 100 7 sample_registration [A_str ''tt1''] [] (Some ''t1'') empty_queue"
  have "fst ?r = Started started_context" by code_simp
  then have "?r = (Started started_context, started_state)"
    by (simp add: started_state_def prod_eq_iff)
  moreover have "''t2'' \<notin> cancel_marks (snd (finish_actor 110 10000 Returns started_context (Some ''t1'') started_state))"
    using start_marks[OF calculation] by (simp add: empty_queue_def)
  ultimately show ?thesis
    by (intro interval_enforced[where d = 60 and st = empty_queue and started = 100 and pid = 7])
       (simp_all add: sample_registration_def)
qed

section \<open>Retries\<close>

text \<open>The values JSON can hold, and the depth of their nesting.\<close>

fun json_plain :: "arg_value \<Rightarrow> bool" where
  "json_plain (A_dict kvs) = list_all (\<lambda>(k, v). json_plain v) kvs"
| "json_plain (A_list vs) = list_all json_plain vs"
| "json_plain (A_tuple vs) = False"
| "json_plain (A_object r) = False"
| "json_plain v = True"

fun json_within :: "nat \<Rightarrow> arg_value \<Rightarrow> bool" where
  "json_within n (A_dict kvs) = list_all (\<lambda>(k, v). 0 < n \<and> json_within (n - 1) v) kvs"
| "json_within n (A_list vs) = list_all (\<lambda>v. 0 < n \<and> json_within (n - 1) v) vs"
| "json_within n v = True"

lemma safe_json_value_plain:
  "json_plain v \<Longrightarrow> json_within n v \<Longrightarrow> depth + n = 4 \<Longrightarrow> safe_json_value depth v = v"
proof (induction n v arbitrary: depth rule: json_within.induct)
  case (1 n kvs)
  have "safe_json_value (depth + 1) w = w" if "(k, w) \<in> set kvs" for k w
    using 1 that by (fastforce simp: list_all_iff)
  then show ?case
    using 1(4) by (auto simp: safe_json_value.simps[of depth] intro!: map_idI)
next
  case (2 n vs)
  have "safe_json_value (depth + 1) w = w" if "w \<in> set vs" for w
    using 2 that by (fastforce simp: list_all_iff)
  then show ?case
    using 2(4) by (auto simp: safe_json_value.simps[of depth] intro!: map_idI)
qed (simp_all add: safe_json_value.simps)

lemma safe_json_values_plain:
  assumes "list_all (\<lambda>v. json_plain v \<and> json_within 4 v) vs"
  shows "map (safe_json_value 0) vs = vs"
  using assms by (intro map_idI safe_json_value_plain[where n = 4]) (auto simp: list_all_iff)

lemma build_kwargs_payload_plain:
  assumes "list_all (\<lambda>(k, v). json_plain v \<and> json_within 4 v) ks"
  shows "build_kwargs_payload ks = A_dict ks"
  using assms unfolding build_kwargs_payload_def
  by (auto simp: list_all_iff intro!: map_idI safe_json_value_plain[where n = 4])

lemma delete_absent: "map_of ks k = None \<Longrightarrow> AList.delete k ks = ks"
  by (simp add: map_of_eq_None_iff delete_id)

lemma send_ok:
  "send_taskiq_message single now None reg as ks t st =
     (let st' = upsert_task_record now t (enqueue_payload t reg ''queued'' [] as ks) st
      in (Inr t, st'\<lparr>sent := sent st @
                [\<lparr>message_task = t, message_actor = actor_name reg, message_queue = get_taskiq_queue_name single (queue_name reg),
                  message_args = as, message_kwargs = AList.update INTERNAL_TASK_ID_KWARG (A_str t) ks\<rparr>]\<rparr>))"
  by (simp add: send_taskiq_message_def Let_def)

text \<open>
  A retry of a task sends its actor the very arguments the task was sent with, when
  these are JSON values nested at most four levels deep.
\<close>

theorem retry_resends:
  assumes "registry (actor_name reg) = Some reg" and "actor_name reg \<noteq> []"
    and "list_all (\<lambda>v. json_plain v \<and> json_within 4 v) as"
    and "list_all (\<lambda>(k, v). json_plain v \<and> json_within 4 v) ks"
    and "map_of ks INTERNAL_TASK_ID_KWARG = None"
    and "st' = snd (send_taskiq_message single now failure reg as ks t st)"
  shows "sent (snd (retry_task_by_id single later None registry t u st')) =
    sent st' @ [\<lparr>message_task = u, message_actor = actor_name reg, message_queue = get_taskiq_queue_name single (queue_name reg),
      message_args = as, message_kwargs = AList.update INTERNAL_TASK_ID_KWARG (A_str u) ks\<rparr>]"
proof -
  have fields: "map_of (task_records st' t) ''actor_name'' = Some (A_str (actor_name reg))"
    "map_of (task_records st' t) ''args_payload'' = Some (A_list as)"
    "map_of (task_records st' t) ''kwargs_payload'' = Some (A_dict ks)"
    using assms(3,4,5)
    by (auto simp: assms(6) send_taskiq_message_def Let_def record_upsert_same enqueue_payload_def delete_absent
        build_kwargs_payload_plain build_args_payload_def safe_json_values_plain split: option.splits)
  then have "get_task_record t st' = Some (task_records st' t)"
    by (auto simp: get_task_record_def)
  then show ?thesis
    using assms(1,2) by (simp add: retry_task_by_id_def fields send_ok Let_def)
qed

theorem retry_resends_witness:
  "sent (snd (retry_task_by_id False 9 None (\<lambda>_. Some sample_registration) ''t1'' ''t2''
      (snd (send_taskiq_message False 5 None sample_registration [A_str ''tt1''] [(''ids'', A_list [A_int 3])] ''t1'' empty_queue)))) =
    sent (snd (send_taskiq_message False 5 None sample_registration [A_str ''tt1''] [(''ids'', A_list [A_int 3])] ''t1'' empty_queue)) @
    [\<lparr>message_task = ''t2'', message_actor = actor_name sample_registration,
      message_queue = get_taskiq_queue_name False (queue_name sample_registration), message_args = [A_str ''tt1''],
      message_kwargs = AList.update INTERNAL_TASK_ID_KWARG (A_str ''t2'') [(''ids'', A_list [A_int 3])]\<rparr>]"
  by (rule retry_resends[OF _ _ _ _ _ refl])
     (simp_all add: sample_registration_def INTERNAL_TASK_ID_KWARG_def)

end
