(* ===== verification/Json_Value.thy ===== *)
theory Json_Value
  imports Py_Prelude Complex_Main "HOL-Library.AList"
begin

text \<open>
  The values of \<open>json\<close>, as the configuration code handles them: dictionaries with string keys are
  association lists in insertion order, the operators \<open>in\<close>, \<open>[]\<close>, \<open>del\<close> and \<open>len\<close> raise what Python
  raises, and \<open>py_eq\<close> is the equality of Python on values of one type, which ignores the order of keys. A nested
  dictionary or list has one owner, so an update in place is an update of the tree.
\<close>

datatype json =
    JNull
  | JBool bool
  | JInt int
  | JFloat rat
  | JStr string
  | JList "json list"
  | JDict "(string \<times> json) list"

type_synonym dict = "(string \<times> json) list"

fun truthy :: "json \<Rightarrow> bool" where
  "truthy JNull = False"
| "truthy (JBool b) = b"
| "truthy (JInt i) = (i \<noteq> 0)"
| "truthy (JFloat x) = (x \<noteq> 0)"
| "truthy (JStr s) = (s \<noteq> [])"
| "truthy (JList vs) = (vs \<noteq> [])"
| "truthy (JDict kvs) = (kvs \<noteq> [])"

section \<open>Operators\<close>

fun py_in :: "string \<Rightarrow> json \<Rightarrow> bool py_result" where
  "py_in k (JDict kvs) = Inr (map_of kvs k \<noteq> None)"
| "py_in k (JList vs) = Inr (list_ex (\<lambda>v. v = JStr k) vs)"
| "py_in k (JStr s) = Inr (py_contains k s)"
| "py_in k _ = Inl TypeError"

fun py_getitem :: "json \<Rightarrow> string \<Rightarrow> json py_result" where
  "py_getitem (JDict kvs) k = (case map_of kvs k of Some v \<Rightarrow> Inr v | None \<Rightarrow> Inl KeyError)"
| "py_getitem _ k = Inl TypeError"

fun py_setitem :: "json \<Rightarrow> string \<Rightarrow> json \<Rightarrow> json py_result" where
  "py_setitem (JDict kvs) k v = Inr (JDict (AList.update k v kvs))"
| "py_setitem _ k v = Inl TypeError"

fun py_delitem :: "json \<Rightarrow> string \<Rightarrow> json py_result" where
  "py_delitem (JDict kvs) k = (if map_of kvs k = None then Inl KeyError else Inr (JDict (AList.delete k kvs)))"
| "py_delitem _ k = Inl TypeError"

fun py_len :: "json \<Rightarrow> int py_result" where
  "py_len (JDict kvs) = Inr (int (length kvs))"
| "py_len (JList vs) = Inr (int (length vs))"
| "py_len (JStr s) = Inr (int (length s))"
| "py_len _ = Inl TypeError"

fun py_iter :: "json \<Rightarrow> json list py_result" where
  "py_iter (JDict kvs) = Inr (map (JStr \<circ> fst) kvs)"
| "py_iter (JList vs) = Inr vs"
| "py_iter (JStr s) = Inr (map (\<lambda>c. JStr [c]) s)"
| "py_iter _ = Inl TypeError"

text \<open>\<open>d.get(k, default)\<close>; only dictionaries have the method.\<close>

fun py_get :: "json \<Rightarrow> string \<Rightarrow> json \<Rightarrow> json py_result" where
  "py_get (JDict kvs) k dflt = Inr (case map_of kvs k of Some v \<Rightarrow> v | None \<Rightarrow> dflt)"
| "py_get _ k dflt = Inl AttributeError"

text \<open>\<open>k in v and v[k]\<close>, as a condition.\<close>

definition has_value :: "string \<Rightarrow> json \<Rightarrow> bool py_result" where
  "has_value k v =
     bind_result (py_in k v) (\<lambda>b. if b then bind_result (py_getitem v k) (\<lambda>x. Inr (truthy x)) else Inr False)"

lemma has_value_dict [simp]:
  "has_value k (JDict kvs) = Inr (case map_of kvs k of None \<Rightarrow> False | Some x \<Rightarrow> truthy x)"
  by (simp add: has_value_def split: option.splits)

section \<open>Equality\<close>

function py_eq :: "json \<Rightarrow> json \<Rightarrow> bool" where
  "py_eq (JDict a) (JDict b) =
     (list_all (\<lambda>(k, v). case map_of b k of None \<Rightarrow> False | Some w \<Rightarrow> py_eq v w) a \<and>
      list_all (\<lambda>(k, w). map_of a k \<noteq> None) b)"
| "py_eq (JList vs) (JList ws) = (length vs = length ws \<and> list_all (\<lambda>(v, w). py_eq v w) (zip vs ws))"
| "py_eq (JDict a) (JList ws) = False"
| "py_eq (JDict a) JNull = False"
| "py_eq (JDict a) (JBool x) = False"
| "py_eq (JDict a) (JInt i) = False"
| "py_eq (JDict a) (JFloat y) = False"
| "py_eq (JDict a) (JStr s) = False"
| "py_eq (JList vs) (JDict b) = False"
| "py_eq (JList vs) JNull = False"
| "py_eq (JList vs) (JBool x) = False"
| "py_eq (JList vs) (JInt i) = False"
| "py_eq (JList vs) (JFloat y) = False"
| "py_eq (JList vs) (JStr s) = False"
| "py_eq JNull w = (w = JNull)"
| "py_eq (JBool x) w = (w = JBool x)"
| "py_eq (JInt i) w = (w = JInt i)"
| "py_eq (JFloat y) w = (w = JFloat y)"
| "py_eq (JStr s) w = (w = JStr s)"
  by pat_completeness auto
termination
proof (relation "measure (\<lambda>(v, w). size v)")
  fix a b :: dict and x k v w
  assume "x \<in> set a" and "(k, v) = x"
  then have "size v < size_list (size_prod (\<lambda>_. 0) size) a"
    by (induction a) auto
  then show "((v, w), (JDict a, JDict b)) \<in> measure (\<lambda>(v, w). size v)" by simp
next
  fix vs ws :: "json list" and x v w
  assume "x \<in> set (zip vs ws)" and "(v, w) = x"
  then have "v \<in> set vs" by (metis set_zip_leftD)
  then show "((v, w), (JList vs, JList ws)) \<in> measure (\<lambda>(v, w). size v)"
    by (simp add: size_list_estimation' less_Suc_eq_le)
qed simp

text \<open>What a dictionary is: no key occurs twice, at any depth.\<close>

fun proper :: "json \<Rightarrow> bool" where
  "proper (JDict kvs) = (distinct (map fst kvs) \<and> list_all (\<lambda>(k, v). proper v) kvs)"
| "proper (JList vs) = list_all proper vs"
| "proper _ = True"

lemma proper_lookup: "proper (JDict m) \<Longrightarrow> map_of m k = Some v \<Longrightarrow> proper v"
  by (auto simp: list_all_iff dest!: map_of_SomeD)

lemma proper_update: "proper (JDict m) \<Longrightarrow> proper v \<Longrightarrow> proper (JDict (AList.update k v m))"
  by (induction m) (auto simp: list_all_iff update_keys distinct_update)

lemma proper_delete: "proper (JDict m) \<Longrightarrow> proper (JDict (AList.delete k m))"
proof -
  have "set (AList.delete k m) \<subseteq> set m" by (auto simp: AList.delete_eq)
  then show "proper (JDict m) \<Longrightarrow> ?thesis" by (auto simp: list_all_iff distinct_delete)
qed

lemma py_eq_dictI:
  assumes "distinct (map fst a)" and "\<And>k. rel_option py_eq (map_of a k) (map_of b k)"
  shows "py_eq (JDict a) (JDict b)"
proof -
  have "\<exists>w. map_of b k = Some w \<and> py_eq v w" if "(k, v) \<in> set a" for k v
    using assms(2)[of k] that assms(1) by (cases "map_of b k") auto
  moreover have "map_of a k \<noteq> None" if "(k, w) \<in> set b" for k w
    using assms(2)[of k] that by (cases "map_of a k") (auto simp: map_of_eq_None_iff rev_image_eqI)
  ultimately show ?thesis
    by (fastforce simp: list_all_iff split: option.splits)
qed

lemma py_eq_refl: "proper v \<Longrightarrow> py_eq v v"
proof (induction v rule: proper.induct)
  case (1 kvs)
  then have "rel_option py_eq (map_of kvs k) (map_of kvs k)" for k
    by (cases "map_of kvs k") (auto simp: list_all_iff dest!: map_of_SomeD)
  then show ?case using 1 by (intro py_eq_dictI) simp_all
next
  case (2 vs)
  then show ?case by (auto simp: list_all_iff zip_same)
qed simp_all

end
