(* ===== verification/Profile_Secrets.thy ===== *)
theory Profile_Secrets
  imports Json_Value
begin

text \<open>
  The secrets of a stored profile, \<open>utils/profile_crypto.py\<close>: \<open>extract_secrets\<close> splits a
  configuration into a part that is stored in the clear and one that is stored encrypted,
  \<open>merge_secrets\<close> puts them together again, and \<open>mask_secrets_for_display\<close> hides the secrets. The
  encryption itself, AES of a third-party package on the text of the dictionary, is an argument.
\<close>

section \<open>The fields\<close>

definition provider_fields :: "(string \<times> string) list" where
  "provider_fields = [(''token'', ''tk''), (''password'', ''pw''), (''email'', ''em'')]"

definition qb_fields :: "(string \<times> string) list" where
  "qb_fields = [(''qb_username'', ''qus''), (''qb_password'', ''qpw'')]"

definition sabnzbd_fields :: "(string \<times> string) list" where
  "sabnzbd_fields = [(''api_key'', ''ak''), (''webdav_username'', ''wus''), (''webdav_password'', ''wpw'')]"

definition nzbget_fields :: "(string \<times> string) list" where
  "nzbget_fields =
     [(''username'', ''un''), (''password'', ''pw''), (''webdav_username'', ''wus''), (''webdav_password'', ''wpw'')]"

definition nzbdav_fields :: "(string \<times> string) list" where
  "nzbdav_fields = [(''api_key'', ''ak''), (''webdav_username'', ''wus''), (''webdav_password'', ''wpw'')]"

text \<open>The nested configurations of a provider: their key, its alias, and their fields.\<close>

type_synonym nested_config = "string \<times> string \<times> (string \<times> string) list"

definition nested_configs :: "nested_config list" where
  "nested_configs =
     [(''qbittorrent_config'', ''qbc'', qb_fields), (''nzbdav_config'', ''ndc'', nzbdav_fields),
      (''sabnzbd_config'', ''sbc'', sabnzbd_fields), (''nzbget_config'', ''ngc'', nzbget_fields)]"

definition external_configs :: "nested_config list" where
  "external_configs =
     [(''mediaflow_config'', ''mfc'', [(''api_password'', ''ap'')]), (''rpdb_config'', ''rpc'', [(''api_key'', ''ak'')]),
      (''mdblist_config'', ''mdb'', [(''api_key'', ''ak'')])]"

section \<open>Extraction\<close>

text \<open>Moves the value at a key from a dictionary to the secrets.\<close>

definition move_secret :: "string \<Rightarrow> json \<Rightarrow> dict \<Rightarrow> (json \<times> dict) py_result" where
  "move_secret k v acc =
     bind_result (py_getitem v k) (\<lambda>x. bind_result (py_delitem v k) (\<lambda>v'. Inr (v', AList.update k x acc)))"

fun take_fields :: "(string \<times> string) list \<Rightarrow> json \<Rightarrow> dict \<Rightarrow> (json \<times> dict) py_result" where
  "take_fields [] v acc = Inr (v, acc)"
| "take_fields ((full_name, alias) # fields) v acc =
     bind_result (has_value full_name v) (\<lambda>full.
       if full then bind_result (move_secret full_name v acc) (\<lambda>(v', acc'). take_fields fields v' acc')
       else bind_result (has_value alias v) (\<lambda>short.
         if short then bind_result (move_secret alias v acc) (\<lambda>(v', acc'). take_fields fields v' acc')
         else take_fields fields v acc))"

definition choose_key :: "string \<Rightarrow> string \<Rightarrow> dict \<Rightarrow> string option" where
  "choose_key full_name alias d =
     (if map_of d full_name \<noteq> None then Some full_name else if map_of d alias \<noteq> None then Some alias else None)"

definition extract_nested :: "nested_config \<Rightarrow> dict \<Rightarrow> dict \<Rightarrow> (dict \<times> dict) py_result" where
  "extract_nested spec provider acc =
     (case spec of (full_name, alias, fields) \<Rightarrow>
       (case choose_key full_name alias provider of
          None \<Rightarrow> Inr (provider, acc)
        | Some k \<Rightarrow>
            (let v = the (map_of provider k)
             in if truthy v
                then bind_result (take_fields fields v []) (\<lambda>(v', secrets).
                  Inr (AList.update k v' provider,
                       if secrets = [] then acc else AList.update k (JDict secrets) acc))
                else Inr (provider, acc))))"

fun extract_all_nested :: "nested_config list \<Rightarrow> dict \<Rightarrow> dict \<Rightarrow> (dict \<times> dict) py_result" where
  "extract_all_nested [] provider acc = Inr (provider, acc)"
| "extract_all_nested (spec # specs) provider acc =
     bind_result (extract_nested spec provider acc) (\<lambda>(provider', acc'). extract_all_nested specs provider' acc')"

definition extract_provider_secrets :: "int option \<Rightarrow> dict \<Rightarrow> (json \<times> dict) py_result" where
  "extract_provider_secrets index provider =
     bind_result (take_fields provider_fields (JDict provider) []) (\<lambda>(v, acc).
       bind_result (extract_all_nested nested_configs (case v of JDict d \<Rightarrow> d | _ \<Rightarrow> []) acc) (\<lambda>(provider', secrets).
         Inr (JDict provider',
              if secrets = [] then secrets
              else (case index of Some i \<Rightarrow> AList.update ''_index'' (JInt i) secrets | None \<Rightarrow> secrets))))"

fun extract_providers :: "nat \<Rightarrow> json list \<Rightarrow> (json list \<times> json list) py_result" where
  "extract_providers i [] = Inr ([], [])"
| "extract_providers i (p # ps) =
     bind_result (case p of JDict d \<Rightarrow> extract_provider_secrets (Some (int i)) d | _ \<Rightarrow> Inr (p, [])) (\<lambda>(p', secrets).
       bind_result (extract_providers (Suc i) ps) (\<lambda>(ps', rest).
         Inr (p' # ps', if secrets = [] then rest else JDict secrets # rest)))"

text \<open>The first of the keys whose value passes the test, as the loops with \<open>break\<close> find it.\<close>

definition first_key :: "(json \<Rightarrow> bool) \<Rightarrow> string list \<Rightarrow> dict \<Rightarrow> string option" where
  "first_key test ks d = find (\<lambda>k. case map_of d k of Some v \<Rightarrow> test v | None \<Rightarrow> False) ks"

definition is_list :: "json \<Rightarrow> bool" where
  "is_list v = (case v of JList _ \<Rightarrow> True | _ \<Rightarrow> False)"

definition is_dict :: "json \<Rightarrow> bool" where
  "is_dict v = (case v of JDict _ \<Rightarrow> True | _ \<Rightarrow> False)"

definition extract_provider_list :: "dict \<Rightarrow> dict \<Rightarrow> (dict \<times> dict) py_result" where
  "extract_provider_list config secrets =
     (case first_key is_list [''streaming_providers'', ''sps''] config of
        None \<Rightarrow> Inr (config, secrets)
      | Some k \<Rightarrow>
          bind_result (extract_providers 0 (case the (map_of config k) of JList ps \<Rightarrow> ps | _ \<Rightarrow> [])) (\<lambda>(ps', found).
            Inr (AList.update k (JList ps') config,
                 if found = [] then secrets else AList.update k (JList found) secrets)))"

definition extract_legacy_provider :: "dict \<Rightarrow> dict \<Rightarrow> (dict \<times> dict) py_result" where
  "extract_legacy_provider config secrets =
     (case first_key (\<lambda>v. truthy v \<and> is_dict v) [''streaming_provider'', ''sp''] config of
        None \<Rightarrow> Inr (config, secrets)
      | Some k \<Rightarrow>
          bind_result (extract_provider_secrets None (case the (map_of config k) of JDict d \<Rightarrow> d | _ \<Rightarrow> [])) (\<lambda>(p', found).
            Inr (AList.update k p' config, if found = [] then secrets else AList.update k (JDict found) secrets)))"

definition extract_api_password :: "dict \<Rightarrow> dict \<Rightarrow> dict \<times> dict" where
  "extract_api_password config secrets =
     (case first_key truthy [''api_password'', ''ap''] config of
        None \<Rightarrow> (config, secrets)
      | Some k \<Rightarrow> (AList.delete k config, AList.update k (the (map_of config k)) secrets))"

text \<open>
  An external service has one field, so the loop over its two spellings is \<open>take_fields\<close>. The
  dictionary of secrets has none of the keys before.
\<close>

definition extract_secrets :: "dict \<Rightarrow> (dict \<times> dict) py_result" where
  "extract_secrets config =
     bind_result (extract_provider_list config []) (\<lambda>(c1, s1).
       bind_result (extract_legacy_provider c1 s1) (\<lambda>(c2, s2).
         bind_result (extract_all_nested external_configs c2 s2) (\<lambda>(c3, s3).
           Inr (extract_api_password c3 s3))))"

section \<open>Merging\<close>

text \<open>\<open>set_field f x\<close> is the assignment, to the target itself or to a dictionary inside it.\<close>

fun put_fields :: "(string \<Rightarrow> json \<Rightarrow> json \<Rightarrow> json py_result) \<Rightarrow> string list \<Rightarrow> json \<Rightarrow> json \<Rightarrow> json py_result" where
  "put_fields set_field [] secrets target = Inr target"
| "put_fields set_field (f # fs) secrets target =
     bind_result (py_in f secrets) (\<lambda>b.
       if b then bind_result (py_getitem secrets f) (\<lambda>x.
                   bind_result (set_field f x target) (put_fields set_field fs secrets))
       else put_fields set_field fs secrets target)"

definition set_own :: "string \<Rightarrow> json \<Rightarrow> json \<Rightarrow> json py_result" where
  "set_own f x target = py_setitem target f x"

definition set_inner :: "string \<Rightarrow> string \<Rightarrow> json \<Rightarrow> json \<Rightarrow> json py_result" where
  "set_inner k f x target =
     bind_result (py_getitem target k) (\<lambda>inner. bind_result (py_setitem inner f x) (py_setitem target k))"

type_synonym merged_config = "string \<times> string \<times> string list"

definition merged_configs :: "merged_config list" where
  "merged_configs =
     [(''qbittorrent_config'', ''qbc'', [''qb_username'', ''qb_password'', ''qus'', ''qpw'']),
      (''nzbdav_config'', ''ndc'', [''api_key'', ''ak'', ''webdav_username'', ''wus'', ''webdav_password'', ''wpw'']),
      (''sabnzbd_config'', ''sbc'', [''api_key'', ''ak'', ''webdav_username'', ''wus'', ''webdav_password'', ''wpw'']),
      (''nzbget_config'', ''ngc'',
        [''username'', ''un'', ''password'', ''pw'', ''webdav_username'', ''wus'', ''webdav_password'', ''wpw''])]"

text \<open>The target may be under either spelling of its key, and is created when it is missing.\<close>

definition merge_nested_key :: "string \<Rightarrow> merged_config \<Rightarrow> json \<Rightarrow> json \<Rightarrow> json py_result" where
  "merge_nested_key k spec secrets provider =
     (case spec of (full_name, alias, fields) \<Rightarrow>
       bind_result (py_in k secrets) (\<lambda>b.
         if b then
           bind_result (py_in alias provider) (\<lambda>short.
             let actual = (if short then alias else full_name)
             in bind_result (py_in actual provider) (\<lambda>present.
                  bind_result (if present then Inr provider else py_setitem provider actual (JDict [])) (\<lambda>provider'.
                    bind_result (py_getitem secrets k) (\<lambda>inner. put_fields (set_inner actual) fields inner provider'))))
         else Inr provider))"

definition merge_nested :: "merged_config \<Rightarrow> json \<Rightarrow> json \<Rightarrow> json py_result" where
  "merge_nested spec secrets provider =
     bind_result (merge_nested_key (fst spec) spec secrets provider) (merge_nested_key (fst (snd spec)) spec secrets)"

fun merge_all_nested :: "merged_config list \<Rightarrow> json \<Rightarrow> json \<Rightarrow> json py_result" where
  "merge_all_nested [] secrets provider = Inr provider"
| "merge_all_nested (spec # specs) secrets provider =
     bind_result (merge_nested spec secrets provider) (merge_all_nested specs secrets)"

definition merge_provider_secrets :: "json \<Rightarrow> json \<Rightarrow> json py_result" where
  "merge_provider_secrets provider secrets =
     bind_result (put_fields set_own [''token'', ''password'', ''email'', ''tk'', ''pw'', ''em''] secrets provider)
       (merge_all_nested merged_configs secrets)"

text \<open>
  \<open>target[idx]\<close> and its update in place. The characters of a string have no items that could be
  set, and no dictionary of the configuration has an integer as a key.
\<close>

definition py_index :: "json \<Rightarrow> int \<Rightarrow> json py_result" where
  "py_index v i =
     (case v of
        JList vs \<Rightarrow>
          (let j = (if i < 0 then i + int (length vs) else i)
           in if 0 \<le> j \<and> j < int (length vs) then Inr (vs ! nat j) else Inl IndexError)
      | JStr s \<Rightarrow>
          (let j = (if i < 0 then i + int (length s) else i)
           in if 0 \<le> j \<and> j < int (length s) then Inr (JStr [s ! nat j]) else Inl IndexError)
      | JDict _ \<Rightarrow> Inl KeyError
      | _ \<Rightarrow> Inl TypeError)"

definition put_index :: "json \<Rightarrow> int \<Rightarrow> json \<Rightarrow> json" where
  "put_index v i x =
     (case v of JList vs \<Rightarrow> JList (vs[nat (if i < 0 then i + int (length vs) else i) := x]) | _ \<Rightarrow> v)"

text \<open>The number an index is: \<open>True\<close> and \<open>False\<close> are numbers too.\<close>

definition py_as_index :: "json \<Rightarrow> int py_result" where
  "py_as_index v = (case v of JInt i \<Rightarrow> Inr i | JBool b \<Rightarrow> Inr (if b then 1 else 0) | _ \<Rightarrow> Inl TypeError)"

text \<open>
  One entry of the list of providers' secrets. A float index is only an error when it is below
  the length; then the subscript raises.
\<close>

definition merge_entry :: "json \<Rightarrow> json \<Rightarrow> json py_result" where
  "merge_entry secret providers =
     bind_result (py_get secret ''_index'' (JInt 0)) (\<lambda>idx.
       bind_result (py_len providers) (\<lambda>n.
         case idx of
           JFloat x \<Rightarrow> if x < of_int n then Inl TypeError else Inr providers
         | _ \<Rightarrow>
             bind_result (py_as_index idx) (\<lambda>i.
               if i < n
               then bind_result (py_index providers i) (\<lambda>p.
                      bind_result (merge_provider_secrets p secret) (\<lambda>p'. Inr (put_index providers i p')))
               else Inr providers)))"

fun merge_entries :: "json list \<Rightarrow> json \<Rightarrow> json py_result" where
  "merge_entries [] providers = Inr providers"
| "merge_entries (s # ss) providers = bind_result (merge_entry s providers) (merge_entries ss)"

text \<open>The key of the configuration that secrets are merged into.\<close>

definition target_key :: "string \<Rightarrow> string \<Rightarrow> string \<Rightarrow> dict \<Rightarrow> string" where
  "target_key alias full_name k config =
     (if map_of config alias \<noteq> None then alias else if map_of config full_name \<noteq> None then full_name else k)"

definition set_missing :: "string \<Rightarrow> json \<Rightarrow> dict \<Rightarrow> dict" where
  "set_missing k v d = (if map_of d k = None then AList.update k v d else d)"

definition present_key :: "string list \<Rightarrow> dict \<Rightarrow> string option" where
  "present_key ks d = find (\<lambda>k. map_of d k \<noteq> None) ks"

text \<open>Merging the secrets of one entry of the configuration, with \<open>step\<close> from secrets and target to the new target.\<close>

definition merge_part ::
  "string \<Rightarrow> string \<Rightarrow> json \<Rightarrow> (json \<Rightarrow> json \<Rightarrow> json py_result) \<Rightarrow> dict \<Rightarrow> dict \<Rightarrow> dict py_result" where
  "merge_part full_name alias empty_value step secrets config =
     (case present_key [full_name, alias] secrets of
        None \<Rightarrow> Inr config
      | Some k \<Rightarrow>
          (let t = target_key alias full_name k config; config' = set_missing t empty_value config
           in bind_result (step (the (map_of secrets k)) (the (map_of config' t))) (\<lambda>v.
                Inr (AList.update t v config'))))"

definition merge_api_password :: "dict \<Rightarrow> dict \<Rightarrow> dict" where
  "merge_api_password secrets config =
     (case present_key [''api_password'', ''ap''] secrets of
        None \<Rightarrow> config
      | Some k \<Rightarrow>
          AList.update (if map_of config ''ap'' \<noteq> None then ''ap'' else ''api_password'') (the (map_of secrets k)) config)"

definition merge_secrets :: "dict \<Rightarrow> dict \<Rightarrow> dict py_result" where
  "merge_secrets config secrets =
     bind_result (merge_part ''streaming_providers'' ''sps'' (JList [])
         (\<lambda>s t. bind_result (py_iter s) (\<lambda>ss. merge_entries ss t)) secrets config) (\<lambda>c1.
       bind_result (merge_part ''streaming_provider'' ''sp'' (JDict []) (\<lambda>s t. merge_provider_secrets t s) secrets c1) (\<lambda>c2.
         bind_result (merge_part ''mediaflow_config'' ''mfc'' (JDict []) (put_fields set_own [''api_password'', ''ap'']) secrets c2) (\<lambda>c3.
           bind_result (merge_part ''rpdb_config'' ''rpc'' (JDict []) (put_fields set_own [''api_key'', ''ak'']) secrets c3) (\<lambda>c4.
             bind_result (merge_part ''mdblist_config'' ''mdb'' (JDict []) (put_fields set_own [''api_key'', ''ak'']) secrets c4) (\<lambda>c5.
               Inr (merge_api_password secrets c5))))))"

section \<open>Encryption\<close>

text \<open>\<open>seal\<close> writes a dictionary as text and encrypts it; \<open>unseal\<close> is its inverse, and may raise.\<close>

definition encrypt_secrets :: "(dict \<Rightarrow> string) \<Rightarrow> dict \<Rightarrow> string option" where
  "encrypt_secrets seal secrets = (if secrets = [] then None else Some (seal secrets))"

definition decrypt_secrets :: "(string \<Rightarrow> dict py_result) \<Rightarrow> string option \<Rightarrow> dict py_result" where
  "decrypt_secrets unseal encrypted =
     (case encrypted of None \<Rightarrow> Inr [] | Some e \<Rightarrow> if e = [] then Inr [] else unseal e)"

definition get_full_config :: "(string \<Rightarrow> dict py_result) \<Rightarrow> dict option \<Rightarrow> string option \<Rightarrow> dict py_result" where
  "get_full_config unseal config encrypted =
     bind_result (decrypt_secrets unseal encrypted) (merge_secrets (case config of None \<Rightarrow> [] | Some c \<Rightarrow> c))"

section \<open>Masks\<close>

text \<open>Eight bullets; the bullet is the character 149 of the code page Windows-1252.\<close>

definition MASK :: string where
  "MASK = replicate 8 (char_of (149 :: nat))"

fun mask_fields :: "string list \<Rightarrow> json \<Rightarrow> json py_result" where
  "mask_fields [] v = Inr v"
| "mask_fields (f # fs) v =
     bind_result (has_value f v) (\<lambda>b. if b then bind_result (py_setitem v f (JStr MASK)) (mask_fields fs) else mask_fields fs v)"

text \<open>The fields inside the values at the keys \<open>ks\<close> that are there and true.\<close>

fun mask_inside :: "(json \<Rightarrow> json py_result) \<Rightarrow> string list \<Rightarrow> json \<Rightarrow> json py_result" where
  "mask_inside mask_one [] v = Inr v"
| "mask_inside mask_one (k # ks) v =
     bind_result (has_value k v) (\<lambda>b.
       if b then bind_result (py_getitem v k) (\<lambda>inner.
                   bind_result (mask_one inner) (\<lambda>inner'.
                     bind_result (py_setitem v k inner') (mask_inside mask_one ks)))
       else mask_inside mask_one ks v)"

definition masked_configs :: "merged_config list" where
  "masked_configs =
     [(''qbittorrent_config'', ''qbc'', [''qb_password'', ''qpw'']),
      (''nzbdav_config'', ''ndc'', [''api_key'', ''ak'', ''webdav_username'', ''wus'', ''webdav_password'', ''wpw'']),
      (''sabnzbd_config'', ''sbc'', [''api_key'', ''ak'', ''webdav_username'', ''wus'', ''webdav_password'', ''wpw'']),
      (''nzbget_config'', ''ngc'',
        [''username'', ''un'', ''password'', ''pw'', ''webdav_username'', ''wus'', ''webdav_password'', ''wpw''])]"

fun mask_nested :: "merged_config list \<Rightarrow> json \<Rightarrow> json py_result" where
  "mask_nested [] v = Inr v"
| "mask_nested ((full_name, alias, fields) # specs) v =
     bind_result (mask_inside (mask_fields fields) [full_name, alias] v) (mask_nested specs)"

definition mask_provider :: "json \<Rightarrow> json py_result" where
  "mask_provider provider =
     bind_result (mask_fields [''token'', ''tk'', ''password'', ''pw''] provider) (mask_nested masked_configs)"

definition mask_provider_list :: "string \<Rightarrow> json \<Rightarrow> json py_result" where
  "mask_provider_list k config =
     bind_result (py_in k config) (\<lambda>b.
       if b then bind_result (py_getitem config k) (\<lambda>v.
                   case v of
                     JList ps \<Rightarrow> bind_result (map_result mask_provider ps) (\<lambda>ps'. py_setitem config k (JList ps'))
                   | _ \<Rightarrow> Inr config)
       else Inr config)"

definition mask_secrets_for_display :: "dict \<Rightarrow> json py_result" where
  "mask_secrets_for_display config =
     bind_result (mask_provider_list ''streaming_providers'' (JDict config)) (\<lambda>c1.
       bind_result (mask_provider_list ''sps'' c1) (\<lambda>c2.
         bind_result (mask_inside mask_provider [''streaming_provider'', ''sp''] c2) (\<lambda>c3.
           bind_result (mask_inside (mask_fields [''api_password'', ''ap'']) [''mediaflow_config'', ''mfc''] c3) (\<lambda>c4.
             bind_result (mask_inside (mask_fields [''api_key'', ''ak'']) [''rpdb_config'', ''rpc''] c4) (\<lambda>c5.
               bind_result (mask_inside (mask_fields [''api_key'', ''ak'']) [''mdblist_config'', ''mdb''] c5)
                 (mask_fields [''api_password'', ''ap'']))))))"

end
