(* ===== verification/Profile_Edit.thy ===== *)
theory Profile_Edit
  imports Profile_Secrets
begin

text \<open>
  The edit of a profile, \<open>unmask_config_update\<close> of \<open>api/routers/user/profiles.py\<close>: a client sends
  back the configuration it was shown, with the secrets masked; the new configuration is merged over
  the existing one, and every masked secret is restored from the same place of the existing one.
\<close>

section \<open>Merging and restoring\<close>

definition SECRET_KEYS :: "string list" where
  "SECRET_KEYS =
     [''token'', ''tk'', ''password'', ''pw'', ''email'', ''em'', ''api_key'', ''ak'', ''api_password'', ''ap'',
      ''qb_username'', ''qus'', ''qb_password'', ''qpw'', ''webdav_username'', ''wus'', ''webdav_password'', ''wpw'',
      ''username'', ''un'']"

definition CLEAR_KEY_GROUPS :: "(string \<times> string) list" where
  "CLEAR_KEY_GROUPS =
     [(''sp'', ''streaming_provider''), (''ic'', ''indexer_config''), (''st'', ''stream_template''), (''mfc'', ''mediaflow_config''),
      (''rpc'', ''rpdb_config''), (''mdb'', ''mdblist_config''), (''tgc'', ''telegram_config'')]"

definition CLEAR_KEY_ALIAS_MAP :: "(string \<times> string list) list" where
  "CLEAR_KEY_ALIAS_MAP = concat (map (\<lambda>(a, b). [(a, [a, b]), (b, [a, b])]) CLEAR_KEY_GROUPS)"

definition clear_keys :: "string \<Rightarrow> string list" where
  "clear_keys k = (case map_of CLEAR_KEY_ALIAS_MAP k of Some ks \<Rightarrow> ks | None \<Rightarrow> [k])"

text \<open>The first argument is the copy of the base that the loop over the overlay updates.\<close>

function deep_merge :: "dict \<Rightarrow> dict \<Rightarrow> dict" where
  "deep_merge result [] = result"
| "deep_merge result ((k, v) # rest) =
     deep_merge
       (if v = JNull \<or> (v = JDict [] \<and> map_of CLEAR_KEY_ALIAS_MAP k \<noteq> None) then fold AList.delete (clear_keys k) result
        else case (map_of result k, v) of
               (Some (JDict old), JDict new) \<Rightarrow> AList.update k (JDict (deep_merge old new)) result
             | _ \<Rightarrow> AList.update k v result)
       rest"
  by pat_completeness auto
termination by (relation "measure (\<lambda>(result, overlay). size_list (size_prod (\<lambda>_. 0) size) overlay)") auto

definition is_masked :: "json \<Rightarrow> bool" where
  "is_masked v = (v = JStr MASK)"

fun restore_items :: "dict \<Rightarrow> dict \<Rightarrow> dict"
and restore_list :: "json list \<Rightarrow> json list \<Rightarrow> json list" where
  "restore_items [] existing = []"
| "restore_items ((k, JDict d) # rest) existing =
     (k, case map_of existing k of
           Some (JDict e) \<Rightarrow> JDict (if d = [] \<or> e = [] then d else restore_items d e)
         | _ \<Rightarrow> JDict d) # restore_items rest existing"
| "restore_items ((k, JList vs) # rest) existing =
     (k, case map_of existing k of Some (JList es) \<Rightarrow> JList (restore_list vs es) | _ \<Rightarrow> JList vs) # restore_items rest existing"
| "restore_items ((k, v) # rest) existing =
     (k, if k \<in> set SECRET_KEYS \<and> is_masked v then (case map_of existing k of Some x \<Rightarrow> x | None \<Rightarrow> JNull) else v) #
     restore_items rest existing"
| "restore_list [] es = []"
| "restore_list vs [] = vs"
| "restore_list (JDict d # vs) (JDict e # es) = JDict (if d = [] \<or> e = [] then d else restore_items d e) # restore_list vs es"
| "restore_list (v # vs) (e # es) = v # restore_list vs es"

definition unmask_config_update :: "dict \<Rightarrow> dict \<Rightarrow> dict" where
  "unmask_config_update new_config existing =
     (if new_config = [] then existing
      else if existing = [] then new_config
      else (let result = deep_merge existing new_config
            in if result = [] then result else restore_items result existing))"

text \<open>The configuration that is saved: the handlers add the key of the request's header under both spellings.\<close>

definition add_api_key :: "string option \<Rightarrow> dict \<Rightarrow> dict" where
  "add_api_key header config =
     (case header of
        None \<Rightarrow> config
      | Some pw \<Rightarrow>
          if pw = [] then config
          else AList.update ''ap'' (JStr pw) (AList.update ''api_password'' (JStr pw) config))"

end
