(* ===== verification/Profile_Secrets_Correct.thy ===== *)
theory Profile_Secrets_Correct
  imports Profile_Secrets
begin

text \<open>
  What the split of a configuration guarantees: merging restores the configuration up to the
  spelling of the API password's key, no secret field is left in the part stored in the clear, and
  what is not among the listed fields is not touched.
\<close>

section \<open>Fields of one dictionary\<close>

definition field_names :: "(string \<times> string) list \<Rightarrow> string set" where
  "field_names fields = fst ` set fields \<union> snd ` set fields"

definition single_named :: "string \<Rightarrow> string \<Rightarrow> dict \<Rightarrow> bool" where
  "single_named full_name alias d = (map_of d full_name = None \<or> map_of d alias = None)"

definition plain_fields :: "(string \<times> string) list \<Rightarrow> dict \<Rightarrow> bool" where
  "plain_fields fields d = list_all (\<lambda>(f, a). single_named f a d) fields"

definition clear_at :: "dict \<Rightarrow> string \<Rightarrow> bool" where
  "clear_at d k = (case map_of d k of None \<Rightarrow> True | Some v \<Rightarrow> \<not> truthy v)"

lemma move_secret_dict:
  "map_of m k = Some x \<Longrightarrow> move_secret k (JDict m) acc = Inr (JDict (AList.delete k m), AList.update k x acc)"
  by (simp add: move_secret_def)

lemma take_fields_Cons_dict:
  "take_fields ((f, a) # fields) (JDict m) acc =
     (if \<not> clear_at m f then take_fields fields (JDict (AList.delete f m)) (AList.update f (the (map_of m f)) acc)
      else if \<not> clear_at m a then take_fields fields (JDict (AList.delete a m)) (AList.update a (the (map_of m a)) acc)
      else take_fields fields (JDict m) acc)"
  by (auto simp: clear_at_def move_secret_dict split: option.splits if_splits)

lemma not_clear_at: "\<not> clear_at m k \<Longrightarrow> map_of m k = Some (the (map_of m k))"
  by (auto simp: clear_at_def split: option.splits)

lemma take_fields_dict:
  assumes "distinct (map fst m)"
  shows "\<exists>m' s T. take_fields fields (JDict m) acc = Inr (JDict m', s) \<and> T \<subseteq> field_names fields \<inter> dom (map_of m) \<and>
    map_of m' = map_of m |` (- T) \<and> map_of s = map_of acc ++ (map_of m |` T) \<and> distinct (map fst m')"
  using assms
proof (induction fields arbitrary: m acc)
  case Nil
  then show ?case by (auto intro!: exI[of _ "{}"])
next
  case (Cons fa fields)
  obtain f a where fa: "fa = (f, a)" by force
  have step: "\<exists>m' s T. take_fields fields (JDict (AList.delete k m)) (AList.update k x acc) = Inr (JDict m', s) \<and>
      T \<subseteq> field_names (fa # fields) \<inter> dom (map_of m) \<and> map_of m' = map_of m |` (- T) \<and>
      map_of s = map_of acc ++ (map_of m |` T) \<and> distinct (map fst m')"
    if k: "k \<in> {f, a}" "map_of m k = Some x" for k x
  proof -
    from Cons.IH[OF distinct_delete[OF Cons.prems, of k], of "AList.update k x acc"]
    obtain m' s T where ih: "take_fields fields (JDict (AList.delete k m)) (AList.update k x acc) = Inr (JDict m', s)"
      "T \<subseteq> field_names fields \<inter> dom (map_of (AList.delete k m))" "map_of m' = map_of (AList.delete k m) |` (- T)"
      "map_of s = map_of (AList.update k x acc) ++ (map_of (AList.delete k m) |` T)" "distinct (map fst m')"
      by blast
    have "insert k T \<subseteq> field_names (fa # fields) \<inter> dom (map_of m)"
      using ih(2) k by (auto simp: field_names_def fa delete_conv' split: if_splits)
    moreover have "map_of m' = map_of m |` (- insert k T)"
      by (auto simp: ih(3) delete_conv' restrict_map_def)
    moreover have "map_of s = map_of acc ++ (map_of m |` insert k T)"
      using ih(2) k(2) by (auto simp: ih(4) update_conv' delete_conv' restrict_map_def map_add_def fun_eq_iff split: option.splits)
    ultimately show ?thesis using ih(1,5) by blast
  qed
  have skip: "\<exists>m' s T. take_fields fields (JDict m) acc = Inr (JDict m', s) \<and>
      T \<subseteq> field_names (fa # fields) \<inter> dom (map_of m) \<and> map_of m' = map_of m |` (- T) \<and>
      map_of s = map_of acc ++ (map_of m |` T) \<and> distinct (map fst m')"
  proof -
    have "field_names fields \<subseteq> field_names (fa # fields)" by (auto simp: field_names_def)
    then show ?thesis using Cons.IH[OF Cons.prems, of acc] by blast
  qed
  show ?case
    using step[OF _ not_clear_at, of f] step[OF _ not_clear_at, of a] skip
    unfolding fa take_fields_Cons_dict
    by (cases "clear_at m f"; cases "clear_at m a") (simp_all only: simp_thms if_True if_False insertI1 insertI2 not_True_eq_False not_False_eq_True singletonI)
qed

lemma take_fields_clear:
  assumes "take_fields fields (JDict m) acc = Inr (JDict m', s)" and "plain_fields fields m"
    and "distinct (map fst m)"
  shows "\<forall>k \<in> field_names fields. clear_at m' k"
  using assms
proof (induction fields arbitrary: m acc)
  case Nil
  then show ?case by (simp add: field_names_def)
next
  case (Cons fa fields)
  obtain f a where fa: "fa = (f, a)" by force
  have single: "single_named f a m" and plain: "plain_fields fields m"
    using Cons.prems(2) by (auto simp: plain_fields_def fa)
  have sub: "clear_at m' k" if n: "take_fields fields (JDict n) acc' = Inr (JDict m', s)" "clear_at n k"
      "distinct (map fst n)" for n acc' k
  proof -
    obtain T where "map_of m' = map_of n |` (- T)"
      using take_fields_dict[OF n(3), of fields acc'] n(1) by auto
    then show ?thesis using n(2) by (auto simp: clear_at_def restrict_map_def split: option.splits)
  qed
  have moved: "\<forall>k \<in> field_names (fa # fields). clear_at m' k"
    if k: "k \<in> {f, a}" "\<not> clear_at m k"
      and t: "take_fields fields (JDict (AList.delete k m)) (AList.update k x acc) = Inr (JDict m', s)" for k x
  proof -
    have "plain_fields fields (AList.delete k m)"
      using plain by (auto simp: plain_fields_def single_named_def list_all_iff delete_conv')
    then have "\<forall>j \<in> field_names fields. clear_at m' j"
      using Cons.IH[OF t] distinct_delete[OF Cons.prems(3)] by blast
    moreover have "clear_at (AList.delete k m) f" "clear_at (AList.delete k m) a"
      using single k by (auto simp: clear_at_def delete_conv' single_named_def split: option.splits)
    then have "clear_at m' f" "clear_at m' a"
      using sub[OF t] distinct_delete[OF Cons.prems(3)] by blast+
    ultimately show ?thesis by (auto simp: field_names_def fa)
  qed
  have kept: "\<forall>k \<in> field_names (fa # fields). clear_at m' k"
    if "clear_at m f" "clear_at m a" "take_fields fields (JDict m) acc = Inr (JDict m', s)"
    using Cons.IH[OF that(3) plain Cons.prems(3)] sub[OF that(3)] that(1,2) Cons.prems(3)
    by (auto simp: field_names_def fa)
  show ?case
    using Cons.prems(1) moved[of f] moved[of a] kept
    unfolding fa take_fields_Cons_dict by (simp split: if_splits)
qed

lemma set_own_dict [simp]: "set_own f x (JDict t) = Inr (JDict (AList.update f x t))"
  by (simp add: set_own_def)

lemma set_inner_dict:
  "map_of t k = Some (JDict u) \<Longrightarrow> set_inner k f x (JDict t) = Inr (JDict (AList.update k (JDict (AList.update f x u)) t))"
  by (simp add: set_inner_def)

lemma put_fields_own:
  "\<exists>t'. put_fields set_own fs (JDict s) (JDict t) = Inr (JDict t') \<and> map_of t' = map_of t ++ (map_of s |` set fs) \<and>
    (distinct (map fst t) \<longrightarrow> distinct (map fst t'))"
proof (induction fs arbitrary: t)
  case (Cons f fs)
  show ?case
  proof (cases "map_of s f")
    case None
    then have "map_of s |` set (f # fs) = map_of s |` set fs" by (auto simp: restrict_map_def)
    then show ?thesis using Cons[of t] None by simp
  next
    case (Some x)
    obtain t' where t': "put_fields set_own fs (JDict s) (JDict (AList.update f x t)) = Inr (JDict t')"
      "map_of t' = map_of (AList.update f x t) ++ (map_of s |` set fs)"
      "distinct (map fst (AList.update f x t)) \<longrightarrow> distinct (map fst t')"
      using Cons[of "AList.update f x t"] by blast
    have "map_of t' = map_of t ++ (map_of s |` set (f # fs))"
      using Some by (auto simp: t'(2) update_conv' map_add_def restrict_map_def fun_eq_iff split: option.splits)
    moreover have "put_fields set_own (f # fs) (JDict s) (JDict t) = Inr (JDict t')"
      using t'(1) Some by simp
    ultimately show ?thesis using t'(3) distinct_update[of t f x] by blast
  qed
qed simp

lemma put_fields_inner:
  assumes "map_of t k = Some (JDict u)"
  shows "\<exists>t' u'. put_fields (set_inner k) fs (JDict s) (JDict t) = Inr (JDict t') \<and> map_of t' = (map_of t)(k \<mapsto> JDict u') \<and>
    map_of u' = map_of u ++ (map_of s |` set fs) \<and> (distinct (map fst t) \<longrightarrow> distinct (map fst t')) \<and>
    (distinct (map fst u) \<longrightarrow> distinct (map fst u'))"
  using assms
proof (induction fs arbitrary: t u)
  case Nil
  then show ?case by (auto intro!: exI[of _ u])
next
  case (Cons f fs)
  show ?case
  proof (cases "map_of s f")
    case None
    then have "map_of s |` set (f # fs) = map_of s |` set fs" by (auto simp: restrict_map_def)
    then show ?thesis using Cons.IH[OF Cons.prems] None by simp
  next
    case (Some x)
    let ?u = "AList.update f x u"
    let ?t = "AList.update k (JDict ?u) t"
    have "map_of ?t k = Some (JDict ?u)" by (simp add: update_conv')
    from Cons.IH[OF this] obtain t' u' where t': "put_fields (set_inner k) fs (JDict s) (JDict ?t) = Inr (JDict t')"
      "map_of t' = (map_of ?t)(k \<mapsto> JDict u')" "map_of u' = map_of ?u ++ (map_of s |` set fs)"
      "distinct (map fst ?t) \<longrightarrow> distinct (map fst t')" "distinct (map fst ?u) \<longrightarrow> distinct (map fst u')"
      by blast
    have "map_of u' = map_of u ++ (map_of s |` set (f # fs))"
      using Some by (auto simp: t'(3) update_conv' map_add_def restrict_map_def fun_eq_iff split: option.splits)
    moreover have "map_of t' = (map_of t)(k \<mapsto> JDict u')"
      by (auto simp: t'(2) update_conv')
    moreover have "put_fields (set_inner k) (f # fs) (JDict s) (JDict t) = Inr (JDict t')"
      using Some t'(1) by (simp add: set_inner_dict[OF Cons.prems])
    ultimately show ?thesis using t'(4,5) distinct_update[of t k] distinct_update[of u f x] by blast
  qed
qed

section \<open>Nested dictionaries\<close>

text \<open>A configuration that names nothing twice: at most one spelling of each key, dictionaries where they are expected.\<close>

definition plain_spec :: "nested_config \<Rightarrow> dict \<Rightarrow> bool" where
  "plain_spec spec d =
     (case spec of (f, a, fields) \<Rightarrow>
       single_named f a d \<and>
       list_all (\<lambda>k. case map_of d k of
           None \<Rightarrow> True
         | Some (JDict n) \<Rightarrow> plain_fields fields n
         | Some v \<Rightarrow> \<not> truthy v) [f, a])"

definition spec_keys :: "nested_config \<Rightarrow> string set" where
  "spec_keys spec = {fst spec, fst (snd spec)}"

text \<open>What is left of a nested dictionary at key \<open>k\<close> has no value at its secret fields.\<close>

definition clear_inside :: "dict \<Rightarrow> string set \<Rightarrow> string \<Rightarrow> bool" where
  "clear_inside d names k =
     (case map_of d k of Some (JDict n) \<Rightarrow> \<forall>j \<in> names. clear_at n j | Some v \<Rightarrow> \<not> truthy v | None \<Rightarrow> True)"

lemma clear_inside_falsy:
  assumes "clear_at d k"
  shows "clear_inside d names k"
proof (cases "map_of d k")
  case (Some v)
  then show ?thesis using assms by (cases v) (simp_all add: clear_inside_def clear_at_def)
qed (simp add: clear_inside_def)

text \<open>One nested configuration: it is left alone, or split.\<close>

lemma extract_nested_cases:
  assumes "plain_spec (f, a, fields) p" and "proper (JDict p)"
  obtains (same) "extract_nested (f, a, fields) p acc = Inr (p, acc)" "clear_at p f" "clear_at p a"
  | (split) k n n' t T where "k \<in> {f, a}" "map_of p k = Some (JDict n)" "\<And>j. j \<in> {f, a} \<Longrightarrow> j \<noteq> k \<Longrightarrow> map_of p j = None"
      "extract_nested (f, a, fields) p acc =
         Inr (AList.update k (JDict n') p, if t = [] then acc else AList.update k (JDict t) acc)"
      "T \<subseteq> field_names fields" "map_of n' = map_of n |` (- T)" "map_of t = map_of n |` T"
      "distinct (map fst n')" "\<forall>j \<in> field_names fields. clear_at n' j"
proof (cases "choose_key f a p")
  case None
  then have "clear_at p f \<and> clear_at p a"
    by (auto simp: choose_key_def clear_at_def split: if_splits option.splits)
  then show ?thesis using None by (intro same) (simp_all add: extract_nested_def)
next
  case (Some k)
  then have k: "k \<in> {f, a}" "map_of p k \<noteq> None"
    by (auto simp: choose_key_def split: if_splits)
  have other: "map_of p j = None" if "j \<in> {f, a}" "j \<noteq> k" for j
    using assms(1) k that by (auto simp: plain_spec_def single_named_def)
  obtain v where v: "map_of p k = Some v" using k(2) by blast
  show ?thesis
  proof (cases "truthy v")
    case False
    have "clear_at p j" if "j \<in> {f, a}" for j
      using other[OF that] v False by (cases "j = k") (auto simp: clear_at_def)
    then show ?thesis using False v Some by (intro same) (simp_all add: extract_nested_def)
  next
    case True
    then obtain n where n: "v = JDict n" "plain_fields fields n"
      using assms(1) k(1) v by (cases v) (auto simp: plain_spec_def)
    have d: "distinct (map fst n)"
      using proper_lookup[OF assms(2) v] by (simp add: n)
    from take_fields_dict[OF d, of fields "[]"] obtain n' t T where
      t: "take_fields fields (JDict n) [] = Inr (JDict n', t)" "T \<subseteq> field_names fields \<inter> dom (map_of n)"
        "map_of n' = map_of n |` (- T)" "map_of t = map_of [] ++ (map_of n |` T)" "distinct (map fst n')"
      by blast
    have "extract_nested (f, a, fields) p acc =
        Inr (AList.update k (JDict n') p, if t = [] then acc else AList.update k (JDict t) acc)"
      using Some v True t(1) n(1) by (simp add: extract_nested_def)
    then show ?thesis
      using k(1) v n(1) other t take_fields_clear[OF t(1) n(2) d]
      by (intro split[of k n n' t T]) (auto simp: empty_map_add)
  qed
qed

definition matching :: "nested_config \<Rightarrow> merged_config \<Rightarrow> bool" where
  "matching spec merged =
     (case (spec, merged) of ((f, a, fields), (f', a', names)) \<Rightarrow>
       f \<noteq> a \<and> f' = f \<and> a' = a \<and> field_names fields \<subseteq> set names)"

text \<open>The split parts of a dictionary put together again.\<close>

lemma rejoin:
  assumes "map_of n' = map_of n |` (- T)" and "map_of t = map_of n |` T" and "T \<subseteq> set names"
    and "map_of u = map_of n' ++ (map_of t |` set names)"
  shows "map_of u = map_of n"
  using assms(3) by (auto simp: assms(1,2,4) map_add_def restrict_map_def fun_eq_iff split: option.splits)

lemma proper_submap:
  assumes "proper (JDict m)" and "map_of m' = map_of m |` S" and "distinct (map fst m')"
  shows "proper (JDict m')"
proof -
  have "proper v" if "(k, v) \<in> set m'" for k v
  proof -
    have "map_of m k = Some v"
      using map_of_is_SomeI[OF assms(3) that] by (simp add: assms(2) restrict_map_def split: if_splits)
    then show ?thesis by (rule proper_lookup[OF assms(1)])
  qed
  then show ?thesis using assms(3) by (auto simp: list_all_iff)
qed

lemma same_dict: "proper (JDict n) \<Longrightarrow> map_of u = map_of n \<Longrightarrow> py_eq (JDict n) (JDict u)"
proof (rule py_eq_dictI)
  fix k assume n: "proper (JDict n)" and u: "map_of u = map_of n"
  show "rel_option py_eq (map_of n k) (map_of u k)"
    using py_eq_refl[OF proper_lookup[OF n, of k]] by (cases "map_of n k") (simp_all add: u)
qed simp

text \<open>
  The contract of one nested configuration: the extraction touches its two keys only, and merging
  restores what was there.
\<close>

lemma nested_roundtrip_one:
  assumes "plain_spec spec p" and "proper (JDict p)" and "matching spec merged"
    and "\<And>k. k \<in> spec_keys spec \<Longrightarrow> map_of acc k = None"
  obtains p' acc' where "extract_nested spec p acc = Inr (p', acc')"
    and "\<And>k. k \<notin> spec_keys spec \<Longrightarrow> map_of p' k = map_of p k \<and> map_of acc' k = map_of acc k"
    and "\<And>k. k \<in> spec_keys spec \<Longrightarrow> clear_inside p' (field_names (snd (snd spec))) k"
    and "proper (JDict p')"
    and "\<forall>s q. (\<forall>k \<in> spec_keys spec. map_of s k = map_of acc' k \<and> map_of q k = map_of p' k) \<longrightarrow> distinct (map fst q) \<longrightarrow>
      (\<exists>q'. merge_nested merged (JDict s) (JDict q) = Inr (JDict q') \<and> distinct (map fst q') \<and>
        (\<forall>k. k \<notin> spec_keys spec \<longrightarrow> map_of q' k = map_of q k) \<and>
        (\<forall>k \<in> spec_keys spec. rel_option py_eq (map_of p k) (map_of q' k)))"
proof -
  obtain f a fields where spec: "spec = (f, a, fields)" by (cases spec) auto
  obtain names where merged: "merged = (f, a, names)" and fa: "f \<noteq> a" and names: "field_names fields \<subseteq> set names"
    using assms(3) by (cases merged) (auto simp: matching_def spec)
  have keys: "spec_keys spec = {f, a}" by (simp add: spec_keys_def spec)
  have refl: "rel_option py_eq (map_of p k) (map_of p k)" for k
    using proper_lookup[OF assms(2)] by (cases "map_of p k") (auto intro: py_eq_refl)
  have untouched: "merge_nested merged (JDict s) (JDict q) = Inr (JDict q)"
    if "map_of s f = None" "map_of s a = None" for s q
    using that by (simp add: merge_nested_def merge_nested_key_def merged)
  from assms(1)[unfolded spec] assms(2) show ?thesis
  proof (cases rule: extract_nested_cases[where acc = acc])
    case same
    show ?thesis
    proof (rule that[of p acc])
      show "extract_nested spec p acc = Inr (p, acc)" using same(1) by (simp add: spec)
      show "clear_inside p (field_names (snd (snd spec))) k" if "k \<in> spec_keys spec" for k
        using same(2,3) that by (auto simp: keys intro: clear_inside_falsy)
    next
      show "\<forall>s q. (\<forall>k \<in> spec_keys spec. map_of s k = map_of acc k \<and> map_of q k = map_of p k) \<longrightarrow> distinct (map fst q) \<longrightarrow>
        (\<exists>q'. merge_nested merged (JDict s) (JDict q) = Inr (JDict q') \<and> distinct (map fst q') \<and>
        (\<forall>k. k \<notin> spec_keys spec \<longrightarrow> map_of q' k = map_of q k) \<and>
        (\<forall>k \<in> spec_keys spec. rel_option py_eq (map_of p k) (map_of q' k)))"
      proof (intro allI impI)
      fix s q :: dict
      assume s: "\<forall>k \<in> spec_keys spec. map_of s k = map_of acc k \<and> map_of q k = map_of p k"
        and "distinct (map fst q)"
      have "merge_nested merged (JDict s) (JDict q) = Inr (JDict q)"
        using s assms(4) by (intro untouched) (simp_all add: keys)
      then show "\<exists>q'. merge_nested merged (JDict s) (JDict q) = Inr (JDict q') \<and> distinct (map fst q') \<and>
        (\<forall>k. k \<notin> spec_keys spec \<longrightarrow> map_of q' k = map_of q k) \<and>
        (\<forall>k \<in> spec_keys spec. rel_option py_eq (map_of p k) (map_of q' k))"
        using \<open>distinct (map fst q)\<close> s refl by auto
      qed
    qed (use assms(2) in simp_all)
  next
    case (split k n n' t T)
    let ?p = "AList.update k (JDict n') p"
    let ?acc = "if t = [] then acc else AList.update k (JDict t) acc"
    have pn: "proper (JDict n)" using proper_lookup[OF assms(2) split(2)] .
    show ?thesis
    proof (rule that[of ?p ?acc])
      show "extract_nested spec p acc = Inr (?p, ?acc)" using split(4) by (simp add: spec)
      show "map_of ?p j = map_of p j \<and> map_of ?acc j = map_of acc j" if "j \<notin> spec_keys spec" for j
        using that split(1) by (auto simp: keys update_conv')
      show "clear_inside ?p (field_names (snd (snd spec))) j" if "j \<in> spec_keys spec" for j
        using that split(3)[of j] split(9) by (cases "j = k") (auto simp: keys[unfolded spec] clear_inside_def update_conv' spec)
      show "proper (JDict ?p)" using proper_submap[OF pn split(6,8)] assms(2) by (intro proper_update)
    next
      show "\<forall>s q. (\<forall>k \<in> spec_keys spec. map_of s k = map_of ?acc k \<and> map_of q k = map_of ?p k) \<longrightarrow> distinct (map fst q) \<longrightarrow>
        (\<exists>q'. merge_nested merged (JDict s) (JDict q) = Inr (JDict q') \<and> distinct (map fst q') \<and>
        (\<forall>k. k \<notin> spec_keys spec \<longrightarrow> map_of q' k = map_of q k) \<and>
        (\<forall>k \<in> spec_keys spec. rel_option py_eq (map_of p k) (map_of q' k)))"
      proof (intro allI impI)
      fix s q :: dict
      assume s: "\<forall>j \<in> spec_keys spec. map_of s j = map_of ?acc j \<and> map_of q j = map_of ?p j"
        and dq: "distinct (map fst q)"
      have qk: "map_of q k = Some (JDict n')" using bspec[OF s, of k] split(1) by (simp add: keys update_conv')
      have qj: "map_of q j = None" if "j \<in> {f, a}" "j \<noteq> k" for j
        using bspec[OF s, of j] split(3)[OF that] that by (simp add: keys update_conv')
      have sj: "map_of s j = None" if "j \<in> {f, a}" "j \<noteq> k" for j
        using bspec[OF s, of j] that assms(4)[of j] by (auto simp: keys update_conv')
      have sk: "map_of s k = (if t = [] then None else Some (JDict t))"
        using bspec[OF s, of k] split(1) assms(4)[of k] by (auto simp: keys update_conv')
      show "\<exists>q'. merge_nested merged (JDict s) (JDict q) = Inr (JDict q') \<and> distinct (map fst q') \<and>
        (\<forall>j. j \<notin> spec_keys spec \<longrightarrow> map_of q' j = map_of q j) \<and>
        (\<forall>j \<in> spec_keys spec. rel_option py_eq (map_of p j) (map_of q' j))"
      proof (cases "t = []")
        case True
        then have "map_of n' = map_of n"
          using split(6,7) by (auto simp: fun_eq_iff restrict_map_def split: if_splits)
        then have "rel_option py_eq (map_of p j) (map_of q j)" if "j \<in> {f, a}" for j
          using that split(2) split(3)[OF that] qk qj[OF that] same_dict[OF pn] by (cases "j = k") simp_all
        moreover have "map_of s f = None \<and> map_of s a = None"
          using sj sk True split(1) by auto
        then have "merge_nested merged (JDict s) (JDict q) = Inr (JDict q)" by (intro untouched) simp_all
        ultimately show ?thesis using dq by (auto simp: keys)
      next
        case False
        from put_fields_inner[OF qk, of names t] obtain q' u where q':
          "put_fields (set_inner k) names (JDict t) (JDict q) = Inr (JDict q')" "map_of q' = (map_of q)(k \<mapsto> JDict u)"
          "map_of u = map_of n' ++ (map_of t |` set names)" "distinct (map fst q) \<longrightarrow> distinct (map fst q')"
          by blast
        have "map_of u = map_of n" by (rule rejoin[OF split(6,7) _ q'(3)]) (use split(5) names in blast)
        then have "rel_option py_eq (map_of p j) (map_of q' j)" if "j \<in> {f, a}" for j
          using that split(2) split(3)[OF that] qj[OF that] same_dict[OF pn] by (cases "j = k") (simp_all add: q'(2))
        moreover have "merge_nested merged (JDict s) (JDict q) = Inr (JDict q')"
        proof (cases "k = f")
          case True
          then show ?thesis
            using fa sk sj[of a] qk qj[of a] q'(1) False by (simp add: merge_nested_def merge_nested_key_def merged)
        next
          case other: False
          then have "k = a" using split(1) by simp
          then show ?thesis
            using fa sk sj[of f] qk q'(1) False by (simp add: merge_nested_def merge_nested_key_def merged)
        qed
        ultimately show ?thesis
          using dq q'(2,4) split(1) by (auto simp: keys)
      qed
      qed
    qed
  qed
qed

lemma plain_spec_cong: "(\<And>k. k \<in> spec_keys spec \<Longrightarrow> map_of p k = map_of q k) \<Longrightarrow> plain_spec spec p = plain_spec spec q"
  by (simp add: plain_spec_def spec_keys_def single_named_def split: prod.splits)

lemma clear_inside_cong: "map_of p k = map_of q k \<Longrightarrow> clear_inside p names k = clear_inside q names k"
  by (simp add: clear_inside_def)

fun disjoint_specs :: "nested_config list \<Rightarrow> bool" where
  "disjoint_specs [] = True"
| "disjoint_specs (spec # specs) = (list_all (\<lambda>other. spec_keys spec \<inter> spec_keys other = {}) specs \<and> disjoint_specs specs)"

lemma nested_roundtrip:
  assumes "list_all (\<lambda>spec. plain_spec spec p) specs" and "proper (JDict p)" and "list_all2 matching specs merged"
    and "disjoint_specs specs" and "\<forall>k \<in> \<Union> (spec_keys ` set specs). map_of acc k = None"
  shows "\<exists>p' acc'. extract_all_nested specs p acc = Inr (p', acc') \<and>
    (\<forall>k. k \<notin> \<Union> (spec_keys ` set specs) \<longrightarrow> map_of p' k = map_of p k \<and> map_of acc' k = map_of acc k) \<and>
    (\<forall>spec \<in> set specs. \<forall>k \<in> spec_keys spec. clear_inside p' (field_names (snd (snd spec))) k) \<and>
    proper (JDict p') \<and>
    (\<forall>s q. (\<forall>k \<in> \<Union> (spec_keys ` set specs). map_of s k = map_of acc' k \<and> map_of q k = map_of p' k) \<longrightarrow>
      distinct (map fst q) \<longrightarrow>
      (\<exists>q'. merge_all_nested merged (JDict s) (JDict q) = Inr (JDict q') \<and> distinct (map fst q') \<and>
        (\<forall>k. k \<notin> \<Union> (spec_keys ` set specs) \<longrightarrow> map_of q' k = map_of q k) \<and>
        (\<forall>k \<in> \<Union> (spec_keys ` set specs). rel_option py_eq (map_of p k) (map_of q' k))))"
  using assms
proof (induction specs arbitrary: p acc merged)
  case Nil
  then show ?case by simp
next
  case (Cons spec specs)
  obtain m ms where merged: "merged = m # ms" and match: "matching spec m" "list_all2 matching specs ms"
    using Cons.prems(3) by (auto simp: list_all2_Cons1)
  let ?K = "\<Union> (spec_keys ` set specs)"
  have apart: "k \<notin> ?K" if "k \<in> spec_keys spec" for k
    using Cons.prems(4) that by (auto simp: list_all_iff)
  have here: "plain_spec spec p" using Cons.prems(1) by simp
  obtain p1 acc1 where one: "extract_nested spec p acc = Inr (p1, acc1)"
    "\<And>k. k \<notin> spec_keys spec \<Longrightarrow> map_of p1 k = map_of p k \<and> map_of acc1 k = map_of acc k"
    "\<And>k. k \<in> spec_keys spec \<Longrightarrow> clear_inside p1 (field_names (snd (snd spec))) k"
    "proper (JDict p1)"
    "\<forall>s q. (\<forall>k \<in> spec_keys spec. map_of s k = map_of acc1 k \<and> map_of q k = map_of p1 k) \<longrightarrow> distinct (map fst q) \<longrightarrow>
      (\<exists>q'. merge_nested m (JDict s) (JDict q) = Inr (JDict q') \<and> distinct (map fst q') \<and>
        (\<forall>k. k \<notin> spec_keys spec \<longrightarrow> map_of q' k = map_of q k) \<and>
        (\<forall>k \<in> spec_keys spec. rel_option py_eq (map_of p k) (map_of q' k)))"
    by (rule nested_roundtrip_one[OF here Cons.prems(2) match(1), of acc]) (use Cons.prems(5) in simp, rule that)
  have plain: "list_all (\<lambda>spec. plain_spec spec p1) specs"
  proof (unfold list_all_iff, rule ballI)
    fix other assume o: "other \<in> set specs"
    have "plain_spec other p1 = plain_spec other p"
      by (rule plain_spec_cong) (use o one(2) apart in blast)
    then show "plain_spec other p1" using o Cons.prems(1) by (simp add: list_all_iff)
  qed
  have absent: "\<forall>k \<in> ?K. map_of acc1 k = None"
  proof
    fix k assume k: "k \<in> ?K"
    then show "map_of acc1 k = None" using one(2)[of k] Cons.prems(5) apart[of k] by auto
  qed
  have disj: "disjoint_specs specs" using Cons.prems(4) by simp
  from Cons.IH[OF plain one(4) match(2) disj absent]
  obtain p2 acc2 where two: "extract_all_nested specs p1 acc1 = Inr (p2, acc2)"
    "\<forall>k. k \<notin> ?K \<longrightarrow> map_of p2 k = map_of p1 k \<and> map_of acc2 k = map_of acc1 k"
    "\<forall>spec \<in> set specs. \<forall>k \<in> spec_keys spec. clear_inside p2 (field_names (snd (snd spec))) k" "proper (JDict p2)"
    "\<forall>s q. (\<forall>k \<in> ?K. map_of s k = map_of acc2 k \<and> map_of q k = map_of p2 k) \<longrightarrow> distinct (map fst q) \<longrightarrow>
      (\<exists>q'. merge_all_nested ms (JDict s) (JDict q) = Inr (JDict q') \<and> distinct (map fst q') \<and>
        (\<forall>k. k \<notin> ?K \<longrightarrow> map_of q' k = map_of q k) \<and> (\<forall>k \<in> ?K. rel_option py_eq (map_of p1 k) (map_of q' k)))"
    by (elim exE conjE) (rule that)
  show ?case
  proof (intro exI conjI)
    show "extract_all_nested (spec # specs) p acc = Inr (p2, acc2)"
      using one(1) two(1) by simp
    show "\<forall>k. k \<notin> \<Union> (spec_keys ` set (spec # specs)) \<longrightarrow> map_of p2 k = map_of p k \<and> map_of acc2 k = map_of acc k"
      using one(2) two(2) by simp
    show "\<forall>other \<in> set (spec # specs). \<forall>k \<in> spec_keys other. clear_inside p2 (field_names (snd (snd other))) k"
    proof (intro ballI)
      fix other k assume o: "other \<in> set (spec # specs)" "k \<in> spec_keys other"
      show "clear_inside p2 (field_names (snd (snd other))) k"
      proof (cases "other \<in> set specs")
        case True
        then show ?thesis using two(3) o(2) by blast
      next
        case False
        then have "other = spec" using o(1) by simp
        then show ?thesis
          using one(3)[of k] o(2) two(2) apart[of k] clear_inside_cong[of p2 k p1] by simp
      qed
    qed
    show "proper (JDict p2)" by (rule two(4))
    show "\<forall>s q. (\<forall>k \<in> \<Union> (spec_keys ` set (spec # specs)). map_of s k = map_of acc2 k \<and> map_of q k = map_of p2 k) \<longrightarrow>
      distinct (map fst q) \<longrightarrow>
      (\<exists>q'. merge_all_nested merged (JDict s) (JDict q) = Inr (JDict q') \<and> distinct (map fst q') \<and>
        (\<forall>k. k \<notin> \<Union> (spec_keys ` set (spec # specs)) \<longrightarrow> map_of q' k = map_of q k) \<and>
        (\<forall>k \<in> \<Union> (spec_keys ` set (spec # specs)). rel_option py_eq (map_of p k) (map_of q' k)))"
    proof (intro allI impI)
      fix s q :: dict
      assume agree: "\<forall>k \<in> \<Union> (spec_keys ` set (spec # specs)). map_of s k = map_of acc2 k \<and> map_of q k = map_of p2 k"
        and dq: "distinct (map fst q)"
      have "map_of s k = map_of acc1 k \<and> map_of q k = map_of p1 k" if "k \<in> spec_keys spec" for k
        using agree that two(2) apart[OF that] by simp
      then have "\<forall>k \<in> spec_keys spec. map_of s k = map_of acc1 k \<and> map_of q k = map_of p1 k" by blast
      with one(5) dq obtain q1 where q1: "merge_nested m (JDict s) (JDict q) = Inr (JDict q1)"
        "distinct (map fst q1)" "\<forall>k. k \<notin> spec_keys spec \<longrightarrow> map_of q1 k = map_of q k"
        "\<forall>k \<in> spec_keys spec. rel_option py_eq (map_of p k) (map_of q1 k)" by blast
      have "\<forall>k \<in> ?K. map_of s k = map_of acc2 k \<and> map_of q1 k = map_of p2 k"
      proof
        fix k assume k: "k \<in> ?K"
        then have "k \<notin> spec_keys spec" using apart by blast
        then show "map_of s k = map_of acc2 k \<and> map_of q1 k = map_of p2 k" using agree q1(3) k by simp
      qed
      with two(5) q1(2) obtain q2 where q2: "merge_all_nested ms (JDict s) (JDict q1) = Inr (JDict q2)"
        "distinct (map fst q2)" "\<forall>k. k \<notin> ?K \<longrightarrow> map_of q2 k = map_of q1 k"
        "\<forall>k \<in> ?K. rel_option py_eq (map_of p1 k) (map_of q2 k)" by blast
      have "rel_option py_eq (map_of p k) (map_of q2 k)" if "k \<in> spec_keys spec \<union> ?K" for k
      proof (cases "k \<in> spec_keys spec")
        case True
        then show ?thesis using q1(4) q2(3) apart by simp
      next
        case False
        then have "rel_option py_eq (map_of p1 k) (map_of q2 k)" using that q2(4) by blast
        then show ?thesis using one(2)[OF False] by simp
      qed
      then show "\<exists>q'. merge_all_nested merged (JDict s) (JDict q) = Inr (JDict q') \<and> distinct (map fst q') \<and>
        (\<forall>k. k \<notin> \<Union> (spec_keys ` set (spec # specs)) \<longrightarrow> map_of q' k = map_of q k) \<and>
        (\<forall>k \<in> \<Union> (spec_keys ` set (spec # specs)). rel_option py_eq (map_of p k) (map_of q' k))"
        using q1 q2 by (intro exI[of _ q2]) (simp add: merged)
    qed
  qed
qed

section \<open>One provider\<close>

definition nested_keys :: "nested_config list \<Rightarrow> string set" where
  "nested_keys specs = \<Union> (spec_keys ` set specs)"

definition plain_provider :: "json \<Rightarrow> bool" where
  "plain_provider v =
     (case v of JDict d \<Rightarrow> plain_fields provider_fields d \<and> list_all (\<lambda>spec. plain_spec spec d) nested_configs | _ \<Rightarrow> True)"

definition clear_nested :: "nested_config list \<Rightarrow> dict \<Rightarrow> bool" where
  "clear_nested specs d =
     list_all (\<lambda>(f, a, fields). list_all (\<lambda>k. clear_inside d (field_names fields) k) [f, a]) specs"

definition clear_provider :: "json \<Rightarrow> bool" where
  "clear_provider v =
     (case v of
        JDict d \<Rightarrow> list_all (\<lambda>(f, a). clear_at d f \<and> clear_at d a) provider_fields \<and> clear_nested nested_configs d
      | _ \<Rightarrow> True)"

lemma clear_nestedI:
  "\<forall>spec \<in> set specs. \<forall>k \<in> spec_keys spec. clear_inside d (field_names (snd (snd spec))) k \<Longrightarrow> clear_nested specs d"
  by (fastforce simp: clear_nested_def spec_keys_def list_all_iff)

lemma provider_names:
  "field_names provider_fields = set [''token'', ''password'', ''email'', ''tk'', ''pw'', ''em'']"
  by (auto simp: field_names_def provider_fields_def)

lemma provider_tables:
  "list_all2 matching nested_configs merged_configs" "disjoint_specs nested_configs"
  "nested_keys nested_configs \<inter> field_names provider_fields = {}"
  "''_index'' \<notin> nested_keys nested_configs" "''_index'' \<notin> field_names provider_fields"
  by code_simp+

lemma merge_all_nested_none: "merge_all_nested specs (JDict []) v = Inr v"
  by (induction specs) (simp_all add: merge_nested_def merge_nested_key_def split: prod.splits)

definition with_index :: "int option \<Rightarrow> dict \<Rightarrow> dict" where
  "with_index index s =
     (if s = [] then s else case index of Some i \<Rightarrow> AList.update ''_index'' (JInt i) s | None \<Rightarrow> s)"

lemma provider_roundtrip:
  assumes "plain_provider (JDict d)" and "proper (JDict d)"
  shows "\<exists>d' s. extract_provider_secrets index d = Inr (JDict d', with_index index s) \<and> proper (JDict d') \<and>
    clear_provider (JDict d') \<and>
    (if s = [] then py_eq (JDict d) (JDict d')
     else \<exists>r. merge_provider_secrets (JDict d') (JDict (with_index index s)) = Inr r \<and> py_eq (JDict d) r)"
proof -
  let ?N = "field_names provider_fields" and ?K = "nested_keys nested_configs"
  note apart = provider_tables(3)
  have dd: "distinct (map fst d)" using assms(2) by simp
  from take_fields_dict[OF dd, of provider_fields "[]"] obtain d1 s1 T where
    take: "take_fields provider_fields (JDict d) [] = Inr (JDict d1, s1)" and T: "T \<subseteq> ?N \<inter> dom (map_of d)"
    and d1: "map_of d1 = map_of d |` (- T)" and "map_of s1 = map_of [] ++ (map_of d |` T)" and dd1: "distinct (map fst d1)"
    by blast
  then have s1: "map_of s1 = map_of d |` T" by (simp add: empty_map_add)
  have p1: "proper (JDict d1)" by (rule proper_submap[OF assms(2) d1 dd1])
  have d1K: "map_of d1 k = map_of d k" if "k \<in> ?K" for k
    using T apart that by (auto simp: d1 restrict_map_def)
  have "plain_spec spec d1" if "spec \<in> set nested_configs" for spec
  proof -
    have "plain_spec spec d1 = plain_spec spec d"
      using d1K that by (intro plain_spec_cong) (auto simp: nested_keys_def)
    then show ?thesis using assms(1) that by (simp add: plain_provider_def list_all_iff)
  qed
  then have plain: "list_all (\<lambda>spec. plain_spec spec d1) nested_configs" by (simp add: list_all_iff)
  have absent: "\<forall>k \<in> \<Union> (spec_keys ` set nested_configs). map_of s1 k = None"
  proof
    fix k assume "k \<in> \<Union> (spec_keys ` set nested_configs)"
    then have "k \<notin> T" using T apart unfolding nested_keys_def by blast
    then show "map_of s1 k = None" by (simp add: s1)
  qed
  from nested_roundtrip[OF plain p1 provider_tables(1,2) absent, folded nested_keys_def] obtain d2 s2 where
    nested: "extract_all_nested nested_configs d1 s1 = Inr (d2, s2)"
    "\<forall>k. k \<notin> ?K \<longrightarrow> map_of d2 k = map_of d1 k \<and> map_of s2 k = map_of s1 k"
    "\<forall>spec \<in> set nested_configs. \<forall>k \<in> spec_keys spec. clear_inside d2 (field_names (snd (snd spec))) k"
    "proper (JDict d2)"
    and merge: "\<forall>s q. (\<forall>k \<in> ?K. map_of s k = map_of s2 k \<and> map_of q k = map_of d2 k) \<longrightarrow> distinct (map fst q) \<longrightarrow>
      (\<exists>q'. merge_all_nested merged_configs (JDict s) (JDict q) = Inr (JDict q') \<and> distinct (map fst q') \<and>
        (\<forall>k. k \<notin> ?K \<longrightarrow> map_of q' k = map_of q k) \<and> (\<forall>k \<in> ?K. rel_option py_eq (map_of d1 k) (map_of q' k)))"
    by (elim exE conjE) (rule that)
  have dd2: "distinct (map fst d2)" using nested(4) by simp
  have refl: "rel_option py_eq (map_of d k) (map_of d k)" for k
    using py_eq_refl[OF proper_lookup[OF assms(2), of k]] by (cases "map_of d k") simp_all
  have "clear_at d2 k" if "k \<in> ?N" for k
  proof -
    have "clear_at d1 k"
      using take_fields_clear[OF take _ dd] assms(1) that by (simp add: plain_provider_def)
    moreover have "map_of d2 k = map_of d1 k" using nested(2)[rule_format, of k] apart that by blast
    ultimately show ?thesis by (simp add: clear_at_def)
  qed
  moreover have "{f, a} \<subseteq> ?N" if "(f, a) \<in> set provider_fields" for f a
    using that by (force simp: field_names_def)
  ultimately have clear: "clear_provider (JDict d2)"
    using clear_nestedI[OF nested(3)] by (fastforce simp: clear_provider_def list_all_iff)
  have extracted: "extract_provider_secrets index d = Inr (JDict d2, with_index index s2)"
    by (simp add: extract_provider_secrets_def take nested(1) with_index_def)
  show ?thesis
  proof (cases "s2 = []")
    case True
    have none: "map_of s1 k = None" for k
    proof (cases "k \<in> ?K")
      case True
      then show ?thesis using absent unfolding nested_keys_def by blast
    next
      case False
      then show ?thesis using nested(2)[rule_format, of k] True by simp
    qed
    have "T = {}"
    proof (rule ccontr)
      assume "T \<noteq> {}"
      then obtain k where "k \<in> T" by blast
      then show False using none[of k] T by (auto simp: s1)
    qed
    then have "map_of d1 = map_of d" by (simp add: d1 restrict_map_def)
    moreover have agree: "\<forall>k \<in> ?K. map_of [] k = map_of s2 k \<and> map_of d2 k = map_of d2 k" using True by simp
    from merge[THEN spec, THEN spec, THEN mp, OF agree, THEN mp, OF dd2]
    have "\<forall>k \<in> ?K. rel_option py_eq (map_of d1 k) (map_of d2 k)"
      by (auto simp: merge_all_nested_none)
    ultimately have "rel_option py_eq (map_of d k) (map_of d2 k)" for k
      using refl[of k] nested(2)[rule_format, of k] by (cases "k \<in> ?K") (simp_all add: merge_all_nested_none)
    then have "py_eq (JDict d) (JDict d2)" by (rule py_eq_dictI[OF dd])
    then show ?thesis
      unfolding extracted using nested(4) clear True by (intro exI[of _ d2] exI[of _ s2]) simp
  next
    case False
    define s where "s = with_index index s2"
    have s: "map_of s k = map_of s2 k" if "k \<noteq> ''_index''" for k
      using that by (auto simp: s_def with_index_def update_conv' split: option.splits)
    from put_fields_own[of "[''token'', ''password'', ''email'', ''tk'', ''pw'', ''em'']" s d2] obtain t where
      t: "put_fields set_own [''token'', ''password'', ''email'', ''tk'', ''pw'', ''em''] (JDict s) (JDict d2) = Inr (JDict t)"
      "map_of t = map_of d2 ++ (map_of s |` ?N)" "distinct (map fst t)"
      using dd2 unfolding provider_names by blast
    have tK: "map_of s k = map_of s2 k \<and> map_of t k = map_of d2 k" if "k \<in> ?K" for k
    proof -
      have "k \<noteq> ''_index''" "k \<notin> ?N" using that apart provider_tables(4) by blast+
      then show ?thesis using s by (simp add: t(2) map_add_def restrict_map_def)
    qed
    then have agree: "\<forall>k \<in> ?K. map_of s k = map_of s2 k \<and> map_of t k = map_of d2 k" by blast
    from merge[THEN spec, THEN spec, THEN mp, OF agree, THEN mp, OF t(3)]
    obtain q where q: "merge_all_nested merged_configs (JDict s) (JDict t) = Inr (JDict q)"
      "\<forall>k. k \<notin> ?K \<longrightarrow> map_of q k = map_of t k" "\<forall>k \<in> ?K. rel_option py_eq (map_of d1 k) (map_of q k)"
      by (elim exE conjE) (rule that)
    have "rel_option py_eq (map_of d k) (map_of q k)" for k
    proof (cases "k \<in> ?K")
      case True
      then show ?thesis using q(3) d1K by simp
    next
      case False
      have "map_of t k = map_of d k"
      proof (cases "k \<in> ?N")
        case True
        then have "k \<noteq> ''_index''" using provider_tables(5) by blast
        then have "map_of s k = map_of s1 k" using s nested(2)[rule_format, OF False] by simp
        then show ?thesis
          using True T nested(2)[rule_format, OF False] by (auto simp: t(2) map_add_def restrict_map_def s1 d1 split: option.splits)
      next
        case outside: False
        then show ?thesis
          using T nested(2)[rule_format, OF False] by (auto simp: t(2) map_add_def restrict_map_def d1)
      qed
      then show ?thesis using q(2) False refl[of k] by simp
    qed
    then have "py_eq (JDict d) (JDict q)" by (rule py_eq_dictI[OF dd])
    moreover have "merge_provider_secrets (JDict d2) (JDict s) = Inr (JDict q)"
      using t(1) q(1) by (simp add: merge_provider_secrets_def del: put_fields.simps)
    ultimately show ?thesis
      unfolding extracted s_def using nested(4) clear False by (intro exI[of _ d2] exI[of _ s2]) simp
  qed
qed

end
