(* ===== verification/Profile_Roundtrip.thy ===== *)
theory Profile_Roundtrip
  imports Profile_Secrets_Correct
begin

text \<open>
  The split of a whole configuration and its merging. The configuration is a sequence of parts that
  own different keys; each part is split and merged on its own, and \<open>part_compose\<close> puts two of
  them together.
\<close>

section \<open>Parts\<close>

definition only_at :: "string set \<Rightarrow> (dict \<Rightarrow> bool) \<Rightarrow> bool" where
  "only_at K P \<longleftrightarrow> (\<forall>p q. (\<forall>k \<in> K. map_of p k = map_of q k) \<longrightarrow> P p = P q)"

definition restores :: "string set \<Rightarrow> (dict \<Rightarrow> dict \<Rightarrow> dict py_result) \<Rightarrow> dict \<Rightarrow> dict \<Rightarrow> dict \<Rightarrow> bool" where
  "restores K mg p p' acc' \<longleftrightarrow>
     (\<forall>s q. (\<forall>k \<in> K. map_of s k = map_of acc' k \<and> map_of q k = map_of p' k) \<longrightarrow> distinct (map fst q) \<longrightarrow>
       (\<exists>q'. mg s q = Inr q' \<and> distinct (map fst q') \<and> (\<forall>k. k \<notin> K \<longrightarrow> map_of q' k = map_of q k) \<and>
         (\<forall>k \<in> K. rel_option py_eq (map_of p k) (map_of q' k))))"

definition part_ok ::
  "string set \<Rightarrow> (dict \<Rightarrow> dict \<Rightarrow> (dict \<times> dict) py_result) \<Rightarrow> (dict \<Rightarrow> dict \<Rightarrow> dict py_result) \<Rightarrow>
   (dict \<Rightarrow> bool) \<Rightarrow> (dict \<Rightarrow> bool) \<Rightarrow> bool" where
  "part_ok K ex mg plain clear \<longleftrightarrow>
     only_at K plain \<and> only_at K clear \<and>
     (\<forall>p acc. plain p \<longrightarrow> proper (JDict p) \<longrightarrow> (\<forall>k \<in> K. map_of acc k = None) \<longrightarrow>
       (\<exists>p' acc'. ex p acc = Inr (p', acc') \<and>
         (\<forall>k. k \<notin> K \<longrightarrow> map_of p' k = map_of p k \<and> map_of acc' k = map_of acc k) \<and>
         clear p' \<and> proper (JDict p') \<and> restores K mg p p' acc'))"

lemma part_okD:
  assumes "part_ok K ex mg plain clear" and "plain p" and "proper (JDict p)" and "\<forall>k \<in> K. map_of acc k = None"
  obtains p' acc' where "ex p acc = Inr (p', acc')" "\<forall>k. k \<notin> K \<longrightarrow> map_of p' k = map_of p k \<and> map_of acc' k = map_of acc k"
    "clear p'" "proper (JDict p')" "restores K mg p p' acc'"
  using assms unfolding part_ok_def by blast

lemma restoresD:
  assumes "restores K mg p p' acc'" and "\<forall>k \<in> K. map_of s k = map_of acc' k \<and> map_of q k = map_of p' k"
    and "distinct (map fst q)"
  obtains q' where "mg s q = Inr q'" "distinct (map fst q')" "\<forall>k. k \<notin> K \<longrightarrow> map_of q' k = map_of q k"
    "\<forall>k \<in> K. rel_option py_eq (map_of p k) (map_of q' k)"
  using assms unfolding restores_def by blast

lemma part_compose:
  assumes "part_ok K1 e1 m1 plain1 clear1" and "part_ok K2 e2 m2 plain2 clear2" and "K1 \<inter> K2 = {}"
  shows "part_ok (K1 \<union> K2) (\<lambda>p acc. bind_result (e1 p acc) (\<lambda>(p', acc'). e2 p' acc')) (\<lambda>s q. bind_result (m1 s q) (m2 s))
    (\<lambda>p. plain1 p \<and> plain2 p) (\<lambda>p. clear1 p \<and> clear2 p)"
  unfolding part_ok_def
proof (intro conjI allI impI)
  have l1: "only_at K1 plain1" "only_at K1 clear1" using assms(1) by (simp_all add: part_ok_def)
  have l2: "only_at K2 plain2" "only_at K2 clear2" using assms(2) by (simp_all add: part_ok_def)
  show "only_at (K1 \<union> K2) (\<lambda>p. plain1 p \<and> plain2 p)" "only_at (K1 \<union> K2) (\<lambda>p. clear1 p \<and> clear2 p)"
    using l1 l2 unfolding only_at_def by blast+
  fix p acc :: dict
  assume plain: "plain1 p \<and> plain2 p" and pp: "proper (JDict p)" and none: "\<forall>k \<in> K1 \<union> K2. map_of acc k = None"
  obtain p1 acc1 where one: "e1 p acc = Inr (p1, acc1)"
    "\<forall>k. k \<notin> K1 \<longrightarrow> map_of p1 k = map_of p k \<and> map_of acc1 k = map_of acc k" "clear1 p1" "proper (JDict p1)" "restores K1 m1 p p1 acc1"
    using part_okD[OF assms(1) conjunct1[OF plain] pp] none by blast
  have agree: "\<forall>k \<in> K2. map_of p1 k = map_of p k \<and> map_of acc1 k = map_of acc k"
    using one(2) assms(3) by blast
  then have "plain2 p1" using l2(1) plain unfolding only_at_def by blast
  moreover have "\<forall>k \<in> K2. map_of acc1 k = None" using agree none by simp
  ultimately obtain p2 acc2 where two: "e2 p1 acc1 = Inr (p2, acc2)"
    "\<forall>k. k \<notin> K2 \<longrightarrow> map_of p2 k = map_of p1 k \<and> map_of acc2 k = map_of acc1 k" "clear2 p2" "proper (JDict p2)" "restores K2 m2 p1 p2 acc2"
    using part_okD[OF assms(2) _ one(4)] by blast
  have same1: "\<forall>k \<in> K1. map_of p2 k = map_of p1 k \<and> map_of acc2 k = map_of acc1 k"
    using two(2) assms(3) by blast
  then have "clear1 p2" using l1(2) one(3) unfolding only_at_def by blast
  moreover have "restores (K1 \<union> K2) (\<lambda>s q. bind_result (m1 s q) (m2 s)) p p2 acc2"
    unfolding restores_def
  proof (intro allI impI)
    fix s q :: dict
    assume sq: "\<forall>k \<in> K1 \<union> K2. map_of s k = map_of acc2 k \<and> map_of q k = map_of p2 k" and dq: "distinct (map fst q)"
    have "\<forall>k \<in> K1. map_of s k = map_of acc1 k \<and> map_of q k = map_of p1 k" using sq same1 by simp
    then obtain q1 where q1: "m1 s q = Inr q1" "distinct (map fst q1)" "\<forall>k. k \<notin> K1 \<longrightarrow> map_of q1 k = map_of q k"
      "\<forall>k \<in> K1. rel_option py_eq (map_of p k) (map_of q1 k)"
      using restoresD[OF one(5) _ dq] by blast
    have "\<forall>k \<in> K2. map_of q1 k = map_of q k" using q1(3) assms(3) by blast
    then have "\<forall>k \<in> K2. map_of s k = map_of acc2 k \<and> map_of q1 k = map_of p2 k" using sq by simp
    then obtain q2 where q2: "m2 s q1 = Inr q2" "distinct (map fst q2)" "\<forall>k. k \<notin> K2 \<longrightarrow> map_of q2 k = map_of q1 k"
      "\<forall>k \<in> K2. rel_option py_eq (map_of p1 k) (map_of q2 k)"
      using restoresD[OF two(5) _ q1(2)] by blast
    have "\<forall>k \<in> K1. map_of q2 k = map_of q1 k" using q2(3) assms(3) by blast
    then have "\<forall>k \<in> K1 \<union> K2. rel_option py_eq (map_of p k) (map_of q2 k)"
      using q1(4) q2(4) agree by (simp add: ball_Un)
    then show "\<exists>q'. bind_result (m1 s q) (m2 s) = Inr q' \<and> distinct (map fst q') \<and>
      (\<forall>k. k \<notin> K1 \<union> K2 \<longrightarrow> map_of q' k = map_of q k) \<and> (\<forall>k \<in> K1 \<union> K2. rel_option py_eq (map_of p k) (map_of q' k))"
      using q1 q2 by (intro exI[of _ q2]) simp
  qed
  moreover have "\<forall>k. k \<notin> K1 \<union> K2 \<longrightarrow> map_of p2 k = map_of p k \<and> map_of acc2 k = map_of acc k"
    using one(2) two(2) by simp
  ultimately show "\<exists>p' acc'. bind_result (e1 p acc) (\<lambda>(p', acc'). e2 p' acc') = Inr (p', acc') \<and>
      (\<forall>k. k \<notin> K1 \<union> K2 \<longrightarrow> map_of p' k = map_of p k \<and> map_of acc' k = map_of acc k) \<and>
      (clear1 p' \<and> clear2 p') \<and> proper (JDict p') \<and> restores (K1 \<union> K2) (\<lambda>s q. bind_result (m1 s q) (m2 s)) p p' acc'"
    using one(1) two(1,3,4) by (intro exI[of _ p2] exI[of _ acc2]) simp
qed

section \<open>A part under one key\<close>

lemma merge_part_none:
  "map_of s f = None \<Longrightarrow> map_of s a = None \<Longrightarrow> merge_part f a e step s q = Inr q"
  by (simp add: merge_part_def present_key_def)

lemma merge_part_at:
  assumes "k \<in> {f, a}" and "map_of s k = Some x" and "map_of q k = Some v"
    and "\<And>j. j \<in> {f, a} \<Longrightarrow> j \<noteq> k \<Longrightarrow> map_of s j = None \<and> map_of q j = None"
  shows "merge_part f a e step s q = bind_result (step x v) (\<lambda>w. Inr (AList.update k w q))"
proof (cases "k = f")
  case True
  then show ?thesis
    using assms(2,3) assms(4)[of a]
    by (cases "a = f") (simp_all add: merge_part_def present_key_def target_key_def set_missing_def)
next
  case False
  then have "k = a" using assms(1) by simp
  then show ?thesis
    using assms(2,3) assms(4)[of f] False
    by (simp add: merge_part_def present_key_def target_key_def set_missing_def)
qed

text \<open>What the extraction of one part does: nothing, or it splits the value at one of its keys.\<close>

definition one_split ::
  "string \<Rightarrow> string \<Rightarrow> (json \<Rightarrow> json \<Rightarrow> json py_result) \<Rightarrow> (dict \<Rightarrow> bool) \<Rightarrow> dict \<Rightarrow> dict \<Rightarrow> (dict \<times> dict) py_result \<Rightarrow> bool" where
  "one_split f a step clear p acc result \<longleftrightarrow>
     (result = Inr (p, acc) \<and> clear p) \<or>
     (\<exists>k v v' t. k \<in> {f, a} \<and> map_of p k = Some v \<and> (\<forall>j \<in> {f, a}. j \<noteq> k \<longrightarrow> map_of p j = None) \<and>
       result = Inr (AList.update k v' p, case t of None \<Rightarrow> acc | Some x \<Rightarrow> AList.update k x acc) \<and>
       proper v' \<and> clear (AList.update k v' p) \<and>
       (case t of None \<Rightarrow> py_eq v v' | Some x \<Rightarrow> \<exists>w. step x v' = Inr w \<and> py_eq v w))"

lemma one_splitI:
  assumes "k \<in> {f, a}" and "map_of p k = Some v" and "\<forall>j \<in> {f, a}. j \<noteq> k \<longrightarrow> map_of p j = None"
    and "result = Inr (AList.update k v' p, case t of None \<Rightarrow> acc | Some x \<Rightarrow> AList.update k x acc)"
    and "proper v'" and "clear (AList.update k v' p)"
    and "case t of None \<Rightarrow> py_eq v v' | Some x \<Rightarrow> \<exists>w. step x v' = Inr w \<and> py_eq v w"
  shows "one_split f a step clear p acc result"
  unfolding one_split_def using assms by blast

lemma part_okI:
  assumes "only_at {f, a} plain" and "only_at {f, a} clear"
    and "\<And>p acc. plain p \<Longrightarrow> proper (JDict p) \<Longrightarrow> one_split f a step clear p acc (ex p acc)"
  shows "part_ok {f, a} ex (merge_part f a e step) plain clear"
  unfolding part_ok_def
proof (intro conjI allI impI)
  fix p acc :: dict
  assume plain: "plain p" and pp: "proper (JDict p)" and none: "\<forall>k \<in> {f, a}. map_of acc k = None"
  have refl: "rel_option py_eq (map_of p k) (map_of p k)" for k
    using py_eq_refl[OF proper_lookup[OF pp, of k]] by (cases "map_of p k") simp_all
  from assms(3)[OF plain pp, of acc, unfolded one_split_def]
  show "\<exists>p' acc'. ex p acc = Inr (p', acc') \<and>
      (\<forall>k. k \<notin> {f, a} \<longrightarrow> map_of p' k = map_of p k \<and> map_of acc' k = map_of acc k) \<and> clear p' \<and> proper (JDict p') \<and>
      restores {f, a} (merge_part f a e step) p p' acc'"
  proof (elim disjE exE conjE)
    assume same: "ex p acc = Inr (p, acc)" "clear p"
    have "restores {f, a} (merge_part f a e step) p p acc"
      unfolding restores_def
    proof (intro allI impI)
      fix s q :: dict
      assume sq: "\<forall>k \<in> {f, a}. map_of s k = map_of acc k \<and> map_of q k = map_of p k" and "distinct (map fst q)"
      moreover have "merge_part f a e step s q = Inr q" using sq none by (simp add: merge_part_none)
      ultimately show "\<exists>q'. merge_part f a e step s q = Inr q' \<and> distinct (map fst q') \<and>
          (\<forall>k. k \<notin> {f, a} \<longrightarrow> map_of q' k = map_of q k) \<and> (\<forall>k \<in> {f, a}. rel_option py_eq (map_of p k) (map_of q' k))"
        using refl by simp
    qed
    then show ?thesis using same pp by blast
  next
    fix k v v' t
    assume k: "k \<in> {f, a}" and v: "map_of p k = Some v" and other: "\<forall>j \<in> {f, a}. j \<noteq> k \<longrightarrow> map_of p j = None"
      and result: "ex p acc = Inr (AList.update k v' p, case t of None \<Rightarrow> acc | Some x \<Rightarrow> AList.update k x acc)"
      and v': "proper v'" "clear (AList.update k v' p)"
      and t: "case t of None \<Rightarrow> py_eq v v' | Some x \<Rightarrow> \<exists>w. step x v' = Inr w \<and> py_eq v w"
    let ?p = "AList.update k v' p" and ?acc = "case t of None \<Rightarrow> acc | Some x \<Rightarrow> AList.update k x acc"
    have "restores {f, a} (merge_part f a e step) p ?p ?acc"
      unfolding restores_def
    proof (intro allI impI)
      fix s q :: dict
      assume sq: "\<forall>j \<in> {f, a}. map_of s j = map_of ?acc j \<and> map_of q j = map_of ?p j" and dq: "distinct (map fst q)"
      have sk: "map_of s k = t" using bspec[OF sq k] bspec[OF none k] by (simp add: update_conv' split: option.splits)
      have qk: "map_of q k = Some v'" using bspec[OF sq k] by (simp add: update_conv')
      have rest: "map_of s j = None \<and> map_of q j = None" if "j \<in> {f, a}" "j \<noteq> k" for j
        using bspec[OF sq that(1)] bspec[OF none that(1)] other[rule_format, OF that] that(2)
        by (simp add: update_conv' split: option.splits)
      show "\<exists>q'. merge_part f a e step s q = Inr q' \<and> distinct (map fst q') \<and>
          (\<forall>j. j \<notin> {f, a} \<longrightarrow> map_of q' j = map_of q j) \<and> (\<forall>j \<in> {f, a}. rel_option py_eq (map_of p j) (map_of q' j))"
      proof (cases t)
        case None
        have "map_of s f = None \<and> map_of s a = None"
          using sk None rest[of f] rest[of a] by (cases "k = f"; cases "k = a") simp_all
        then have "merge_part f a e step s q = Inr q" by (simp add: merge_part_none)
        moreover have "rel_option py_eq (map_of p j) (map_of q j)" if "j \<in> {f, a}" for j
          using rest[OF that] other[rule_format, OF that] t v qk None by (cases "j = k") simp_all
        ultimately show ?thesis using dq by blast
      next
        case (Some x)
        then obtain w where w: "step x v' = Inr w" "py_eq v w" using t by auto
        have "merge_part f a e step s q = Inr (AList.update k w q)"
          using merge_part_at[OF k sk[unfolded Some] qk rest, of e step] w(1) by simp
        moreover have "rel_option py_eq (map_of p j) (map_of (AList.update k w q) j)" if "j \<in> {f, a}" for j
          using rest[OF that] other[rule_format, OF that] v w(2) by (cases "j = k") (simp_all add: update_conv')
        moreover have "map_of (AList.update k w q) j = map_of q j" if "j \<notin> {f, a}" for j
          using that k by (auto simp: update_conv')
        ultimately show ?thesis using dq by (intro exI[of _ "AList.update k w q"]) (simp add: distinct_update)
      qed
    qed
    moreover have "map_of ?p j = map_of p j \<and> map_of ?acc j = map_of acc j" if "j \<notin> {f, a}" for j
      using that k by (auto simp: update_conv' split: option.splits)
    ultimately show ?thesis
      unfolding result using v' proper_update[OF pp v'(1), of k] by (intro exI[of _ ?p] exI[of _ ?acc]) simp
  qed
qed (rule assms(1), rule assms(2))

section \<open>The list of providers\<close>

lemma merge_entry_at:
  assumes "map_of s ''_index'' = Some (JInt (int (length pre)))" and "merge_provider_secrets p (JDict s) = Inr r"
  shows "merge_entry (JDict s) (JList (pre @ p # ps)) = Inr (JList (pre @ r # ps))"
  using assms by (simp add: merge_entry_def py_as_index_def py_index_def put_index_def nat_int)

lemma with_index_lookup: "s \<noteq> [] \<Longrightarrow> map_of (with_index (Some i) s) ''_index'' = Some (JInt i)"
  by (simp add: with_index_def update_conv')

lemma with_index_Nil [simp]: "with_index index s = [] \<longleftrightarrow> s = []"
  by (auto simp: with_index_def update_nonempty split: option.splits)

lemma providers_roundtrip:
  assumes "list_all plain_provider ps" and "list_all proper ps"
  shows "\<exists>ps' found. extract_providers i ps = Inr (ps', found) \<and> list_all clear_provider ps' \<and> list_all proper ps' \<and>
    (found = [] \<longrightarrow> list_all2 py_eq ps ps') \<and>
    (\<forall>pre. length pre = i \<longrightarrow>
      (\<exists>rs. merge_entries found (JList (pre @ ps')) = Inr (JList (pre @ rs)) \<and> list_all2 py_eq ps rs))"
  using assms
proof (induction ps arbitrary: i)
  case Nil
  then show ?case by simp
next
  case (Cons p ps)
  have plain: "list_all plain_provider ps" and proper_ps: "list_all proper ps" using Cons.prems by simp_all
  obtain ps' found where rest: "extract_providers (Suc i) ps = Inr (ps', found)" "list_all clear_provider ps'"
    "list_all proper ps'" "found = [] \<longrightarrow> list_all2 py_eq ps ps'"
    and merge: "\<And>pre. length pre = Suc i \<Longrightarrow>
      \<exists>rs. merge_entries found (JList (pre @ ps')) = Inr (JList (pre @ rs)) \<and> list_all2 py_eq ps rs"
    using Cons.IH[OF plain proper_ps, of "Suc i"] by blast
  have kept: ?case
    if e: "(case p of JDict d \<Rightarrow> extract_provider_secrets (Some (int i)) d | _ \<Rightarrow> Inr (p, [])) = Inr (p', [])"
      and p': "clear_provider p'" "proper p'" "py_eq p p'" for p'
  proof -
    have "\<exists>rs. merge_entries found (JList (pre @ p' # ps')) = Inr (JList (pre @ rs)) \<and> list_all2 py_eq (p # ps) rs"
      if len: "length pre = i" for pre
    proof -
      obtain rs where "merge_entries found (JList ((pre @ [p']) @ ps')) = Inr (JList ((pre @ [p']) @ rs))" "list_all2 py_eq ps rs"
        using merge[of "pre @ [p']"] len by auto
      then show ?thesis using p'(3) by (intro exI[of _ "p' # rs"]) simp
    qed
    then show ?thesis
      using e rest p' by (intro exI[of _ "p' # ps'"] exI[of _ found]) simp
  qed
  show ?case
  proof (cases "is_dict p")
    case False
    then have "clear_provider p" by (cases p) (simp_all add: is_dict_def clear_provider_def)
    then show ?thesis
      using False Cons.prems(2) by (intro kept[of p]) (auto simp: is_dict_def py_eq_refl split: json.splits)
  next
    case True
    then obtain d where d: "p = JDict d" by (cases p) (simp_all add: is_dict_def)
    obtain d' s where split: "extract_provider_secrets (Some (int i)) d = Inr (JDict d', with_index (Some (int i)) s)"
      "proper (JDict d')" "clear_provider (JDict d')"
      "if s = [] then py_eq (JDict d) (JDict d')
       else \<exists>r. merge_provider_secrets (JDict d') (JDict (with_index (Some (int i)) s)) = Inr r \<and> py_eq (JDict d) r"
      using provider_roundtrip[of d "Some (int i)"] Cons.prems d by auto
    show ?thesis
    proof (cases "s = []")
      case True
      then show ?thesis using split d by (intro kept[of "JDict d'"]) (simp_all add: with_index_def)
    next
      case False
      let ?s = "with_index (Some (int i)) s"
      obtain r where r: "merge_provider_secrets (JDict d') (JDict ?s) = Inr r" "py_eq p r"
        using split(4) False d by auto
      have "\<exists>rs. merge_entries (JDict ?s # found) (JList (pre @ JDict d' # ps')) = Inr (JList (pre @ rs)) \<and> list_all2 py_eq (p # ps) rs"
        if len: "length pre = i" for pre
      proof -
        obtain rs where rs: "merge_entries found (JList ((pre @ [r]) @ ps')) = Inr (JList ((pre @ [r]) @ rs))" "list_all2 py_eq ps rs"
          using merge[of "pre @ [r]"] len by auto
        have "map_of ?s ''_index'' = Some (JInt (int (length pre)))"
          using with_index_lookup[OF False] len by simp
        from merge_entry_at[OF this r(1)] rs r(2) show ?thesis
          by (intro exI[of _ "r # rs"]) simp
      qed
      then show ?thesis
        using rest split(1-3) d False by (intro exI[of _ "JDict d' # ps'"] exI[of _ "JDict ?s # found"]) simp
    qed
  qed
qed

lemma py_eq_list: "py_eq (JList vs) (JList ws) = list_all2 py_eq vs ws"
  by (auto simp: list_all2_iff list_all_iff)

text \<open>The four kinds of parts of a configuration, and what it is to be plain and to be clear there.\<close>

definition plain_list :: "dict \<Rightarrow> bool" where
  "plain_list p =
     (single_named ''streaming_providers'' ''sps'' p \<and>
      list_all (\<lambda>k. case map_of p k of Some (JList ps) \<Rightarrow> list_all plain_provider ps | _ \<Rightarrow> True) [''streaming_providers'', ''sps''])"

definition clear_list :: "dict \<Rightarrow> bool" where
  "clear_list p =
     list_all (\<lambda>k. case map_of p k of Some (JList ps) \<Rightarrow> list_all clear_provider ps | _ \<Rightarrow> True) [''streaming_providers'', ''sps'']"

definition plain_legacy :: "dict \<Rightarrow> bool" where
  "plain_legacy p =
     (single_named ''streaming_provider'' ''sp'' p \<and>
      list_all (\<lambda>k. case map_of p k of Some v \<Rightarrow> plain_provider v | None \<Rightarrow> True) [''streaming_provider'', ''sp''])"

definition clear_legacy :: "dict \<Rightarrow> bool" where
  "clear_legacy p =
     list_all (\<lambda>k. case map_of p k of Some v \<Rightarrow> clear_provider v | None \<Rightarrow> True) [''streaming_provider'', ''sp'']"

lemma first_key_single:
  assumes "f \<noteq> a" and "single_named f a p"
  shows "(first_key test [f, a] p = None \<longrightarrow> (\<forall>k \<in> {f, a}. \<forall>v. map_of p k = Some v \<longrightarrow> \<not> test v)) \<and>
    (\<forall>k. first_key test [f, a] p = Some k \<longrightarrow>
      k \<in> {f, a} \<and> (\<exists>v. map_of p k = Some v \<and> test v) \<and> (\<forall>j \<in> {f, a}. j \<noteq> k \<longrightarrow> map_of p j = None))"
  using assms by (auto simp: first_key_def single_named_def split: option.splits if_splits)

lemma list_part:
  "part_ok {''streaming_providers'', ''sps''} extract_provider_list
     (merge_part ''streaming_providers'' ''sps'' (JList []) (\<lambda>s t. bind_result (py_iter s) (\<lambda>ss. merge_entries ss t)))
     plain_list clear_list"
proof (rule part_okI)
  show "only_at {''streaming_providers'', ''sps''} plain_list" "only_at {''streaming_providers'', ''sps''} clear_list"
    by (simp_all add: only_at_def plain_list_def clear_list_def single_named_def)
  fix p acc :: dict
  assume plain: "plain_list p" and pp: "proper (JDict p)"
  have single: "single_named ''streaming_providers'' ''sps'' p" using plain by (simp add: plain_list_def)
  note first = first_key_single[OF _ single, of is_list, simplified]
  show "one_split ''streaming_providers'' ''sps'' (\<lambda>s t. bind_result (py_iter s) (\<lambda>ss. merge_entries ss t)) clear_list p acc
    (extract_provider_list p acc)"
  proof (cases "first_key is_list [''streaming_providers'', ''sps''] p")
    case None
    then have "clear_list p"
      using first by (auto simp: clear_list_def is_list_def split: option.splits json.splits)
    then show ?thesis using None by (simp add: one_split_def extract_provider_list_def)
  next
    case (Some k)
    then obtain v where v: "map_of p k = Some v" "is_list v" and k: "k \<in> {''streaming_providers'', ''sps''}"
      and other: "\<forall>j \<in> {''streaming_providers'', ''sps''}. j \<noteq> k \<longrightarrow> map_of p j = None"
      using first by auto
    then obtain ps where ps: "v = JList ps" by (cases v) (simp_all add: is_list_def)
    have "list_all plain_provider ps" "list_all proper ps"
      using plain k v(1) proper_lookup[OF pp v(1)] by (auto simp: plain_list_def ps)
    from providers_roundtrip[OF this, of 0] obtain ps' found where
      split: "extract_providers 0 ps = Inr (ps', found)" "list_all clear_provider ps'" "list_all proper ps'"
        "found = [] \<longrightarrow> list_all2 py_eq ps ps'"
      and merge: "\<exists>rs. merge_entries found (JList ps') = Inr (JList rs) \<and> list_all2 py_eq ps rs"
      by fastforce
    have "extract_provider_list p acc =
        Inr (AList.update k (JList ps') p, case (if found = [] then None else Some (JList found)) of None \<Rightarrow> acc | Some x \<Rightarrow> AList.update k x acc)"
      using Some v(1) split(1) by (simp add: extract_provider_list_def ps)
    moreover have "clear_list (AList.update k (JList ps') p)"
      using k other split(2) by (auto simp: clear_list_def update_conv' split: option.splits)
    moreover have "case (if found = [] then None else Some (JList found)) of
        None \<Rightarrow> py_eq v (JList ps')
      | Some x \<Rightarrow> \<exists>w. bind_result (py_iter x) (\<lambda>ss. merge_entries ss (JList ps')) = Inr w \<and> py_eq v w"
      using split(4) merge by (auto simp: ps py_eq_list simp del: py_eq.simps)
    ultimately show ?thesis
      using split(3) by (intro one_splitI[OF k v(1) other]) simp_all
  qed
qed

section \<open>The single provider and the external services\<close>

lemma with_index_None: "with_index None s = s"
  by (simp add: with_index_def)

lemma legacy_part:
  "part_ok {''streaming_provider'', ''sp''} extract_legacy_provider
     (merge_part ''streaming_provider'' ''sp'' (JDict []) (\<lambda>s t. merge_provider_secrets t s)) plain_legacy clear_legacy"
proof (rule part_okI)
  show "only_at {''streaming_provider'', ''sp''} plain_legacy" "only_at {''streaming_provider'', ''sp''} clear_legacy"
    by (simp_all add: only_at_def plain_legacy_def clear_legacy_def single_named_def)
  fix p acc :: dict
  assume plain: "plain_legacy p" and pp: "proper (JDict p)"
  have single: "single_named ''streaming_provider'' ''sp'' p" using plain by (simp add: plain_legacy_def)
  have first: "(first_key (\<lambda>v. truthy v \<and> is_dict v) [''streaming_provider'', ''sp''] p = None \<longrightarrow>
      (\<forall>k \<in> {''streaming_provider'', ''sp''}. \<forall>v. map_of p k = Some v \<longrightarrow> \<not> (truthy v \<and> is_dict v))) \<and>
    (\<forall>k. first_key (\<lambda>v. truthy v \<and> is_dict v) [''streaming_provider'', ''sp''] p = Some k \<longrightarrow>
      k \<in> {''streaming_provider'', ''sp''} \<and> (\<exists>v. map_of p k = Some v \<and> (truthy v \<and> is_dict v)) \<and>
      (\<forall>j \<in> {''streaming_provider'', ''sp''}. j \<noteq> k \<longrightarrow> map_of p j = None))"
    by (rule first_key_single[OF _ single]) simp
  show "one_split ''streaming_provider'' ''sp'' (\<lambda>s t. merge_provider_secrets t s) clear_legacy p acc (extract_legacy_provider p acc)"
  proof (cases "first_key (\<lambda>v. truthy v \<and> is_dict v) [''streaming_provider'', ''sp''] p")
    case None
    have falsy: "clear_provider v" if "\<not> (truthy v \<and> is_dict v)" for v
    proof (cases v)
      case (JDict d)
      then have "d = []" using that by (simp add: is_dict_def)
      then show ?thesis
        by (simp add: JDict clear_provider_def clear_at_def clear_nested_def clear_inside_def list_all_iff case_prod_beta)
    qed (simp_all add: clear_provider_def)
    have clear: "clear_legacy p"
    proof -
      have "case map_of p k of Some v \<Rightarrow> clear_provider v | None \<Rightarrow> True"
        if "k \<in> {''streaming_provider'', ''sp''}" for k
        using first[THEN conjunct1, rule_format, OF None that] falsy by (cases "map_of p k") simp_all
      then show ?thesis by (simp add: clear_legacy_def)
    qed
    have "extract_legacy_provider p acc = Inr (p, acc)"
      unfolding extract_legacy_provider_def None by simp
    then show ?thesis unfolding one_split_def using clear by blast
  next
    case (Some k)
    then obtain v where v: "map_of p k = Some v" "truthy v \<and> is_dict v" and k: "k \<in> {''streaming_provider'', ''sp''}"
      and other: "\<forall>j \<in> {''streaming_provider'', ''sp''}. j \<noteq> k \<longrightarrow> map_of p j = None"
      using first[THEN conjunct2] by blast
    then obtain d where d: "v = JDict d" by (cases v) (simp_all add: is_dict_def)
    have "plain_provider (JDict d)" "proper (JDict d)"
      using plain k v(1) proper_lookup[OF pp v(1)] by (auto simp: plain_legacy_def d)
    from provider_roundtrip[OF this, of None] obtain d' s where
      split: "extract_provider_secrets None d = Inr (JDict d', s)" "proper (JDict d')" "clear_provider (JDict d')"
      and back_again: "if s = [] then py_eq (JDict d) (JDict d')
        else \<exists>r. merge_provider_secrets (JDict d') (JDict s) = Inr r \<and> py_eq (JDict d) r"
      unfolding with_index_None by (elim exE conjE) (rule that)
    have c1: "extract_legacy_provider p acc =
        Inr (AList.update k (JDict d') p, case (if s = [] then None else Some (JDict s)) of None \<Rightarrow> acc | Some x \<Rightarrow> AList.update k x acc)"
      using Some v(1) split(1) by (simp add: extract_legacy_provider_def d)
    have c2: "clear_legacy (AList.update k (JDict d') p)"
      using k other split(3) by (auto simp: clear_legacy_def update_conv' split: option.splits)
    have c3: "case (if s = [] then None else Some (JDict s)) of
        None \<Rightarrow> py_eq v (JDict d') | Some x \<Rightarrow> \<exists>w. merge_provider_secrets (JDict d') x = Inr w \<and> py_eq v w"
      using back_again by (simp add: d del: py_eq.simps)
    show ?thesis
      unfolding one_split_def
      by (rule disjI2, rule exI[of _ k], rule exI[of _ v], rule exI[of _ "JDict d'"],
          rule exI[of _ "if s = [] then None else Some (JDict s)"])
        (intro conjI k v(1) other c1 split(2) c2 c3)
  qed
qed

lemma external_part:
  assumes "f \<noteq> a" and "field_names fields \<subseteq> set names"
  shows "part_ok {f, a} (extract_nested (f, a, fields)) (merge_part f a (JDict []) (put_fields set_own names))
    (plain_spec (f, a, fields)) (clear_nested [(f, a, fields)])"
proof (rule part_okI)
  show "only_at {f, a} (plain_spec (f, a, fields))" "only_at {f, a} (clear_nested [(f, a, fields)])"
    by (simp_all add: only_at_def plain_spec_def clear_nested_def clear_inside_def single_named_def)
  fix p acc :: dict
  assume plain: "plain_spec (f, a, fields) p" and pp: "proper (JDict p)"
  show "one_split f a (put_fields set_own names) (clear_nested [(f, a, fields)]) p acc (extract_nested (f, a, fields) p acc)"
    using plain pp
  proof (cases rule: extract_nested_cases[where acc = acc])
    case same
    then show ?thesis by (simp add: one_split_def clear_nested_def clear_inside_falsy)
  next
    case (split k n n' t T)
    have pn: "proper (JDict n)" by (rule proper_lookup[OF pp split(2)])
    have pn': "proper (JDict n')" by (rule proper_submap[OF pn split(6,8)])
    have c2: "clear_nested [(f, a, fields)] (AList.update k (JDict n') p)"
      using split(1,3,9) by (auto simp: clear_nested_def clear_inside_def update_conv' split: option.splits)
    have c3: "case (if t = [] then None else Some (JDict t)) of
        None \<Rightarrow> py_eq (JDict n) (JDict n') | Some x \<Rightarrow> \<exists>w. put_fields set_own names x (JDict n') = Inr w \<and> py_eq (JDict n) w"
    proof (cases "t = []")
      case True
      then have "map_of n' = map_of n"
        using split(6,7) by (auto simp: fun_eq_iff restrict_map_def split: if_splits)
      then show ?thesis using same_dict[OF pn] True by (simp del: py_eq.simps)
    next
      case False
      from put_fields_own[of names t n'] obtain u where
        u: "put_fields set_own names (JDict t) (JDict n') = Inr (JDict u)" "map_of u = map_of n' ++ (map_of t |` set names)"
        by blast
      have "map_of u = map_of n" by (rule rejoin[OF split(6,7) _ u(2)]) (use split(5) assms(2) in blast)
      then show ?thesis using same_dict[OF pn] u(1) False by (simp del: py_eq.simps)
    qed
    have c1: "extract_nested (f, a, fields) p acc =
        Inr (AList.update k (JDict n') p, case (if t = [] then None else Some (JDict t)) of None \<Rightarrow> acc | Some x \<Rightarrow> AList.update k x acc)"
      unfolding split(4) by (cases "t = []") simp_all
    have other: "\<forall>j \<in> {f, a}. j \<noteq> k \<longrightarrow> map_of p j = None" by (intro ballI impI) (rule split(3))
    show ?thesis
      unfolding one_split_def
      by (rule disjI2, rule exI[of _ k], rule exI[of _ "JDict n"], rule exI[of _ "JDict n'"],
          rule exI[of _ "if t = [] then None else Some (JDict t)"])
        (intro conjI split(1,2) other c1 pn' c2 c3)
  qed
qed

section \<open>The whole configuration\<close>

definition plain_config :: "dict \<Rightarrow> bool" where
  "plain_config c =
     (proper (JDict c) \<and> plain_list c \<and> plain_legacy c \<and> list_all (\<lambda>spec. plain_spec spec c) external_configs \<and>
      single_named ''api_password'' ''ap'' c)"

definition clear_config :: "dict \<Rightarrow> bool" where
  "clear_config c =
     (clear_list c \<and> clear_legacy c \<and> clear_nested external_configs c \<and> clear_at c ''api_password'' \<and> clear_at c ''ap'')"

text \<open>The key of the API password loses its alias: it comes back under its full name.\<close>

definition rename_api_password :: "dict \<Rightarrow> dict" where
  "rename_api_password c =
     (if clear_at c ''ap'' then c else AList.update ''api_password'' (the (map_of c ''ap'')) (AList.delete ''ap'' c))"

definition config_keys :: "string set" where
  "config_keys =
     {''streaming_providers'', ''sps'', ''streaming_provider'', ''sp'', ''mediaflow_config'', ''mfc'', ''rpdb_config'', ''rpc'',
      ''mdblist_config'', ''mdb''}"

definition extract_parts :: "dict \<Rightarrow> dict \<Rightarrow> (dict \<times> dict) py_result" where
  "extract_parts p acc =
     bind_result (extract_provider_list p acc) (\<lambda>(p', acc').
       bind_result (extract_legacy_provider p' acc') (\<lambda>(p', acc'). extract_all_nested external_configs p' acc'))"

definition merge_parts :: "dict \<Rightarrow> dict \<Rightarrow> dict py_result" where
  "merge_parts s q =
     bind_result (merge_part ''streaming_providers'' ''sps'' (JList [])
         (\<lambda>s t. bind_result (py_iter s) (\<lambda>ss. merge_entries ss t)) s q) (\<lambda>c1.
       bind_result (merge_part ''streaming_provider'' ''sp'' (JDict []) (\<lambda>s t. merge_provider_secrets t s) s c1) (\<lambda>c2.
         bind_result (merge_part ''mediaflow_config'' ''mfc'' (JDict []) (put_fields set_own [''api_password'', ''ap'']) s c2) (\<lambda>c3.
           bind_result (merge_part ''rpdb_config'' ''rpc'' (JDict []) (put_fields set_own [''api_key'', ''ak'']) s c3)
             (merge_part ''mdblist_config'' ''mdb'' (JDict []) (put_fields set_own [''api_key'', ''ak'']) s))))"

lemma extract_secrets_parts:
  "extract_secrets c = bind_result (extract_parts c []) (\<lambda>(c', s'). Inr (extract_api_password c' s'))"
  by (simp add: extract_secrets_def extract_parts_def bind_result_def split: sum.splits prod.splits)

lemma merge_secrets_parts: "merge_secrets c s = bind_result (merge_parts s c) (\<lambda>c'. Inr (merge_api_password s c'))"
  by (simp add: merge_secrets_def merge_parts_def bind_result_assoc)

lemma all_parts:
  "part_ok config_keys extract_parts merge_parts
     (\<lambda>p. plain_list p \<and> plain_legacy p \<and> list_all (\<lambda>spec. plain_spec spec p) external_configs)
     (\<lambda>p. clear_list p \<and> clear_legacy p \<and> clear_nested external_configs p)"
proof -
  have e1: "part_ok {''mediaflow_config'', ''mfc''} (extract_nested (''mediaflow_config'', ''mfc'', [(''api_password'', ''ap'')]))
      (merge_part ''mediaflow_config'' ''mfc'' (JDict []) (put_fields set_own [''api_password'', ''ap'']))
      (plain_spec (''mediaflow_config'', ''mfc'', [(''api_password'', ''ap'')]))
      (clear_nested [(''mediaflow_config'', ''mfc'', [(''api_password'', ''ap'')])])"
    by (rule external_part) (simp_all add: field_names_def)
  have e2: "part_ok {''rpdb_config'', ''rpc''} (extract_nested (''rpdb_config'', ''rpc'', [(''api_key'', ''ak'')]))
      (merge_part ''rpdb_config'' ''rpc'' (JDict []) (put_fields set_own [''api_key'', ''ak'']))
      (plain_spec (''rpdb_config'', ''rpc'', [(''api_key'', ''ak'')])) (clear_nested [(''rpdb_config'', ''rpc'', [(''api_key'', ''ak'')])])"
    by (rule external_part) (simp_all add: field_names_def)
  have e3: "part_ok {''mdblist_config'', ''mdb''} (extract_nested (''mdblist_config'', ''mdb'', [(''api_key'', ''ak'')]))
      (merge_part ''mdblist_config'' ''mdb'' (JDict []) (put_fields set_own [''api_key'', ''ak'']))
      (plain_spec (''mdblist_config'', ''mdb'', [(''api_key'', ''ak'')])) (clear_nested [(''mdblist_config'', ''mdb'', [(''api_key'', ''ak'')])])"
    by (rule external_part) (simp_all add: field_names_def)
  note compose = part_compose[OF list_part part_compose[OF legacy_part part_compose[OF e1 part_compose[OF e2 e3]]]]
  have keys: "{''streaming_providers'', ''sps''} \<union> ({''streaming_provider'', ''sp''} \<union>
      ({''mediaflow_config'', ''mfc''} \<union> ({''rpdb_config'', ''rpc''} \<union> {''mdblist_config'', ''mdb''}))) = config_keys"
    by (simp add: config_keys_def insert_commute)
  have plain: "(\<lambda>p. plain_list p \<and> plain_legacy p \<and> plain_spec (''mediaflow_config'', ''mfc'', [(''api_password'', ''ap'')]) p \<and>
      plain_spec (''rpdb_config'', ''rpc'', [(''api_key'', ''ak'')]) p \<and> plain_spec (''mdblist_config'', ''mdb'', [(''api_key'', ''ak'')]) p) =
      (\<lambda>p. plain_list p \<and> plain_legacy p \<and> list_all (\<lambda>spec. plain_spec spec p) external_configs)"
    by (simp add: external_configs_def)
  have clear: "(\<lambda>p. clear_list p \<and> clear_legacy p \<and> clear_nested [(''mediaflow_config'', ''mfc'', [(''api_password'', ''ap'')])] p \<and>
      clear_nested [(''rpdb_config'', ''rpc'', [(''api_key'', ''ak'')])] p \<and> clear_nested [(''mdblist_config'', ''mdb'', [(''api_key'', ''ak'')])] p) =
      (\<lambda>p. clear_list p \<and> clear_legacy p \<and> clear_nested external_configs p)"
    by (simp add: external_configs_def clear_nested_def)
  have ex: "(\<lambda>p acc. bind_result (extract_provider_list p acc) (\<lambda>(p', acc').
      bind_result (extract_legacy_provider p' acc') (\<lambda>(p', acc').
        bind_result (extract_nested (''mediaflow_config'', ''mfc'', [(''api_password'', ''ap'')]) p' acc') (\<lambda>(p', acc').
          bind_result (extract_nested (''rpdb_config'', ''rpc'', [(''api_key'', ''ak'')]) p' acc')
            (\<lambda>(p', acc'). extract_nested (''mdblist_config'', ''mdb'', [(''api_key'', ''ak'')]) p' acc'))))) = extract_parts"
    by (intro ext) (simp add: extract_parts_def external_configs_def bind_result_def split: sum.splits prod.splits)
  have mg: "(\<lambda>s q. bind_result (merge_part ''streaming_providers'' ''sps'' (JList [])
         (\<lambda>s t. bind_result (py_iter s) (\<lambda>ss. merge_entries ss t)) s q) (\<lambda>q.
       bind_result (merge_part ''streaming_provider'' ''sp'' (JDict []) (\<lambda>s t. merge_provider_secrets t s) s q) (\<lambda>q.
         bind_result (merge_part ''mediaflow_config'' ''mfc'' (JDict []) (put_fields set_own [''api_password'', ''ap'']) s q) (\<lambda>q.
           bind_result (merge_part ''rpdb_config'' ''rpc'' (JDict []) (put_fields set_own [''api_key'', ''ak'']) s q)
             (merge_part ''mdblist_config'' ''mdb'' (JDict []) (put_fields set_own [''api_key'', ''ak'']) s))))) = merge_parts"
    by (intro ext) (simp add: merge_parts_def)
  from compose show ?thesis unfolding keys plain clear ex mg by simp
qed

lemma first_password:
  assumes "single_named ''api_password'' ''ap'' c"
  shows "first_key truthy [''api_password'', ''ap''] c =
    (if \<not> clear_at c ''api_password'' then Some ''api_password'' else if \<not> clear_at c ''ap'' then Some ''ap'' else None)"
  using assms by (auto simp: first_key_def single_named_def clear_at_def split: option.splits)

lemma password_cases:
  assumes "single_named ''api_password'' ''ap'' c"
  obtains (none) "clear_at c ''api_password''" "clear_at c ''ap''"
  | (full) v where "map_of c ''api_password'' = Some v" "truthy v" "map_of c ''ap'' = None"
  | (short) v where "map_of c ''ap'' = Some v" "truthy v" "map_of c ''api_password'' = None"
  using assms by (cases "map_of c ''api_password''"; cases "map_of c ''ap''") (auto simp: single_named_def clear_at_def)

text \<open>The split of a plain configuration, its merging, and what is left in the clear.\<close>

lemma secrets_core:
  assumes "plain_config c"
  obtains clean s r where "extract_secrets c = Inr (clean, s)" "clear_config clean" "merge_secrets clean s = Inr r"
    "py_eq (JDict (rename_api_password c)) (JDict r)"
proof -
  have plain: "plain_list c \<and> plain_legacy c \<and> list_all (\<lambda>spec. plain_spec spec c) external_configs"
    and pc: "proper (JDict c)" and single: "single_named ''api_password'' ''ap'' c"
    using assms unfolding plain_config_def by blast+
  have refl: "rel_option py_eq (map_of c k) (map_of c k)" for k
    using py_eq_refl[OF proper_lookup[OF pc, of k]] by (cases "map_of c k") simp_all
  obtain d t where parts: "extract_parts c [] = Inr (d, t)"
    "\<forall>k. k \<notin> config_keys \<longrightarrow> map_of d k = map_of c k \<and> map_of t k = map_of [] k"
    "clear_list d \<and> clear_legacy d \<and> clear_nested external_configs d" "proper (JDict d)" "restores config_keys merge_parts c d t"
    by (rule part_okD[OF all_parts plain pc, of "[]"]) (simp, rule that)
  have A: "''api_password'' \<notin> config_keys" "''ap'' \<notin> config_keys" by (simp_all add: config_keys_def)
  have dA: "map_of d ''api_password'' = map_of c ''api_password''" "map_of d ''ap'' = map_of c ''ap''"
    "map_of t ''api_password'' = None" "map_of t ''ap'' = None"
    using parts(2) A by simp_all
  have singled: "single_named ''api_password'' ''ap'' d" using single dA by (simp add: single_named_def)
  have local: "only_at config_keys (\<lambda>p. clear_list p \<and> clear_legacy p \<and> clear_nested external_configs p)"
    using all_parts by (simp add: part_ok_def)
  define clean s where "clean = fst (extract_api_password d t)" and "s = snd (extract_api_password d t)"
  have extracted: "extract_secrets c = Inr (clean, s)"
    by (simp add: extract_secrets_parts parts(1) clean_def s_def)
  have password: "extract_api_password d t =
      (if \<not> clear_at d ''api_password'' then (AList.delete ''api_password'' d, AList.update ''api_password'' (the (map_of d ''api_password'')) t)
       else if \<not> clear_at d ''ap'' then (AList.delete ''ap'' d, AList.update ''ap'' (the (map_of d ''ap'')) t) else (d, t))"
    by (simp add: extract_api_password_def first_password[OF singled])
  have K: "\<forall>k \<in> config_keys. map_of s k = map_of t k \<and> map_of clean k = map_of d k"
    using A by (auto simp: clean_def s_def password update_conv' delete_conv')
  have dclean: "distinct (map fst clean)"
    using parts(4) distinct_delete[of d] by (simp add: clean_def password)
  obtain q where q: "merge_parts s clean = Inr q" "distinct (map fst q)" "\<forall>k. k \<notin> config_keys \<longrightarrow> map_of q k = map_of clean k"
    "\<forall>k \<in> config_keys. rel_option py_eq (map_of c k) (map_of q k)"
    using restoresD[OF parts(5) K dclean] by blast
  have qA: "map_of q ''api_password'' = map_of clean ''api_password''" "map_of q ''ap'' = map_of clean ''ap''"
    using q(3) A by simp_all
  have off: "map_of clean k = map_of c k" if "k \<notin> config_keys" "k \<noteq> ''api_password''" "k \<noteq> ''ap''" for k
    using that parts(2) by (simp add: clean_def password delete_conv')
  let ?r = "merge_api_password s q"
  have merged: "merge_secrets clean s = Inr ?r" by (simp add: merge_secrets_parts q(1))
  have "clear_at clean ''api_password'' \<and> clear_at clean ''ap''"
    using singled by (cases rule: password_cases) (auto simp: clean_def password delete_conv' clear_at_def)
  moreover have "clear_list clean \<and> clear_legacy clean \<and> clear_nested external_configs clean"
    using local K parts(3) unfolding only_at_def by blast
  ultimately have clear: "clear_config clean" by (simp add: clear_config_def)
  have pointwise: "rel_option py_eq (map_of (rename_api_password c) k) (map_of ?r k)" for k
    using single
  proof (cases rule: password_cases)
    case none
    then have s: "s = t" "clean = d" using dA by (simp_all add: s_def clean_def password clear_at_def)
    have "?r = q" using dA(3,4) by (simp add: merge_api_password_def present_key_def s(1))
    moreover have "rename_api_password c = c" using none by (simp add: rename_api_password_def)
    ultimately show ?thesis
      using q(3,4) parts(2) s(2) refl[of k] by (cases "k \<in> config_keys") simp_all
  next
    case (full v)
    then have s: "s = AList.update ''api_password'' v t" "clean = AList.delete ''api_password'' d"
      using dA by (simp_all add: s_def clean_def password clear_at_def)
    have "?r = AList.update ''api_password'' v q"
      using dA(2) full(3) qA by (simp add: merge_api_password_def present_key_def s update_conv' delete_conv')
    moreover have "rename_api_password c = c" using full(3) by (simp add: rename_api_password_def clear_at_def)
    ultimately show ?thesis
      using q(3,4) off[of k] refl[of k] full A qA dA(2)
      by (cases "k \<in> config_keys"; cases "k = ''api_password''"; cases "k = ''ap''") (simp_all add: update_conv' s(2) delete_conv')
  next
    case (short v)
    then have s: "s = AList.update ''ap'' v t" "clean = AList.delete ''ap'' d"
      using dA by (simp_all add: s_def clean_def password clear_at_def)
    have "?r = AList.update ''api_password'' v q"
      using dA(1,3) short(3) qA by (simp add: merge_api_password_def present_key_def s update_conv' delete_conv')
    moreover have "rename_api_password c = AList.update ''api_password'' v (AList.delete ''ap'' c)"
      using short by (simp add: rename_api_password_def clear_at_def)
    moreover have "py_eq v v" using py_eq_refl[OF proper_lookup[OF pc short(1)]] .
    ultimately show ?thesis
      using q(3,4) off[of k] refl[of k] short A qA dA(1)
      by (cases "k \<in> config_keys"; cases "k = ''api_password''"; cases "k = ''ap''") (simp_all add: update_conv' s(2) delete_conv')
  qed
  have "proper (JDict (rename_api_password c))"
  proof (cases "clear_at c ''ap''")
    case False
    then have "map_of c ''ap'' = Some (the (map_of c ''ap''))" by (rule not_clear_at)
    from proper_update[OF proper_delete[OF pc] proper_lookup[OF pc this]] show ?thesis
      unfolding rename_api_password_def using False by (simp only: if_False)
  qed (use pc in \<open>simp add: rename_api_password_def\<close>)
  then have "distinct (map fst (rename_api_password c))" by simp
  then have "py_eq (JDict (rename_api_password c)) (JDict ?r)" by (rule py_eq_dictI[OF _ pointwise])
  then show ?thesis by (rule that[OF extracted clear merged])
qed

section \<open>Properties\<close>


definition sample_profile :: dict where
  "sample_profile =
     [(''sps'', JList
        [JDict [(''sv'', JStr ''realdebrid''), (''tk'', JStr ''secret''), (''em'', JStr [])],
         JDict [(''sv'', JStr ''qbittorrent''), (''qbc'', JDict [(''qur'', JStr ''http://h''), (''qpw'', JStr ''pass'')])]]),
      (''mfc'', JDict [(''pu'', JStr ''http://m''), (''ap'', JStr ''key'')]), (''ap'', JStr ''instance'')]"

lemma sample_profile_plain: "plain_config sample_profile"
  by code_simp




end
