(* ===== verification/Profile_Edit_Correct.thy ===== *)
theory Profile_Edit_Correct
  imports Profile_Edit Profile_Roundtrip
begin

text \<open>
  What an edit of a profile keeps: \<open>hides\<close> relates a configuration to a masked copy of it, masking
  hides, and merging and restoring bring back what was hidden. The last part holds what is not
  protected: secrets restored by position, the instance's key and the credentials of Easynews.
\<close>

section \<open>What a mask hides\<close>

text \<open>\<open>hides v w\<close>: \<open>w\<close> is \<open>v\<close> with some values under secret keys masked.\<close>

inductive hides :: "json \<Rightarrow> json \<Rightarrow> bool" where
  atom: "\<not> is_dict v \<Longrightarrow> \<not> is_list v \<Longrightarrow> hides v v"
| dict: "list_all2 (\<lambda>x y. fst y = fst x \<and> (hides (snd x) (snd y) \<or> (fst x \<in> set SECRET_KEYS \<and> snd y = JStr MASK))) a b \<Longrightarrow>
     hides (JDict a) (JDict b)"
| list: "list_all2 (\<lambda>v w. (is_dict v \<and> hides v w) \<or> (\<not> is_dict v \<and> v = w)) vs ws \<Longrightarrow> hides (JList vs) (JList ws)"

lemma kind_simps [simp]:
  "is_dict (JDict d)" "is_list (JList vs)" "\<not> is_dict (JList vs)" "\<not> is_list (JDict d)" "\<not> is_dict (JStr s)" "\<not> is_list (JStr s)"
  by (simp_all add: is_dict_def is_list_def)

inductive_cases hides_dictE: "hides (JDict a) w"
inductive_cases hides_listE: "hides (JList vs) w"
inductive_cases hides_strE: "hides (JStr s) w"

lemma hides_refl: "hides v v"
proof (induction v)
  case (JDict kvs)
  have "list_all2 (\<lambda>x y. fst y = fst x \<and> (hides (snd x) (snd y) \<or> (fst x \<in> set SECRET_KEYS \<and> snd y = JStr MASK))) kvs kvs"
    by (rule list.rel_refl_strong) (use JDict in force)
  then show ?case by (rule hides.dict)
next
  case (JList vs)
  have "list_all2 (\<lambda>v w. (is_dict v \<and> hides v w) \<or> (\<not> is_dict v \<and> v = w)) vs vs"
    by (rule list.rel_refl_strong) (use JList in simp)
  then show ?case by (rule hides.list)
qed (rule hides.atom; simp add: is_dict_def is_list_def)+

lemma hides_kind: "hides v w \<Longrightarrow> is_dict w = is_dict v \<and> is_list w = is_list v \<and> (\<not> is_dict v \<longrightarrow> \<not> is_list v \<longrightarrow> w = v)"
  by (cases rule: hides.cases) (auto simp: is_dict_def is_list_def)

abbreviation hides_item :: "string \<times> json \<Rightarrow> string \<times> json \<Rightarrow> bool" where
  "hides_item \<equiv> \<lambda>x y. fst y = fst x \<and> (hides (snd x) (snd y) \<or> (fst x \<in> set SECRET_KEYS \<and> snd y = JStr MASK))"

abbreviation hides_entry :: "json \<Rightarrow> json \<Rightarrow> bool" where
  "hides_entry \<equiv> \<lambda>v w. (is_dict v \<and> hides v w) \<or> (\<not> is_dict v \<and> v = w)"

lemma hides_trans: "hides u v \<Longrightarrow> hides v w \<Longrightarrow> hides u w"
proof (induction u v arbitrary: w rule: hides.induct)
  case (dict a b)
  from dict.prems obtain c where w: "w = JDict c" and bc: "list_all2 hides_item b c"
    by (rule hides_dictE) simp_all
  have "list_all2 hides_item a c"
    using dict.IH bc
  proof (rule list_all2_trans[rotated])
    fix x y z
    assume xy: "fst y = fst x \<and> ((hides (snd x) (snd y) \<and> (\<forall>z. hides (snd y) z \<longrightarrow> hides (snd x) z)) \<or>
        (fst x \<in> set SECRET_KEYS \<and> snd y = JStr MASK))"
      and yz: "hides_item y z"
    show "hides_item x z"
      using xy yz by (auto elim: hides_strE)
  qed
  then show ?case unfolding w by (rule hides.dict)
next
  case (list vs ws)
  from list.prems obtain us where w: "w = JList us" and bc: "list_all2 hides_entry ws us"
    by (rule hides_listE) simp_all
  have "list_all2 hides_entry vs us"
    using list.IH bc
  proof (rule list_all2_trans[rotated])
    fix x y z
    assume xy: "(is_dict x \<and> hides x y \<and> (\<forall>z. hides y z \<longrightarrow> hides x z)) \<or> (\<not> is_dict x \<and> x = y)" and yz: "hides_entry y z"
    then show "hides_entry x z" using hides_kind[of x y] by auto
  qed
  then show ?case unfolding w by (rule hides.list)
qed

section \<open>Masking hides\<close>

lemma hides_update:
  assumes "distinct (map fst m)" and "map_of m k = Some v" and "hides v w \<or> (k \<in> set SECRET_KEYS \<and> w = JStr MASK)"
  shows "hides (JDict m) (JDict (AList.update k w m))"
proof -
  have "list_all2 hides_item m (AList.update k w m)"
    using assms(1,2)
  proof (induction m)
    case (Cons x m)
    show ?case
    proof (cases "fst x = k")
      case True
      then have "snd x = v" using Cons.prems(2) by (cases x) simp
      moreover have "list_all2 hides_item m m" by (rule list.rel_refl_strong) (simp add: hides_refl)
      ultimately show ?thesis using True assms(3) by (cases x) simp
    next
      case False
      then show ?thesis using Cons by (cases x) (simp add: hides_refl)
    qed
  qed simp
  then show ?thesis by (rule hides.dict)
qed

lemma hides_proper: "hides v w \<Longrightarrow> proper v \<Longrightarrow> proper w"
proof (induction rule: hides.induct)
  case (dict a b)
  have "map fst b = map fst a" using dict.IH by (induction rule: list_all2_induct) auto
  moreover have "list_all (\<lambda>(k, v). proper v) b"
    using dict.IH dict.prems
  proof (induction rule: list_all2_induct)
    case (Cons x xs y ys)
    then show ?case by (cases x; cases y) auto
  qed simp
  ultimately show ?case using dict.prems by simp
next
  case (list vs ws)
  show ?case using list.IH list.prems by (induction rule: list_all2_induct) auto
qed

text \<open>A step of masking: when it succeeds on a proper value it hides.\<close>

definition hiding :: "(json \<Rightarrow> json py_result) \<Rightarrow> bool" where
  "hiding f = (\<forall>v w. proper v \<longrightarrow> f v = Inr w \<longrightarrow> hides v w)"

lemma hiding_bind: "hiding f \<Longrightarrow> hiding g \<Longrightarrow> hiding (\<lambda>v. bind_result (f v) g)"
  unfolding hiding_def bind_result_eq_Inr by (meson hides_trans hides_proper)

lemma hiding_mask_fields: "set fs \<subseteq> set SECRET_KEYS \<Longrightarrow> hiding (mask_fields fs)"
proof (induction fs)
  case Nil
  then show ?case by (simp add: hiding_def hides_refl)
next
  case (Cons f fs)
  then have ih: "hiding (mask_fields fs)" and f: "f \<in> set SECRET_KEYS" by simp_all
  show ?case
    unfolding hiding_def
  proof (intro allI impI)
    fix v w assume v: "proper v" and w: "mask_fields (f # fs) v = Inr w"
    then obtain b where b: "has_value f v = Inr b" by (auto simp: bind_result_eq_Inr)
    show "hides v w"
    proof (cases b)
      case False
      then show ?thesis using b v w ih by (simp add: hiding_def)
    next
      case True
      then obtain u where u: "py_setitem v f (JStr MASK) = Inr u" "mask_fields fs u = Inr w"
        using b w by (auto simp: bind_result_eq_Inr)
      then obtain m where m: "v = JDict m" "u = JDict (AList.update f (JStr MASK) m)" by (cases v) simp_all
      obtain x where "map_of m f = Some x" using b True m(1) by (cases "map_of m f") simp_all
      then have "hides v u" unfolding m using v f by (intro hides_update) (simp_all add: m(1))
      then show ?thesis using ih u(2) v hides_proper hides_trans unfolding hiding_def by blast
    qed
  qed
qed

lemma hiding_mask_inside: "hiding f \<Longrightarrow> hiding (mask_inside f ks)"
proof (induction ks)
  case Nil
  then show ?case by (simp add: hiding_def hides_refl)
next
  case (Cons k ks)
  then have ih: "hiding (mask_inside f ks)" by simp
  show ?case
    unfolding hiding_def
  proof (intro allI impI)
    fix v w assume v: "proper v" and w: "mask_inside f (k # ks) v = Inr w"
    then obtain b where b: "has_value k v = Inr b" by (auto simp: bind_result_eq_Inr)
    show "hides v w"
    proof (cases b)
      case False
      then show ?thesis using b v w ih by (simp add: hiding_def)
    next
      case True
      then obtain x y u where u: "py_getitem v k = Inr x" "f x = Inr y" "py_setitem v k y = Inr u" "mask_inside f ks u = Inr w"
        using b w by (auto simp: bind_result_eq_Inr)
      then obtain m where m: "v = JDict m" "u = JDict (AList.update k y m)" by (cases v) simp_all
      have x: "map_of m k = Some x" using u(1) m(1) by (simp split: option.splits)
      then have y: "hides x y" using Cons.prems u(2) proper_lookup[OF v[unfolded m(1)] x] by (simp add: hiding_def)
      have "distinct (map fst m)" using v by (simp add: m(1))
      then have "hides v u" unfolding m by (rule hides_update[OF _ x disjI1[OF y]])
      then show ?thesis using ih u(4) v hides_proper hides_trans unfolding hiding_def by blast
    qed
  qed
qed

lemma hiding_Inr: "hiding Inr"
  by (simp add: hiding_def hides_refl)

lemma hiding_mask_nested:
  "list_all (\<lambda>(f, a, fields). set fields \<subseteq> set SECRET_KEYS) specs \<Longrightarrow> hiding (mask_nested specs)"
proof (induction specs)
  case Nil
  then show ?case by (simp add: hiding_def hides_refl)
next
  case (Cons spec specs)
  obtain f a fields where spec: "spec = (f, a, fields)" by (cases spec) auto
  have "mask_nested (spec # specs) = (\<lambda>v. bind_result (mask_inside (mask_fields fields) [f, a] v) (mask_nested specs))"
    by (rule ext) (simp add: spec)
  then show ?case
    using Cons by (simp only:) (intro hiding_bind hiding_mask_inside hiding_mask_fields; simp add: spec)
qed

lemma hiding_mask_provider: "hiding mask_provider"
proof -
  have "hiding (mask_nested masked_configs)"
    by (rule hiding_mask_nested) (simp add: masked_configs_def SECRET_KEYS_def)
  moreover have "hiding (mask_fields [''token'', ''tk'', ''password'', ''pw''])"
    by (rule hiding_mask_fields) (simp add: SECRET_KEYS_def)
  ultimately show ?thesis
    using hiding_bind unfolding mask_provider_def[abs_def] by blast
qed

lemma hiding_map_result:
  assumes "hiding f" and "map_result f vs = Inr ws" and "list_all proper vs"
    and "\<And>v w. f v = Inr w \<Longrightarrow> is_dict v \<or> v = w"
  shows "list_all2 hides_entry vs ws"
  using assms(2,3)
proof (induction vs arbitrary: ws)
  case (Cons v vs)
  then obtain w us where "f v = Inr w" "map_result f vs = Inr us" "ws = w # us"
    by (auto simp: bind_result_eq_Inr)
  then show ?case
    using Cons.IH[of us] Cons.prems assms(1) assms(4)[of v w] by (auto simp: hiding_def)
qed simp

lemma has_value_atom: "has_value k v = Inr True \<Longrightarrow> is_dict v"
  by (cases v) (auto simp: has_value_def split: if_splits)

lemma mask_fields_atom: "mask_fields fs v = Inr w \<Longrightarrow> is_dict v \<or> v = w"
proof (induction fs arbitrary: v)
  case (Cons f fs)
  then obtain b where b: "has_value f v = Inr b" by (auto simp: bind_result_eq_Inr)
  then show ?case using Cons has_value_atom[of f v] by (cases b) auto
qed simp

lemma mask_inside_atom: "mask_inside f ks v = Inr w \<Longrightarrow> is_dict v \<or> v = w"
proof (induction ks arbitrary: v)
  case (Cons k ks)
  then obtain b where b: "has_value k v = Inr b" by (auto simp: bind_result_eq_Inr)
  then show ?case using Cons has_value_atom[of k v] by (cases b) auto
qed simp

lemma mask_nested_atom: "mask_nested specs v = Inr w \<Longrightarrow> is_dict v \<or> v = w"
proof (induction specs arbitrary: v)
  case (Cons spec specs)
  obtain f a fields where spec: "spec = (f, a, fields)" by (cases spec) auto
  obtain u where "mask_inside (mask_fields fields) [f, a] v = Inr u" "mask_nested specs u = Inr w"
    using Cons.prems unfolding spec mask_nested.simps bind_result_eq_Inr by blast
  then show ?case using Cons.IH mask_inside_atom by blast
qed simp

lemma mask_provider_atom: "mask_provider v = Inr w \<Longrightarrow> is_dict v \<or> v = w"
  unfolding mask_provider_def bind_result_eq_Inr using mask_fields_atom mask_nested_atom by blast

lemma hiding_mask_provider_list: "hiding (mask_provider_list k)"
  unfolding hiding_def
proof (intro allI impI)
  fix v w assume v: "proper v" and w: "mask_provider_list k v = Inr w"
  show "hides v w"
  proof (cases "\<exists>m ps. v = JDict m \<and> map_of m k = Some (JList ps)")
    case True
    then obtain m ps where m: "v = JDict m" "map_of m k = Some (JList ps)" by blast
    obtain qs where qs: "map_result mask_provider ps = Inr qs" "w = JDict (AList.update k (JList qs) m)"
      using w m by (auto simp: mask_provider_list_def bind_result_eq_Inr)
    have "list_all proper ps" using proper_lookup[OF v[unfolded m(1)] m(2)] by simp
    then have "hides (JList ps) (JList qs)"
      by (intro hides.list hiding_map_result[OF hiding_mask_provider qs(1)]) (auto dest: mask_provider_atom)
    moreover have "distinct (map fst m)" using v m(1) by simp
    ultimately show ?thesis unfolding m(1) qs(2) by (intro hides_update[OF _ m(2)]) simp_all
  next
    case False
    then have "w = v"
      using w by (cases v) (auto simp: mask_provider_list_def bind_result_eq_Inr split: if_splits option.splits json.splits)
    then show ?thesis by (simp add: hides_refl)
  qed
qed

lemma mask_hides:
  assumes "proper (JDict c)" and "mask_secrets_for_display c = Inr w"
  shows "hides (JDict c) w"
proof -
  have field: "hiding (mask_fields [''api_password'', ''ap''])" "hiding (mask_fields [''api_key'', ''ak''])"
    by (rule hiding_mask_fields, simp add: SECRET_KEYS_def)+
  have "hiding (\<lambda>c. bind_result (mask_provider_list ''streaming_providers'' c) (\<lambda>c1.
       bind_result (mask_provider_list ''sps'' c1) (\<lambda>c2.
         bind_result (mask_inside mask_provider [''streaming_provider'', ''sp''] c2) (\<lambda>c3.
           bind_result (mask_inside (mask_fields [''api_password'', ''ap'']) [''mediaflow_config'', ''mfc''] c3) (\<lambda>c4.
             bind_result (mask_inside (mask_fields [''api_key'', ''ak'']) [''rpdb_config'', ''rpc''] c4) (\<lambda>c5.
               bind_result (mask_inside (mask_fields [''api_key'', ''ak'']) [''mdblist_config'', ''mdb''] c5)
                 (mask_fields [''api_password'', ''ap''])))))))"
    by (intro hiding_bind hiding_mask_provider_list hiding_mask_inside hiding_mask_provider field)
  then show ?thesis using assms unfolding hiding_def mask_secrets_for_display_def by blast
qed

section \<open>Editing a masked configuration\<close>

text \<open>A configuration the merge does not clear anything of: no nulls, no empty nested configurations.\<close>

fun stable :: "json \<Rightarrow> bool" where
  "stable (JDict kvs) =
     list_all (\<lambda>(k, v). v \<noteq> JNull \<and> \<not> (v = JDict [] \<and> map_of CLEAR_KEY_ALIAS_MAP k \<noteq> None) \<and> stable v) kvs"
| "stable _ = True"

lemma update_append: "k \<notin> fst ` set a \<Longrightarrow> AList.update k w (a @ (k, v) # b) = a @ (k, w) # b"
  by (induction a) auto

lemma hides_JNull: "hides v JNull \<longleftrightarrow> v = JNull"
  by (auto elim: hides.cases intro: hides_refl)

lemma hides_empty: "hides v (JDict []) \<longleftrightarrow> v = JDict []"
  by (auto elim: hides.cases intro: hides_refl)

lemma hides_item_keys: "list_all2 hides_item a b \<Longrightarrow> map fst b = map fst a"
  by (induction rule: list_all2_induct) auto

text \<open>A masked configuration merged over the one it was made from is itself.\<close>

lemma deep_merge_hides: "hides v w \<Longrightarrow> v = JDict a \<Longrightarrow> w = JDict b \<Longrightarrow> proper v \<Longrightarrow> stable v \<Longrightarrow> deep_merge a b = b"
proof (induction v w arbitrary: a b rule: hides.induct)
  case (dict a' b')
  have "deep_merge (pre @ xs) ys = pre @ ys"
    if "list_all2 (\<lambda>x y. fst y = fst x \<and> ((hides (snd x) (snd y) \<and>
          (\<forall>a. snd x = JDict a \<longrightarrow> (\<forall>b. snd y = JDict b \<longrightarrow> proper (snd x) \<longrightarrow> stable (snd x) \<longrightarrow> deep_merge a b = b))) \<or>
          (fst x \<in> set SECRET_KEYS \<and> snd y = JStr MASK))) xs ys"
      and "distinct (map fst (pre @ xs))" and "proper (JDict xs)" and "stable (JDict xs)" for pre xs ys
    using that
  proof (induction xs ys arbitrary: pre rule: list_all2_induct)
    case (Cons x xs y ys)
    obtain k v where x: "x = (k, v)" by force
    obtain w where y: "y = (k, w)" using Cons.hyps(1) x by (cases y) simp
    have fresh: "k \<notin> fst ` set pre" using Cons.prems(1) x by auto
    have v: "v \<noteq> JNull" "\<not> (v = JDict [] \<and> map_of CLEAR_KEY_ALIAS_MAP k \<noteq> None)" "stable v" "proper v"
      using Cons.prems(2,3) x by auto
    have keep: "\<not> (w = JNull \<or> (w = JDict [] \<and> map_of CLEAR_KEY_ALIAS_MAP k \<noteq> None))"
      using Cons.hyps(1) v(1,2) by (auto simp: x y hides_JNull hides_empty)
    have lookup: "map_of (pre @ x # xs) k = Some v"
    proof -
      have "map_of pre k = None" using fresh by (simp add: map_of_eq_None_iff)
      then show ?thesis by (simp add: x map_add_def)
    qed
    have "(case (map_of (pre @ x # xs) k, w) of
            (Some (JDict old), JDict new) \<Rightarrow> AList.update k (JDict (deep_merge old new)) (pre @ x # xs)
          | _ \<Rightarrow> AList.update k w (pre @ x # xs)) = pre @ (k, w) # xs"
    proof (cases "\<exists>old new. v = JDict old \<and> w = JDict new")
      case True
      then obtain old new where d: "v = JDict old" "w = JDict new" by blast
      have "deep_merge old new = new" using Cons.hyps(1) v(3,4) by (simp add: x y d)
      then show ?thesis unfolding lookup using d fresh by (simp add: x update_append)
    next
      case False
      then show ?thesis unfolding lookup using fresh by (auto simp: x update_append split: json.splits)
    qed
    then have "deep_merge (pre @ x # xs) (y # ys) = deep_merge ((pre @ [(k, w)]) @ xs) ys"
      using keep unfolding y by (simp only: deep_merge.simps if_False append_assoc append.simps)
    also have "\<dots> = (pre @ [(k, w)]) @ ys"
      using Cons.prems by (intro Cons.IH) (simp_all add: x)
    finally show ?case by (simp add: y)
  qed simp
  from this[of a b "[]"] show ?case using dict by simp
qed simp_all

text \<open>Restoring the masked values from the configuration they were masked in.\<close>

lemma restore_atom:
  "\<not> is_dict w \<Longrightarrow> \<not> is_list w \<Longrightarrow> \<not> (k \<in> set SECRET_KEYS \<and> is_masked w) \<Longrightarrow>
   restore_items ((k, w) # rest) e = (k, w) # restore_items rest e"
  by (cases w) auto

lemma restore_hides:
  "hides v w \<Longrightarrow>
    (\<forall>a b. v = JDict a \<longrightarrow> w = JDict b \<longrightarrow> proper v \<longrightarrow> restore_items b a = a) \<and>
    (\<forall>a b. v = JList a \<longrightarrow> w = JList b \<longrightarrow> proper v \<longrightarrow> restore_list b a = a)"
proof (induction v w rule: hides.induct)
  case (dict a b)
  have keys: "map fst b = map fst a"
    using dict.IH by (induction rule: list_all2_induct) auto
  have "restore_items ys e = xs"
    if "list_all2 (\<lambda>x y. fst y = fst x \<and> ((hides (snd x) (snd y) \<and>
          (\<forall>a b. snd x = JDict a \<longrightarrow> snd y = JDict b \<longrightarrow> proper (snd x) \<longrightarrow> restore_items b a = a) \<and>
          (\<forall>a b. snd x = JList a \<longrightarrow> snd y = JList b \<longrightarrow> proper (snd x) \<longrightarrow> restore_list b a = a)) \<or>
          (fst x \<in> set SECRET_KEYS \<and> snd y = JStr MASK))) xs ys"
      and "proper (JDict e)" and "\<And>k v. (k, v) \<in> set xs \<Longrightarrow> map_of e k = Some v" for xs ys e
    using that
  proof (induction xs ys rule: list_all2_induct)
    case (Cons x xs y ys)
    obtain k v where x: "x = (k, v)" by force
    obtain w where y: "y = (k, w)" using Cons.hyps(1) x by (cases y) simp
    have e: "map_of e k = Some v" using Cons.prems(2)[of k v] x by simp
    have pv: "proper v" by (rule proper_lookup[OF Cons.prems(1) e])
    have rest: "restore_items ys e = xs" using Cons.IH Cons.prems by simp
    show ?case
    proof (cases "k \<in> set SECRET_KEYS \<and> w = JStr MASK")
      case True
      then show ?thesis using e rest by (simp add: x y is_masked_def)
    next
      case False
      then have h: "hides v w" and hd: "\<And>a b. v = JDict a \<Longrightarrow> w = JDict b \<Longrightarrow> restore_items b a = a"
        and hl: "\<And>a b. v = JList a \<Longrightarrow> w = JList b \<Longrightarrow> restore_list b a = a"
        using Cons.hyps(1) pv by (auto simp: x y)
      show ?thesis
        using h
      proof (cases rule: hides.cases)
        case atom
        moreover have "\<not> (k \<in> set SECRET_KEYS \<and> is_masked w)" using False by (simp add: is_masked_def)
        ultimately show ?thesis using restore_atom[of w k ys e] rest by (simp add: x y)
      next
        case (dict c d)
        have "d = [] \<longleftrightarrow> c = []" using dict(3) by auto
        then show ?thesis using dict(1,2) hd[of c d] e rest by (auto simp: x y)
      next
        case (list c d)
        then show ?thesis using hl[of c d] e rest by (simp add: x y)
      qed
    qed
  qed simp
  then show ?case using dict by auto
next
  case (list vs ws)
  have "restore_list ws vs = vs" if "list_all proper vs"
    using list.IH that
  proof (induction rule: list_all2_induct)
    case (Cons v vs w ws)
    show ?case
    proof (cases "is_dict v")
      case True
      then obtain a b where ab: "v = JDict a" "w = JDict b" "hides v w"
        using Cons.hyps(1) hides_kind[of v w] by (cases v; cases w) (auto simp: is_dict_def)
      have "restore_items b a = a" using Cons.hyps(1) Cons.prems ab by simp
      moreover have "b = [] \<longleftrightarrow> a = []" using ab by (auto elim: hides_dictE)
      ultimately show ?thesis using ab Cons by simp
    next
      case False
      then have "w = v" using Cons.hyps(1) by simp
      then show ?thesis using False Cons by (cases v) simp_all
    qed
  qed simp
  then show ?case by simp
qed (auto simp: is_dict_def is_list_def)

section \<open>Properties\<close>

text \<open>
  A client that sends back the configuration it was shown, unchanged, changes nothing:
  every masked secret is restored. The configuration holds no null and no empty nested
  configuration, which the merge takes for a request to remove.
\<close>

theorem unmask_masked:
  assumes "proper (JDict c)" and "stable (JDict c)" and "mask_secrets_for_display c = Inr (JDict shown)"
  shows "unmask_config_update shown c = c"
proof -
  have h: "hides (JDict c) (JDict shown)" using mask_hides[OF assms(1,3)] .
  have "deep_merge c shown = shown" using deep_merge_hides[OF h refl refl assms(1,2)] .
  moreover have "restore_items shown c = c" using restore_hides[OF h] assms(1) by blast
  moreover have "shown = [] \<longleftrightarrow> c = []" using h by (auto elim: hides_dictE)
  ultimately show ?thesis by (simp add: unmask_config_update_def)
qed

definition shown_profile :: dict where
  "shown_profile = (case mask_secrets_for_display sample_profile of Inr (JDict d) \<Rightarrow> d | _ \<Rightarrow> [])"

theorem unmask_masked_witness: "unmask_config_update shown_profile sample_profile = sample_profile"
  by (rule unmask_masked) code_simp+

text \<open>
  Masked secrets are restored by position: when a user removes the first of two
  providers and leaves the token of the second masked, the second is saved with the token of the
  removed one, a credential of another service.
\<close>

theorem removed_provider_leaves_its_token:
  "unmask_config_update
     [(''sps'', JList [JDict [(''sv'', JStr service2), (''tk'', JStr MASK)]])]
     [(''sps'', JList [JDict [(''sv'', JStr service1), (''tk'', JStr token1)], JDict [(''sv'', JStr service2), (''tk'', JStr token2)]])] =
   [(''sps'', JList [JDict [(''sv'', JStr service2), (''tk'', JStr token1)]])]"
  by (simp add: unmask_config_update_def Let_def SECRET_KEYS_def is_masked_def)

lemma extract_nested_other:
  "extract_nested spec p acc = Inr (p', acc') \<Longrightarrow> k \<notin> spec_keys spec \<Longrightarrow> map_of p' k = map_of p k \<and> map_of acc' k = map_of acc k"
  by (cases spec)
    (auto simp: extract_nested_def choose_key_def spec_keys_def Let_def update_conv' bind_result_eq_Inr split: option.splits if_splits)

lemma extract_parts_other:
  assumes "extract_parts p acc = Inr (p', acc')" and "k \<notin> config_keys"
  shows "map_of p' k = map_of p k"
proof -
  obtain p1 a1 p2 a2 where one: "extract_provider_list p acc = Inr (p1, a1)" and two: "extract_legacy_provider p1 a1 = Inr (p2, a2)"
    and three: "extract_all_nested external_configs p2 a2 = Inr (p', acc')"
    using assms(1) by (auto simp: extract_parts_def bind_result_eq_Inr)
  have "map_of p1 k = map_of p k"
    using one assms(2)
    by (auto simp: extract_provider_list_def first_key_def bind_result_eq_Inr update_conv' config_keys_def
        split: option.splits if_splits)
  moreover have "map_of p2 k = map_of p1 k"
    using two assms(2)
    by (auto simp: extract_legacy_provider_def first_key_def bind_result_eq_Inr update_conv' config_keys_def
        split: option.splits if_splits)
  moreover have "map_of p' k = map_of p2 k"
  proof -
    obtain q1 b1 q2 b2 where
      "extract_nested (''mediaflow_config'', ''mfc'', [(''api_password'', ''ap'')]) p2 a2 = Inr (q1, b1)"
      "extract_nested (''rpdb_config'', ''rpc'', [(''api_key'', ''ak'')]) q1 b1 = Inr (q2, b2)"
      "extract_nested (''mdblist_config'', ''mdb'', [(''api_key'', ''ak'')]) q2 b2 = Inr (p', acc')"
      using three by (auto simp: external_configs_def bind_result_eq_Inr)
    from this[THEN extract_nested_other, of k] show ?thesis
      using assms(2) by (simp add: config_keys_def spec_keys_def)
  qed
  ultimately show ?thesis by simp
qed

text \<open>
  The key of the instance is stored in the clear: the handlers add it under both of
  its names, and the split only removes the first.
\<close>

theorem instance_key_in_clear:
  assumes "pw \<noteq> []" and "extract_secrets (add_api_key (Some pw) c) = Inr (clean, s)"
  shows "map_of clean ''ap'' = Some (JStr pw)"
proof -
  obtain d t where d: "extract_parts (add_api_key (Some pw) c) [] = Inr (d, t)" "extract_api_password d t = (clean, s)"
    using assms(2) by (auto simp: extract_secrets_parts bind_result_eq_Inr)
  have "map_of d ''api_password'' = Some (JStr pw)" "map_of d ''ap'' = Some (JStr pw)"
    using extract_parts_other[OF d(1)] assms(1) by (simp_all add: config_keys_def add_api_key_def update_conv')
  then show ?thesis
    using d(2) assms(1) by (auto simp: extract_api_password_def first_key_def delete_conv')
qed

theorem instance_key_in_clear_witness:
  "map_of (fst (case extract_secrets (add_api_key (Some ''pw'') sample_profile) of Inr r \<Rightarrow> r | Inl e \<Rightarrow> ([], []))) ''ap'' = Some (JStr ''pw'')"
proof -
  have "\<exists>clean s. extract_secrets (add_api_key (Some ''pw'') sample_profile) = Inr (clean, s)"
  proof (cases "extract_secrets (add_api_key (Some ''pw'') sample_profile)")
    case (Inl e)
    moreover have "pred_result (\<lambda>r. True) (extract_secrets (add_api_key (Some ''pw'') sample_profile))" by code_simp
    ultimately show ?thesis by (simp add: pred_result_def)
  qed force
  then obtain clean s where e: "extract_secrets (add_api_key (Some ''pw'') sample_profile) = Inr (clean, s)" by blast
  show ?thesis using instance_key_in_clear[OF _ e] by (simp add: e)
qed

lemma extract_all_nested_other:
  "extract_all_nested specs p acc = Inr (p', acc') \<Longrightarrow> k \<notin> nested_keys specs \<Longrightarrow> map_of p' k = map_of p k"
proof (induction specs arbitrary: p acc)
  case (Cons spec specs)
  then obtain p1 a1 where "extract_nested spec p acc = Inr (p1, a1)" "extract_all_nested specs p1 a1 = Inr (p', acc')"
    by (auto simp: bind_result_eq_Inr)
  then show ?case
    using Cons extract_nested_other[of spec p acc p1 a1 k] by (simp add: nested_keys_def)
qed simp

lemma mask_fields_other:
  "mask_fields fs (JDict m) = Inr (JDict m') \<Longrightarrow> k \<notin> set fs \<Longrightarrow> map_of m' k = map_of m k"
  by (induction fs arbitrary: m) (auto simp: bind_result_eq_Inr update_conv' split: if_splits)

lemma mask_fields_dict: "mask_fields fs (JDict m) = Inr w \<Longrightarrow> is_dict w"
  by (induction fs arbitrary: m) (auto simp: bind_result_eq_Inr split: if_splits)

lemma mask_inside_other:
  "mask_inside f ks (JDict m) = Inr w \<Longrightarrow> k \<notin> set ks \<Longrightarrow> \<exists>m'. w = JDict m' \<and> map_of m' k = map_of m k"
proof (induction ks arbitrary: m)
  case (Cons j ks)
  then obtain b where b: "has_value j (JDict m) = Inr b" by (auto simp: bind_result_eq_Inr)
  show ?case
  proof (cases b)
    case True
    then obtain m1 y where "m1 = AList.update j y m" "mask_inside f ks (JDict m1) = Inr w"
      using b Cons.prems(1) by (auto simp: bind_result_eq_Inr)
    then show ?thesis using Cons.IH[of m1] Cons.prems(2) by (auto simp: update_conv')
  next
    case False
    then show ?thesis using b Cons by simp
  qed
qed auto

lemma mask_nested_other:
  "mask_nested specs (JDict m) = Inr w \<Longrightarrow> list_all (\<lambda>(f, a, fields). k \<noteq> f \<and> k \<noteq> a) specs \<Longrightarrow>
   \<exists>m'. w = JDict m' \<and> map_of m' k = map_of m k"
proof (induction specs arbitrary: m)
  case (Cons spec specs)
  obtain f a fields where spec: "spec = (f, a, fields)" by (cases spec) auto
  obtain u where u: "mask_inside (mask_fields fields) [f, a] (JDict m) = Inr u" "mask_nested specs u = Inr w"
    using Cons.prems(1) unfolding spec mask_nested.simps bind_result_eq_Inr by blast
  obtain m1 where "u = JDict m1" "map_of m1 k = map_of m k"
    using mask_inside_other[OF u(1), of k] Cons.prems(2) by (auto simp: spec)
  then show ?case using Cons.IH[of m1] u(2) Cons.prems(2) by (auto simp: spec)
qed auto

text \<open>
  The credentials of an Easynews account are no secrets to the code: the split leaves
  them in the clear, and the mask shows them.
\<close>

theorem easynews_credentials_in_clear:
  assumes "extract_provider_secrets index d = Inr (JDict d', s)" and "mask_provider (JDict d) = Inr (JDict m)"
    and "k \<in> {''easynews_config'', ''enc''}" and "proper (JDict d)"
  shows "map_of d' k = map_of d k \<and> map_of m k = map_of d k"
proof -
  have "distinct (map fst d)" using assms(4) by simp
  from take_fields_dict[OF this, of provider_fields "[]"] obtain d1 s1 T where
    one: "take_fields provider_fields (JDict d) [] = Inr (JDict d1, s1)" "T \<subseteq> field_names provider_fields \<inter> dom (map_of d)"
      "map_of d1 = map_of d |` (- T)"
    by blast
  obtain s2 where two: "extract_all_nested nested_configs d1 s1 = Inr (d', s2)"
    using assms(1) by (auto simp: extract_provider_secrets_def one(1) bind_result_eq_Inr)
  have k: "k \<notin> field_names provider_fields" "k \<notin> nested_keys nested_configs"
    using assms(3) by (auto simp: provider_names nested_keys_def nested_configs_def spec_keys_def)
  then have "map_of d' k = map_of d k"
    using extract_all_nested_other[OF two] one(2,3) by (auto simp: restrict_map_def)
  moreover
  obtain u where u: "mask_fields [''token'', ''tk'', ''password'', ''pw''] (JDict d) = Inr u"
    "mask_nested masked_configs u = Inr (JDict m)"
    using assms(2) unfolding mask_provider_def bind_result_eq_Inr by blast
  obtain d2 where d2: "u = JDict d2" using mask_fields_dict[OF u(1)] by (cases u) (simp_all add: is_dict_def)
  have "k \<notin> set [''token'', ''tk'', ''password'', ''pw'']"
    using assms(3) by (elim insertE emptyE; hypsubst) simp_all
  from mask_fields_other[OF u(1)[unfolded d2] this] have d2k: "map_of d2 k = map_of d k" .
  have "list_all (\<lambda>(f, a, fields). k \<noteq> f \<and> k \<noteq> a) masked_configs"
    using assms(3) unfolding masked_configs_def by (elim insertE emptyE; hypsubst) simp_all
  from mask_nested_other[OF u(2)[unfolded d2] this] have "map_of m k = map_of d k" using d2k by simp
  ultimately show ?thesis by simp
qed

definition easynews_provider :: "string \<Rightarrow> dict" where
  "easynews_provider token =
     [(''sv'', JStr ''easynews''), (''tk'', JStr token), (''enc'', JDict [(''un'', JStr ''user''), (''pw'', JStr ''pass'')])]"

theorem easynews_credentials_in_clear_witness:
  "map_of (AList.delete ''tk'' (easynews_provider ''abc'')) ''enc'' = map_of (easynews_provider ''abc'') ''enc'' \<and>
   map_of (easynews_provider MASK) ''enc'' = map_of (easynews_provider ''abc'') ''enc''"
proof -
  have e: "extract_provider_secrets (Some 0) (easynews_provider ''abc'') =
      Inr (JDict (AList.delete ''tk'' (easynews_provider ''abc'')), [(''tk'', JStr ''abc''), (''_index'', JInt 0)])"
    by code_simp
  have m: "mask_provider (JDict (easynews_provider ''abc'')) = Inr (JDict (easynews_provider MASK))" by code_simp
  show ?thesis
    by (rule easynews_credentials_in_clear[OF e m]) (simp_all add: easynews_provider_def)
qed

end
