(* ===== verification/Profile_Config.thy ===== *)
theory Profile_Config
  imports Profile_Secrets Usenet_Compat
begin

text \<open>
  What is read off the raw configuration of a profile: the summary of its providers and the checks
  before it is saved (\<open>api/routers/user/profiles.py\<close>), and its preparation for the schema
  (\<open>build_user_data_from_config\<close> of \<open>utils/profile_context.py\<close>). The coercions of the schema, a
  third-party package, are arguments.
\<close>

section \<open>Reading dictionaries\<close>

definition py_or :: "json \<Rightarrow> json \<Rightarrow> json" where
  "py_or a b = (if truthy a then a else b)"

definition get_or :: "dict \<Rightarrow> string \<Rightarrow> json \<Rightarrow> json" where
  "get_or d k dflt = (case map_of d k of Some v \<Rightarrow> v | None \<Rightarrow> dflt)"

text \<open>\<open>d.get(a) or d.get(b)\<close>.\<close>

definition either_key :: "dict \<Rightarrow> string \<Rightarrow> string \<Rightarrow> json" where
  "either_key d a b = py_or (get_or d a JNull) (get_or d b JNull)"

text \<open>
  A value used as a key of a table of strings: lists and dictionaries cannot be hashed, and another
  value that is no string is in no table, like the empty name.
\<close>

definition table_key :: "json \<Rightarrow> string py_result" where
  "table_key v = (case v of JStr s \<Rightarrow> Inr s | JList _ \<Rightarrow> Inl TypeError | JDict _ \<Rightarrow> Inl TypeError | _ \<Rightarrow> Inr [])"

definition strip_value :: "json \<Rightarrow> string py_result" where
  "strip_value v = (case v of JStr s \<Rightarrow> Inr (py_strip s) | _ \<Rightarrow> Inl AttributeError)"

section \<open>Providers\<close>

definition raw_service :: "dict \<Rightarrow> json" where
  "raw_service sp = either_key sp ''sv'' ''service''"

definition raw_enabled :: "dict \<Rightarrow> json" where
  "raw_enabled sp =
     (if map_of sp ''en'' \<noteq> None then get_or sp ''en'' (JBool True) else get_or sp ''enabled'' (JBool True))"

definition listed_priority :: "dict \<Rightarrow> nat \<Rightarrow> json" where
  "listed_priority sp i =
     (if map_of sp ''pr'' \<noteq> None then get_or sp ''pr'' (JInt (int i)) else get_or sp ''priority'' (JInt (int i)))"

definition raw_fields :: "dict \<Rightarrow> string \<rightharpoonup> bool" where
  "raw_fields sp = (\<lambda>k. map_option truthy (map_of sp k))"

definition provider_has_credentials :: "dict \<Rightarrow> json \<Rightarrow> bool py_result" where
  "provider_has_credentials sp svc =
     bind_result (table_key svc) (\<lambda>s. Inr (dict_provider_auth_satisfied (raw_fields sp) s))"

record provider_info =
  info_service :: string
  info_name :: "string option"
  info_enabled :: bool
  info_priority :: int
  info_has_credentials :: bool

record info_schema =
  as_string :: "json \<Rightarrow> string py_result"
  as_optional_string :: "json \<Rightarrow> string option py_result"
  as_bool :: "json \<Rightarrow> bool py_result"
  as_int :: "json \<Rightarrow> int py_result"

definition make_info :: "info_schema \<Rightarrow> json \<Rightarrow> json \<Rightarrow> json \<Rightarrow> json \<Rightarrow> bool \<Rightarrow> provider_info py_result" where
  "make_info schema svc nm en pr credentials =
     bind_result (as_string schema svc) (\<lambda>s.
       bind_result (as_optional_string schema nm) (\<lambda>n.
         bind_result (as_bool schema en) (\<lambda>e.
           bind_result (as_int schema pr) (\<lambda>p.
             Inr \<lparr>info_service = s, info_name = n, info_enabled = e, info_priority = p,
                   info_has_credentials = credentials\<rparr>))))"

fun provider_infos :: "info_schema \<Rightarrow> nat \<Rightarrow> json list \<Rightarrow> provider_info list py_result" where
  "provider_infos schema i [] = Inr []"
| "provider_infos schema i (v # vs) =
     (case v of
        JDict sp \<Rightarrow>
          (let svc = raw_service sp
           in if \<not> truthy svc then provider_infos schema (Suc i) vs
              else bind_result (provider_has_credentials sp svc) (\<lambda>c.
                     bind_result (make_info schema svc (either_key sp ''n'' ''name'') (raw_enabled sp) (listed_priority sp i) c) (\<lambda>p.
                       bind_result (provider_infos schema (Suc i) vs) (\<lambda>ps. Inr (p # ps)))))
      | _ \<Rightarrow> provider_infos schema (Suc i) vs)"

definition legacy_infos :: "info_schema \<Rightarrow> dict \<Rightarrow> provider_info list py_result" where
  "legacy_infos schema config =
     (case either_key config ''sp'' ''streaming_provider'' of
        JDict sp \<Rightarrow>
          (let svc = raw_service sp
           in if sp = [] \<or> \<not> truthy svc then Inr []
              else bind_result (provider_has_credentials sp svc) (\<lambda>c.
                     bind_result (make_info schema svc JNull (JBool True) (JInt 0) c) (\<lambda>p. Inr [p])))
      | _ \<Rightarrow> Inr [])"

record providers_summary =
  providers :: "provider_info list"
  has_debrid :: bool
  primary_service :: "string option"

definition usable_info :: "string list \<Rightarrow> provider_info \<Rightarrow> bool" where
  "usable_info disabled p \<longleftrightarrow> info_enabled p \<and> info_service p \<notin> set disabled \<and> info_has_credentials p"

definition get_streaming_providers_summary :: "info_schema \<Rightarrow> string list \<Rightarrow> dict \<Rightarrow> providers_summary py_result" where
  "get_streaming_providers_summary schema disabled config =
     bind_result (py_iter (py_or (either_key config ''sps'' ''streaming_providers'') (JList []))) (\<lambda>sps.
       bind_result (provider_infos schema 0 sps) (\<lambda>found.
         bind_result (if found = [] then legacy_infos schema config else Inr found) (\<lambda>ps.
           (let enabled_providers = sort_key info_priority (filter (usable_info disabled) ps)
            in Inr \<lparr>providers = ps,
                     has_debrid = list_ex (\<lambda>p. info_service p \<noteq> ''p2p'') enabled_providers,
                     primary_service = (case enabled_providers of [] \<Rightarrow> None | p # _ \<Rightarrow> Some (info_service p))\<rparr>))))"

definition get_streaming_provider_summary :: "info_schema \<Rightarrow> string list \<Rightarrow> dict \<Rightarrow> (string option \<times> bool) py_result" where
  "get_streaming_provider_summary schema disabled config =
     bind_result (get_streaming_providers_summary schema disabled config) (\<lambda>s. Inr (primary_service s, has_debrid s))"

fun count_enabled :: "json list \<Rightarrow> nat py_result" where
  "count_enabled [] = Inr 0"
| "count_enabled (c # cs) =
     bind_result (py_get c ''en'' (JBool True)) (\<lambda>en.
       bind_result (count_enabled cs) (\<lambda>n. Inr (if truthy en then Suc n else n)))"

definition count_enabled_catalogs :: "dict \<Rightarrow> int py_result" where
  "count_enabled_catalogs config =
     (let catalog_configs = py_or (either_key config ''cc'' ''catalog_configs'') (JList [])
      in if truthy catalog_configs
         then bind_result (py_iter catalog_configs) (\<lambda>cs. bind_result (count_enabled cs) (\<lambda>n. Inr (int n)))
         else py_len (py_or (either_key config ''sc'' ''selected_catalogs'') (JList [])))"

section \<open>Checks before a configuration is saved\<close>

datatype config_problem =
    Too_Many_Providers
  | Missing_Field json string
  | Missing_Credentials json
  | Mediaflow_Url_Required
  | Mediaflow_Url_Invalid
  | Mediaflow_Password_Required
  | Rpdb_Key_Required
  | Mdblist_Key_Required
  | Credentials_Rejected string
  | Too_Many_Profiles
  | Last_Profile

datatype http_error = Bad_Request config_problem | Not_Found | Server_Error py_error

type_synonym 'a response = "http_error + 'a"

text \<open>An exception that no handler catches ends in a server error.\<close>

definition uncaught :: "'a py_result \<Rightarrow> 'a response" where
  "uncaught r = (case r of Inl e \<Rightarrow> Inl (Server_Error e) | Inr v \<Rightarrow> Inr v)"

definition STREAMING_PROVIDER_FIELD_LABELS :: "(string \<times> string) list" where
  "STREAMING_PROVIDER_FIELD_LABELS =
     [(''token'', ''API token''), (''email'', ''email''), (''password'', ''password''), (''url'', ''URL''),
      (''qbittorrent_config'', ''qBittorrent configuration''), (''sabnzbd_config'', ''SABnzbd configuration''),
      (''nzbget_config'', ''NZBGet configuration''), (''nzbdav_config'', ''NzbDAV configuration''),
      (''easynews_config'', ''Easynews configuration'')]"

definition provider_problem :: "dict \<Rightarrow> json \<Rightarrow> string \<Rightarrow> config_problem" where
  "provider_problem sp svc s =
     (let label = py_or (either_key sp ''n'' ''name'') svc
      in case dict_provider_first_missing_field (raw_fields sp) s of
           Some f \<Rightarrow> Missing_Field label (case map_of STREAMING_PROVIDER_FIELD_LABELS f of Some l \<Rightarrow> l | None \<Rightarrow> f)
         | None \<Rightarrow> Missing_Credentials label)"

text \<open>The loop over the providers; other values than dictionaries are passed over.\<close>

fun check_providers :: "string list \<Rightarrow> json list \<Rightarrow> unit response" where
  "check_providers disabled [] = Inr ()"
| "check_providers disabled (v # vs) =
     (case v of
        JDict sp \<Rightarrow>
          (let svc = raw_service sp
           in if \<not> truthy svc then check_providers disabled vs
              else bind_result (uncaught (table_key svc)) (\<lambda>s.
                if s \<in> set disabled \<or> \<not> truthy (raw_enabled sp) then check_providers disabled vs
                else if dict_provider_auth_satisfied (raw_fields sp) s then check_providers disabled vs
                else Inl (Bad_Request (provider_problem sp svc s))))
      | _ \<Rightarrow> check_providers disabled vs)"

definition validate_provider_configs :: "nat \<Rightarrow> string list \<Rightarrow> dict \<Rightarrow> unit response" where
  "validate_provider_configs max_providers disabled config =
     (let raw = py_or (either_key config ''streaming_providers'' ''sps'') (JList [])
      in if (case raw of JList vs \<Rightarrow> max_providers < length vs | _ \<Rightarrow> False) then Inl (Bad_Request Too_Many_Providers)
         else bind_result (uncaught (py_iter raw)) (check_providers disabled))"

definition url_scheme :: "string \<Rightarrow> string" where
  "url_scheme url =
     (case split_once '':'' (url_clean url) of
        Some (a, b) \<Rightarrow> if a \<noteq> [] \<and> is_alpha (hd a) \<and> list_all scheme_char a then py_lower a else []
      | None \<Rightarrow> [])"

text \<open>A text field that must not be blank, under either of its spellings.\<close>

definition text_field :: "dict \<Rightarrow> string \<Rightarrow> string \<Rightarrow> string response" where
  "text_field d a b = uncaught (strip_value (py_or (either_key d a b) (JStr [])))"

definition check_mediaflow :: "(string \<Rightarrow> bool) \<Rightarrow> json \<Rightarrow> unit response" where
  "check_mediaflow bracket_ok mfc =
     (case mfc of
        JDict d \<Rightarrow>
          bind_result (text_field d ''proxy_url'' ''pu'') (\<lambda>proxy_url.
            if proxy_url = [] then Inl (Bad_Request Mediaflow_Url_Required)
            else bind_result (uncaught (urlparse_hostname bracket_ok proxy_url)) (\<lambda>host.
              if url_scheme proxy_url \<notin> {''http'', ''https''} \<or> host = None then Inl (Bad_Request Mediaflow_Url_Invalid)
              else bind_result (text_field d ''api_password'' ''ap'') (\<lambda>pw.
                if pw = [] then Inl (Bad_Request Mediaflow_Password_Required) else Inr ())))
      | _ \<Rightarrow> Inr ())"

definition check_service_key :: "config_problem \<Rightarrow> json \<Rightarrow> unit response" where
  "check_service_key problem v =
     (case v of
        JDict d \<Rightarrow>
          bind_result (text_field d ''api_key'' ''ak'') (\<lambda>key. if key = [] then Inl (Bad_Request problem) else Inr ())
      | _ \<Rightarrow> Inr ())"

definition validate_external_services :: "(string \<Rightarrow> bool) \<Rightarrow> dict \<Rightarrow> unit response" where
  "validate_external_services bracket_ok config =
     bind_result (check_mediaflow bracket_ok (either_key config ''mediaflow_config'' ''mfc'')) (\<lambda>_.
       bind_result (check_service_key Rpdb_Key_Required (either_key config ''rpdb_config'' ''rpc'')) (\<lambda>_.
         check_service_key Mdblist_Key_Required (either_key config ''mdblist_config'' ''mdb'')))"

section \<open>Preparation for the schema\<close>

definition put_option :: "string \<Rightarrow> json option \<Rightarrow> dict \<Rightarrow> dict" where
  "put_option k v d = (case v of None \<Rightarrow> d | Some x \<Rightarrow> AList.update k x d)"

fun keep_valid :: "string list \<Rightarrow> json list \<Rightarrow> json list py_result" where
  "keep_valid disabled [] = Inr []"
| "keep_valid disabled (v # vs) =
     (case v of
        JDict sp \<Rightarrow>
          (let svc = raw_service sp
           in if \<not> truthy svc then keep_valid disabled vs
              else bind_result (table_key svc) (\<lambda>s.
                if s \<in> set disabled \<or> \<not> dict_provider_auth_satisfied (raw_fields sp) s then keep_valid disabled vs
                else bind_result (keep_valid disabled vs) (\<lambda>kept. Inr (v # kept))))
      | _ \<Rightarrow> keep_valid disabled vs)"

definition filter_provider_key :: "string list \<Rightarrow> string \<Rightarrow> dict \<Rightarrow> dict py_result" where
  "filter_provider_key disabled k config =
     (case map_of config k of
        Some (JList vs) \<Rightarrow> bind_result (keep_valid disabled vs) (\<lambda>kept. Inr (AList.update k (JList kept) config))
      | _ \<Rightarrow> Inr config)"

definition drop_keyless :: "string \<Rightarrow> dict \<Rightarrow> dict" where
  "drop_keyless k config =
     (case map_of config k of
        Some (JDict d) \<Rightarrow>
          if truthy (get_or d ''ak'' JNull) \<or> truthy (get_or d ''api_key'' JNull) then config else AList.delete k config
      | _ \<Rightarrow> config)"

definition known_resolution :: "json \<Rightarrow> bool" where
  "known_resolution v = (case v of JNull \<Rightarrow> True | JStr s \<Rightarrow> py_strip s \<noteq> [] | _ \<Rightarrow> False)"

definition filter_resolutions :: "string \<Rightarrow> dict \<Rightarrow> dict" where
  "filter_resolutions k config =
     (case map_of config k of
        Some (JList vs) \<Rightarrow> AList.update k (JList (filter known_resolution vs)) config
      | _ \<Rightarrow> config)"

text \<open>What identifies the user, each part optional.\<close>

record identity =
  ident_user_id :: "int option"
  ident_profile_id :: "int option"
  ident_user_uuid :: "string option"
  ident_profile_uuid :: "string option"
  ident_api_password :: "json option"

definition put_identity :: "identity \<Rightarrow> dict \<Rightarrow> dict" where
  "put_identity who d =
     (let pw = ident_api_password who
      in put_option ''ap'' pw (put_option ''api_password'' pw
           (put_option ''puuid'' (map_option JStr (ident_profile_uuid who))
             (put_option ''uuuid'' (map_option JStr (ident_user_uuid who))
               (put_option ''profile_id'' (map_option JInt (ident_profile_id who))
                 (put_option ''user_id'' (map_option JInt (ident_user_id who)) d))))))"

definition prepare_config :: "string list \<Rightarrow> identity \<Rightarrow> dict \<Rightarrow> dict py_result" where
  "prepare_config disabled who full_config =
     bind_result (filter_provider_key disabled ''streaming_providers'' (put_identity who full_config)) (\<lambda>c1.
       bind_result (filter_provider_key disabled ''sps'' c1) (\<lambda>c2.
         Inr (filter_resolutions ''sr'' (filter_resolutions ''selected_resolutions''
           (drop_keyless ''rpc'' (drop_keyless ''rpdb_config'' c2))))))"

definition build_user_data_from_config ::
  "(dict \<Rightarrow> 'u py_result) \<Rightarrow> string list \<Rightarrow> identity \<Rightarrow> dict \<Rightarrow> 'u py_result" where
  "build_user_data_from_config make_user_data disabled who full_config =
     bind_result (prepare_config disabled who full_config) make_user_data"

section \<open>What a check lets through\<close>

text \<open>A provider the user asks for: a dictionary that names a service in use and is not switched off.\<close>

definition requested :: "string list \<Rightarrow> json \<Rightarrow> bool" where
  "requested disabled v =
     (case v of
        JDict sp \<Rightarrow> truthy (raw_service sp) \<and> list_all (\<lambda>s. raw_service sp \<noteq> JStr s) disabled \<and> truthy (raw_enabled sp)
      | _ \<Rightarrow> False)"

definition switched_on :: "json \<Rightarrow> bool" where
  "switched_on v = (case v of JDict sp \<Rightarrow> truthy (raw_enabled sp) | _ \<Rightarrow> False)"

lemma uncaught_eq_Inr [simp]: "uncaught r = Inr v \<longleftrightarrow> r = Inr v"
  by (cases r) (simp_all add: uncaught_def)

lemma uncaught_simps [simp]: "uncaught (Inr v) = Inr v" "uncaught (Inl e) = Inl (Server_Error e)"
  by (simp_all add: uncaught_def)

lemma table_key_disabled:
  "table_key svc = Inr s \<Longrightarrow> truthy svc \<Longrightarrow> [] \<notin> set disabled \<Longrightarrow> s \<in> set disabled \<longleftrightarrow> \<not> list_all (\<lambda>d. svc \<noteq> JStr d) disabled"
  by (cases svc) (auto simp: table_key_def list_all_iff)

lemma requested_simps [simp]:
  "requested disabled (JDict sp) \<longleftrightarrow>
     truthy (raw_service sp) \<and> list_all (\<lambda>s. raw_service sp \<noteq> JStr s) disabled \<and> truthy (raw_enabled sp)"
  "switched_on (JDict sp) \<longleftrightarrow> truthy (raw_enabled sp)"
  by (simp_all add: requested_def switched_on_def)

text \<open>Of the providers that are switched on, the check and the preparation keep the requested ones.\<close>

lemma checked_providers_kept:
  assumes "[] \<notin> set disabled"
  shows "check_providers disabled vs = Inr () \<Longrightarrow>
     pred_result (\<lambda>kept. filter switched_on kept = filter (requested disabled) vs) (keep_valid disabled vs)"
proof (induction vs)
  case (Cons v vs)
  show ?case
  proof (cases v)
    case (JDict sp)
    show ?thesis
    proof (cases "truthy (raw_service sp)")
      case True
      then obtain s where s: "table_key (raw_service sp) = Inr s" and
        rest: "(if s \<in> set disabled \<or> \<not> truthy (raw_enabled sp) then check_providers disabled vs
               else if dict_provider_auth_satisfied (raw_fields sp) s then check_providers disabled vs
               else Inl (Bad_Request (provider_problem sp (raw_service sp) s))) = Inr ()"
        using Cons.prems JDict by (auto simp: bind_result_eq_Inr Let_def)
      then have "check_providers disabled vs = Inr ()" by (simp split: if_splits)
      then obtain kept where kept: "keep_valid disabled vs = Inr kept" "filter switched_on kept = filter (requested disabled) vs"
        using Cons.IH by (auto simp: pred_result_def split: sum.splits)
      have auth: "s \<notin> set disabled \<Longrightarrow> truthy (raw_enabled sp) \<Longrightarrow> dict_provider_auth_satisfied (raw_fields sp) s"
        using rest by (simp split: if_splits)
      then show ?thesis
        using kept table_key_disabled[OF s True assms] True s JDict
        by (auto simp: Let_def)
    next
      case False
      then show ?thesis using Cons JDict by simp
    qed
  qed (use Cons in \<open>simp_all add: requested_def\<close>)
qed (simp add: pred_result_def)
lemma put_identity_other:
  "k \<notin> {''user_id'', ''profile_id'', ''uuuid'', ''puuid'', ''api_password'', ''ap''} \<Longrightarrow> map_of (put_identity who d) k = map_of d k"
  by (auto simp: put_identity_def put_option_def update_conv' Let_def split: option.splits)

lemma filter_provider_key_other:
  "filter_provider_key disabled k' c = Inr c' \<Longrightarrow> k \<noteq> k' \<Longrightarrow> map_of c' k = map_of c k"
  by (auto simp: filter_provider_key_def update_conv' bind_result_eq_Inr split: option.splits json.splits)

lemma filter_resolutions_other: "k \<noteq> k' \<Longrightarrow> map_of (filter_resolutions k' c) k = map_of c k"
  by (auto simp: filter_resolutions_def update_conv' split: option.splits json.splits)

lemma drop_keyless_other: "k \<noteq> k' \<Longrightarrow> map_of (drop_keyless k' c) k = map_of c k"
  by (auto simp: drop_keyless_def delete_conv' split: option.splits json.splits)

text \<open>
  Property C35. A configuration that passes the check on saving loses nothing later: of the
  providers that are switched on, those that reach the schema are exactly, and in the same order,
  the ones the user asked for and the administrator allows. The configuration has the list under
  one of its two spellings.
\<close>

theorem validated_providers_survive:
  assumes "validate_provider_configs n disabled c = Inr ()" and "[] \<notin> set disabled"
    and "map_of c k = Some (JList vs)"
    and "(k, k') = (''streaming_providers'', ''sps'') \<or> (k, k') = (''sps'', ''streaming_providers'')" and "map_of c k' = None"
  shows "pred_result (\<lambda>c'. case map_of c' k of
       Some (JList kept) \<Rightarrow> filter switched_on kept = filter (requested disabled) vs | _ \<Rightarrow> False)
     (prepare_config disabled who c)"
proof -
  have "py_or (either_key c ''streaming_providers'' ''sps'') (JList []) = JList vs"
    using assms(3-5) by (auto simp: either_key_def get_or_def py_or_def)
  then have "check_providers disabled vs = Inr ()"
    using assms(1) by (simp add: validate_provider_configs_def Let_def split: if_splits)
  from checked_providers_kept[OF assms(2) this] obtain kept where
    kept: "keep_valid disabled vs = Inr kept" "filter switched_on kept = filter (requested disabled) vs"
    by (auto simp: pred_result_def split: sum.splits)
  define d where "d = put_identity who c"
  have d: "map_of d k = Some (JList vs)" "map_of d k' = None"
    using assms(3-5) put_identity_other[of k who c] put_identity_other[of k' who c] by (auto simp: d_def)
  have own: "filter_provider_key disabled k d = Inr (AList.update k (JList kept) d)"
    by (simp add: filter_provider_key_def d(1) kept(1))
  have "map_of (AList.update k (JList kept) d) k' = None"
    using d(2) assms(4) by (auto simp: update_conv')
  then have other: "filter_provider_key disabled k' d = Inr d"
    "filter_provider_key disabled k' (AList.update k (JList kept) d) = Inr (AList.update k (JList kept) d)"
    using d(2) by (simp_all add: filter_provider_key_def)
  let ?final = "filter_resolutions ''sr'' (filter_resolutions ''selected_resolutions''
           (drop_keyless ''rpc'' (drop_keyless ''rpdb_config'' (AList.update k (JList kept) d))))"
  have "prepare_config disabled who c = Inr ?final"
    using assms(4) own other by (auto simp: prepare_config_def d_def[symmetric])
  moreover have "map_of ?final k = Some (JList kept)"
    using assms(4) by (elim disjE) (simp_all add: filter_resolutions_other drop_keyless_other update_conv')
  ultimately show ?thesis using kept(2) by simp
qed

definition checked_profile :: dict where
  "checked_profile =
     [(''sps'', JList
        [JDict [(''sv'', JStr ''realdebrid''), (''tk'', JStr ''t'')], JDict [(''sv'', JStr ''torbox''), (''en'', JBool False)],
         JDict [(''sv'', JStr ''pikpak'')], JNull])]"

theorem validated_providers_survive_witness:
  "pred_result (\<lambda>c'. case map_of c' ''sps'' of
       Some (JList kept) \<Rightarrow> filter switched_on kept =
         filter (requested [''pikpak''])
           [JDict [(''sv'', JStr ''realdebrid''), (''tk'', JStr ''t'')], JDict [(''sv'', JStr ''torbox''), (''en'', JBool False)],
            JDict [(''sv'', JStr ''pikpak'')], JNull]
     | _ \<Rightarrow> False)
     (prepare_config [''pikpak''] \<lparr>ident_user_id = Some 1, ident_profile_id = None, ident_user_uuid = None,
        ident_profile_uuid = None, ident_api_password = None\<rparr> checked_profile)"
proof (rule validated_providers_survive[where n = 5 and k' = "''streaming_providers''"])
  show "validate_provider_configs 5 [''pikpak''] checked_profile = Inr ()" by code_simp
qed (simp_all add: checked_profile_def)

end
