(* ===== verification/Url_Base64.thy ===== *)
theory Url_Base64
  imports Py_Prelude
begin

text \<open>
  The URL-safe text of the links, \<open>make_urlsafe\<close> and \<open>from_urlsafe\<close> of \<open>utils/crypto.py\<close>, on top of
  the base64 of Python's standard library. A byte is a \<^typ>\<open>char\<close>. The decoder is the library's
  lenient one: it passes over characters outside the alphabet, takes both spellings of the last two
  digits, and stops at a pad that completes a group.
\<close>

section \<open>Base64 of the standard library\<close>

abbreviation byte :: "char \<Rightarrow> nat" where
  "byte c \<equiv> of_char c"

definition base64_alphabet :: string where
  "base64_alphabet = ''ABCDEFGHIJKLMNOPQRSTUVWXYZabcdefghijklmnopqrstuvwxyz0123456789+/''"

definition url_char :: "char \<Rightarrow> char" where
  "url_char c = (if c = CHR ''+'' then CHR ''-'' else if c = CHR ''/'' then CHR ''_'' else c)"

definition plain_char :: "char \<Rightarrow> char" where
  "plain_char c = (if c = CHR ''-'' then CHR ''+'' else if c = CHR ''_'' then CHR ''/'' else c)"

definition digit64 :: "nat \<Rightarrow> char" where
  "digit64 n = url_char (base64_alphabet ! n)"

fun urlsafe_b64encode :: "string \<Rightarrow> string" where
  "urlsafe_b64encode [] = []"
| "urlsafe_b64encode [a] = [digit64 (byte a div 4), digit64 (byte a mod 4 * 16), CHR ''='', CHR ''='']"
| "urlsafe_b64encode [a, b] =
     [digit64 (byte a div 4), digit64 (byte a mod 4 * 16 + byte b div 16), digit64 (byte b mod 16 * 4), CHR ''='']"
| "urlsafe_b64encode (a # b # c # bs) =
     [digit64 (byte a div 4), digit64 (byte a mod 4 * 16 + byte b div 16), digit64 (byte b mod 16 * 4 + byte c div 64),
      digit64 (byte c mod 64)] @ urlsafe_b64encode bs"

fun position :: "char \<Rightarrow> string \<Rightarrow> nat option" where
  "position c [] = None"
| "position c (d # ds) = (if c = d then Some 0 else map_option Suc (position c ds))"

text \<open>
  The scanner of \<open>binascii\<close>: the place in a group of four digits, the bits left over from the last
  digit, and the number of pads seen in a row.
\<close>

fun scan :: "nat \<Rightarrow> nat \<Rightarrow> nat \<Rightarrow> string \<Rightarrow> string py_result" where
  "scan place left pads [] = (if place = 0 then Inr [] else Inl ValueError)"
| "scan place left pads (c # cs) =
     (if c = CHR ''='' then
        (if 2 \<le> place \<and> 4 \<le> place + Suc pads then Inr []
         else scan place left (if 2 \<le> place then Suc pads else pads) cs)
      else
        (case position c base64_alphabet of
           None \<Rightarrow> scan place left pads cs
         | Some v \<Rightarrow>
             if place = 0 then scan 1 v 0 cs
             else if place = 1 then bind_result (scan 2 (v mod 16) 0 cs) (\<lambda>bs. Inr (char_of (left * 4 + v div 16) # bs))
             else if place = 2 then bind_result (scan 3 (v mod 4) 0 cs) (\<lambda>bs. Inr (char_of (left * 16 + v div 4) # bs))
             else bind_result (scan 0 0 0 cs) (\<lambda>bs. Inr (char_of (left * 64 + v) # bs))))"

definition urlsafe_b64decode :: "string \<Rightarrow> string py_result" where
  "urlsafe_b64decode s = scan 0 0 0 (map plain_char s)"

section \<open>Links\<close>

definition make_urlsafe :: "string \<Rightarrow> string" where
  "make_urlsafe bs = rev (dropWhile (\<lambda>c. c = CHR ''='') (rev (urlsafe_b64encode bs)))"

definition from_urlsafe :: "string \<Rightarrow> string py_result" where
  "from_urlsafe s =
     (let padding_needed = length s mod 4;
          padded = (if padding_needed \<noteq> 0 then s @ replicate (4 - padding_needed) (CHR ''='') else s)
      in if list_ex (\<lambda>c. 128 \<le> byte c) padded then Inl ValueError else urlsafe_b64decode padded)"

section \<open>Correctness\<close>

lemma alphabet_length: "length base64_alphabet = 64"
  by code_simp

lemma digit_table:
  "list_all (\<lambda>n. position (plain_char (digit64 n)) base64_alphabet = Some n \<and> digit64 n \<noteq> CHR ''='' \<and>
     plain_char (digit64 n) \<noteq> CHR ''='' \<and> byte (digit64 n) < 128) [0..<64]"
  by code_simp

lemma digit64:
  assumes "n < 64"
  shows "position (plain_char (digit64 n)) base64_alphabet = Some n" "digit64 n \<noteq> CHR ''=''"
    "plain_char (digit64 n) \<noteq> CHR ''=''" "byte (digit64 n) < 128"
  using digit_table assms by (auto simp: list_all_iff)

lemma byte_parts [simp]:
  "byte c div 4 < 64" "byte c mod 64 < 64" "byte c mod 4 * 16 < 64" "byte c mod 16 * 4 < 64"
  "byte c mod 4 * 16 + byte d div 16 < 64" "byte c mod 16 * 4 + byte d div 64 < 64"
proof -
  have "byte d div 16 < 16" "byte d div 64 < 4" using nat_of_char_less_256[of d] by (simp_all add: div_less_iff_less_mult)
  moreover have "byte c mod 4 < 4" "byte c mod 16 < 16" by simp_all
  ultimately show "byte c mod 4 * 16 + byte d div 16 < 64" "byte c mod 16 * 4 + byte d div 64 < 64" by linarith+
qed (auto simp: div_less_iff_less_mult intro: order.strict_trans2[of _ "4 * 16"])

lemma scan_digits:
  assumes "n < 64"
  shows "scan 0 l p (plain_char (digit64 n) # cs) = scan 1 n 0 cs"
    "scan (Suc 0) l p (plain_char (digit64 n) # cs) = bind_result (scan 2 (n mod 16) 0 cs) (\<lambda>bs. Inr (char_of (l * 4 + n div 16) # bs))"
    "scan 2 l p (plain_char (digit64 n) # cs) = bind_result (scan 3 (n mod 4) 0 cs) (\<lambda>bs. Inr (char_of (l * 16 + n div 4) # bs))"
    "scan 3 l p (plain_char (digit64 n) # cs) = bind_result (scan 0 0 0 cs) (\<lambda>bs. Inr (char_of (l * 64 + n) # bs))"
  using digit64[OF assms] by simp_all

lemma plain_pad: "plain_char (CHR ''='') = CHR ''=''"
  by (simp add: plain_char_def)

lemma scan_pads: "scan 2 l 0 ''=='' = Inr []" "scan 3 l 0 ''='' = Inr []"
  by simp_all

lemma decode_encode: "scan 0 0 0 (map plain_char (urlsafe_b64encode bs)) = Inr bs"
proof (induction bs rule: urlsafe_b64encode.induct)
  case (2 a)
  have "char_of (byte a div 4 * 4 + byte a mod 4 * 16 div 16) = a" by simp
  then show ?case by (simp add: scan_digits plain_pad scan_pads del: scan.simps(2))
next
  case (3 a b)
  have "(byte a mod 4 * 16 + byte b div 16) div 16 = byte a mod 4" "(byte a mod 4 * 16 + byte b div 16) mod 16 = byte b div 16"
    using nat_of_char_less_256[of b] by (simp_all add: div_less_iff_less_mult)
  moreover have "byte a div 4 * 4 + byte a mod 4 = byte a" "byte b div 16 * 16 + byte b mod 16 = byte b" by simp_all
  ultimately show ?case by (simp add: scan_digits plain_pad scan_pads del: scan.simps(2))
next
  case (4 a b c bs)
  have "(byte a mod 4 * 16 + byte b div 16) div 16 = byte a mod 4" "(byte a mod 4 * 16 + byte b div 16) mod 16 = byte b div 16"
    using nat_of_char_less_256[of b] by (simp_all add: div_less_iff_less_mult)
  moreover have "(byte b mod 16 * 4 + byte c div 64) div 4 = byte b mod 16" "(byte b mod 16 * 4 + byte c div 64) mod 4 = byte c div 64"
    using nat_of_char_less_256[of c] by (simp_all add: div_less_iff_less_mult)
  moreover have "byte a div 4 * 4 + byte a mod 4 = byte a" "byte b div 16 * 16 + byte b mod 16 = byte b"
    "byte c div 64 * 64 + byte c mod 64 = byte c" by simp_all
  ultimately show ?case using 4 by (simp add: scan_digits del: scan.simps(2))
qed simp

lemma encode_shape:
  "\<exists>ds p. urlsafe_b64encode bs = map digit64 ds @ replicate p (CHR ''='') \<and> (\<forall>n \<in> set ds. n < 64) \<and> p < 4 \<and> 4 dvd length ds + p"
proof (induction bs rule: urlsafe_b64encode.induct)
  case 1
  show ?case by (rule exI[of _ "[]"], rule exI[of _ 0]) simp
next
  case (2 a)
  show ?case
    by (rule exI[of _ "[byte a div 4, byte a mod 4 * 16]"], rule exI[of _ 2]) (simp add: numeral_2_eq_2, presburger)
next
  case (3 a b)
  show ?case
    by (rule exI[of _ "[byte a div 4, byte a mod 4 * 16 + byte b div 16, byte b mod 16 * 4]"], rule exI[of _ 1]) (simp, presburger)
next
  case (4 a b c bs)
  then obtain ds p where "urlsafe_b64encode bs = map digit64 ds @ replicate p (CHR ''='')" "\<forall>n \<in> set ds. n < 64" "p < 4"
    "4 dvd length ds + p" by blast
  then show ?case
    by (intro exI[of _ "[byte a div 4, byte a mod 4 * 16 + byte b div 16, byte b mod 16 * 4 + byte c div 64, byte c mod 64] @ ds"]
        exI[of _ p]) (simp, presburger)
qed

lemma strip_pads:
  "CHR ''='' \<notin> set xs \<Longrightarrow> rev (dropWhile (\<lambda>c. c = CHR ''='') (rev (xs @ replicate p (CHR ''='')))) = xs"
proof -
  assume "CHR ''='' \<notin> set xs"
  then have "dropWhile (\<lambda>c. c = CHR ''='') (rev xs) = rev xs"
    by (cases xs rule: rev_cases) auto
  moreover have "dropWhile (\<lambda>c. c = CHR ''='') (replicate p (CHR ''='') @ rev xs) = dropWhile (\<lambda>c. c = CHR ''='') (rev xs)"
    by (induction p) simp_all
  ultimately show ?thesis by simp
qed

lemma padding_back: "p < 4 \<Longrightarrow> 4 dvd n + p \<Longrightarrow> (if n mod 4 \<noteq> 0 then 4 - n mod 4 else 0) = p" for n p :: nat
  by presburger

text \<open>Decoding the text of a link gives back its bytes, whatever they are.\<close>

lemma urlsafe_roundtrip: "from_urlsafe (make_urlsafe bs) = Inr bs"
proof -
  obtain ds p where shape: "urlsafe_b64encode bs = map digit64 ds @ replicate p (CHR ''='')" "\<forall>n \<in> set ds. n < 64" "p < 4"
    "4 dvd length ds + p" using encode_shape by blast
  have made: "make_urlsafe bs = map digit64 ds"
    unfolding make_urlsafe_def shape(1) using shape(2) digit64(2) by (intro strip_pads) (auto simp: eq_commute[of "CHR ''=''"])
  have "(if length ds mod 4 \<noteq> 0 then make_urlsafe bs @ replicate (4 - length ds mod 4) (CHR ''='') else make_urlsafe bs) =
    urlsafe_b64encode bs"
    using padding_back[OF shape(3,4)] shape(1) made by auto
  moreover have "\<not> list_ex (\<lambda>c. 128 \<le> byte c) (urlsafe_b64encode bs)"
    using shape(1,2) digit64(4) by (auto simp: list_ex_iff not_le)
  moreover have "length (make_urlsafe bs) = length ds" by (simp add: made)
  ultimately show ?thesis
    using decode_encode[of bs] by (simp only: from_urlsafe_def urlsafe_b64decode_def Let_def if_False)
qed

end
