(* ===== verification/Secret_Links.thy ===== *)
theory Secret_Links
  imports Profile_Config Url_Base64
begin

text \<open>
  The secrets in the links of the add-on, \<open>CryptoUtils\<close> of \<open>utils/crypto.py\<close>: a link carries the
  encrypted configuration itself (\<open>D-\<close>) or names a stored profile (\<open>U-\<close>). Every worker process keeps
  the secrets it decrypted, and the ones it rejected, for a while; Redis keeps the stored profiles by
  their UUID. Compression, encryption, the schema, the digest and the table of users are the fields
  of \<open>crypto_env\<close>. A step reads the clock once. A cached value is copied in and out, so it is a value.
\<close>

section \<open>Profiles\<close>

record user_profile =
  prof_id :: int
  prof_uuid :: string
  prof_owner :: int
  prof_name :: string
  prof_config :: dict
  prof_secrets :: "string option"
  prof_default :: bool

text \<open>What Redis keeps under a profile's UUID.\<close>

record uuid_entry =
  entry_config :: dict
  entry_secrets :: "string option"
  entry_user_id :: int
  entry_profile_id :: int
  entry_user_uuid :: string
  entry_profile_uuid :: string
  entry_api_password :: "json option"

type_synonym uuid_cache = "string \<rightharpoonup> uuid_entry \<times> rat"

record 'u crypto_env =
  digest :: "string \<Rightarrow> string"
  encrypt_bytes :: "string \<Rightarrow> string \<Rightarrow> string"
  decrypt_bytes :: "string \<Rightarrow> string \<Rightarrow> string py_result"
  dump_user_data :: "'u \<Rightarrow> string"
  parse_user_data :: "string \<Rightarrow> 'u py_result"
  make_user_data :: "dict \<Rightarrow> 'u py_result"
  no_user_data :: 'u
  unseal_secrets :: "string \<Rightarrow> dict py_result"
  disabled_services :: "string list"
  user_uuid :: "int \<Rightarrow> string option"

datatype secret_error = Config_Too_Large | Deprecated_Link | Invalid_User_Data

section \<open>Constants\<close>

definition URL_EMBEDDED_USERDATA_MAX_LEN :: nat where "URL_EMBEDDED_USERDATA_MAX_LEN = 2000"
definition UUID_CACHE_TTL :: rat where "UUID_CACHE_TTL = 2592000"
definition DECRYPT_CACHE_TTL_SECONDS :: rat where "DECRYPT_CACHE_TTL_SECONDS = 120"
definition DECRYPT_CACHE_MAX_ENTRIES :: nat where "DECRYPT_CACHE_MAX_ENTRIES = 2048"
definition INVALID_SECRET_CACHE_TTL_SECONDS :: rat where "INVALID_SECRET_CACHE_TTL_SECONDS = 300"
definition INVALID_SECRET_CACHE_MAX_ENTRIES :: nat where "INVALID_SECRET_CACHE_MAX_ENTRIES = 4096"
definition MAX_SECRET_STR_LENGTH :: nat where "MAX_SECRET_STR_LENGTH = 4096"

section \<open>The caches of a worker\<close>

text \<open>Dictionaries in insertion order, with the time an entry expires.\<close>

record 'u worker =
  decrypted :: "(string \<times> rat \<times> 'u) list"
  invalid :: "(string \<times> rat) list"

definition get_cached_decrypted_user_data :: "rat \<Rightarrow> string \<Rightarrow> 'u worker \<Rightarrow> 'u option \<times> 'u worker" where
  "get_cached_decrypted_user_data t s w =
     (if s = [] then (None, w)
      else case map_of (decrypted w) s of
        None \<Rightarrow> (None, w)
      | Some (expires_at, u) \<Rightarrow>
          if expires_at \<le> t then (None, w\<lparr>decrypted := AList.delete s (decrypted w)\<rparr>) else (Some u, w))"

definition evict_expired_decrypt_cache_entries :: "rat \<Rightarrow> 'u worker \<Rightarrow> 'u worker" where
  "evict_expired_decrypt_cache_entries t w = w\<lparr>decrypted := filter (\<lambda>(k, expires_at, u). t < expires_at) (decrypted w)\<rparr>"

text \<open>Popping the oldest entry of a dictionary that is full.\<close>

definition make_room :: "nat \<Rightarrow> ('k \<times> 'v) list \<Rightarrow> ('k \<times> 'v) list" where
  "make_room max_entries d = (if max_entries \<le> length d then tl d else d)"

definition cache_decrypted_user_data :: "rat \<Rightarrow> string \<Rightarrow> 'u \<Rightarrow> 'u worker \<Rightarrow> 'u worker" where
  "cache_decrypted_user_data t s u w =
     (if s = [] then w
      else (let w' = evict_expired_decrypt_cache_entries t w
            in w'\<lparr>decrypted := AList.update s (t + DECRYPT_CACHE_TTL_SECONDS, u)
                    (make_room DECRYPT_CACHE_MAX_ENTRIES (decrypted w'))\<rparr>))"

definition invalidate_decrypt_cache_prefix :: "string \<Rightarrow> 'u worker \<Rightarrow> 'u worker" where
  "invalidate_decrypt_cache_prefix p w = w\<lparr>decrypted := filter (\<lambda>(k, e). \<not> py_startswith k p) (decrypted w)\<rparr>"

definition is_known_invalid_secret :: "('u, 'z) crypto_env_scheme \<Rightarrow> rat \<Rightarrow> string \<Rightarrow> 'u worker \<Rightarrow> bool \<times> 'u worker" where
  "is_known_invalid_secret env t s w =
     (case map_of (invalid w) (digest env s) of
        None \<Rightarrow> (False, w)
      | Some expires_at \<Rightarrow>
          if expires_at \<le> t then (False, w\<lparr>invalid := AList.delete (digest env s) (invalid w)\<rparr>) else (True, w))"

definition evict_expired_invalid_secret_entries :: "rat \<Rightarrow> 'u worker \<Rightarrow> 'u worker" where
  "evict_expired_invalid_secret_entries t w = w\<lparr>invalid := filter (\<lambda>(k, expires_at). t < expires_at) (invalid w)\<rparr>"

definition mark_invalid_secret :: "('u, 'z) crypto_env_scheme \<Rightarrow> rat \<Rightarrow> string \<Rightarrow> 'u worker \<Rightarrow> bool \<times> 'u worker" where
  "mark_invalid_secret env t s w =
     (let w' = evict_expired_invalid_secret_entries t w;
          already_known = (map_of (invalid w') (digest env s) \<noteq> None)
      in (\<not> already_known,
          w'\<lparr>invalid := AList.update (digest env s) (t + INVALID_SECRET_CACHE_TTL_SECONDS)
                (make_room INVALID_SECRET_CACHE_MAX_ENTRIES (invalid w'))\<rparr>))"

definition clear_invalid_secret :: "('u, 'z) crypto_env_scheme \<Rightarrow> string \<Rightarrow> 'u worker \<Rightarrow> 'u worker" where
  "clear_invalid_secret env s w = w\<lparr>invalid := AList.delete (digest env s) (invalid w)\<rparr>"

section \<open>Stored profiles\<close>

definition entry_identity :: "uuid_entry \<Rightarrow> identity" where
  "entry_identity e =
     \<lparr>ident_user_id = Some (entry_user_id e), ident_profile_id = Some (entry_profile_id e),
      ident_user_uuid = Some (entry_user_uuid e), ident_profile_uuid = Some (entry_profile_uuid e),
      ident_api_password = entry_api_password e\<rparr>"

definition build_user_data_from_cached_uuid :: "('u, 'z) crypto_env_scheme \<Rightarrow> uuid_entry \<Rightarrow> 'u py_result" where
  "build_user_data_from_cached_uuid env e =
     bind_result (get_full_config (unseal_secrets env) (Some (entry_config e)) (entry_secrets e)) (\<lambda>full_config.
       build_user_data_from_config (make_user_data env) (disabled_services env) (entry_identity e) full_config)"

text \<open>The entry for a profile; the key of the instance is included when there is one.\<close>

definition make_uuid_entry :: "user_profile \<Rightarrow> string \<Rightarrow> json option \<Rightarrow> uuid_entry" where
  "make_uuid_entry p uid pw =
     \<lparr>entry_config = prof_config p, entry_secrets = prof_secrets p, entry_user_id = prof_owner p,
      entry_profile_id = prof_id p, entry_user_uuid = uid, entry_profile_uuid = prof_uuid p, entry_api_password = pw\<rparr>"

definition cache_uuid_profile :: "rat \<Rightarrow> bool \<Rightarrow> string \<Rightarrow> uuid_entry \<Rightarrow> uuid_cache \<Rightarrow> uuid_cache" where
  "cache_uuid_profile t up uuid e r = (if up then r(uuid \<mapsto> (e, t + UUID_CACHE_TTL)) else r)"

text \<open>The first half of a lookup that misses: what is read from the database.\<close>

definition load_uuid_profile :: "('u, 'z) crypto_env_scheme \<Rightarrow> user_profile list \<Rightarrow> string \<Rightarrow> (uuid_entry \<times> dict) py_result" where
  "load_uuid_profile env rows uuid =
     (case find (\<lambda>p. prof_uuid p = uuid) rows of
        None \<Rightarrow> Inl ValueError
      | Some p \<Rightarrow>
          (case user_uuid env (prof_owner p) of
             None \<Rightarrow> Inl ValueError
           | Some uid \<Rightarrow>
               bind_result (get_full_config (unseal_secrets env) (Some (prof_config p)) (prof_secrets p)) (\<lambda>full_config.
                 (let pw = either_key full_config ''api_password'' ''ap''
                  in Inr (make_uuid_entry p uid (if truthy pw then Some pw else None), full_config)))))"

text \<open>The second half: it is stored in Redis, and the user data is built without the instance's key.\<close>

definition store_uuid_profile ::
  "('u, 'z) crypto_env_scheme \<Rightarrow> rat \<Rightarrow> bool \<Rightarrow> string \<Rightarrow> uuid_entry \<times> dict \<Rightarrow> uuid_cache \<Rightarrow> 'u py_result \<times> uuid_cache" where
  "store_uuid_profile env t up uuid loaded r =
     (build_user_data_from_config (make_user_data env) (disabled_services env)
        ((entry_identity (fst loaded))\<lparr>ident_api_password := None\<rparr>) (snd loaded),
      cache_uuid_profile t up uuid (fst loaded) r)"

definition load_and_cache_uuid_profile ::
  "('u, 'z) crypto_env_scheme \<Rightarrow> rat \<Rightarrow> bool \<Rightarrow> user_profile list \<Rightarrow> string \<Rightarrow> uuid_cache \<Rightarrow> 'u py_result \<times> uuid_cache" where
  "load_and_cache_uuid_profile env t up rows uuid r =
     (case load_uuid_profile env rows uuid of
        Inl e \<Rightarrow> (Inl e, r)
      | Inr loaded \<Rightarrow> store_uuid_profile env t up uuid loaded r)"

definition live_uuid_entry :: "rat \<Rightarrow> uuid_cache \<Rightarrow> string \<Rightarrow> uuid_entry option" where
  "live_uuid_entry t r uuid = (case r uuid of Some (e, expires) \<Rightarrow> if t < expires then Some e else None | None \<Rightarrow> None)"

text \<open>A hit renews the life time of the entry; when it cannot be built the database is asked.\<close>

definition resolve_uuid_profile ::
  "('u, 'z) crypto_env_scheme \<Rightarrow> rat \<Rightarrow> bool \<Rightarrow> user_profile list \<Rightarrow> string \<Rightarrow> uuid_cache \<Rightarrow> 'u py_result \<times> uuid_cache" where
  "resolve_uuid_profile env t up rows uuid r =
     (if length uuid < 32 then (Inl ValueError, r)
      else case (if up then live_uuid_entry t r uuid else None) of
        None \<Rightarrow> load_and_cache_uuid_profile env t up rows uuid r
      | Some e \<Rightarrow>
          (let r' = r(uuid \<mapsto> (e, t + UUID_CACHE_TTL))
           in case build_user_data_from_cached_uuid env e of
                Inr u \<Rightarrow> (Inr u, r')
              | Inl _ \<Rightarrow> load_and_cache_uuid_profile env t up rows uuid r'))"

definition invalidate_uuid_cache :: "bool \<Rightarrow> string \<Rightarrow> 'u worker \<times> uuid_cache \<Rightarrow> 'u worker \<times> uuid_cache" where
  "invalidate_uuid_cache up uuid s =
     (case s of (w, r) \<Rightarrow> if up then (invalidate_decrypt_cache_prefix (''U-'' @ uuid) w, r(uuid := None)) else (w, r))"

definition format_profile_uuid_secret :: "string \<Rightarrow> string" where
  "format_profile_uuid_secret uuid = (if uuid = [] then [] else ''U-'' @ uuid)"

definition prime_profile_uuid_cache ::
  "rat \<Rightarrow> bool \<Rightarrow> user_profile \<Rightarrow> string \<Rightarrow> string option \<Rightarrow> uuid_cache \<Rightarrow> uuid_cache" where
  "prime_profile_uuid_cache t up p uid api_password r =
     cache_uuid_profile t up (prof_uuid p)
       (make_uuid_entry p uid (case api_password of Some pw \<Rightarrow> if pw = [] then None else Some (JStr pw) | None \<Rightarrow> None)) r"

section \<open>Links\<close>

definition process_user_data :: "('u, 'z) crypto_env_scheme \<Rightarrow> string \<Rightarrow> 'u \<Rightarrow> secret_error + string" where
  "process_user_data env iv u =
     (let urlsafe_data = make_urlsafe (iv @ encrypt_bytes env iv (dump_user_data env u))
      in if length urlsafe_data \<le> URL_EMBEDDED_USERDATA_MAX_LEN then Inr (''D-'' @ urlsafe_data) else Inl Config_Too_Large)"

text \<open>The payload of a direct link.\<close>

definition decrypt_direct :: "('u, 'z) crypto_env_scheme \<Rightarrow> string \<Rightarrow> 'u py_result" where
  "decrypt_direct env data =
     bind_result (from_urlsafe data) (\<lambda>final_data.
       bind_result (decrypt_bytes env (take 16 final_data) (drop 16 final_data)) (parse_user_data env))"

text \<open>How a resolution ends: only a \<open>ValueError\<close> is remembered.\<close>

definition finish_secret ::
  "('u, 'z) crypto_env_scheme \<Rightarrow> rat \<Rightarrow> string \<Rightarrow> 'u py_result \<Rightarrow> 'u worker \<Rightarrow> (secret_error + 'u) \<times> 'u worker" where
  "finish_secret env t s result w =
     (case result of
        Inr u \<Rightarrow> (Inr u, cache_decrypted_user_data t s u (clear_invalid_secret env s w))
      | Inl e \<Rightarrow> (Inl Invalid_User_Data, if e = ValueError then snd (mark_invalid_secret env t s w) else w))"

definition decrypt_user_data ::
  "('u, 'z) crypto_env_scheme \<Rightarrow> rat \<Rightarrow> bool \<Rightarrow> user_profile list \<Rightarrow> string \<Rightarrow> 'u worker \<times> uuid_cache \<Rightarrow>
     (secret_error + 'u) \<times> 'u worker \<times> uuid_cache" where
  "decrypt_user_data env t up rows s state =
     (case state of (w, r) \<Rightarrow>
       if s = [] then (Inr (no_user_data env), w, r)
       else if MAX_SECRET_STR_LENGTH < length s then (Inl Invalid_User_Data, snd (mark_invalid_secret env t s w), r)
       else (case is_known_invalid_secret env t s w of (known, w1) \<Rightarrow>
         if known then (Inl Invalid_User_Data, w1, r)
         else (case get_cached_decrypted_user_data t s w1 of
           (Some u, w2) \<Rightarrow> (Inr u, w2, r)
         | (None, w2) \<Rightarrow>
             if py_startswith s ''R-'' then (Inl Deprecated_Link, w2, r)
             else if py_startswith s ''D-'' then
               (case finish_secret env t s (decrypt_direct env (drop 2 s)) w2 of (answer, w3) \<Rightarrow> (answer, w3, r))
             else if py_startswith s ''U-'' then
               (case resolve_uuid_profile env t up rows (drop 2 s) r of (result, r') \<Rightarrow>
                  case finish_secret env t s result w2 of (answer, w3) \<Rightarrow> (answer, w3, r'))
             else (case finish_secret env t s (Inl ValueError) w2 of (answer, w3) \<Rightarrow> (answer, w3, r)))))"

definition encode_user_data :: "('u, 'z) crypto_env_scheme \<Rightarrow> 'u \<Rightarrow> string" where
  "encode_user_data env u = make_urlsafe (dump_user_data env u)"

definition decode_user_data :: "('u, 'z) crypto_env_scheme \<Rightarrow> string \<Rightarrow> secret_error + 'u" where
  "decode_user_data env s =
     (case bind_result (from_urlsafe s) (parse_user_data env) of Inr u \<Rightarrow> Inr u | Inl _ \<Rightarrow> Inl Invalid_User_Data)"

end
