(* ===== verification/Profile_Store.thy ===== *)
theory Profile_Store
  imports Secret_Links Profile_Edit
begin

text \<open>
  The profiles of the users and their caches: the handlers of \<open>api/routers/user/profiles.py\<close> that
  change a profile, \<open>ProfileDataProvider\<close> of \<open>utils/profile_context.py\<close>, and several worker processes
  that share the database and Redis. A handler is one database transaction, so an error leaves the
  state as it was; the row that an unordered query returns first is chosen by \<open>first_of\<close>.
\<close>

section \<open>State\<close>

record cached_profile =
  cached_id :: int
  cached_config :: dict
  cached_secrets :: "string option"

record 'u site =
  rows :: "user_profile list"
  next_id :: int
  uuid_keys :: uuid_cache
  context_keys :: "int \<rightharpoonup> cached_profile \<times> rat"
  workers :: "'u worker list"

text \<open>\<open>credentials_error\<close> asks the services of the active providers; it is \<open>None\<close> when all is well.\<close>

record 'u profile_env = "'u crypto_env" +
  seal_secrets :: "dict \<Rightarrow> string"
  bracket_valid :: "string \<Rightarrow> bool"
  max_providers :: nat
  credentials_error :: "dict \<Rightarrow> string option"
  first_of :: "user_profile list \<Rightarrow> user_profile"

definition owned :: "int \<Rightarrow> user_profile list \<Rightarrow> user_profile list" where
  "owned user ps = filter (\<lambda>p. prof_owner p = user) ps"

definition defaults :: "int \<Rightarrow> user_profile list \<Rightarrow> user_profile list" where
  "defaults user ps = filter (\<lambda>p. prof_owner p = user \<and> prof_default p) ps"

section \<open>The cache of the active profile\<close>

definition CACHE_TTL :: rat where "CACHE_TTL = 300"

definition invalidate_cache :: "bool \<Rightarrow> int \<Rightarrow> 'u site \<Rightarrow> 'u site" where
  "invalidate_cache up user st = (if up then st\<lparr>context_keys := (context_keys st)(user := None)\<rparr> else st)"

definition get_cached_profile :: "rat \<Rightarrow> bool \<Rightarrow> int \<Rightarrow> 'u site \<Rightarrow> cached_profile option" where
  "get_cached_profile t up user st =
     (if up then (case context_keys st user of Some (c, expires) \<Rightarrow> if t < expires then Some c else None | None \<Rightarrow> None) else None)"

definition cache_profile :: "rat \<Rightarrow> bool \<Rightarrow> int \<Rightarrow> cached_profile \<Rightarrow> 'u site \<Rightarrow> 'u site" where
  "cache_profile t up user c st = (if up then st\<lparr>context_keys := (context_keys st)(user \<mapsto> (c, t + CACHE_TTL))\<rparr> else st)"

definition get_active_profile :: "('u, 'z) profile_env_scheme \<Rightarrow> int \<Rightarrow> user_profile list \<Rightarrow> user_profile option" where
  "get_active_profile env user ps =
     (if defaults user ps \<noteq> [] then Some (first_of env (defaults user ps))
      else if owned user ps \<noteq> [] then Some (first_of env (owned user ps))
      else None)"

definition get_profile_by_id :: "int \<Rightarrow> int \<Rightarrow> user_profile list \<Rightarrow> user_profile option" where
  "get_profile_by_id user pid ps = find (\<lambda>p. prof_id p = pid \<and> prof_owner p = user) ps"

definition to_cached :: "user_profile \<Rightarrow> cached_profile" where
  "to_cached p = \<lparr>cached_id = prof_id p, cached_config = prof_config p, cached_secrets = prof_secrets p\<rparr>"

definition extract_rpdb_key :: "dict \<Rightarrow> json" where
  "extract_rpdb_key config =
     (let from_key = (\<lambda>k f. case get_or config k (JDict []) of JDict d \<Rightarrow> get_or d f JNull | _ \<Rightarrow> JNull)
      in if truthy (from_key ''rpc'' ''ak'') then from_key ''rpc'' ''ak''
         else if truthy (from_key ''rpdb_config'' ''api_key'') then from_key ''rpdb_config'' ''api_key'' else JNull)"

record 'u profile_context =
  context_user_id :: int
  context_profile_id :: "int option"
  context_user_data :: 'u
  context_rpdb_key :: json

definition empty_context :: "('u, 'z) profile_env_scheme \<Rightarrow> int \<Rightarrow> 'u profile_context" where
  "empty_context env user =
     \<lparr>context_user_id = user, context_profile_id = None, context_user_data = no_user_data env, context_rpdb_key = JNull\<rparr>"

text \<open>The key is read off the prepared configuration, which the construction has changed in place.\<close>

definition build_context_from_cached :: "('u, 'z) profile_env_scheme \<Rightarrow> int \<Rightarrow> cached_profile \<Rightarrow> 'u profile_context" where
  "build_context_from_cached env user c =
     (case bind_result (get_full_config (unseal_secrets env) (Some (cached_config c)) (cached_secrets c)) (\<lambda>full_config.
             bind_result (prepare_config (disabled_services env)
               \<lparr>ident_user_id = Some user, ident_profile_id = Some (cached_id c), ident_user_uuid = None,
                ident_profile_uuid = None, ident_api_password = None\<rparr> full_config) (\<lambda>prepared.
               bind_result (make_user_data env prepared) (\<lambda>u. Inr (u, prepared)))) of
        Inl e \<Rightarrow> empty_context env user
      | Inr (u, prepared) \<Rightarrow>
          \<lparr>context_user_id = user, context_profile_id = Some (cached_id c), context_user_data = u,
           context_rpdb_key = extract_rpdb_key prepared\<rparr>)"

definition get_context ::
  "('u, 'z) profile_env_scheme \<Rightarrow> rat \<Rightarrow> bool \<Rightarrow> int \<Rightarrow> int option \<Rightarrow> 'u site \<Rightarrow> 'u profile_context \<times> 'u site" where
  "get_context env t up user profile_id st =
     (case (case profile_id of None \<Rightarrow> None | Some pid \<Rightarrow> get_profile_by_id user pid (rows st)) of
        Some p \<Rightarrow> (build_context_from_cached env user (to_cached p), st)
      | None \<Rightarrow>
          (case get_cached_profile t up user st of
             Some c \<Rightarrow> (build_context_from_cached env user c, st)
           | None \<Rightarrow>
               (case get_active_profile env user (rows st) of
                  None \<Rightarrow> (empty_context env user, st)
                | Some p \<Rightarrow>
                    (build_context_from_cached env user (to_cached p), cache_profile t up user (to_cached p) st))))"

section \<open>Configurations\<close>

definition save_profile_config :: "('u, 'z) profile_env_scheme \<Rightarrow> user_profile \<Rightarrow> dict \<Rightarrow> user_profile response" where
  "save_profile_config env p config =
     bind_result (uncaught (extract_secrets config)) (\<lambda>(clean_config, secrets).
       Inr (p\<lparr>prof_config := clean_config, prof_secrets := encrypt_secrets (seal_secrets env) secrets\<rparr>))"

text \<open>The handlers' own \<open>get_full_config\<close>: an error leaves the secrets out.\<close>

definition stored_config :: "('u, 'z) profile_env_scheme \<Rightarrow> user_profile \<Rightarrow> dict" where
  "stored_config env p =
     (if prof_secrets p \<in> {None, Some []} then prof_config p
      else case bind_result (decrypt_secrets (unseal_secrets env) (prof_secrets p)) (merge_secrets (prof_config p)) of
        Inl e \<Rightarrow> prof_config p
      | Inr full_config \<Rightarrow> full_config)"

definition check_config :: "('u, 'z) profile_env_scheme \<Rightarrow> dict \<Rightarrow> unit response" where
  "check_config env config =
     bind_result (validate_provider_configs (max_providers env) (disabled_services env) config) (\<lambda>_.
       bind_result (validate_external_services (bracket_valid env) config) (\<lambda>_.
         (case credentials_error env config of Some msg \<Rightarrow> Inl (Bad_Request (Credentials_Rejected msg)) | None \<Rightarrow> Inr ())))"

section \<open>Handlers\<close>

definition unset_defaults :: "int \<Rightarrow> int option \<Rightarrow> user_profile list \<Rightarrow> user_profile list" where
  "unset_defaults user except ps =
     map (\<lambda>p. if prof_owner p = user \<and> prof_default p \<and> Some (prof_id p) \<noteq> except then p\<lparr>prof_default := False\<rparr> else p) ps"

definition replace_row :: "user_profile \<Rightarrow> user_profile list \<Rightarrow> user_profile list" where
  "replace_row p ps = map (\<lambda>q. if prof_id q = prof_id p then p else q) ps"

definition find_owned :: "int \<Rightarrow> int \<Rightarrow> user_profile list \<Rightarrow> user_profile response" where
  "find_owned user pid ps =
     (case find (\<lambda>p. prof_id p = pid) ps of
        Some p \<Rightarrow> if prof_owner p = user then Inr p else Inl Not_Found
      | None \<Rightarrow> Inl Not_Found)"

definition create_profile ::
  "('u, 'z) profile_env_scheme \<Rightarrow> int \<Rightarrow> string \<Rightarrow> bool \<Rightarrow> dict option \<Rightarrow> string option \<Rightarrow> string \<Rightarrow> 'u site \<Rightarrow> 'u site response" where
  "create_profile env user nm make_default config_data header new_uuid st =
     (if 5 \<le> length (owned user (rows st)) then Inl (Bad_Request Too_Many_Profiles)
      else (let should_set_default = make_default \<or> owned user (rows st) = [];
                config = add_api_key header (case config_data of Some c \<Rightarrow> c | None \<Rightarrow> [])
            in bind_result (check_config env config) (\<lambda>_.
                 bind_result
                   (save_profile_config env
                      \<lparr>prof_id = next_id st, prof_uuid = new_uuid, prof_owner = user, prof_name = nm, prof_config = [],
                       prof_secrets = None, prof_default = should_set_default\<rparr> config) (\<lambda>p.
                   Inr (st\<lparr>rows := (if should_set_default then unset_defaults user None (rows st) else rows st) @ [p],
                           next_id := next_id st + 1\<rparr>)))))"

text \<open>\<open>invalidate_uuid_cache\<close> as worker \<open>i\<close> executes it.\<close>

definition drop_link :: "nat \<Rightarrow> bool \<Rightarrow> string \<Rightarrow> 'u site \<Rightarrow> 'u site" where
  "drop_link i up uuid st =
     (case invalidate_uuid_cache up uuid (workers st ! i, uuid_keys st) of
        (w, r) \<Rightarrow> st\<lparr>workers := (workers st)[i := w], uuid_keys := r\<rparr>)"

definition update_profile ::
  "('u, 'z) profile_env_scheme \<Rightarrow> nat \<Rightarrow> bool \<Rightarrow> int \<Rightarrow> int \<Rightarrow> string option \<Rightarrow> bool option \<Rightarrow> dict option \<Rightarrow> string option \<Rightarrow>
     'u site \<Rightarrow> 'u site response" where
  "update_profile env i up user pid new_name new_default config_data header st =
     bind_result (find_owned user pid (rows st)) (\<lambda>p.
       bind_result
         (case config_data of
            None \<Rightarrow> Inr None
          | Some c \<Rightarrow>
              (let new_config = add_api_key header (unmask_config_update c (stored_config env p))
               in bind_result (check_config env new_config) (\<lambda>_. Inr (Some new_config)))) (\<lambda>new_config.
         (let p1 = (case new_name of None \<Rightarrow> p | Some n \<Rightarrow> p\<lparr>prof_name := n\<rparr>)
          in bind_result (case new_config of None \<Rightarrow> Inr p1 | Some c \<Rightarrow> save_profile_config env p1 c) (\<lambda>p2.
               (let p3 = (case new_default of None \<Rightarrow> p2 | Some b \<Rightarrow> p2\<lparr>prof_default := b\<rparr>);
                    others = (if new_default = Some True then unset_defaults user (Some pid) (rows st) else rows st)
                in Inr (drop_link i up (prof_uuid p3) (invalidate_cache up user (st\<lparr>rows := replace_row p3 others\<rparr>))))))))"

definition delete_profile ::
  "('u, 'z) profile_env_scheme \<Rightarrow> nat \<Rightarrow> bool \<Rightarrow> int \<Rightarrow> int \<Rightarrow> 'u site \<Rightarrow> 'u site response" where
  "delete_profile env i up user pid st =
     bind_result (find_owned user pid (rows st)) (\<lambda>p.
       if length (owned user (rows st)) \<le> 1 then Inl (Bad_Request Last_Profile)
       else (let others = filter (\<lambda>q. prof_id q \<noteq> pid) (rows st);
                 rest = (if prof_default p
                         then replace_row ((first_of env (owned user others))\<lparr>prof_default := True\<rparr>) others else others)
             in Inr (drop_link i up (prof_uuid p) (invalidate_cache up user (st\<lparr>rows := rest\<rparr>)))))"

definition set_default_profile ::
  "('u, 'z) profile_env_scheme \<Rightarrow> bool \<Rightarrow> int \<Rightarrow> int \<Rightarrow> 'u site \<Rightarrow> 'u site response" where
  "set_default_profile env up user pid st =
     bind_result (find_owned user pid (rows st)) (\<lambda>p.
       Inr (invalidate_cache up user
              (st\<lparr>rows := replace_row (p\<lparr>prof_default := True\<rparr>) (unset_defaults user (Some pid) (rows st))\<rparr>)))"

definition reset_profile_uuid ::
  "('u, 'z) profile_env_scheme \<Rightarrow> nat \<Rightarrow> bool \<Rightarrow> int \<Rightarrow> int \<Rightarrow> string \<Rightarrow> 'u site \<Rightarrow> 'u site response" where
  "reset_profile_uuid env i up user pid new_uuid st =
     bind_result (find_owned user pid (rows st)) (\<lambda>p.
       Inr (invalidate_cache up user (drop_link i up (prof_uuid p) (st\<lparr>rows := replace_row (p\<lparr>prof_uuid := new_uuid\<rparr>) (rows st)\<rparr>))))"

section \<open>Histories\<close>

text \<open>What can happen: a handler runs in a worker, a link is opened, the install link is shown, a context is asked for.\<close>

datatype site_op =
    Create int string bool "dict option" "string option" string
  | Update nat bool int int "string option" "bool option" "dict option" "string option"
  | Delete nat bool int int
  | Set_Default bool int int
  | Reset_Uuid nat bool int int string
  | Open nat bool string
  | Show_Link bool int int "string option"
  | Context bool int "int option"

definition open_link :: "('u, 'z) profile_env_scheme \<Rightarrow> nat \<Rightarrow> rat \<Rightarrow> bool \<Rightarrow> string \<Rightarrow> 'u site \<Rightarrow> (secret_error + 'u) \<times> 'u site" where
  "open_link env i t up s st =
     (case decrypt_user_data env t up (rows st) s (workers st ! i, uuid_keys st) of
        (answer, w, r) \<Rightarrow> (answer, st\<lparr>workers := (workers st)[i := w], uuid_keys := r\<rparr>))"

definition show_link :: "('u, 'z) profile_env_scheme \<Rightarrow> rat \<Rightarrow> bool \<Rightarrow> int \<Rightarrow> int \<Rightarrow> string option \<Rightarrow> 'u site \<Rightarrow> 'u site response" where
  "show_link env t up user pid header st =
     bind_result (find_owned user pid (rows st)) (\<lambda>p.
       case user_uuid env user of
         None \<Rightarrow> Inl Not_Found
       | Some uid \<Rightarrow> Inr (st\<lparr>uuid_keys := prime_profile_uuid_cache t up p uid header (uuid_keys st)\<rparr>))"

definition kept_on_error :: "'u site \<Rightarrow> 'u site response \<Rightarrow> 'u site" where
  "kept_on_error st r = (case r of Inl e \<Rightarrow> st | Inr st' \<Rightarrow> st')"

fun site_step :: "('u, 'z) profile_env_scheme \<Rightarrow> rat \<times> site_op \<Rightarrow> 'u site \<Rightarrow> 'u site" where
  "site_step env (t, Create user nm d c h uuid) st = kept_on_error st (create_profile env user nm d c h uuid st)"
| "site_step env (t, Update i up user pid nm d c h) st = kept_on_error st (update_profile env i up user pid nm d c h st)"
| "site_step env (t, Delete i up user pid) st = kept_on_error st (delete_profile env i up user pid st)"
| "site_step env (t, Set_Default up user pid) st = kept_on_error st (set_default_profile env up user pid st)"
| "site_step env (t, Reset_Uuid i up user pid uuid) st = kept_on_error st (reset_profile_uuid env i up user pid uuid st)"
| "site_step env (t, Open i up s) st = snd (open_link env i t up s st)"
| "site_step env (t, Show_Link up user pid h) st = kept_on_error st (show_link env t up user pid h st)"
| "site_step env (t, Context up user pid) st = snd (get_context env t up user pid st)"

definition site_run :: "('u, 'z) profile_env_scheme \<Rightarrow> (rat \<times> site_op) list \<Rightarrow> 'u site \<Rightarrow> 'u site" where
  "site_run env ops st = fold (site_step env) ops st"

definition empty_site :: "nat \<Rightarrow> 'u site" where
  "empty_site n =
     \<lparr>rows = [], next_id = 1, uuid_keys = Map.empty, context_keys = Map.empty,
      workers = replicate n \<lparr>decrypted = [], invalid = []\<rparr>\<rparr>"

end
