(* ===== verification/Secret_Links_Correct.thy ===== *)
theory Secret_Links_Correct
  imports Secret_Links
begin

text \<open>
  What the caches of a worker keep: they stay within their bounds, and for a direct link the answer
  is the one of a decryption, whatever the worker has answered before.
\<close>

section \<open>Histories of a worker\<close>

datatype link_op = Open_Link rat bool "user_profile list" string | Invalidate_Link bool string

fun apply_link_op :: "('u, 'z) crypto_env_scheme \<Rightarrow> link_op \<Rightarrow> 'u worker \<times> uuid_cache \<Rightarrow> 'u worker \<times> uuid_cache" where
  "apply_link_op env (Open_Link t up rows s) state = snd (decrypt_user_data env t up rows s state)"
| "apply_link_op env (Invalidate_Link up uuid) state = invalidate_uuid_cache up uuid state"

definition fresh_worker :: "'u worker" where
  "fresh_worker = \<lparr>decrypted = [], invalid = []\<rparr>"

definition after_ops :: "('u, 'z) crypto_env_scheme \<Rightarrow> link_op list \<Rightarrow> 'u worker \<times> uuid_cache" where
  "after_ops env ops = fold (apply_link_op env) ops (fresh_worker, Map.empty)"

section \<open>The entries of a worker\<close>

text \<open>
  \<open>holds P Q w\<close>: every decrypted entry satisfies \<open>P\<close>, every rejected digest \<open>Q\<close>. Each operation
  keeps old entries or adds one, so an invariant of the entries is one of the worker.
\<close>

definition holds :: "(string \<times> rat \<times> 'u \<Rightarrow> bool) \<Rightarrow> (string \<times> rat \<Rightarrow> bool) \<Rightarrow> 'u worker \<Rightarrow> bool" where
  "holds P Q w \<longleftrightarrow> (\<forall>x \<in> set (decrypted w). P x) \<and> (\<forall>x \<in> set (invalid w). Q x)"

lemma set_delete: "set (AList.delete k d) \<subseteq> set d"
  by (auto simp: AList.delete_eq)

lemma set_make_room: "set (make_room n d) \<subseteq> set d"
  by (cases d) (auto simp: make_room_def)

lemma set_update: "set (AList.update k v d) \<subseteq> insert (k, v) (set d)"
  by (induction d) auto

lemma holds_fresh: "holds P Q fresh_worker"
  by (simp add: holds_def fresh_worker_def)

lemma holds_get: "holds P Q w \<Longrightarrow> holds P Q (snd (get_cached_decrypted_user_data t s w))"
  using set_delete by (fastforce simp: holds_def get_cached_decrypted_user_data_def split: option.splits)

lemma holds_known: "holds P Q w \<Longrightarrow> holds P Q (snd (is_known_invalid_secret env t s w))"
  using set_delete by (fastforce simp: holds_def is_known_invalid_secret_def split: option.splits)

lemma holds_clear: "holds P Q w \<Longrightarrow> holds P Q (clear_invalid_secret env s w)"
  using set_delete by (fastforce simp: holds_def clear_invalid_secret_def)

lemma holds_invalidate: "holds P Q w \<Longrightarrow> holds P Q (invalidate_decrypt_cache_prefix p w)"
  by (auto simp: holds_def invalidate_decrypt_cache_prefix_def)

lemma holds_cache:
  assumes "holds P Q w" and "P (s, t + DECRYPT_CACHE_TTL_SECONDS, u)"
  shows "holds P Q (cache_decrypted_user_data t s u w)"
proof -
  let ?old = "filter (\<lambda>(k, expires_at, u). t < expires_at) (decrypted w)"
  have "set (AList.update s (t + DECRYPT_CACHE_TTL_SECONDS, u) (make_room DECRYPT_CACHE_MAX_ENTRIES ?old))
      \<subseteq> insert (s, t + DECRYPT_CACHE_TTL_SECONDS, u) (set (decrypted w))"
    using set_update[of s "(t + DECRYPT_CACHE_TTL_SECONDS, u)" "make_room DECRYPT_CACHE_MAX_ENTRIES ?old"]
      set_make_room[of DECRYPT_CACHE_MAX_ENTRIES ?old] by fastforce
  then show ?thesis
    using assms by (auto simp: holds_def cache_decrypted_user_data_def evict_expired_decrypt_cache_entries_def Let_def)
qed

lemma holds_mark:
  assumes "holds P Q w" and "Q (digest env s, t + INVALID_SECRET_CACHE_TTL_SECONDS)"
  shows "holds P Q (snd (mark_invalid_secret env t s w))"
proof -
  let ?old = "filter (\<lambda>(k, expires_at). t < expires_at) (invalid w)"
  have "set (AList.update (digest env s) (t + INVALID_SECRET_CACHE_TTL_SECONDS) (make_room INVALID_SECRET_CACHE_MAX_ENTRIES ?old))
      \<subseteq> insert (digest env s, t + INVALID_SECRET_CACHE_TTL_SECONDS) (set (invalid w))"
    using set_update[of "digest env s" "t + INVALID_SECRET_CACHE_TTL_SECONDS" "make_room INVALID_SECRET_CACHE_MAX_ENTRIES ?old"]
      set_make_room[of INVALID_SECRET_CACHE_MAX_ENTRIES ?old] by fastforce
  then show ?thesis
    using assms by (auto simp: holds_def mark_invalid_secret_def evict_expired_invalid_secret_entries_def Let_def)
qed

lemma holds_finish:
  assumes "holds P Q w"
    and "\<And>u. result = Inr u \<Longrightarrow> P (s, t + DECRYPT_CACHE_TTL_SECONDS, u)"
    and "\<And>e. result = Inl e \<Longrightarrow> Q (digest env s, t + INVALID_SECRET_CACHE_TTL_SECONDS)"
  shows "holds P Q (snd (finish_secret env t s result w))"
proof (cases result)
  case (Inl e)
  then show ?thesis using assms(1,3) holds_mark[of P Q w env s t] by (simp add: finish_secret_def)
next
  case (Inr u)
  then show ?thesis using holds_cache[OF holds_clear[OF assms(1)] assms(2)[OF Inr]] Inr by (simp add: finish_secret_def)
qed

text \<open>The result an answer is finished with, for the three kinds of links.\<close>

definition link_result ::
  "('u, 'z) crypto_env_scheme \<Rightarrow> rat \<Rightarrow> bool \<Rightarrow> user_profile list \<Rightarrow> string \<Rightarrow> uuid_cache \<Rightarrow> 'u py_result" where
  "link_result env t up rows s r =
     (if py_startswith s ''D-'' then decrypt_direct env (drop 2 s)
      else if py_startswith s ''U-'' then fst (resolve_uuid_profile env t up rows (drop 2 s) r)
      else Inl ValueError)"

text \<open>The course of an answer: too long, rejected before, held, of the removed kind, or resolved.\<close>

lemma decrypt_cases:
  fixes env :: "('u, 'z) crypto_env_scheme"
  assumes "s \<noteq> []"
  obtains (long) "MAX_SECRET_STR_LENGTH < length s"
      "decrypt_user_data env t up rows s (w, r) = (Inl Invalid_User_Data, snd (mark_invalid_secret env t s w), r)"
  | (known) w1 where "length s \<le> MAX_SECRET_STR_LENGTH" "is_known_invalid_secret env t s w = (True, w1)"
      "decrypt_user_data env t up rows s (w, r) = (Inl Invalid_User_Data, w1, r)"
  | (hit) w1 w2 u where "is_known_invalid_secret env t s w = (False, w1)" "get_cached_decrypted_user_data t s w1 = (Some u, w2)"
      "decrypt_user_data env t up rows s (w, r) = (Inr u, w2, r)"
  | (removed) w1 w2 where "is_known_invalid_secret env t s w = (False, w1)" "get_cached_decrypted_user_data t s w1 = (None, w2)"
      "py_startswith s ''R-''" "decrypt_user_data env t up rows s (w, r) = (Inl Deprecated_Link, w2, r)"
  | (resolved) w1 w2 answer w3 r' where "length s \<le> MAX_SECRET_STR_LENGTH" "is_known_invalid_secret env t s w = (False, w1)"
      "get_cached_decrypted_user_data t s w1 = (None, w2)" "\<not> py_startswith s ''R-''"
      "finish_secret env t s (link_result env t up rows s r) w2 = (answer, w3)"
      "decrypt_user_data env t up rows s (w, r) = (answer, w3, r')"
      "r' = (if py_startswith s ''U-'' \<and> \<not> py_startswith s ''D-'' then snd (resolve_uuid_profile env t up rows (drop 2 s) r) else r)"
proof -
  obtain known w1 where k: "is_known_invalid_secret env t s w = (known, w1)" by fastforce
  obtain held w2 where h: "get_cached_decrypted_user_data t s w1 = (held, w2)" by fastforce
  obtain answer w3 where f: "finish_secret env t s (link_result env t up rows s r) w2 = (answer, w3)" by fastforce
  obtain result r' where u: "resolve_uuid_profile env t up rows (drop 2 s) r = (result, r')" by fastforce
  note d = decrypt_user_data_def assms k h
  show thesis
  proof (cases "MAX_SECRET_STR_LENGTH < length s")
    case True
    then show thesis by (intro long) (simp_all add: d)
  next
    case short: False
    show thesis
    proof (cases known)
      case True
      show thesis by (rule known[of w1]) (use short k True in \<open>simp_all add: d\<close>)
    next
      case unknown: False
      show thesis
      proof (cases held)
        case (Some u)
        show thesis by (rule hit[of w1 u w2]) (use short k h unknown Some in \<open>simp_all add: d\<close>)
      next
        case None
        show thesis
        proof (cases "py_startswith s ''R-''")
          case True
          show thesis by (rule removed[of w1 w2]) (use short k h unknown None True in \<open>simp_all add: d\<close>)
        next
          case False
          have "decrypt_user_data env t up rows s (w, r) = (answer, w3,
              if py_startswith s ''U-'' \<and> \<not> py_startswith s ''D-'' then snd (resolve_uuid_profile env t up rows (drop 2 s) r) else r)"
            using short unknown None False f u
            by (cases "py_startswith s ''D-''"; cases "py_startswith s ''U-''") (simp_all add: d link_result_def)
          then show thesis
            by (rule resolved[rotated 5]) (use short k h unknown None False f in simp_all)
        qed
      qed
    qed
  qed
qed

lemma holds_decrypt:
  assumes "holds P Q w"
    and new: "\<And>u. link_result env t up rows s r = Inr u \<Longrightarrow> \<not> py_startswith s ''R-'' \<Longrightarrow>
      P (s, t + DECRYPT_CACHE_TTL_SECONDS, u)"
    and rejected: "MAX_SECRET_STR_LENGTH < length s \<or> (\<exists>e. link_result env t up rows s r = Inl e) \<Longrightarrow>
      Q (digest env s, t + INVALID_SECRET_CACHE_TTL_SECONDS)"
  shows "holds P Q (fst (snd (decrypt_user_data env t up rows s (w, r))))"
proof (cases "s = []")
  case True
  then show ?thesis using assms(1) by (simp add: decrypt_user_data_def)
next
  case False
  then show ?thesis
  proof (cases rule: decrypt_cases[of s env t up rows w r])
    case long
    then show ?thesis using assms(1) rejected holds_mark by fastforce
  next
    case (known w1)
    then show ?thesis using holds_known[OF assms(1), of env t s] by simp
  next
    case (hit w1 w2 u)
    then show ?thesis using holds_get[OF holds_known[OF assms(1), of env t s], of t s] by simp
  next
    case (removed w1 w2)
    then show ?thesis using holds_get[OF holds_known[OF assms(1), of env t s], of t s] by simp
  next
    case (resolved w1 w2 answer w3 r')
    have "holds P Q w2"
      using holds_get[OF holds_known[OF assms(1), of env t s], of t s] resolved(2,3) by simp
    then have "holds P Q (snd (finish_secret env t s (link_result env t up rows s r) w2))"
      using new rejected resolved(4) by (intro holds_finish) auto
    then show ?thesis using resolved(5,6) by simp
  qed
qed

section \<open>Properties\<close>

lemma holds_invalidate_cache: "holds P Q w \<Longrightarrow> holds P Q (fst (invalidate_uuid_cache up uuid (w, r)))"
  by (simp add: invalidate_uuid_cache_def holds_invalidate)

lemma holds_after_ops:
  assumes "\<And>t up rows s r u. link_result env t up rows s r = Inr u \<Longrightarrow> \<not> py_startswith s ''R-'' \<Longrightarrow> P (s, t + DECRYPT_CACHE_TTL_SECONDS, u)"
    and "\<And>t up rows s r e. MAX_SECRET_STR_LENGTH < length s \<or> link_result env t up rows s r = Inl e \<Longrightarrow>
      Q (digest env s, t + INVALID_SECRET_CACHE_TTL_SECONDS)"
  shows "holds P Q (fst (after_ops env ops))"
proof (induction ops rule: rev_induct)
  case Nil
  then show ?case by (simp add: after_ops_def holds_fresh)
next
  case (snoc op ops)
  obtain w r where "after_ops env ops = (w, r)" by fastforce
  then have w: "holds P Q w" and step: "after_ops env (ops @ [op]) = apply_link_op env op (w, r)"
    using snoc by (simp_all add: after_ops_def)
  show ?case
  proof (cases op)
    case (Open_Link t up rows s)
    have "holds P Q (fst (snd (decrypt_user_data env t up rows s (w, r))))"
      using assms by (intro holds_decrypt[OF w]) blast+
    then show ?thesis using step Open_Link by simp
  next
    case (Invalidate_Link up uuid)
    then show ?thesis using step holds_invalidate_cache[OF w] by simp
  qed
qed

text \<open>A direct link is decrypted by what it carries alone.\<close>

definition direct_ok :: "('u, 'z) crypto_env_scheme \<Rightarrow> string \<times> rat \<times> 'u \<Rightarrow> bool" where
  "direct_ok env x = (case x of (s, e, u) \<Rightarrow> py_startswith s ''D-'' \<longrightarrow> decrypt_direct env (drop 2 s) = Inr u)"

definition rejected_ok :: "('u, 'z) crypto_env_scheme \<Rightarrow> string \<times> rat \<Rightarrow> bool" where
  "rejected_ok env x =
     (\<exists>s. fst x = digest env s \<and>
       (py_startswith s ''D-'' \<longrightarrow> MAX_SECRET_STR_LENGTH < length s \<or> (\<exists>e. decrypt_direct env (drop 2 s) = Inl e)))"

lemma direct_after_ops: "holds (direct_ok env) (rejected_ok env) (fst (after_ops env ops))"
  by (rule holds_after_ops) (auto simp: direct_ok_def rejected_ok_def link_result_def)

lemma known_rejected:
  "is_known_invalid_secret env t s w = (True, w') \<Longrightarrow> holds P Q w \<Longrightarrow> \<exists>e. Q (digest env s, e)"
  by (auto simp: is_known_invalid_secret_def holds_def dest!: map_of_SomeD split: option.splits if_splits)

lemma hit_decrypted:
  "get_cached_decrypted_user_data t s w = (Some u, w') \<Longrightarrow> holds P Q w \<Longrightarrow> \<exists>e. P (s, e, u)"
  by (auto simp: get_cached_decrypted_user_data_def holds_def dest!: map_of_SomeD split: option.splits if_splits)

lemma direct_link_answer:
  assumes "inj (digest env)" and "holds (direct_ok env) (rejected_ok env) w"
    and "py_startswith s ''D-''" and "length s \<le> MAX_SECRET_STR_LENGTH" and "decrypt_direct env (drop 2 s) = Inr u"
  shows "fst (decrypt_user_data env t up rows s (w, r)) = Inr u"
proof -
  have "s \<noteq> []" using assms(3) by (auto simp: py_startswith_def)
  then show ?thesis
  proof (cases rule: decrypt_cases[of s env t up rows w r])
    case long
    then show ?thesis using assms(4) by simp
  next
    case (known w1)
    from known_rejected[OF known(2) assms(2)] obtain s' where "digest env s = digest env s'"
      "py_startswith s' ''D-'' \<longrightarrow> MAX_SECRET_STR_LENGTH < length s' \<or> (\<exists>e. decrypt_direct env (drop 2 s') = Inl e)"
      unfolding rejected_ok_def by (elim exE conjE) simp
    moreover from this(1) have "s' = s" using injD[OF assms(1)] by metis
    ultimately show ?thesis using assms(3,4,5) by simp
  next
    case (hit w1 w2 v)
    have "holds (direct_ok env) (rejected_ok env) w1" using holds_known[OF assms(2), of env t s] hit(1) by simp
    from hit_decrypted[OF hit(2) this] have "v = u" using assms(3,5) by (auto simp: direct_ok_def)
    then show ?thesis using hit(3) by simp
  next
    case (removed w1 w2)
    then show ?thesis using assms(3) by (auto simp: py_startswith_def)
  next
    case (resolved w1 w2 answer w3 r')
    then show ?thesis using assms(3,5) by (auto simp: link_result_def finish_secret_def)
  qed
qed

text \<open>
  Property C13. A link made for a configuration opens to that configuration, on every worker and
  after any history of opened and revoked links: the caches of decrypted and of rejected links never
  get in the way. The encryption and the schema invert what they wrote, the digest is injective.
\<close>

theorem direct_link_opens:
  assumes "process_user_data env iv u = Inr link" and "inj (digest env)" and "length iv = 16"
    and "decrypt_bytes env iv (encrypt_bytes env iv (dump_user_data env u)) = Inr (dump_user_data env u)"
    and "parse_user_data env (dump_user_data env u) = Inr u"
  shows "fst (decrypt_user_data env t up rows link (after_ops env ops)) = Inr u"
proof -
  define payload where "payload = make_urlsafe (iv @ encrypt_bytes env iv (dump_user_data env u))"
  have link: "link = ''D-'' @ payload" "length payload \<le> URL_EMBEDDED_USERDATA_MAX_LEN"
    using assms(1) by (auto simp: process_user_data_def payload_def Let_def split: if_splits)
  have "decrypt_direct env payload = Inr u"
    using urlsafe_roundtrip[of "iv @ encrypt_bytes env iv (dump_user_data env u)"] assms(3-5)
    by (simp add: decrypt_direct_def payload_def)
  moreover obtain w r where "after_ops env ops = (w, r)" by fastforce
  ultimately show ?thesis
    using direct_link_answer[OF assms(2) direct_after_ops[of env ops], of link u t up rows r] link
    by (simp add: py_startswith_def MAX_SECRET_STR_LENGTH_def URL_EMBEDDED_USERDATA_MAX_LEN_def)
qed

definition sample_env :: "string crypto_env" where
  "sample_env =
     \<lparr>digest = (\<lambda>s. s), encrypt_bytes = (\<lambda>iv s. rev s), decrypt_bytes = (\<lambda>iv s. Inr (rev s)), dump_user_data = (\<lambda>u. u),
      parse_user_data = Inr, make_user_data = (\<lambda>d. Inr (case map_of d ''sr'' of Some (JStr s) \<Rightarrow> s | _ \<Rightarrow> [])), no_user_data = [],
      unseal_secrets = (\<lambda>s. Inr []), disabled_services = [], user_uuid = (\<lambda>i. Some ''u'')\<rparr>"

definition sample_link :: string where
  "sample_link = ''D-'' @ make_urlsafe (replicate 16 (CHR ''k'') @ ''}1{'')"

theorem direct_link_opens_witness:
  "fst (decrypt_user_data sample_env 5 True [] sample_link (after_ops sample_env [Open_Link 1 True [] ''D-!'', Invalidate_Link True ''x''])) =
     Inr ''{1}''"
proof (rule direct_link_opens[where iv = "replicate 16 (CHR ''k'')"])
  show "process_user_data sample_env (replicate 16 (CHR ''k'')) ''{1}'' = Inr sample_link" by code_simp
qed (simp_all add: sample_env_def inj_def)

section \<open>Bounds\<close>

lemma length_make_room: "length d \<le> n \<Longrightarrow> 0 < n \<Longrightarrow> length (make_room n d) < n"
  by (cases d) (auto simp: make_room_def)

lemma length_update: "length (AList.update k v d) \<le> Suc (length d)"
  by (induction d) auto

lemma length_delete: "length (AList.delete k d) \<le> length d"
  by (simp add: AList.delete_eq)

definition bounded :: "'u worker \<Rightarrow> bool" where
  "bounded w \<longleftrightarrow> length (decrypted w) \<le> DECRYPT_CACHE_MAX_ENTRIES \<and> length (invalid w) \<le> INVALID_SECRET_CACHE_MAX_ENTRIES"

lemma length_room_update:
  assumes "length d \<le> n" and "0 < n"
  shows "length (AList.update k v (make_room n (filter P d))) \<le> n"
  using length_update[of k v "make_room n (filter P d)"] length_make_room[of "filter P d" n] assms
    length_filter_le[of P d] by linarith

lemma bounded_get: "bounded w \<Longrightarrow> bounded (snd (get_cached_decrypted_user_data t s w))"
  using length_delete[of s "decrypted w"]
  by (auto simp: bounded_def get_cached_decrypted_user_data_def split: option.splits)

lemma bounded_known: "bounded w \<Longrightarrow> bounded (snd (is_known_invalid_secret env t s w))"
  using length_delete[of "digest env s" "invalid w"]
  by (auto simp: bounded_def is_known_invalid_secret_def split: option.splits)

lemma bounded_mark: "bounded w \<Longrightarrow> bounded (snd (mark_invalid_secret env t s w))"
  by (auto simp: bounded_def mark_invalid_secret_def evict_expired_invalid_secret_entries_def Let_def
      INVALID_SECRET_CACHE_MAX_ENTRIES_def intro!: length_room_update)

lemma bounded_finish: "bounded w \<Longrightarrow> bounded (snd (finish_secret env t s result w))"
  using length_delete[of "digest env s" "invalid w"] bounded_mark[of w env t s]
  by (auto simp: bounded_def finish_secret_def cache_decrypted_user_data_def clear_invalid_secret_def
      evict_expired_decrypt_cache_entries_def Let_def DECRYPT_CACHE_MAX_ENTRIES_def intro!: length_room_update split: sum.splits)

lemma bounded_decrypt:
  assumes "bounded w"
  shows "bounded (fst (snd (decrypt_user_data env t up rows s (w, r))))"
proof (cases "s = []")
  case True
  then show ?thesis using assms by (simp add: decrypt_user_data_def)
next
  case False
  have w2: "is_known_invalid_secret env t s w = (b, w1) \<Longrightarrow> get_cached_decrypted_user_data t s w1 = (h, w2) \<Longrightarrow> bounded w2"
    for b w1 h w2
    using bounded_get[OF bounded_known[OF assms, of env t s], of t s] by simp
  show ?thesis
    using False
  proof (cases rule: decrypt_cases[of s env t up rows w r])
    case long
    then show ?thesis using bounded_mark[OF assms] by simp
  next
    case (known w1)
    then show ?thesis using bounded_known[OF assms, of env t s] by simp
  next
    case (hit w1 w2 u)
    then show ?thesis using w2[OF hit(1,2)] by simp
  next
    case (removed w1 w2)
    then show ?thesis using w2[OF removed(1,2)] by simp
  next
    case (resolved w1 w2 answer w3 r')
    then show ?thesis using bounded_finish[OF w2[OF resolved(2,3)], of env t s "link_result env t up rows s r"] by simp
  qed
qed

text \<open>Whatever links are opened, a worker never holds more entries than its two limits.\<close>

theorem secret_caches_bounded:
  "length (decrypted (fst (after_ops env ops))) \<le> 2048 \<and> length (invalid (fst (after_ops env ops))) \<le> 4096"
proof -
  have "bounded (fst (after_ops env ops))"
  proof (induction ops rule: rev_induct)
    case Nil
    then show ?case by (simp add: after_ops_def fresh_worker_def bounded_def)
  next
    case (snoc op ops)
    obtain w r where wr: "after_ops env ops = (w, r)" by fastforce
    show ?case
    proof (cases op)
      case (Open_Link t up rows s)
      then show ?thesis using bounded_decrypt[of w env t up rows s r] snoc wr by (simp add: after_ops_def)
    next
      case (Invalidate_Link up uuid)
      have "bounded (invalidate_decrypt_cache_prefix p w)" for p
        using snoc wr le_trans[OF length_filter_le] by (auto simp: bounded_def invalidate_decrypt_cache_prefix_def)
      then show ?thesis using Invalidate_Link snoc wr by (simp add: after_ops_def invalidate_uuid_cache_def)
    qed
  qed
  then show ?thesis by (simp add: bounded_def DECRYPT_CACHE_MAX_ENTRIES_def INVALID_SECRET_CACHE_MAX_ENTRIES_def)
qed

end
