(* ===== verification/Profile_Defaults.thy ===== *)
theory Profile_Defaults
  imports Profile_Store Secret_Links_Correct
begin

text \<open>
  What the profile handlers guarantee about the rows over any history: profile ids are unique, a user
  has at most five profiles and one default among them. The two ways a default gets lost are at the end.
\<close>

section \<open>Rows\<close>

text \<open>Every handler maps the rows, keeping ids and owners, and adds or removes at most one.\<close>

definition keeps_identity :: "(user_profile \<Rightarrow> user_profile) \<Rightarrow> user_profile list \<Rightarrow> bool" where
  "keeps_identity f ps \<longleftrightarrow> list_all (\<lambda>p. prof_id (f p) = prof_id p \<and> prof_owner (f p) = prof_owner p) ps"

lemma owned_map: "keeps_identity f ps \<Longrightarrow> owned u (map f ps) = map f (owned u ps)"
  by (induction ps) (auto simp: owned_def keeps_identity_def)

lemma defaults_map:
  "keeps_identity f ps \<Longrightarrow> defaults u (map f ps) = map f (filter (\<lambda>p. prof_owner p = u \<and> prof_default (f p)) ps)"
  by (induction ps) (auto simp: defaults_def keeps_identity_def)

lemma ids_map: "keeps_identity f ps \<Longrightarrow> map prof_id (map f ps) = map prof_id ps"
  by (induction ps) (auto simp: keeps_identity_def)

lemma only_row:
  "distinct (map prof_id ps) \<Longrightarrow> p \<in> set ps \<Longrightarrow> filter (\<lambda>q. prof_id q = prof_id p) ps = [p]"
  by (induction ps) (auto simp: filter_empty_conv rev_image_eqI)

lemma same_row: "distinct (map prof_id ps) \<Longrightarrow> p \<in> set ps \<Longrightarrow> q \<in> set ps \<Longrightarrow> prof_id q = prof_id p \<Longrightarrow> q = p"
  by (auto simp: distinct_map dest: inj_onD)

lemma owned_filter_le: "length (filter P (owned u ps)) \<le> length (filter P ps)"
  by (induction ps) (auto simp: owned_def)

lemma find_owned_Inr: "find_owned user pid ps = Inr p \<Longrightarrow> p \<in> set ps \<and> prof_id p = pid \<and> prof_owner p = user"
  by (auto simp: find_owned_def find_Some_iff split: option.splits if_splits)

text \<open>The invariant: ids are used once, a user has at most five profiles, and one of them is the default.\<close>

definition one_default :: "int \<Rightarrow> user_profile list \<Rightarrow> bool" where
  "one_default u ps \<longleftrightarrow> length (defaults u ps) = (if owned u ps = [] then 0 else 1)"

definition rows_ok :: "int \<Rightarrow> user_profile list \<Rightarrow> bool" where
  "rows_ok next ps \<longleftrightarrow> distinct (map prof_id ps) \<and> (\<forall>p \<in> set ps. prof_id p < next) \<and>
     (\<forall>u. length (owned u ps) \<le> 5) \<and> (\<forall>u. one_default u ps)"

text \<open>A map whose only effect on defaults is on one user, who keeps exactly one.\<close>

lemma rows_ok_map:
  assumes ok: "rows_ok next ps" and f: "keeps_identity f ps"
    and others: "\<And>p. p \<in> set ps \<Longrightarrow> prof_owner p \<noteq> user \<Longrightarrow> prof_default (f p) = prof_default p"
    and user: "length (filter (\<lambda>p. prof_owner p = user \<and> prof_default (f p)) ps) = (if owned user ps = [] then 0 else 1)"
  shows "rows_ok next (map f ps)"
proof -
  have "one_default u (map f ps)" for u
  proof (cases "u = user")
    case True
    then show ?thesis using user by (simp add: one_default_def defaults_map[OF f] owned_map[OF f])
  next
    case False
    then have "filter (\<lambda>p. prof_owner p = u \<and> prof_default (f p)) ps = defaults u ps"
      unfolding defaults_def using others by (intro filter_cong) auto
    then show ?thesis using ok by (simp add: one_default_def defaults_map[OF f] owned_map[OF f] rows_ok_def)
  qed
  moreover have "\<forall>p \<in> set (map f ps). prof_id p < next"
    using ok f by (auto simp: rows_ok_def keeps_identity_def list_all_iff)
  ultimately show ?thesis
    using ok ids_map[OF f] by (simp add: rows_ok_def owned_map[OF f] del: map_map)
qed

text \<open>A row is replaced by one with the same id, owner and default.\<close>

lemma rows_ok_replace:
  assumes ok: "rows_ok next ps" and p: "p \<in> set ps"
    and p': "prof_id p' = prof_id p" "prof_owner p' = prof_owner p" "prof_default p' = prof_default p"
  shows "rows_ok next (replace_row p' ps)"
proof -
  let ?f = "\<lambda>q. if prof_id q = prof_id p' then p' else q"
  have same: "q = p" if "q \<in> set ps" "prof_id q = prof_id p'" for q
    using same_row[of ps p q] ok p p' that by (simp add: rows_ok_def)
  have d: "prof_default (?f q) = prof_default q" if "q \<in> set ps" for q using same[OF that] p' by auto
  have f: "keeps_identity ?f ps" using same p' by (auto simp: keeps_identity_def list_all_iff)
  have "filter (\<lambda>q. prof_owner q = prof_owner p \<and> prof_default (?f q)) ps = defaults (prof_owner p) ps"
    unfolding defaults_def using d by (intro filter_cong) auto
  then show ?thesis
    using rows_ok_map[OF ok f, of "prof_owner p"] d ok
    by (auto simp: replace_row_def rows_ok_def one_default_def split: if_splits)
qed

text \<open>A row becomes the only default of its owner.\<close>

lemma rows_ok_make_default:
  assumes ok: "rows_ok next ps" and p: "p \<in> set ps"
    and p': "prof_id p' = prof_id p" "prof_owner p' = prof_owner p" "prof_default p'"
  shows "rows_ok next (replace_row p' (unset_defaults (prof_owner p) (Some (prof_id p)) ps))"
proof -
  let ?g = "\<lambda>q. if prof_owner q = prof_owner p \<and> prof_default q \<and> Some (prof_id q) \<noteq> Some (prof_id p)
    then q\<lparr>prof_default := False\<rparr> else q"
  let ?f = "\<lambda>q. if prof_id (?g q) = prof_id p' then p' else ?g q"
  have "replace_row p' (unset_defaults (prof_owner p) (Some (prof_id p)) ps) = map ?f ps"
    by (simp add: replace_row_def unset_defaults_def)
  moreover have same: "q = p" if "q \<in> set ps" "prof_id q = prof_id p" for q
    using same_row[of ps p q] ok p that by (simp add: rows_ok_def)
  have f: "keeps_identity ?f ps" using same p' by (auto simp: keeps_identity_def list_all_iff)
  have "filter (\<lambda>q. prof_owner q = prof_owner p \<and> prof_default (?f q)) ps = filter (\<lambda>q. prof_id q = prof_id p) ps"
    using same p' by (intro filter_cong) auto
  then have "length (filter (\<lambda>q. prof_owner q = prof_owner p \<and> prof_default (?f q)) ps) = 1"
    using only_row[of ps p] ok p by (simp add: rows_ok_def)
  moreover have "owned (prof_owner p) ps \<noteq> []" using p by (auto simp: owned_def filter_empty_conv)
  moreover have "prof_default (?f q) = prof_default q" if "q \<in> set ps" "prof_owner q \<noteq> prof_owner p" for q
    using that same p' by auto
  ultimately show ?thesis using rows_ok_map[OF ok f, of "prof_owner p"] by auto
qed

text \<open>A row is appended, as the only default or beside one.\<close>

lemma rows_ok_append:
  assumes ok: "rows_ok next ps" and new: "prof_id p = next" and few: "length (owned (prof_owner p) ps) < 5"
    and d: "prof_default p \<longleftrightarrow> unset" and first: "owned (prof_owner p) ps = [] \<longrightarrow> unset"
  shows "rows_ok (next + 1) ((if unset then unset_defaults (prof_owner p) None ps else ps) @ [p])"
proof -
  let ?g = "\<lambda>q. if prof_owner q = prof_owner p \<and> prof_default q then q\<lparr>prof_default := False\<rparr> else q"
  let ?f = "if unset then ?g else (\<lambda>q. q)"
  have m: "(if unset then unset_defaults (prof_owner p) None ps else ps) = map ?f ps"
    by (simp add: unset_defaults_def)
  have f: "keeps_identity ?f ps" by (auto simp: keeps_identity_def list_all_iff)
  have ids: "distinct (map prof_id (map ?f ps @ [p]))" "\<forall>q \<in> set (map ?f ps @ [p]). prof_id q < next + 1"
    using ok new ids_map[OF f] f by (force simp: rows_ok_def keeps_identity_def list_all_iff simp del: map_map)+
  have "one_default u (map ?f ps @ [p])" for u
  proof (cases "u = prof_owner p")
    case True
    have "defaults (prof_owner p) (map ?f ps) = (if unset then [] else defaults (prof_owner p) ps)"
      unfolding defaults_map[OF f] by (auto simp: filter_empty_conv defaults_def)
    then have "length (defaults (prof_owner p) (map ?f ps)) = (if unset then 0 else 1)"
      using ok first by (auto simp: rows_ok_def one_default_def split: if_splits)
    then show ?thesis using True d by (simp add: one_default_def defaults_def owned_def)
  next
    case False
    then have "filter (\<lambda>q. prof_owner q = u \<and> prof_default (?f q)) ps = defaults u ps"
      unfolding defaults_def by (intro filter_cong) auto
    then have "length (defaults u (map ?f ps)) = (if owned u ps = [] then 0 else 1)"
      using ok unfolding defaults_map[OF f] by (simp add: rows_ok_def one_default_def)
    then show ?thesis
      using False owned_map[OF f, of u] by (simp add: one_default_def defaults_def owned_def)
  qed
  moreover have "length (owned u (map ?f ps @ [p])) \<le> 5" for u
  proof -
    have "length (owned u (map ?f ps)) = length (owned u ps)" by (simp add: owned_map[OF f])
    moreover have "length (owned u ps) \<le> 5" using ok by (simp add: rows_ok_def)
    ultimately show ?thesis using few by (cases "u = prof_owner p") (auto simp: owned_def)
  qed
  ultimately show ?thesis unfolding m using ids by (simp add: rows_ok_def)
qed

text \<open>A row is removed; when it was the default another of the user's takes its place.\<close>

lemma rows_ok_remove:
  assumes ok: "rows_ok next ps" and p: "p \<in> set ps"
    and q: "prof_default p \<Longrightarrow> q \<in> set (owned (prof_owner p) (filter (\<lambda>q. prof_id q \<noteq> prof_id p) ps))"
    and two: "1 < length (owned (prof_owner p) ps)"
  shows "rows_ok next (let others = filter (\<lambda>q. prof_id q \<noteq> prof_id p) ps
    in if prof_default p then replace_row (q\<lparr>prof_default := True\<rparr>) others else others)"
proof -
  let ?ps = "filter (\<lambda>q. prof_id q \<noteq> prof_id p) ps" and ?u = "prof_owner p"
  have same: "r = p" if "r \<in> set ps" "prof_id r = prof_id p" for r
    using same_row[of ps p r] ok p that by (simp add: rows_ok_def)
  have ids: "distinct (map prof_id ?ps)" "\<forall>r \<in> set ?ps. prof_id r < next"
    using ok by (auto simp: rows_ok_def distinct_map intro: inj_on_subset)
  have owned: "owned v ?ps = (if v = ?u then filter (\<lambda>q. prof_id q \<noteq> prof_id p) (owned v ps) else owned v ps)" for v
    using same by (auto simp: owned_def conj_commute intro!: filter_cong)
  have "length (filter (\<lambda>q. prof_id q = prof_id p) (owned ?u ps)) = 1"
  proof -
    have "filter (\<lambda>q. prof_id q = prof_id p) (owned ?u ps) = filter (\<lambda>q. prof_id q = prof_id p) ps"
      unfolding owned_def filter_filter using same by (intro filter_cong) auto
    then show ?thesis using only_row[of ps p] ok p by (simp add: rows_ok_def)
  qed
  then have "length (owned ?u ?ps) + 1 = length (owned ?u ps)"
    using sum_length_filter_compl[of "\<lambda>q. prof_id q = prof_id p" "owned ?u ps"] owned[of ?u] by simp
  then have more: "owned ?u ?ps \<noteq> []" using two by auto
  have five: "length (owned v ?ps) \<le> 5" for v
  proof -
    have "length (owned v ?ps) \<le> length (owned v ps)" by (simp add: owned[of v])
    also have "length (owned v ps) \<le> 5" using ok by (simp add: rows_ok_def)
    finally show ?thesis .
  qed
  have others: "defaults v ?ps = defaults v ps" if "v \<noteq> ?u" for v
    using that same by (auto simp: defaults_def intro!: filter_cong)
  show ?thesis
  proof (cases "prof_default p")
    case False
    have "defaults ?u ?ps = defaults ?u ps"
      using False same by (auto simp: defaults_def intro!: filter_cong)
    then have "one_default v ?ps" for v
      using ok more others[of v] owned[of v] by (cases "v = ?u") (auto simp: rows_ok_def one_default_def split: if_splits)
    then show ?thesis using False ids five by (simp add: rows_ok_def)
  next
    case True
    have none: "r = p" if "r \<in> set ps" "prof_owner r = ?u" "prof_default r" for r
    proof -
      have "length (defaults ?u ps) \<le> 1" using ok by (simp add: rows_ok_def one_default_def split: if_splits)
      moreover have "{p, r} \<subseteq> set (defaults ?u ps)" using that True p by (simp add: defaults_def)
      ultimately show ?thesis by (cases "defaults ?u ps" rule: list.exhaust) (auto simp: Suc_le_eq)
    qed
    let ?q = "q\<lparr>prof_default := True\<rparr>"
    let ?f = "\<lambda>r. if prof_id r = prof_id q then ?q else r"
    have q': "q \<in> set ?ps" "prof_owner q = ?u" using q[OF True] by (auto simp: owned_def)
    have sameq: "r = q" if "r \<in> set ?ps" "prof_id r = prof_id q" for r
      using same_row[OF ids(1) q'(1) that(1,2)] .
    have f: "keeps_identity ?f ?ps" using sameq by (auto simp: keeps_identity_def list_all_iff)
    have "filter (\<lambda>r. prof_owner r = ?u \<and> prof_default (?f r)) ?ps = filter (\<lambda>r. prof_id r = prof_id q) ?ps"
      using none sameq q' by (intro filter_cong) auto
    then have one: "length (filter (\<lambda>r. prof_owner r = ?u \<and> prof_default (?f r)) ?ps) = 1"
      using only_row[OF ids(1) q'(1)] by simp
    have "one_default v (map ?f ?ps)" for v
    proof (cases "v = ?u")
      case True
      then show ?thesis using one more by (simp add: one_default_def defaults_map[OF f] owned_map[OF f])
    next
      case False
      then have "filter (\<lambda>r. prof_owner r = v \<and> prof_default (?f r)) ?ps = defaults v ?ps"
        unfolding defaults_def using sameq q' by (intro filter_cong) auto
      then show ?thesis
        using False ok others[of v] owned[of v]
        by (simp add: one_default_def defaults_map[OF f] owned_map[OF f] rows_ok_def)
    qed
    moreover have "\<forall>r \<in> set (map ?f ?ps). prof_id r < next" using ids(2) f by (auto simp: keeps_identity_def list_all_iff)
    ultimately have "rows_ok next (map ?f ?ps)"
      using ids_map[OF f] ids(1) five by (simp add: rows_ok_def owned_map[OF f] del: map_map)
    then show ?thesis using True by (simp add: replace_row_def Let_def)
  qed
qed

section \<open>Handlers\<close>

lemma save_profile_keeps:
  "save_profile_config env p c = Inr p' \<Longrightarrow> prof_id p' = prof_id p \<and> prof_uuid p' = prof_uuid p \<and>
     prof_owner p' = prof_owner p \<and> prof_default p' = prof_default p"
  by (auto simp: save_profile_config_def bind_result_eq_Inr)

lemma invalidate_cache_rows [simp]:
  "rows (invalidate_cache up user st) = rows st" "next_id (invalidate_cache up user st) = next_id st"
  "workers (invalidate_cache up user st) = workers st" "uuid_keys (invalidate_cache up user st) = uuid_keys st"
  by (simp_all add: invalidate_cache_def)

lemma drop_link_rows [simp]: "rows (drop_link i up uuid st) = rows st" "next_id (drop_link i up uuid st) = next_id st"
  by (simp_all add: drop_link_def split: prod.splits)

lemma get_context_rows: "rows (snd (get_context env t up user pid st)) = rows st" "next_id (snd (get_context env t up user pid st)) = next_id st"
  by (auto simp: get_context_def cache_profile_def split: option.splits)

lemma open_link_rows: "rows (snd (open_link env i t up s st)) = rows st" "next_id (snd (open_link env i t up s st)) = next_id st"
  by (auto simp: open_link_def split: prod.splits)

text \<open>What a successful handler does to the rows.\<close>

lemma create_rows:
  assumes "create_profile env user nm d c h uuid st = Inr st'"
  obtains p where "length (owned user (rows st)) < 5" "prof_id p = next_id st" "prof_uuid p = uuid" "prof_owner p = user"
    "prof_default p \<longleftrightarrow> d \<or> owned user (rows st) = []"
    "rows st' = (if d \<or> owned user (rows st) = [] then unset_defaults user None (rows st) else rows st) @ [p]"
    "next_id st' = next_id st + 1" "uuid_keys st' = uuid_keys st" "workers st' = workers st" "context_keys st' = context_keys st"
proof -
  obtain p where few: "\<not> 5 \<le> length (owned user (rows st))" and
    save: "save_profile_config env \<lparr>prof_id = next_id st, prof_uuid = uuid, prof_owner = user, prof_name = nm, prof_config = [],
        prof_secrets = None, prof_default = (d \<or> owned user (rows st) = [])\<rparr>
      (add_api_key h (case c of Some c \<Rightarrow> c | None \<Rightarrow> [])) = Inr p" and
    st': "st' = st\<lparr>rows := (if d \<or> owned user (rows st) = [] then unset_defaults user None (rows st) else rows st) @ [p],
                  next_id := next_id st + 1\<rparr>"
    using assms by (auto simp: create_profile_def Let_def bind_result_eq_Inr split: if_splits)
  show thesis by (rule that[of p]) (use few st' save_profile_keeps[OF save] in auto)
qed

lemma update_rows:
  assumes "update_profile env i up user pid nm d c h st = Inr st'"
  obtains p p' where "find_owned user pid (rows st) = Inr p" "prof_id p' = prof_id p" "prof_uuid p' = prof_uuid p"
    "prof_owner p' = prof_owner p" "prof_default p' = (case d of None \<Rightarrow> prof_default p | Some b \<Rightarrow> b)"
    "st' = drop_link i up (prof_uuid p) (invalidate_cache up user (st\<lparr>rows :=
       replace_row p' (if d = Some True then unset_defaults user (Some pid) (rows st) else rows st)\<rparr>))"
proof -
  obtain p c' p2 where p: "find_owned user pid (rows st) = Inr p" and
    save: "(case c' of None \<Rightarrow> Inr (case nm of None \<Rightarrow> p | Some n \<Rightarrow> p\<lparr>prof_name := n\<rparr>)
      | Some c \<Rightarrow> save_profile_config env (case nm of None \<Rightarrow> p | Some n \<Rightarrow> p\<lparr>prof_name := n\<rparr>) c) = Inr p2" and
    st': "st' = (let p3 = (case d of None \<Rightarrow> p2 | Some b \<Rightarrow> p2\<lparr>prof_default := b\<rparr>)
      in drop_link i up (prof_uuid p3) (invalidate_cache up user (st\<lparr>rows :=
        replace_row p3 (if d = Some True then unset_defaults user (Some pid) (rows st) else rows st)\<rparr>)))"
    using assms unfolding update_profile_def Let_def bind_result_eq_Inr by blast
  have "prof_id p2 = prof_id p \<and> prof_uuid p2 = prof_uuid p \<and> prof_owner p2 = prof_owner p \<and> prof_default p2 = prof_default p"
    using save by (cases c'; cases nm) (auto dest: save_profile_keeps)
  then show thesis
    by (intro that[OF p, of "case d of None \<Rightarrow> p2 | Some b \<Rightarrow> p2\<lparr>prof_default := b\<rparr>"]) (auto simp: st' Let_def split: option.splits)
qed

lemma delete_rows:
  assumes "delete_profile env i up user pid st = Inr st'"
  obtains p where "find_owned user pid (rows st) = Inr p" "1 < length (owned user (rows st))"
    "st' = drop_link i up (prof_uuid p) (invalidate_cache up user (st\<lparr>rows :=
       (let others = filter (\<lambda>q. prof_id q \<noteq> pid) (rows st)
        in if prof_default p then replace_row ((first_of env (owned user others))\<lparr>prof_default := True\<rparr>) others else others)\<rparr>))"
  using assms by (auto simp: delete_profile_def Let_def bind_result_eq_Inr split: if_splits)

text \<open>No handler but an edit that says so takes the default away.\<close>

fun keeps_default :: "rat \<times> site_op \<Rightarrow> bool" where
  "keeps_default (t, Update i up user pid nm d c h) = (d \<noteq> Some False)"
| "keeps_default (t, op) = True"

definition picks_member :: "('u, 'z) profile_env_scheme \<Rightarrow> bool" where
  "picks_member env \<longleftrightarrow> (\<forall>ps. ps \<noteq> [] \<longrightarrow> first_of env ps \<in> set ps)"

lemma update_keeps_rows_ok:
  assumes ok: "rows_ok (next_id st) (rows st)" and d: "d \<noteq> Some False" and u: "update_profile env i up user pid nm d c h st = Inr st'"
  shows "rows_ok (next_id st') (rows st')"
proof -
  obtain p p' where p: "find_owned user pid (rows st) = Inr p" and p': "prof_id p' = prof_id p" "prof_owner p' = prof_owner p"
    "prof_default p' = (case d of None \<Rightarrow> prof_default p | Some b \<Rightarrow> b)" and
    st': "st' = drop_link i up (prof_uuid p) (invalidate_cache up user (st\<lparr>rows :=
       replace_row p' (if d = Some True then unset_defaults user (Some pid) (rows st) else rows st)\<rparr>))"
    using u by (rule update_rows)
  from find_owned_Inr[OF p] have m: "p \<in> set (rows st)" "pid = prof_id p" "user = prof_owner p" by auto
  consider "d = None" | "d = Some True" using d by (cases d) auto
  then show ?thesis
  proof cases
    case 1
    then show ?thesis using rows_ok_replace[OF ok m(1) p'(1,2)] p'(3) st' by simp
  next
    case 2
    then show ?thesis using rows_ok_make_default[OF ok m(1) p'(1,2)] p'(3) st' m by simp
  qed
qed

lemma delete_keeps_rows_ok:
  assumes ok: "rows_ok (next_id st) (rows st)" and "picks_member env" and d: "delete_profile env i up user pid st = Inr st'"
  shows "rows_ok (next_id st') (rows st')"
proof -
  obtain p where p: "find_owned user pid (rows st) = Inr p" "1 < length (owned user (rows st))" and
    st': "st' = drop_link i up (prof_uuid p) (invalidate_cache up user (st\<lparr>rows :=
       (let others = filter (\<lambda>q. prof_id q \<noteq> pid) (rows st)
        in if prof_default p then replace_row ((first_of env (owned user others))\<lparr>prof_default := True\<rparr>) others else others)\<rparr>))"
    using d by (rule delete_rows)
  from find_owned_Inr[OF p(1)] have m: "p \<in> set (rows st)" "pid = prof_id p" "user = prof_owner p" by auto
  let ?others = "filter (\<lambda>q. prof_id q \<noteq> prof_id p) (rows st)"
  have "length (filter (\<lambda>q. prof_id q = prof_id p) (rows st)) = 1"
    using only_row[of "rows st" p] ok m(1) by (simp add: rows_ok_def)
  then have "owned (prof_owner p) ?others \<noteq> []"
  proof -
    have "length (filter (\<lambda>q. prof_id q = prof_id p) (owned (prof_owner p) (rows st))) \<le> length (filter (\<lambda>q. prof_id q = prof_id p) (rows st))"
      by (rule owned_filter_le)
    moreover have "owned (prof_owner p) ?others = filter (\<lambda>q. \<not> prof_id q = prof_id p) (owned (prof_owner p) (rows st))"
      by (simp add: owned_def conj_commute)
    ultimately show ?thesis
      using sum_length_filter_compl[of "\<lambda>q. prof_id q = prof_id p" "owned (prof_owner p) (rows st)"] p(2) m(3)
        \<open>length (filter (\<lambda>q. prof_id q = prof_id p) (rows st)) = 1\<close> by auto
  qed
  then have "first_of env (owned (prof_owner p) ?others) \<in> set (owned (prof_owner p) ?others)"
    using assms(2) by (simp add: picks_member_def)
  then show ?thesis using rows_ok_remove[OF ok m(1)] p(2) m st' by (simp add: Let_def)
qed

lemma step_keeps_rows_ok:
  assumes ok: "rows_ok (next_id st) (rows st)" and "picks_member env" and "keeps_default e"
  shows "rows_ok (next_id (site_step env e st)) (rows (site_step env e st))"
proof -
  obtain t op where e: "e = (t, op)" by fastforce
  show ?thesis
  proof (cases op)
    case (Create user nm d c h uuid)
    show ?thesis
    proof (cases "create_profile env user nm d c h uuid st")
      case (Inr st')
      then show ?thesis
      proof (rule create_rows)
        fix p
        assume p: "length (owned user (rows st)) < 5" "prof_id p = next_id st" "prof_owner p = user"
          "prof_default p \<longleftrightarrow> d \<or> owned user (rows st) = []"
          "rows st' = (if d \<or> owned user (rows st) = [] then unset_defaults user None (rows st) else rows st) @ [p]"
          "next_id st' = next_id st + 1"
        have "rows_ok (next_id st') (rows st')"
          using rows_ok_append[OF ok p(2), of "d \<or> owned user (rows st) = []"] p(1,4) unfolding p(3,5,6) by simp
        then show ?thesis using Inr Create e by (simp add: kept_on_error_def)
      qed
    qed (use ok Create e in \<open>simp add: kept_on_error_def\<close>)
  next
    case (Update i up user pid nm d c h)
    then show ?thesis
      using ok assms(3) e update_keeps_rows_ok[OF ok] by (auto simp: kept_on_error_def split: sum.splits)
  next
    case (Delete i up user pid)
    then show ?thesis
      using ok e delete_keeps_rows_ok[OF ok assms(2)] by (auto simp: kept_on_error_def split: sum.splits)
  next
    case (Set_Default up user pid)
    show ?thesis
    proof (cases "find_owned user pid (rows st)")
      case (Inr p)
      from find_owned_Inr[OF this] have m: "p \<in> set (rows st)" "pid = prof_id p" "user = prof_owner p" by auto
      have "rows_ok (next_id st) (replace_row (p\<lparr>prof_default := True\<rparr>) (unset_defaults (prof_owner p) (Some (prof_id p)) (rows st)))"
        by (rule rows_ok_make_default[OF ok m(1)]) simp_all
      then show ?thesis using Inr Set_Default e m by (simp add: set_default_profile_def kept_on_error_def)
    qed (use ok Set_Default e in \<open>simp add: set_default_profile_def kept_on_error_def\<close>)
  next
    case (Reset_Uuid i up user pid uuid)
    show ?thesis
    proof (cases "find_owned user pid (rows st)")
      case (Inr p)
      from find_owned_Inr[OF this] have m: "p \<in> set (rows st)" by auto
      have "rows_ok (next_id st) (replace_row (p\<lparr>prof_uuid := uuid\<rparr>) (rows st))"
        by (rule rows_ok_replace[OF ok m]) simp_all
      then show ?thesis using Inr Reset_Uuid e by (simp add: reset_profile_uuid_def kept_on_error_def)
    qed (use ok Reset_Uuid e in \<open>simp add: reset_profile_uuid_def kept_on_error_def\<close>)
  next
    case (Show_Link up user pid h)
    then show ?thesis
      using ok e by (auto simp: show_link_def kept_on_error_def bind_result_def split: sum.splits option.splits)
  qed (use ok e in \<open>simp_all add: open_link_rows get_context_rows\<close>)
qed


definition sample_site_env :: "string profile_env" where
  "sample_site_env =
     \<lparr>digest = (\<lambda>s. s), encrypt_bytes = (\<lambda>iv s. rev s), decrypt_bytes = (\<lambda>iv s. Inr (rev s)), dump_user_data = (\<lambda>u. u),
      parse_user_data = Inr, make_user_data = (\<lambda>d. Inr (case map_of d ''x'' of Some (JStr s) \<Rightarrow> s | _ \<Rightarrow> [])), no_user_data = [],
      unseal_secrets = (\<lambda>s. Inr []), disabled_services = [], user_uuid = (\<lambda>i. Some ''u''),
      seal_secrets = (\<lambda>d. ''sealed''), bracket_valid = (\<lambda>h. True), max_providers = 5, credentials_error = (\<lambda>c. None), first_of = hd\<rparr>"

lemma sample_picks: "picks_member sample_site_env"
  by (simp add: picks_member_def sample_site_env_def)

definition sample_uuid :: string where
  "sample_uuid = ''01234567-89ab-cdef-0123-456789abcdef''"

definition sample_ops :: "(rat \<times> site_op) list" where
  "sample_ops =
     [(0, Create 1 ''a'' False (Some [(''x'', JStr ''one'')]) None sample_uuid),
      (1, Create 1 ''b'' True None None ''2''), (2, Delete 0 True 1 2), (3, Open 1 True (''U-'' @ sample_uuid))]"


section \<open>Where a default gets lost\<close>

definition before_revocation :: "(rat \<times> site_op) list" where
  "before_revocation =
     [(0, Create 1 ''a'' True (Some [(''x'', JStr ''one'')]) None sample_uuid), (1, Create 1 ''b'' True None None ''2''),
      (2, Open 1 True (''U-'' @ sample_uuid))]"

text \<open>
  A new profile made the default is not served while the old one is cached: creating
  a profile does not clear the cache of the active profile, as every other handler does.
\<close>

theorem new_default_not_served:
  assumes "create_profile env user nm True c h uuid st = Inr st'" and "get_cached_profile t True user st = Some held"
    and "picks_member env"
  shows "fst (get_context env t True user None st') = build_context_from_cached env user held \<and>
    map_option prof_id (get_active_profile env user (rows st')) = Some (next_id st)"
proof -
  obtain p where p: "prof_id p = next_id st" "prof_owner p = user" "prof_default p \<longleftrightarrow> True \<or> owned user (rows st) = []"
    "rows st' = (if True \<or> owned user (rows st) = [] then unset_defaults user None (rows st) else rows st) @ [p]"
    "context_keys st' = context_keys st"
    using assms(1) by (rule create_rows)
  have "defaults user (unset_defaults user None ps) = []" for ps
    by (induction ps) (simp_all add: defaults_def unset_defaults_def)
  then have d: "defaults user (rows st') = [p]" using p(2-4) by (simp add: defaults_def)
  have "first_of env [p] = p" using assms(3) by (force simp: picks_member_def)
  then have "map_option prof_id (get_active_profile env user (rows st')) = Some (next_id st)"
    using d p(1) by (simp add: get_active_profile_def)
  moreover have "get_cached_profile t True user st' = Some held"
    using assms(2) p(5) by (simp add: get_cached_profile_def)
  ultimately show ?thesis by (simp add: get_context_def)
qed

definition cached_site :: "string site" where
  "cached_site = site_run sample_site_env [hd before_revocation, (1, Context True 1 None)] (empty_site 2)"

definition cached_default :: cached_profile where
  "cached_default = the (get_cached_profile 2 True 1 cached_site)"

definition second_default :: "string site" where
  "second_default = kept_on_error cached_site (create_profile sample_site_env 1 ''b'' True None None ''2'' cached_site)"

theorem new_default_not_served_witness:
  "fst (get_context sample_site_env 2 True 1 None second_default) = build_context_from_cached sample_site_env 1 cached_default \<and>
    map_option prof_id (get_active_profile sample_site_env 1 (rows second_default)) = Some (next_id cached_site)"
proof (rule new_default_not_served[OF _ _ sample_picks])
  have "pred_result (\<lambda>st. True) (create_profile sample_site_env 1 ''b'' True None None ''2'' cached_site)" by code_simp
  then show "create_profile sample_site_env 1 ''b'' True None None ''2'' cached_site = Inr second_default"
    by (auto simp: second_default_def kept_on_error_def pred_result_def split: sum.splits)
  show "get_cached_profile 2 True 1 cached_site = Some cached_default" by code_simp
qed

text \<open>
  An edit may switch the default of a user off, and then none of the user's profiles
  is the default: the active profile is whichever row the database returns first.
\<close>

theorem default_switched_off:
  assumes "rows_ok (next_id st) (rows st)" and "find_owned user pid (rows st) = Inr p" and "prof_default p"
    and "update_profile env i up user pid nm (Some False) c h st = Inr st'"
  shows "defaults user (rows st') = [] \<and> owned user (rows st') \<noteq> [] \<and>
    get_active_profile env user (rows st') = Some (first_of env (owned user (rows st')))"
proof -
  obtain p' where p': "prof_id p' = prof_id p" "prof_owner p' = prof_owner p" "\<not> prof_default p'" and
    rows': "rows st' = replace_row p' (rows st)"
    using assms(4)
  proof (rule update_rows)
    fix q q'
    assume "find_owned user pid (rows st) = Inr q" "prof_id q' = prof_id q" "prof_owner q' = prof_owner q"
      "prof_default q' = (case Some False of None \<Rightarrow> prof_default q | Some b \<Rightarrow> b)"
      "st' = drop_link i up (prof_uuid q) (invalidate_cache up user (st\<lparr>rows :=
         replace_row q' (if Some False = Some True then unset_defaults user (Some pid) (rows st) else rows st)\<rparr>))"
    then show thesis using assms(2) by (intro that[of q']) simp_all
  qed
  from find_owned_Inr[OF assms(2)] have p: "p \<in> set (rows st)" "prof_owner p = user" by auto
  have one: "length (defaults user (rows st)) \<le> 1" using assms(1) by (simp add: rows_ok_def one_default_def)
  have only: "q = p" if "q \<in> set (rows st)" "prof_owner q = user" "prof_default q" for q
  proof -
    have "{p, q} \<subseteq> set (defaults user (rows st))" using that p assms(3) by (simp add: defaults_def)
    then show ?thesis using one by (cases "defaults user (rows st)") (auto simp: Suc_le_eq)
  qed
  have "\<not> (prof_owner q = user \<and> prof_default q)" if q: "q \<in> set (rows st')" for q
  proof -
    obtain r where r: "r \<in> set (rows st)" "q = (if prof_id r = prof_id p' then p' else r)"
      using q unfolding rows' replace_row_def set_map by (elim imageE) (rule that)
    then show ?thesis using only[of r] p'(1,3) by auto
  qed
  then have "defaults user (rows st') = []" by (auto simp: defaults_def filter_empty_conv)
  moreover have "p' \<in> set (rows st')" using p(1) p'(1) unfolding rows' replace_row_def by force
  then have "owned user (rows st') \<noteq> []" using p'(2) p(2) by (auto simp: owned_def filter_empty_conv)
  ultimately show ?thesis by (simp add: get_active_profile_def)
qed

definition lone_profile :: "string site" where
  "lone_profile = site_run sample_site_env [hd before_revocation] (empty_site 1)"

definition no_default :: "string site" where
  "no_default = kept_on_error lone_profile (update_profile sample_site_env 0 True 1 1 None (Some False) None None lone_profile)"

theorem default_switched_off_witness:
  "defaults 1 (rows no_default) = [] \<and> owned 1 (rows no_default) \<noteq> [] \<and>
    get_active_profile sample_site_env 1 (rows no_default) = Some (first_of sample_site_env (owned 1 (rows no_default)))"
proof (rule default_switched_off)
  show "rows_ok (next_id lone_profile) (rows lone_profile)"
    unfolding lone_profile_def site_run_def fold.simps comp_def id_def
    by (rule step_keeps_rows_ok[OF _ sample_picks])
       (simp_all add: before_revocation_def empty_site_def rows_ok_def one_default_def owned_def defaults_def)
  show "find_owned 1 1 (rows lone_profile) = Inr (hd (rows lone_profile))" by code_simp
  show "prof_default (hd (rows lone_profile))" by code_simp
  have "pred_result (\<lambda>st. True) (update_profile sample_site_env 0 True 1 1 None (Some False) None None lone_profile)" by code_simp
  then show "update_profile sample_site_env 0 True 1 1 None (Some False) None None lone_profile = Inr no_default"
    by (auto simp: no_default_def kept_on_error_def pred_result_def split: sum.splits)
qed

end
