(* ===== verification/Profile_Revocation.thy ===== *)
theory Profile_Revocation
  imports Profile_Defaults
begin

text \<open>
  Revoked links: once a profile is deleted or its UUID reset, its link is dead, at once in the worker
  that handled the request and after the life time of a decrypted link in every other. The
  invariant is \<open>dead\<close>; a lookup that is in flight during the revocation breaks it.
\<close>

section \<open>Revoked links\<close>

text \<open>The time a worker may go on answering for a link, and the UUIDs a history creates.\<close>

fun new_uuids :: "rat \<times> site_op \<Rightarrow> string list" where
  "new_uuids (t, Create user nm d c h uuid) = [uuid]"
| "new_uuids (t, Reset_Uuid i up user pid uuid) = [uuid]"
| "new_uuids (t, op) = []"

definition uuids :: "'u site \<Rightarrow> string set" where
  "uuids st = prof_uuid ` set (rows st)"

text \<open>Nothing decrypted by a worker is kept beyond its life time.\<close>

definition entries :: "nat \<Rightarrow> 'u site \<Rightarrow> (string \<times> rat \<times> 'u) set" where
  "entries j st = set (decrypted (workers st ! j))"

definition timely :: "rat \<Rightarrow> 'u site \<Rightarrow> bool" where
  "timely now st \<longleftrightarrow> (\<forall>j < length (workers st). \<forall>(k, e, u) \<in> entries j st. e \<le> now + DECRYPT_CACHE_TTL_SECONDS)"

text \<open>A dead UUID: no profile has it, Redis does not, and what workers hold of it runs out.\<close>

definition dead :: "string \<Rightarrow> nat \<Rightarrow> rat \<Rightarrow> 'u site \<Rightarrow> bool" where
  "dead x i t0 st \<longleftrightarrow> x \<notin> uuids st \<and> uuid_keys st x = None \<and>
     (\<forall>j < length (workers st). \<forall>(k, e, u) \<in> entries j st. k = ''U-'' @ x \<longrightarrow> j \<noteq> i \<and> e \<le> t0 + DECRYPT_CACHE_TTL_SECONDS)"

lemma dead_result:
  assumes "x \<notin> uuids st" and "uuid_keys st x = None"
  shows "resolve_uuid_profile env t up (rows st) x (uuid_keys st) = (Inl ValueError, uuid_keys st)"
proof -
  have "find (\<lambda>p. prof_uuid p = x) (rows st) = None"
    using assms(1) by (auto simp: uuids_def find_None_iff)
  then show ?thesis
    using assms(2) by (simp add: resolve_uuid_profile_def live_uuid_entry_def load_and_cache_uuid_profile_def load_uuid_profile_def)
qed

text \<open>A dead link is rejected by the worker that revoked it, and by the others once their copies ran out.\<close>

lemma dead_rejected:
  assumes d: "dead x i t0 st" and j: "j < length (workers st)" and t: "j = i \<or> t0 + DECRYPT_CACHE_TTL_SECONDS \<le> t"
  shows "fst (open_link env j t up (''U-'' @ x) st) = Inl Invalid_User_Data"
proof -
  let ?w = "workers st ! j" and ?s = "''U-'' @ x"
  have none: "link_result env t up (rows st) ?s (uuid_keys st) = Inl ValueError"
    using dead_result[of x st env t up] d by (simp add: dead_def link_result_def py_startswith_def)
  have held: "\<not> (?s, e, u) \<in> set (decrypted ?w) \<or> e \<le> t" for e u
    using d j t by (fastforce simp: dead_def entries_def)
  have "?s \<noteq> []" by simp
  then have "fst (decrypt_user_data env t up (rows st) ?s (?w, uuid_keys st)) = Inl Invalid_User_Data"
  proof (cases rule: decrypt_cases[of ?s env t up "rows st" ?w "uuid_keys st"])
    case (hit w1 w2 u)
    then obtain e where "(?s, e, u) \<in> set (decrypted w1)" "t < e"
      by (auto simp: get_cached_decrypted_user_data_def dest!: map_of_SomeD split: option.splits if_splits)
    moreover have "decrypted w1 = decrypted ?w"
      using hit(1) by (auto simp: is_known_invalid_secret_def split: option.splits if_splits)
    ultimately show ?thesis using held[of e u] by auto
  next
    case (removed w1 w2)
    then show ?thesis by (simp add: py_startswith_def)
  next
    case (resolved w1 w2 answer w3 r')
    then show ?thesis using none by (auto simp: finish_secret_def)
  qed simp_all
  then show ?thesis by (auto simp: open_link_def split: prod.splits)
qed

text \<open>What the handlers do to the ids and UUIDs.\<close>

definition row_key :: "user_profile \<Rightarrow> int \<times> string" where
  "row_key p = (prof_id p, prof_uuid p)"

definition row_keys :: "'u site \<Rightarrow> (int \<times> string) list" where
  "row_keys st = map row_key (rows st)"

definition keys_ok :: "'u site \<Rightarrow> string set \<Rightarrow> bool" where
  "keys_ok st used \<longleftrightarrow> distinct (map fst (row_keys st)) \<and> (\<forall>k \<in> set (row_keys st). fst k < next_id st) \<and>
     distinct (map snd (row_keys st)) \<and> snd ` set (row_keys st) \<subseteq> used"

lemma uuids_keys: "uuids st = snd ` set (row_keys st)"
  by (auto simp: uuids_def row_keys_def row_key_def image_iff)

lemma ids_keys: "map fst (row_keys st) = map prof_id (rows st)"
  by (simp add: row_keys_def row_key_def)

lemma map_fst_row_key: "map prof_id ps = map fst (map row_key ps)"
  by (simp add: row_key_def)

lemma unset_keys: "map row_key (unset_defaults user x ps) = map row_key ps"
  by (simp add: unset_defaults_def row_key_def)

lemma replace_keys:
  assumes "distinct (map prof_id ps)" and "row_key p' \<in> set (map row_key ps)"
  shows "map row_key (replace_row p' ps) = map row_key ps"
proof -
  obtain p where p: "p \<in> set ps" "row_key p = row_key p'" using assms(2) by auto
  have "row_key (if prof_id q = prof_id p' then p' else q) = row_key q" if "q \<in> set ps" for q
  proof (cases "prof_id q = prof_id p'")
    case True
    then have "prof_id q = prof_id p" using p(2) by (simp add: row_key_def)
    then have "q = p" by (rule same_row[OF assms(1) p(1) that])
    then show ?thesis using p(2) by simp
  qed simp
  then show ?thesis by (simp add: replace_row_def)
qed

lemma keys_ok_ids: "keys_ok st used \<Longrightarrow> distinct (map prof_id (rows st))"
  by (simp add: keys_ok_def ids_keys)

lemma update_keys_kept:
  assumes ok: "keys_ok st used" and "update_profile env i up user pid nm d c h st = Inr st'"
  shows "row_keys st' = row_keys st"
proof -
  obtain p p' where p: "find_owned user pid (rows st) = Inr p" and p': "prof_id p' = prof_id p" "prof_uuid p' = prof_uuid p" and
    st': "st' = drop_link i up (prof_uuid p) (invalidate_cache up user (st\<lparr>rows :=
       replace_row p' (if d = Some True then unset_defaults user (Some pid) (rows st) else rows st)\<rparr>))"
    using assms(2) by (rule update_rows)
  let ?ps = "if d = Some True then unset_defaults user (Some pid) (rows st) else rows st"
  have same: "map row_key ?ps = map row_key (rows st)" by (simp add: unset_keys)
  then have "map prof_id ?ps = map prof_id (rows st)" by (metis map_fst_row_key)
  then have "distinct (map prof_id ?ps)" using keys_ok_ids[OF ok] by simp
  moreover have "row_key p' \<in> set (map row_key ?ps)"
    unfolding same using find_owned_Inr[OF p] p' by (force simp: row_key_def)
  ultimately have "map row_key (replace_row p' ?ps) = map row_key (rows st)" using replace_keys same by metis
  then show ?thesis by (simp add: row_keys_def st')
qed

lemma set_default_keys_kept:
  assumes ok: "keys_ok st used" and "set_default_profile env up user pid st = Inr st'"
  shows "row_keys st' = row_keys st"
proof -
  obtain p where p: "find_owned user pid (rows st) = Inr p" and
    st': "st' = invalidate_cache up user (st\<lparr>rows := replace_row (p\<lparr>prof_default := True\<rparr>) (unset_defaults user (Some pid) (rows st))\<rparr>)"
    using assms(2) by (auto simp: set_default_profile_def bind_result_eq_Inr)
  let ?ps = "unset_defaults user (Some pid) (rows st)"
  have "distinct (map prof_id ?ps)" using keys_ok_ids[OF ok] by (metis map_fst_row_key unset_keys)
  moreover have "row_key (p\<lparr>prof_default := True\<rparr>) \<in> set (map row_key ?ps)"
    unfolding unset_keys using find_owned_Inr[OF p] by (force simp: row_key_def)
  ultimately have "map row_key (replace_row (p\<lparr>prof_default := True\<rparr>) ?ps) = map row_key (rows st)"
    using replace_keys unset_keys by metis
  then show ?thesis by (simp add: row_keys_def st')
qed

lemma delete_keys:
  assumes ok: "keys_ok st used" and picks: "picks_member env" and "delete_profile env i up user pid st = Inr st'"
  shows "row_keys st' = filter (\<lambda>k. fst k \<noteq> pid) (row_keys st)"
proof -
  obtain p where p: "find_owned user pid (rows st) = Inr p" "1 < length (owned user (rows st))" and
    st': "st' = drop_link i up (prof_uuid p) (invalidate_cache up user (st\<lparr>rows :=
       (let others = filter (\<lambda>q. prof_id q \<noteq> pid) (rows st)
        in if prof_default p then replace_row ((first_of env (owned user others))\<lparr>prof_default := True\<rparr>) others else others)\<rparr>))"
    using assms(3) by (rule delete_rows)
  let ?others = "filter (\<lambda>q. prof_id q \<noteq> pid) (rows st)"
  let ?q = "first_of env (owned user ?others)"
  have others: "map row_key ?others = filter (\<lambda>k. fst k \<noteq> pid) (row_keys st)"
    by (simp add: row_keys_def filter_map comp_def row_key_def)
  have "owned user ?others \<noteq> []"
  proof
    assume none: "owned user ?others = []"
    have "owned user (rows st) = filter (\<lambda>q. prof_id q = pid) (owned user (rows st))"
      using none by (auto simp: owned_def filter_empty_conv intro!: filter_cong)
    then have "length (owned user (rows st)) \<le> length (filter (\<lambda>q. prof_id q = pid) (rows st))"
      using owned_filter_le[of "\<lambda>q. prof_id q = pid" user "rows st"] by simp
    moreover have "filter (\<lambda>q. prof_id q = pid) (rows st) = [p]"
      using only_row[OF keys_ok_ids[OF ok]] find_owned_Inr[OF p(1)] by blast
    ultimately show False using p(2) by simp
  qed
  then have "?q \<in> set ?others" using picks by (fastforce simp: picks_member_def owned_def)
  then have "row_key (?q\<lparr>prof_default := True\<rparr>) \<in> set (map row_key ?others)" by (force simp: row_key_def)
  moreover have "distinct (map prof_id ?others)"
    using keys_ok_ids[OF ok] by (auto simp: distinct_map intro: inj_on_subset)
  ultimately have "map row_key (replace_row (?q\<lparr>prof_default := True\<rparr>) ?others) = map row_key ?others"
    by (rule replace_keys[rotated])
  then show ?thesis using others by (simp add: row_keys_def st' Let_def)
qed

lemma reset_keys:
  assumes "reset_profile_uuid env i up user pid uuid st = Inr st'" and ok: "keys_ok st used"
  shows "row_keys st' = map (\<lambda>k. if fst k = pid then (pid, uuid) else k) (row_keys st)"
proof -
  obtain p where p: "find_owned user pid (rows st) = Inr p" and
    st': "st' = invalidate_cache up user (drop_link i up (prof_uuid p) (st\<lparr>rows := replace_row (p\<lparr>prof_uuid := uuid\<rparr>) (rows st)\<rparr>))"
    using assms(1) by (auto simp: reset_profile_uuid_def bind_result_eq_Inr)
  have "prof_id p = pid" using find_owned_Inr[OF p] by simp
  then show ?thesis by (simp add: row_keys_def st' replace_row_def row_key_def)
qed

lemma create_keys:
  assumes "create_profile env user nm d c h uuid st = Inr st'"
  shows "row_keys st' = row_keys st @ [(next_id st, uuid)] \<and> next_id st' = next_id st + 1"
proof -
  obtain p where "prof_id p = next_id st" "prof_uuid p = uuid"
    "rows st' = (if d \<or> owned user (rows st) = [] then unset_defaults user None (rows st) else rows st) @ [p]"
    "next_id st' = next_id st + 1"
    using assms by (rule create_rows)
  then show ?thesis by (simp add: row_keys_def unset_keys row_key_def)
qed

lemma rekey_ok:
  assumes d: "distinct (map fst ks)" "distinct (map snd ks)" and "uuid \<notin> snd ` set ks"
  shows "distinct (map snd (map (\<lambda>k. if fst k = pid then (pid, uuid) else k) ks)) \<and>
    snd ` set (map (\<lambda>k. if fst k = pid then (pid, uuid) else k) ks) \<subseteq> insert uuid (snd ` set (filter (\<lambda>k. fst k \<noteq> pid) ks)) \<and>
    map fst (map (\<lambda>k. if fst k = pid then (pid, uuid) else k) ks) = map fst ks"
  using assms by (induction ks) (auto simp: image_iff split: if_splits)

text \<open>The keys of the rows over a history whose new UUIDs are all different.\<close>

lemma step_keys_ok:
  assumes ok: "keys_ok st used" and picks: "picks_member env" and new: "set (new_uuids e) \<inter> used = {}"
  shows "keys_ok (site_step env e st) (used \<union> set (new_uuids e))"
proof -
  have weaker: "keys_ok st' (used \<union> set (new_uuids e))" if "row_keys st' = row_keys st" "next_id st' = next_id st" for st' :: "'a site"
    using ok that by (auto simp: keys_ok_def)
  obtain t op where e: "e = (t, op)" by fastforce
  show ?thesis
  proof (cases op)
    case (Create user nm d c h uuid)
    show ?thesis
    proof (cases "create_profile env user nm d c h uuid st")
      case (Inr st')
      from create_keys[OF Inr] have "keys_ok st' (used \<union> {uuid})"
        using ok new e Create by (fastforce simp: keys_ok_def)
      then show ?thesis using Inr Create e by (simp add: kept_on_error_def)
    qed (use weaker[of st] Create e in \<open>simp add: kept_on_error_def\<close>)
  next
    case (Update i up user pid nm d c h)
    show ?thesis
    proof (cases "update_profile env i up user pid nm d c h st")
      case (Inr st')
      have "next_id st' = next_id st" using Inr by (rule update_rows) simp
      then show ?thesis using weaker[OF update_keys_kept[OF ok Inr]] Inr Update e by (simp add: kept_on_error_def)
    qed (use weaker[of st] Update e in \<open>simp add: kept_on_error_def\<close>)
  next
    case (Delete i up user pid)
    show ?thesis
    proof (cases "delete_profile env i up user pid st")
      case (Inr st')
      have "next_id st' = next_id st" using Inr by (rule delete_rows) simp
      then have "keys_ok st' used"
        using ok delete_keys[OF ok picks Inr] by (auto simp: keys_ok_def intro: distinct_map_filter)
      then show ?thesis using Inr Delete e by (simp add: kept_on_error_def)
    qed (use weaker[of st] Delete e in \<open>simp add: kept_on_error_def\<close>)
  next
    case (Set_Default up user pid)
    show ?thesis
    proof (cases "set_default_profile env up user pid st")
      case (Inr st')
      have "next_id st' = next_id st" using Inr by (auto simp: set_default_profile_def bind_result_eq_Inr)
      then show ?thesis using weaker[OF set_default_keys_kept[OF ok Inr]] Inr Set_Default e by (simp add: kept_on_error_def)
    qed (use weaker[of st] Set_Default e in \<open>simp add: kept_on_error_def\<close>)
  next
    case (Reset_Uuid i up user pid uuid)
    show ?thesis
    proof (cases "reset_profile_uuid env i up user pid uuid st")
      case (Inr st')
      have "next_id st' = next_id st" using Inr by (auto simp: reset_profile_uuid_def bind_result_eq_Inr)
      moreover have "uuid \<notin> snd ` set (row_keys st)" using ok new e Reset_Uuid by (auto simp: keys_ok_def)
      ultimately have "keys_ok st' (used \<union> {uuid})"
        using ok reset_keys[OF Inr ok] rekey_ok[of "row_keys st" uuid pid]
        by (auto simp: keys_ok_def simp del: map_map split: if_splits)
      then show ?thesis using Inr Reset_Uuid e by (simp add: kept_on_error_def)
    qed (use weaker[of st] Reset_Uuid e in \<open>simp add: kept_on_error_def\<close>)
  next
    case (Show_Link up user pid h)
    have "row_keys (site_step env e st) = row_keys st" "next_id (site_step env e st) = next_id st"
      using Show_Link e by (auto simp: show_link_def kept_on_error_def bind_result_def row_keys_def split: sum.splits option.splits)
    then show ?thesis by (rule weaker)
  next
    case (Open i up s)
    have "row_keys (site_step env e st) = row_keys st" "next_id (site_step env e st) = next_id st"
      using Open e by (simp_all add: row_keys_def open_link_rows)
    then show ?thesis by (rule weaker)
  next
    case (Context up user pid)
    have "row_keys (site_step env e st) = row_keys st" "next_id (site_step env e st) = next_id st"
      using Context e by (simp_all add: row_keys_def get_context_rows)
    then show ?thesis by (rule weaker)
  qed
qed

lemma resolve_other_keys: "y \<noteq> x \<Longrightarrow> snd (resolve_uuid_profile env t up ps y r) x = r x"
  by (auto simp: resolve_uuid_profile_def load_and_cache_uuid_profile_def store_uuid_profile_def cache_uuid_profile_def Let_def
      split: option.splits sum.splits)

lemma workers_length: "length (workers (site_step env e st)) = length (workers st)"
proof -
  obtain t op where e: "e = (t, op)" by fastforce
  have drop: "length (workers (drop_link i up x s)) = length (workers s)" "workers (invalidate_cache up u s) = workers s" for i up x u s
    by (simp_all add: drop_link_def invalidate_cache_def split: prod.splits)
  show ?thesis
    unfolding e
    by (cases op)
       (auto simp: kept_on_error_def create_profile_def update_profile_def delete_profile_def set_default_profile_def
         reset_profile_uuid_def show_link_def open_link_def get_context_def cache_profile_def Let_def drop bind_result_def
         split: sum.splits option.splits prod.splits if_splits)
qed

lemma drop_entries: "entries j (drop_link i up x st) \<subseteq> entries j st"
  by (cases "i = j"; cases "i < length (workers st)")
     (auto simp: entries_def drop_link_def invalidate_uuid_cache_def invalidate_decrypt_cache_prefix_def not_less list_update_beyond
        split: if_splits)

lemma plain_entries [simp]:
  "entries j (invalidate_cache up u st) = entries j st"
  "entries j (st\<lparr>rows := ps\<rparr>) = entries j st" "entries j (st\<lparr>next_id := n\<rparr>) = entries j st" "entries j (st\<lparr>uuid_keys := r\<rparr>) = entries j st"
  by (simp_all add: entries_def invalidate_cache_def)

text \<open>A worker's entries are old ones, or the one of the link it has just resolved.\<close>

lemma open_entries:
  assumes "(k, e, u) \<in> entries j (snd (open_link env i t up s st))" and "j < length (workers st)"
  shows "(k, e, u) \<in> entries j st \<or>
    (i = j \<and> k = s \<and> e = t + DECRYPT_CACHE_TTL_SECONDS \<and> link_result env t up (rows st) s (uuid_keys st) = Inr u)"
proof (cases "i = j")
  case True
  let ?P = "\<lambda>x. x \<in> entries j st \<or>
    (\<exists>u. x = (s, t + DECRYPT_CACHE_TTL_SECONDS, u) \<and> link_result env t up (rows st) s (uuid_keys st) = Inr u)"
  have "holds ?P (\<lambda>x. True) (fst (snd (decrypt_user_data env t up (rows st) s (workers st ! j, uuid_keys st))))"
    by (rule holds_decrypt) (auto simp: holds_def entries_def)
  then have "?P (k, e, u)"
    using assms True by (auto simp: holds_def open_link_def entries_def split: prod.splits)
  then show ?thesis using True by auto
next
  case False
  then show ?thesis using assms by (auto simp: open_link_def entries_def split: prod.splits)
qed

lemma step_entries:
  assumes "(k, e, u) \<in> entries j (site_step env (t, op) st)" and j: "j < length (workers st)"
  shows "(k, e, u) \<in> entries j st \<or>
    (\<exists>up. op = Open j up k \<and> e = t + DECRYPT_CACHE_TTL_SECONDS \<and> link_result env t up (rows st) k (uuid_keys st) = Inr u)"
proof (cases op)
  case (Open i up s)
  then show ?thesis using open_entries[of k e u j env i t up s st] assms by auto
next
  case (Create user nm d c h uuid)
  then show ?thesis using assms
    by (auto simp: kept_on_error_def entries_def split: sum.splits elim!: create_rows)
next
  case (Update i up user pid nm d c h)
  then show ?thesis using assms drop_entries
    by (fastforce simp: kept_on_error_def split: sum.splits elim!: update_rows)
next
  case (Delete i up user pid)
  then show ?thesis using assms drop_entries
    by (fastforce simp: kept_on_error_def split: sum.splits elim!: delete_rows)
next
  case (Set_Default up user pid)
  then show ?thesis using assms by (auto simp: kept_on_error_def set_default_profile_def bind_result_def split: sum.splits)
next
  case (Reset_Uuid i up user pid uuid)
  then show ?thesis using assms drop_entries
    by (fastforce simp: kept_on_error_def reset_profile_uuid_def bind_result_def split: sum.splits)
next
  case (Show_Link up user pid h)
  then show ?thesis using assms
    by (auto simp: kept_on_error_def show_link_def bind_result_def split: sum.splits option.splits)
next
  case (Context up user pid)
  then show ?thesis using assms
    by (auto simp: get_context_def cache_profile_def entries_def split: option.splits if_splits)
qed

lemma step_timely:
  assumes "timely now st" and "now \<le> t"
  shows "timely t (site_step env (t, op) st)"
proof -
  have "e \<le> t + DECRYPT_CACHE_TTL_SECONDS"
    if "j < length (workers st)" "(k, e, u) \<in> entries j (site_step env (t, op) st)" for j k e u
    using step_entries[OF that(2,1)] assms that(1) by (fastforce simp: timely_def)
  then show ?thesis by (auto simp: timely_def workers_length)
qed

text \<open>A dead UUID stays dead, as long as it is not used again.\<close>

lemma step_uuids:
  assumes "keys_ok st used" and "picks_member env"
  shows "uuids (site_step env e st) \<subseteq> uuids st \<union> set (new_uuids e)"
proof -
  obtain t op where e: "e = (t, op)" by fastforce
  show ?thesis
  proof (cases op)
    case (Create user nm d c h uuid)
    then show ?thesis using e create_keys by (fastforce simp: uuids_keys kept_on_error_def split: sum.splits)
  next
    case (Update i up user pid nm d c h)
    then show ?thesis using e update_keys_kept[OF assms(1)] by (fastforce simp: uuids_keys kept_on_error_def split: sum.splits)
  next
    case (Delete i up user pid)
    then show ?thesis using e delete_keys[OF assms] by (fastforce simp: uuids_keys kept_on_error_def split: sum.splits)
  next
    case (Set_Default up user pid)
    then show ?thesis using e set_default_keys_kept[OF assms(1)] by (fastforce simp: uuids_keys kept_on_error_def split: sum.splits)
  next
    case (Reset_Uuid i up user pid uuid)
    then show ?thesis using e reset_keys[OF _ assms(1)] by (fastforce simp: uuids_keys kept_on_error_def split: sum.splits)
  next
    case (Show_Link up user pid h)
    then show ?thesis
      using e by (auto simp: show_link_def kept_on_error_def bind_result_def uuids_def split: sum.splits option.splits)
  qed (simp_all add: e uuids_def open_link_rows get_context_rows)
qed

lemma step_uuid_keys:
  assumes "x \<notin> uuids st" and "uuid_keys st x = None"
  shows "uuid_keys (site_step env (t, op) st) x = None"
proof -
  have drop: "uuid_keys (drop_link i up y s) x = None" if "uuid_keys s x = None" for i up y and s :: "'a site"
    using that by (auto simp: drop_link_def invalidate_uuid_cache_def split: prod.splits if_splits)
  have inv: "uuid_keys (invalidate_cache up u s) = uuid_keys s" for up u and s :: "'a site" by (simp add: invalidate_cache_def)
  show ?thesis
  proof (cases op)
    case (Open i up s)
    have "snd (snd (decrypt_user_data env t up (rows st) s (workers st ! i, uuid_keys st))) x = None"
    proof (cases "s = []")
      case True
      then show ?thesis using assms(2) by (simp add: decrypt_user_data_def)
    next
      case False
      then show ?thesis
      proof (cases rule: decrypt_cases[of s env t up "rows st" "workers st ! i" "uuid_keys st"])
        case (resolved w1 w2 answer w3 r')
        show ?thesis
        proof (cases "drop 2 s = x")
          case True
          then show ?thesis using resolved(6,7) dead_result[OF assms, of env t up] assms(2) by (auto split: if_splits)
        next
          case False
          then show ?thesis using resolved(6,7) resolve_other_keys[OF False, of env t up "rows st" "uuid_keys st"] assms(2)
            by (auto split: if_splits)
        qed
      qed (use assms in simp_all)
    qed
    then show ?thesis using Open by (auto simp: open_link_def split: prod.splits)
  next
    case (Create user nm d c h uuid)
    then show ?thesis using assms(2) by (auto simp: kept_on_error_def split: sum.splits elim!: create_rows)
  next
    case (Update i up user pid nm d c h)
    then show ?thesis using assms(2) by (auto simp: kept_on_error_def inv split: sum.splits elim!: update_rows intro!: drop)
  next
    case (Delete i up user pid)
    then show ?thesis using assms(2) by (auto simp: kept_on_error_def inv split: sum.splits elim!: delete_rows intro!: drop)
  next
    case (Set_Default up user pid)
    then show ?thesis using assms(2) by (auto simp: kept_on_error_def set_default_profile_def bind_result_def inv split: sum.splits)
  next
    case (Reset_Uuid i up user pid uuid)
    then show ?thesis using assms(2) by (auto simp: kept_on_error_def reset_profile_uuid_def bind_result_def inv split: sum.splits intro!: drop)
  next
    case (Show_Link up user pid h)
    have "prof_uuid p \<noteq> x" if "find_owned user pid (rows st) = Inr p" for p
      using find_owned_Inr[OF that] assms(1) by (auto simp: uuids_def)
    then show ?thesis using Show_Link assms(2)
      by (auto simp: kept_on_error_def show_link_def bind_result_def prime_profile_uuid_cache_def cache_uuid_profile_def
          split: sum.splits option.splits)
  next
    case (Context up user pid)
    then show ?thesis using assms(2) by (auto simp: get_context_def cache_profile_def split: option.splits if_splits)
  qed
qed

lemma step_dead:
  assumes d: "dead x i t0 st" and k: "keys_ok st used" and picks: "picks_member env" and "x \<notin> set (new_uuids (t, op))"
  shows "dead x i t0 (site_step env (t, op) st)"
proof -
  have "x \<notin> uuids (site_step env (t, op) st)"
    using step_uuids[OF k picks, of "(t, op)"] assms(4) d by (auto simp: dead_def)
  moreover have keys: "x \<notin> uuids st" "uuid_keys st x = None" using d by (simp_all add: dead_def)
  moreover have "j \<noteq> i \<and> e \<le> t0 + DECRYPT_CACHE_TTL_SECONDS"
    if "j < length (workers st)" "(''U-'' @ x, e, u) \<in> entries j (site_step env (t, op) st)" for j e u
  proof -
    have "link_result env t up (rows st) (''U-'' @ x) (uuid_keys st) = Inl ValueError" for up
      using dead_result[OF keys, of env t up] by (simp add: link_result_def py_startswith_def)
    then have "(''U-'' @ x, e, u) \<in> entries j st" using step_entries[OF that(2,1)] by auto
    then show ?thesis using d that(1) by (fastforce simp: dead_def)
  qed
  ultimately show ?thesis
    using step_uuid_keys[OF keys, of env t op] by (auto simp: dead_def workers_length)
qed

lemma drop_dead:
  assumes "x \<notin> uuids st" and "timely t0 st" and "i < length (workers st)"
  shows "dead x i t0 (drop_link i True x st)"
proof -
  have "uuids (drop_link i True x st) = uuids st" by (simp add: uuids_def)
  moreover have "(''U-'' @ x, e, u) \<notin> entries i (drop_link i True x st)" for e u
    using assms(3) by (auto simp: entries_def drop_link_def invalidate_uuid_cache_def invalidate_decrypt_cache_prefix_def
        py_startswith_def)
  moreover have "e \<le> t0 + DECRYPT_CACHE_TTL_SECONDS"
    if "j < length (workers st)" "(k, e, u) \<in> entries j (drop_link i True x st)" for j k e u
    using that drop_entries[of j i True x st] assms(2) by (fastforce simp: timely_def)
  ultimately show ?thesis
    using assms(1) by (fastforce simp: dead_def drop_link_def invalidate_uuid_cache_def)
qed

lemma run_keys_ok:
  assumes "picks_member env" and "distinct (concat (map new_uuids ops))"
  shows "keys_ok (site_run env ops (empty_site n)) (set (concat (map new_uuids ops)))"
  using assms(2)
proof (induction ops rule: rev_induct)
  case Nil
  then show ?case by (simp add: site_run_def empty_site_def keys_ok_def row_keys_def)
next
  case (snoc e ops)
  then have "keys_ok (site_run env ops (empty_site n)) (set (concat (map new_uuids ops)))" by simp
  from step_keys_ok[OF this assms(1), of e] show ?case using snoc.prems by (simp add: site_run_def Int_commute)
qed

lemma run_timely:
  "sorted (map fst ops) \<Longrightarrow> list_all (\<lambda>e. fst e \<le> now) ops \<Longrightarrow> timely now (site_run env ops (empty_site n))"
proof (induction ops arbitrary: now rule: rev_induct)
  case Nil
  then show ?case by (simp add: site_run_def empty_site_def timely_def entries_def)
next
  case (snoc e ops)
  obtain t op where e: "e = (t, op)" by fastforce
  have "timely t (site_run env ops (empty_site n))"
    using snoc.prems e by (intro snoc.IH) (auto simp: sorted_append list_all_iff)
  then have "timely t (site_run env (ops @ [e]) (empty_site n))"
    using step_timely[of t "site_run env ops (empty_site n)" t env op] e by (simp add: site_run_def)
  moreover have "t \<le> now" using snoc.prems e by simp
  ultimately show ?case by (fastforce simp: timely_def)
qed

lemma run_workers: "length (workers (site_run env ops (empty_site n))) = n"
  by (induction ops rule: rev_induct) (simp_all add: site_run_def workers_length empty_site_def)

lemma run_dead:
  assumes "dead x i t0 st" and "keys_ok st used" and picks: "picks_member env" and "x \<in> used"
    and "distinct (concat (map new_uuids ops))" and "set (concat (map new_uuids ops)) \<inter> used = {}"
  shows "dead x i t0 (site_run env ops st)"
  using assms(1,2,4-6)
proof (induction ops arbitrary: st used)
  case (Cons e ops)
  obtain t op where e: "e = (t, op)" by fastforce
  have d: "dead x i t0 (site_step env e st)"
    using step_dead[OF Cons.prems(1,2) picks, of t op] Cons.prems(3,5) e by auto
  have k: "keys_ok (site_step env e st) (used \<union> set (new_uuids e))"
    using step_keys_ok[OF Cons.prems(2) picks, of e] Cons.prems(5) by auto
  have "dead x i t0 (site_run env ops (site_step env e st))"
    by (rule Cons.IH[OF d k]) (use Cons.prems(3-5) in auto)
  then show ?case by (simp add: site_run_def)
qed (simp add: site_run_def)

text \<open>The two handlers that revoke a link.\<close>

definition revokes :: "nat \<Rightarrow> int \<Rightarrow> int \<Rightarrow> 'u site \<Rightarrow> site_op \<Rightarrow> bool" where
  "revokes i user pid st op \<longleftrightarrow>
     (case op of
        Delete i' up user' pid' \<Rightarrow> i' = i \<and> up \<and> user' = user \<and> pid' = pid \<and> 1 < length (owned user (rows st))
      | Reset_Uuid i' up user' pid' uuid \<Rightarrow> i' = i \<and> up \<and> user' = user \<and> pid' = pid
      | _ \<Rightarrow> False)"

lemma revoked_dead:
  assumes p: "find_owned user pid (rows st) = Inr p" and r: "revokes i user pid st op"
    and k: "keys_ok st used" and picks: "picks_member env" and "set (new_uuids (t0, op)) \<inter> used = {}"
    and "timely t0 st" and "i < length (workers st)"
  shows "dead (prof_uuid p) i t0 (site_step env (t0, op) st)"
proof -
  have key: "(pid, prof_uuid p) \<in> set (row_keys st)"
    using find_owned_Inr[OF p] by (force simp: row_keys_def row_key_def)
  then have used: "prof_uuid p \<in> used" using k by (force simp: keys_ok_def)
  have alone: "q = pid" if "(q, prof_uuid p) \<in> set (row_keys st)" for q
  proof -
    have "inj_on snd (set (row_keys st))" using k by (simp add: keys_ok_def distinct_map)
    from inj_onD[OF this _ that key] show ?thesis by simp
  qed
  have timely_rows: "timely t0 (s\<lparr>rows := ps\<rparr>) = timely t0 s" "timely t0 (invalidate_cache up user s) = timely t0 s"
    "length (workers (invalidate_cache up user s)) = length (workers s)" for s :: "'a site" and ps up
    by (simp_all add: timely_def)
  consider (delete) "op = Delete i True user pid" "1 < length (owned user (rows st))" | (reset) uuid where "op = Reset_Uuid i True user pid uuid"
    using r by (cases op) (auto simp: revokes_def)
  then show ?thesis
  proof cases
    case delete
    obtain st' where st': "delete_profile env i True user pid st = Inr st'"
      using p delete(2) by (simp add: delete_profile_def Let_def)
    then obtain ps where ps: "st' = drop_link i True (prof_uuid p) (invalidate_cache True user (st\<lparr>rows := ps\<rparr>))"
      using p by (auto elim!: delete_rows)
    have "uuids (invalidate_cache True user (st\<lparr>rows := ps\<rparr>)) = uuids st'" by (simp add: ps uuids_def)
    moreover have "prof_uuid p \<notin> uuids st'"
      using delete_keys[OF k picks st'] alone by (auto simp: uuids_keys)
    ultimately have "dead (prof_uuid p) i t0 st'"
      unfolding ps using assms(6,7) by (intro drop_dead) (simp_all add: timely_rows)
    then show ?thesis using delete st' by (simp add: kept_on_error_def)
  next
    case (reset uuid)
    let ?mid = "st\<lparr>rows := replace_row (p\<lparr>prof_uuid := uuid\<rparr>) (rows st)\<rparr>"
    let ?st' = "invalidate_cache True user (drop_link i True (prof_uuid p) ?mid)"
    have st': "reset_profile_uuid env i True user pid uuid st = Inr ?st'"
      using p by (simp add: reset_profile_uuid_def)
    have "uuid \<noteq> prof_uuid p" using used assms(5) reset by auto
    then have "prof_uuid p \<notin> uuids ?st'"
      unfolding uuids_keys reset_keys[OF st' k] using alone by auto
    then have "prof_uuid p \<notin> uuids ?mid" by (simp add: uuids_def)
    then have "dead (prof_uuid p) i t0 (drop_link i True (prof_uuid p) ?mid)"
      using assms(6,7) by (intro drop_dead) (simp_all add: timely_rows)
    then have "dead (prof_uuid p) i t0 ?st'" by (auto simp: dead_def uuids_def)
    then show ?thesis using reset st' by (simp add: kept_on_error_def)
  qed
qed


definition revoked_profile :: user_profile where
  "revoked_profile = hd (rows (site_run sample_site_env before_revocation (empty_site 2)))"

lemma revoked_found: "find_owned 1 1 (rows (site_run sample_site_env before_revocation (empty_site 2))) = Inr revoked_profile"
  by code_simp


section \<open>What is not guaranteed\<close>

text \<open>
  A lookup that read a profile before it was deleted, and stores it in Redis after the
  deletion has cleared the entry, brings the revoked link back to life: it is served from Redis to
  every worker, and each time it is opened its thirty days start anew.
\<close>

theorem revocation_race:
  assumes "keys_ok st used" and "picks_member env" and "find_owned user pid (rows st) = Inr p"
    and "load_uuid_profile env (rows st) (prof_uuid p) = Inr loaded"
    and "delete_profile env i True user pid st = Inr st'"
    and "build_user_data_from_cached_uuid env (fst loaded) = Inr u" and "32 \<le> length (prof_uuid p)" and "t < t0 + UUID_CACHE_TTL"
  shows "prof_uuid p \<notin> uuids st' \<and>
    (let r = snd (store_uuid_profile env t0 True (prof_uuid p) loaded (uuid_keys st'))
     in resolve_uuid_profile env t True (rows st') (prof_uuid p) r = (Inr u, r(prof_uuid p \<mapsto> (fst loaded, t + UUID_CACHE_TTL))))"
proof -
  have key: "(pid, prof_uuid p) \<in> set (row_keys st)"
    using find_owned_Inr[OF assms(3)] by (force simp: row_keys_def row_key_def)
  have "q = pid" if "(q, prof_uuid p) \<in> set (row_keys st)" for q
  proof -
    have "inj_on snd (set (row_keys st))" using assms(1) by (simp add: keys_ok_def distinct_map)
    from inj_onD[OF this _ that key] show ?thesis by simp
  qed
  then have "prof_uuid p \<notin> uuids st'" unfolding uuids_keys delete_keys[OF assms(1,2,5)] by auto
  then show ?thesis
    using assms(6-8)
    by (simp add: store_uuid_profile_def cache_uuid_profile_def resolve_uuid_profile_def live_uuid_entry_def Let_def)
qed

definition race_site :: "string site" where
  "race_site = site_run sample_site_env (take 2 before_revocation) (empty_site 2)"

definition race_loaded :: "uuid_entry \<times> dict" where
  "race_loaded = (case load_uuid_profile sample_site_env (rows race_site) sample_uuid of Inr l \<Rightarrow> l)"

definition race_deleted :: "string site" where
  "race_deleted = kept_on_error race_site (delete_profile sample_site_env 0 True 1 1 race_site)"

lemma race_profile: "find_owned 1 1 (rows race_site) = Inr (hd (rows race_site))" "prof_uuid (hd (rows race_site)) = sample_uuid"
  by code_simp+

theorem revocation_race_witness:
  "sample_uuid \<notin> uuids race_deleted \<and>
    (let r = snd (store_uuid_profile sample_site_env 5 True sample_uuid race_loaded (uuid_keys race_deleted))
     in resolve_uuid_profile sample_site_env 2000000 True (rows race_deleted) sample_uuid r =
       (Inr ''one'', r(sample_uuid \<mapsto> (fst race_loaded, 2000000 + UUID_CACHE_TTL))))"
proof -
  have k: "keys_ok race_site (set (concat (map new_uuids (take 2 before_revocation))))"
    unfolding race_site_def by (rule run_keys_ok[OF sample_picks]) (simp add: before_revocation_def sample_uuid_def)
  have l: "load_uuid_profile sample_site_env (rows race_site) sample_uuid = Inr race_loaded"
    "build_user_data_from_cached_uuid sample_site_env (fst race_loaded) = Inr ''one''" by code_simp+
  have "\<exists>st'. delete_profile sample_site_env 0 True 1 1 race_site = Inr st'"
    by (simp add: delete_profile_def race_profile Let_def) code_simp
  then have d: "delete_profile sample_site_env 0 True 1 1 race_site = Inr race_deleted"
    by (auto simp: race_deleted_def kept_on_error_def)
  show ?thesis
    by (rule revocation_race[OF k sample_picks race_profile(1) _ d, unfolded race_profile(2), OF l])
       (simp_all add: sample_uuid_def UUID_CACHE_TTL_def)
qed

end
