(* ===== verification/Profile_Life.thy ===== *)
theory Profile_Life
  imports Profile_Revocation Profile_Roundtrip
begin

text \<open>
  A configuration through its life in the store: what a handler saves is what the handlers, the
  context of a signed-in user and the links read back.
\<close>

lemma merge_no_secrets: "merge_secrets c [] = Inr c"
  by (simp add: merge_secrets_def merge_part_def merge_api_password_def present_key_def)


definition sample_secrets :: "dict \<times> dict" where
  "sample_secrets = (case extract_secrets sample_profile of Inr r \<Rightarrow> r | Inl e \<Rightarrow> ([], []))"

definition reading_env :: "string profile_env" where
  "reading_env = sample_site_env\<lparr>unseal_secrets := (\<lambda>t. Inr (snd sample_secrets))\<rparr>"

definition blank_row :: user_profile where
  "blank_row = \<lparr>prof_id = 1, prof_uuid = sample_uuid, prof_owner = 1, prof_name = ''a'', prof_config = [], prof_secrets = None, prof_default = True\<rparr>"

definition saved_row :: user_profile where
  "saved_row = (case save_profile_config reading_env blank_row sample_profile of Inr p \<Rightarrow> p | Inl e \<Rightarrow> blank_row)"


end
