(* ===== verification/Api_Middleware.thy ===== *)
theory Api_Middleware
  imports Secret_Links Db_Retry
begin

text \<open>
  What a request passes before it reaches a handler, \<open>api/middleware.py\<close>: the lookup of its route
  with a bounded cache, the configuration in its link, the key of a private instance, the rate
  limit in Redis, the retry of transient database errors and the translation of errors to responses.
  The layers are composed in the order in which \<open>api/app.py\<close> adds them, the last one added outermost.
\<close>

section \<open>Requests\<close>

record request =
  req_method :: string
  req_path :: string
  req_header :: "string \<Rightarrow> string option"
  path_param :: "string \<Rightarrow> string option"
  query_param :: "string \<Rightarrow> string option"
  client_host :: "string option"

text \<open>The attributes that the decorators of \<open>utils/wrappers.py\<close> leave on an endpoint.\<close>

record endpoint =
  endpoint_name :: string
  endpoint_auth_required :: bool
  endpoint_exclude_rate_limit :: bool
  endpoint_limit :: "nat option"
  endpoint_window :: "rat option"
  endpoint_scope :: "string option"

datatype reply =
    Invalid_Config_Streams string
  | Invalid_Config string
  | Unauthorized_Streams
  | Status_Error string int
  | Api_Error string int
  | Detail_Error string int
  | Plain_Text string int
  | No_Content

text \<open>The status of the answer: under \<open>/api/v1/\<close> an error is in the body of a success.\<close>

fun reply_status :: "reply \<Rightarrow> int" where
  "reply_status (Status_Error m c) = c"
| "reply_status (Detail_Error m c) = c"
| "reply_status (Plain_Text m c) = c"
| "reply_status No_Content = 204"
| "reply_status r = 200"

definition nonempty :: "string option \<Rightarrow> string option" where
  "nonempty s = (case s of Some (c # cs) \<Rightarrow> s | _ \<Rightarrow> None)"

definition is_api_path :: "string \<Rightarrow> bool" where
  "is_api_path path = py_startswith path ''/api/v1/''"

definition get_client_ip :: "request \<Rightarrow> string" where
  "get_client_ip req =
     (case nonempty (req_header req ''X-Forwarded-For'') of
        Some f \<Rightarrow> py_strip (hd (split_char (CHR '','') f))
      | None \<Rightarrow>
          (case nonempty (req_header req ''X-Real-IP'') of
             Some ip \<Rightarrow> ip
           | None \<Rightarrow> (case client_host req of Some h \<Rightarrow> h | None \<Rightarrow> ''127.0.0.1'')))"

section \<open>Routes\<close>

text \<open>\<open>route_match\<close> is the full match of a route: it depends on the method and the path.\<close>

record 'p route =
  route_methods :: "string list option"
  route_match :: "string \<Rightarrow> string \<Rightarrow> 'p option"
  route_endpoint :: endpoint

definition ROUTE_LOOKUP_CACHE_MAX_ENTRIES :: nat where "ROUTE_LOOKUP_CACHE_MAX_ENTRIES = 4096"

definition route_cache_set :: "string \<Rightarrow> 'p route \<Rightarrow> (string \<times> 'p route) list \<Rightarrow> (string \<times> 'p route) list" where
  "route_cache_set key r cache =
     (if map_of cache key \<noteq> None then cache else make_room ROUTE_LOOKUP_CACHE_MAX_ENTRIES cache @ [(key, r)])"

fun first_route :: "'p route list \<Rightarrow> string \<Rightarrow> string \<Rightarrow> ('p route \<times> 'p) option" where
  "first_route [] m path = None"
| "first_route (r # rs) m path =
     (if (case route_methods r of Some (x # xs) \<Rightarrow> m \<notin> set (x # xs) | _ \<Rightarrow> False) then first_route rs m path
      else case route_match r m path of Some ps \<Rightarrow> Some (r, ps) | None \<Rightarrow> first_route rs m path)"

definition route_key :: "(string \<Rightarrow> string) \<Rightarrow> string \<Rightarrow> string \<Rightarrow> string" where
  "route_key sha m path = m @ '':'' @ sha path"

text \<open>The endpoint and the path parameters that the lookup puts in the scope.\<close>

definition find_route_handler ::
  "(string \<Rightarrow> string) \<Rightarrow> 'p route list \<Rightarrow> string \<Rightarrow> string \<Rightarrow> (string \<times> 'p route) list \<Rightarrow>
     (endpoint \<times> 'p) option \<times> (string \<times> 'p route) list" where
  "find_route_handler sha routes m path cache =
     (let key = route_key sha m path;
          search = (case first_route routes m path of
              Some (r, ps) \<Rightarrow> (Some (route_endpoint r, ps), route_cache_set key r cache)
            | None \<Rightarrow> (None, cache))
      in case map_of cache key of
           Some r \<Rightarrow> (case route_match r m path of Some ps \<Rightarrow> (Some (route_endpoint r, ps), cache) | None \<Rightarrow> search)
         | None \<Rightarrow> search)"

section \<open>The layers\<close>

record 'u web_env = "'u crypto_env" +
  instance_key :: string
  is_public_instance :: bool
  enable_rate_limit :: bool
  key_of_user :: "'u \<Rightarrow> string option"
  credential_of_user :: "'u \<Rightarrow> string option option"
  fresh_iv :: string
  md5_hex :: "string \<Rightarrow> string"

text \<open>What all workers share, and the worker that handles the request.\<close>

record 'u web_state =
  web_worker :: "'u worker"
  web_uuid_keys :: uuid_cache
  rate_keys :: "string \<rightharpoonup> nat \<times> rat"

definition config_message :: "secret_error \<Rightarrow> string" where
  "config_message e =
     (case e of
        Config_Too_Large \<Rightarrow>
          ''Your configuration is too large to embed in the install URL. '' @
          ''Sign in and save a profile (logged-in install), then use the install link that starts with U-.''
      | Deprecated_Link \<Rightarrow>
          ''This link used a removed configuration format that depended on server cache (R-). '' @
          ''Sign in, save your settings as a profile, and install using the profile link (starts with U-).''
      | Invalid_User_Data \<Rightarrow> [])"

text \<open>The configuration of the request: from a header, or from the link in the path or the query.\<close>

definition request_user_data ::
  "('u, 'z) web_env_scheme \<Rightarrow> rat \<Rightarrow> bool \<Rightarrow> user_profile list \<Rightarrow> request \<Rightarrow> 'u web_state \<Rightarrow>
     (secret_error + 'u \<times> string) \<times> 'u web_state" where
  "request_user_data env t up profiles req st =
     (case nonempty (req_header req ''encoded_user_data'') of
        Some encoded \<Rightarrow>
          (bind_result (decode_user_data env encoded) (\<lambda>u.
             bind_result (process_user_data env (fresh_iv env) u) (\<lambda>link. Inr (u, link))), st)
      | None \<Rightarrow>
          (let link = (case nonempty (path_param req ''secret_str'') of
                 Some s \<Rightarrow> s | None \<Rightarrow> (case query_param req ''secret_str'' of Some s \<Rightarrow> s | None \<Rightarrow> []))
           in case decrypt_user_data env t up profiles link (web_worker st, web_uuid_keys st) of
                (answer, w, r) \<Rightarrow>
                  (bind_result answer (\<lambda>u. Inr (u, link)), st\<lparr>web_worker := w, web_uuid_keys := r\<rparr>)))"

definition is_streams :: "endpoint option \<Rightarrow> bool" where
  "is_streams e = (case e of Some x \<Rightarrow> endpoint_name x = ''get_streams'' | None \<Rightarrow> False)"

definition user_data_layer ::
  "('u, 'z) web_env_scheme \<Rightarrow> rat \<Rightarrow> bool \<Rightarrow> user_profile list \<Rightarrow> endpoint option \<Rightarrow> request \<Rightarrow> 'u web_state \<Rightarrow>
     (reply + 'u \<times> string) \<times> 'u web_state" where
  "user_data_layer env t up profiles e req st =
     (case request_user_data env t up profiles req st of
        (Inl err, st') \<Rightarrow>
          (let hint = config_message err
           in (if is_streams e then Inl (Invalid_Config_Streams hint)
               else Inl (Invalid_Config (if hint = [] then ''Invalid user data'' else hint)), st'))
      | (Inr (u, link), st') \<Rightarrow>
          if \<not> is_public_instance env \<and> (case e of Some x \<Rightarrow> endpoint_auth_required x | None \<Rightarrow> False) \<and>
             key_of_user env u \<noteq> Some (instance_key env)
          then (if is_streams e then Inl Unauthorized_Streams
                else if is_api_path (req_path req) then Inl (Api_Error ''Unauthorized'' 401)
                else Inl (Status_Error ''Unauthorized'' 401), st')
          else (Inr (u, link), st'))"

definition EXEMPT_PATH_PREFIXES :: "string list" where
  "EXEMPT_PATH_PREFIXES =
     [''/api/v1/instance/'', ''/api/v1/integrations/simkl/callback'', ''/api/v1/telegram/webhook'', ''/api/v1/telegram/login'',
      ''/health'', ''/ready'', ''/docs'', ''/redoc'', ''/openapi.json'', ''/favicon.ico'', ''/static/'', ''/app/'', ''/app'',
      ''/manifest.json'', ''/{secret_str}/'', ''/streaming_provider/'', ''/poster/'', ''/torznab'']"

definition api_key_layer :: "('u, 'z) web_env_scheme \<Rightarrow> request \<Rightarrow> reply + unit" where
  "api_key_layer env req =
     (if is_public_instance env then Inr ()
      else if list_ex (\<lambda>p. py_startswith (req_path req) p) EXEMPT_PATH_PREFIXES then Inr ()
      else if req_path req = ''/'' then Inr ()
      else if nonempty (path_param req ''secret_str'') \<noteq> None then Inr ()
      else if nonempty (req_header req ''X-API-Key'') \<noteq> Some (instance_key env)
      then Inl (if is_api_path (req_path req) then Api_Error ''Invalid or missing API key'' 401
                else Detail_Error ''Invalid or missing API key'' 401)
      else Inr ())"

text \<open>\<open>INCR\<close> and \<open>EXPIRE\<close>: the counter starts again when its key has expired, and every request renews it.\<close>

definition check_rate_limit_with_redis ::
  "rat \<Rightarrow> bool \<Rightarrow> string \<Rightarrow> nat \<Rightarrow> rat \<Rightarrow> (string \<rightharpoonup> nat \<times> rat) \<Rightarrow> bool \<times> (string \<rightharpoonup> nat \<times> rat)" where
  "check_rate_limit_with_redis t up key limit window st =
     (if \<not> up then (True, st)
      else (let n = Suc (case st key of Some (k, expires) \<Rightarrow> if t < expires then k else 0 | None \<Rightarrow> 0)
            in (n \<le> limit, st(key \<mapsto> (n, t + window)))))"

definition generate_identifier :: "('u, 'z) web_env_scheme \<Rightarrow> string \<Rightarrow> 'u \<Rightarrow> string" where
  "generate_identifier env ip u =
     md5_hex env (case credential_of_user env u of
       None \<Rightarrow> ip | Some c \<Rightarrow> ip @ ''-'' @ (case c of Some x \<Rightarrow> x | None \<Rightarrow> ''None''))"

definition rate_limit_layer ::
  "('u, 'z) web_env_scheme \<Rightarrow> rat \<Rightarrow> bool \<Rightarrow> endpoint option \<Rightarrow> 'u \<Rightarrow> request \<Rightarrow> 'u web_state \<Rightarrow> (reply + unit) \<times> 'u web_state" where
  "rate_limit_layer env t up e u req st =
     (if \<not> enable_rate_limit env \<or> \<not> is_public_instance env then (Inr (), st)
      else case e of
        None \<Rightarrow> (Inr (), st)
      | Some x \<Rightarrow>
          if endpoint_exclude_rate_limit x then (Inr (), st)
          else (let limit = (case endpoint_limit x of Some l \<Rightarrow> l | None \<Rightarrow> 50);
                    window = (case endpoint_window x of Some w \<Rightarrow> w | None \<Rightarrow> 60);
                    scope = (case endpoint_scope x of Some s \<Rightarrow> s | None \<Rightarrow> ''default'');
                    key = ''rate_limit:'' @ generate_identifier env (get_client_ip req) u @ '':'' @ scope
                in case check_rate_limit_with_redis t up key limit window (rate_keys st) of
                     (allowed, keys) \<Rightarrow>
                       (if allowed then Inr ()
                        else Inl (if is_api_path (req_path req) then Api_Error ''Rate limit exceeded'' 429
                                  else Plain_Text ''Rate limit exceeded'' 429), st\<lparr>rate_keys := keys\<rparr>)))"

text \<open>The three layers before the handler, outermost first.\<close>

definition admit ::
  "('u, 'z) web_env_scheme \<Rightarrow> rat \<Rightarrow> bool \<Rightarrow> user_profile list \<Rightarrow> endpoint option \<Rightarrow> request \<Rightarrow> 'u web_state \<Rightarrow>
     (reply + 'u \<times> string) \<times> 'u web_state" where
  "admit env t up profiles e req st =
     (case user_data_layer env t up profiles e req st of
        (Inl r, st1) \<Rightarrow> (Inl r, st1)
      | (Inr (u, link), st1) \<Rightarrow>
          (case api_key_layer env req of
             Inl r \<Rightarrow> (Inl r, st1)
           | Inr _ \<Rightarrow>
               (case rate_limit_layer env t up e u req st1 of
                  (Inl r, st2) \<Rightarrow> (Inl r, st2)
                | (Inr _, st2) \<Rightarrow> (Inr (u, link), st2))))"

section \<open>Errors\<close>

text \<open>How a call of the next layer ends; the n-th call may end differently.\<close>

datatype 'r outcome = Reply 'r | Raise "exc list" nat

definition retry_layer :: "string \<Rightarrow> (nat \<Rightarrow> 'r outcome) \<Rightarrow> 'r outcome \<times> nat" where
  "retry_layer m call =
     (if py_upper m \<notin> {''GET'', ''HEAD''} then (call 0, 1)
      else case call 0 of
        Reply r \<Rightarrow> (Reply r, 1)
      | Raise heap e \<Rightarrow>
          if (isinstance (heap ! e) DBAPIError \<or> isinstance (heap ! e) StatementError) \<and>
             \<not> is_sqlalchemy_pool_exhaustion_error heap e \<and> is_retryable_db_error heap e
          then (call 1, 2) else (Raise heap e, 1))"

text \<open>\<open>disconnected\<close>: the client is gone when the framework complains that nothing was returned.\<close>

definition timing_layer :: "bool \<Rightarrow> string \<Rightarrow> (reply + 'r) outcome \<Rightarrow> (reply + 'r) outcome" where
  "timing_layer disconnected path result =
     (case result of
        Reply r \<Rightarrow> Reply r
      | Raise heap e \<Rightarrow>
          (let internal = (if is_api_path path
                 then Api_Error ''Internal Server Error. Check the server log & Create GitHub Issue'' 500
                 else Plain_Text ''Internal Server Error. Check the server log & Create GitHub Issue'' 500)
           in if isinstance (heap ! e) Runtime_Error
              then (if message (heap ! e) = ''No response returned.'' \<and> disconnected then Reply (Inl No_Content)
                    else Reply (Inl internal))
              else if isinstance (heap ! e) Exception
              then (if is_sqlalchemy_pool_exhaustion_error heap e
                    then Reply (Inl (Detail_Error ''Server is under high load, please retry in a moment.'' 503))
                    else Reply (Inl internal))
              else Raise heap e))"

text \<open>The two outer layers around everything that can raise, as the application stacks them.\<close>

definition serve :: "bool \<Rightarrow> request \<Rightarrow> (nat \<Rightarrow> (reply + 'r) outcome) \<Rightarrow> (reply + 'r) outcome \<times> nat" where
  "serve disconnected req call = retry_layer (req_method req) (\<lambda>n. timing_layer disconnected (req_path req) (call n))"

definition profiler_gate :: "('u, 'z) web_env_scheme \<Rightarrow> request \<Rightarrow> reply + bool" where
  "profiler_gate env req =
     (if query_param req ''_profile'' \<noteq> Some ''1'' then Inr False
      else (let api_key = (case nonempty (req_header req ''X-API-Key'') of
                  Some k \<Rightarrow> k | None \<Rightarrow> (case query_param req ''api_password'' of Some k \<Rightarrow> k | None \<Rightarrow> []))
            in if api_key \<noteq> instance_key env
               then Inl (Detail_Error ''Profiling requires admin API key via X-API-Key header.'' 403) else Inr True))"

end
