(* ===== verification/Api_Middleware_Correct.thy ===== *)
theory Api_Middleware_Correct
  imports Api_Middleware Secret_Links_Correct
begin

text \<open>
  What the layers guarantee: the cache of routes cannot be noticed, a private instance lets nobody
  in without its key, and the rate limit holds in every window. What they do not: a client that keeps
  asking is never let in again, and the retry of database errors is out of their reach.
\<close>

section \<open>The cache of routes\<close>

definition route_cache_ok :: "(string \<Rightarrow> string) \<Rightarrow> 'p route list \<Rightarrow> (string \<times> 'p route) list \<Rightarrow> bool" where
  "route_cache_ok sha routes cache \<longleftrightarrow> length cache \<le> ROUTE_LOOKUP_CACHE_MAX_ENTRIES \<and>
     list_all (\<lambda>(k, r). \<exists>m path ps. k = route_key sha m path \<and> first_route routes m path = Some (r, ps)) cache"

lemma first_route_match: "first_route routes m path = Some (r, ps) \<Longrightarrow> route_match r m path = Some ps"
  by (induction routes m path rule: first_route.induct) (auto split: if_splits option.splits list.splits)

lemma route_key_inj:
  assumes "inj sha" and "\<And>s. CHR '':'' \<notin> set (sha s)" and "route_key sha m path = route_key sha m' path'"
  shows "m' = m \<and> path' = path"
proof -
  have sha: "takeWhile (\<lambda>c. c \<noteq> CHR '':'') (rev (route_key sha m path)) = rev (sha path)" for m path
  proof -
    have "takeWhile (\<lambda>c. c \<noteq> CHR '':'') (rev (sha path) @ CHR '':'' # rev m) =
        rev (sha path) @ takeWhile (\<lambda>c. c \<noteq> CHR '':'') (CHR '':'' # rev m)"
      by (rule takeWhile_append2) (use assms(2)[of path] in auto)
    then show ?thesis by (simp add: route_key_def)
  qed
  have "rev (sha path) = rev (sha path')" using assms(3) sha by metis
  then have "path' = path" using injD[OF assms(1)] by auto
  then show ?thesis using assms(3) by (simp add: route_key_def)
qed

lemma find_route_step:
  assumes ok: "route_cache_ok sha routes cache" and "inj sha" and "\<And>s. CHR '':'' \<notin> set (sha s)"
  shows "fst (find_route_handler sha routes m path cache) = map_option (\<lambda>(r, ps). (route_endpoint r, ps)) (first_route routes m path) \<and>
    route_cache_ok sha routes (snd (find_route_handler sha routes m path cache))"
proof -
  have kept: "route_cache_ok sha routes (route_cache_set (route_key sha m path) r cache)" if "first_route routes m path = Some (r, ps)" for r ps
  proof -
    have "length (make_room ROUTE_LOOKUP_CACHE_MAX_ENTRIES cache) < ROUTE_LOOKUP_CACHE_MAX_ENTRIES"
      using ok by (intro length_make_room) (auto simp: route_cache_ok_def ROUTE_LOOKUP_CACHE_MAX_ENTRIES_def)
    then show ?thesis
      using ok that set_make_room[of ROUTE_LOOKUP_CACHE_MAX_ENTRIES cache]
      by (auto simp: route_cache_ok_def route_cache_set_def list_all_iff split: option.splits)
  qed
  show ?thesis
  proof (cases "map_of cache (route_key sha m path)")
    case None
    then show ?thesis using kept ok by (auto simp: find_route_handler_def split: option.splits)
  next
    case (Some r)
    then obtain m' path' ps where "route_key sha m path = route_key sha m' path'" "first_route routes m' path' = Some (r, ps)"
      using ok by (fastforce simp: route_cache_ok_def list_all_iff dest!: map_of_SomeD)
    then have "first_route routes m path = Some (r, ps)" using route_key_inj[OF assms(2,3)] by blast
    then show ?thesis using Some ok first_route_match by (fastforce simp: find_route_handler_def)
  qed
qed

definition after_requests :: "(string \<Rightarrow> string) \<Rightarrow> 'p route list \<Rightarrow> (string \<times> string) list \<Rightarrow> (string \<times> 'p route) list" where
  "after_requests sha routes reqs = fold (\<lambda>(m, path) cache. snd (find_route_handler sha routes m path cache)) reqs []"

text \<open>
  The cache of routes never changes which endpoint a request reaches, whatever was
  requested before, and never holds more than its 4096 entries. The digest of paths is injective
  and contains no colon.
\<close>

theorem route_cache_transparent:
  assumes "inj sha" and "\<And>s. CHR '':'' \<notin> set (sha s)"
  shows "fst (find_route_handler sha routes m path (after_requests sha routes reqs)) =
      map_option (\<lambda>(r, ps). (route_endpoint r, ps)) (first_route routes m path) \<and>
    length (after_requests sha routes reqs) \<le> 4096"
proof -
  have "route_cache_ok sha routes (after_requests sha routes reqs)"
  proof (induction reqs rule: rev_induct)
    case (snoc e reqs)
    from find_route_step[OF snoc.IH assms, of "fst e" "snd e"] show ?case
      by (simp add: after_requests_def case_prod_beta)
  qed (simp add: after_requests_def route_cache_ok_def)
  then show ?thesis
    using find_route_step[OF _ assms] by (auto simp: route_cache_ok_def ROUTE_LOOKUP_CACHE_MAX_ENTRIES_def)
qed

section \<open>The rate limit\<close>

text \<open>The requests of one client to one scope: their times and what was allowed.\<close>

fun rate_run :: "string \<Rightarrow> nat \<Rightarrow> rat \<Rightarrow> rat list \<Rightarrow> (string \<rightharpoonup> nat \<times> rat) \<Rightarrow> (rat \<times> bool) list" where
  "rate_run key limit window [] st = []"
| "rate_run key limit window (t # ts) st =
     (case check_rate_limit_with_redis t True key limit window st of
        (allowed, st') \<Rightarrow> (t, allowed) # rate_run key limit window ts st')"

definition allowed_within :: "rat \<Rightarrow> rat \<Rightarrow> (rat \<times> bool) list \<Rightarrow> nat" where
  "allowed_within a b xs = length (filter (\<lambda>(t, ok). ok \<and> a \<le> t \<and> t < b) xs)"

lemma allowed_within_Cons [simp]:
  "allowed_within a b ((t, ok) # xs) = (if ok \<and> a \<le> t \<and> t < b then Suc (allowed_within a b xs) else allowed_within a b xs)"
  "allowed_within a b [] = 0"
  by (simp_all add: allowed_within_def)

lemma rate_run_times: "map fst (rate_run key limit window ts st) = ts"
  by (induction ts arbitrary: st) (simp_all split: prod.splits)

lemma allowed_later: "list_all (\<lambda>t. b \<le> t) ts \<Longrightarrow> allowed_within a b (rate_run key limit window ts st) = 0"
  by (induction ts arbitrary: st) (auto split: prod.splits)

lemma allowed_live:
  assumes "st key = Some (n, e)" and "a + window \<le> e" and "sorted ts" and "list_all (\<lambda>t. a \<le> t) ts" and "0 \<le> window"
  shows "allowed_within a (a + window) (rate_run key limit window ts st) \<le> limit - n"
  using assms(1-4)
proof (induction ts arbitrary: st n e)
  case (Cons t ts)
  show ?case
  proof (cases "t < a + window")
    case True
    let ?st = "st(key \<mapsto> (Suc n, t + window))"
    have "check_rate_limit_with_redis t True key limit window st = (Suc n \<le> limit, ?st)"
      using Cons.prems(1,2) True by (simp add: check_rate_limit_with_redis_def)
    moreover have "allowed_within a (a + window) (rate_run key limit window ts ?st) \<le> limit - Suc n"
      using Cons.prems by (intro Cons.IH[of ?st "Suc n" "t + window"]) auto
    ultimately show ?thesis by auto
  next
    case False
    then have "list_all (\<lambda>s. a + window \<le> s) (t # ts)" using Cons.prems(3) by (force simp: list_all_iff)
    then show ?thesis using allowed_later by (metis le0)
  qed
qed simp

text \<open>
  Property C27. In every span of time as long as the window a client has at most \<open>limit\<close> requests to a
  scope allowed, whatever it did before and whenever the span begins.
\<close>

theorem rate_window_bound:
  assumes "sorted ts" and "0 < window"
  shows "allowed_within a (a + window) (rate_run key limit window ts st) \<le> limit"
  using assms(1)
proof (induction ts arbitrary: st)
  case (Cons t ts)
  obtain n where n: "check_rate_limit_with_redis t True key limit window st = (Suc n \<le> limit, st(key \<mapsto> (Suc n, t + window)))"
    by (simp add: check_rate_limit_with_redis_def Let_def)
  show ?case
  proof (cases "a \<le> t")
    case True
    have "allowed_within a (a + window) (rate_run key limit window ts (st(key \<mapsto> (Suc n, t + window)))) \<le> limit - Suc n"
      using True Cons.prems assms(2) by (intro allowed_live[of _ _ "Suc n" "t + window"]) (auto simp: list_all_iff)
    then show ?thesis using n by auto
  next
    case False
    then show ?thesis using n Cons by simp
  qed
qed simp

theorem rate_window_bound_witness:
  "allowed_within 5 (5 + 60) (rate_run ''k'' 2 60 [0, 5, 30, 64, 130, 131] Map.empty) \<le> 2"
  by (rule rate_window_bound) simp_all

lemma rate_live:
  assumes "st key = Some (n, e)" and "sorted_wrt (\<lambda>s t. s \<le> t) ts"
    and "successively (\<lambda>s t. t < s + window) ((e - window) # ts)"
  shows "map snd (rate_run key limit window ts st) = map (\<lambda>i. n + i < limit) [0..<length ts]"
  using assms
proof (induction ts arbitrary: st n e)
  case (Cons t ts)
  let ?st = "st(key \<mapsto> (Suc n, t + window))"
  have "check_rate_limit_with_redis t True key limit window st = (Suc n \<le> limit, ?st)"
    using Cons.prems by (simp add: check_rate_limit_with_redis_def)
  moreover have "map snd (rate_run key limit window ts ?st) = map (\<lambda>i. Suc n + i < limit) [0..<length ts]"
    using Cons.prems by (intro Cons.IH[of ?st "Suc n" "t + window"]) (auto simp: successively_Cons split: list.splits)
  ultimately show ?case
    by (simp add: upt_conv_Cons map_Suc_upt[symmetric] comp_def Suc_le_eq del: upt_Suc)
qed simp

text \<open>
  A client whose requests are less than a window apart is let in for its first
  \<open>limit\<close> requests and never again, however slowly it asks: each request, a rejected one too, renews
  the window of the counter.
\<close>

theorem persistent_client_blocked:
  assumes "sorted ts" and "successively (\<lambda>s t. t < s + window) ts" and "0 < window"
  shows "map snd (rate_run key limit window ts Map.empty) = map (\<lambda>i. i < limit) [0..<length ts]"
proof (cases ts)
  case (Cons t ts')
  let ?st = "[key \<mapsto> (1, t + window)]"
  have "check_rate_limit_with_redis t True key limit window Map.empty = (1 \<le> limit, ?st)"
    by (simp add: check_rate_limit_with_redis_def)
  moreover have "map snd (rate_run key limit window ts' ?st) = map (\<lambda>i. 1 + i < limit) [0..<length ts']"
    using assms Cons by (intro rate_live[of ?st key 1 "t + window"]) auto
  ultimately show ?thesis
    using Cons by (simp add: upt_conv_Cons map_Suc_upt[symmetric] comp_def Suc_le_eq del: upt_Suc)
qed simp

theorem persistent_client_blocked_witness:
  "map snd (rate_run ''k'' 2 60 [0, 59, 118, 177] Map.empty) = map (\<lambda>i. i < 2) [0..<length [0::rat, 59, 118, 177]]"
  by (rule persistent_client_blocked) simp_all

section \<open>Keys of a private instance\<close>

text \<open>
  Property C34. A request reaches the handlers of a private instance only when its path is one of
  the exempt ones, or it comes with a link, or with the key of the instance; and a handler that
  requires it is only reached with a configuration that holds the key.
\<close>

theorem private_instance_guarded:
  assumes "\<not> is_public_instance env" and "fst (admit env t up profiles e req st) = Inr (u, link)"
  shows "(list_ex (\<lambda>p. py_startswith (req_path req) p) EXEMPT_PATH_PREFIXES \<or> req_path req = ''/'' \<or>
      nonempty (path_param req ''secret_str'') \<noteq> None \<or> nonempty (req_header req ''X-API-Key'') = Some (instance_key env)) \<and>
    ((case e of Some x \<Rightarrow> \<not> endpoint_auth_required x | None \<Rightarrow> True) \<or> key_of_user env u = Some (instance_key env))"
proof -
  obtain st1 where one: "user_data_layer env t up profiles e req st = (Inr (u, link), st1)" and two: "api_key_layer env req = Inr ()"
    using assms(2) by (auto simp: admit_def split: prod.splits sum.splits)
  have "(case e of Some x \<Rightarrow> \<not> endpoint_auth_required x | None \<Rightarrow> True) \<or> key_of_user env u = Some (instance_key env)"
    using one assms(1) by (auto simp: user_data_layer_def Let_def split: prod.splits sum.splits if_splits option.splits)
  then show ?thesis using two assms(1) by (auto simp: api_key_layer_def split: if_splits)
qed

definition sample_request :: request where
  "sample_request =
     \<lparr>req_method = ''GET'', req_path = ''/api/v1/stats'', req_header = (\<lambda>h. if h = ''X-API-Key'' then Some ''key'' else None),
      path_param = (\<lambda>p. None), query_param = (\<lambda>p. None), client_host = Some ''10.0.0.1''\<rparr>"

definition sample_web_env :: "string web_env" where
  "sample_web_env =
     \<lparr>digest = (\<lambda>s. s), encrypt_bytes = (\<lambda>iv s. rev s), decrypt_bytes = (\<lambda>iv s. Inr (rev s)), dump_user_data = (\<lambda>u. u),
      parse_user_data = Inr, make_user_data = (\<lambda>d. Inr []), no_user_data = [],
      unseal_secrets = (\<lambda>s. Inr []), disabled_services = [], user_uuid = (\<lambda>i. Some ''u''),
      instance_key = ''key'', is_public_instance = False, enable_rate_limit = True, key_of_user = (\<lambda>u. None),
      credential_of_user = (\<lambda>u. None), fresh_iv = replicate 16 (CHR ''k''), md5_hex = (\<lambda>s. s)\<rparr>"

definition sample_web_state :: "string web_state" where
  "sample_web_state = \<lparr>web_worker = fresh_worker, web_uuid_keys = Map.empty, rate_keys = Map.empty\<rparr>"

theorem private_instance_guarded_witness:
  "(list_ex (\<lambda>p. py_startswith (req_path sample_request) p) EXEMPT_PATH_PREFIXES \<or> req_path sample_request = ''/'' \<or>
      nonempty (path_param sample_request ''secret_str'') \<noteq> None \<or>
      nonempty (req_header sample_request ''X-API-Key'') = Some (instance_key sample_web_env)) \<and>
    ((case None :: endpoint option of Some x \<Rightarrow> \<not> endpoint_auth_required x | None \<Rightarrow> True) \<or> key_of_user sample_web_env [] = Some (instance_key sample_web_env))"
proof (rule private_instance_guarded[where e = None and env = sample_web_env and u = "[]" and req = sample_request])
  show "fst (admit sample_web_env 0 True [] None sample_request sample_web_state) = Inr ([], [])" by code_simp
  show "\<not> is_public_instance sample_web_env" by (simp add: sample_web_env_def)
qed

section \<open>Errors\<close>

text \<open>
  Property C29. The retry of transient database errors never happens: the layer that turns every
  exception into a response is inside of the one that retries, so the handler is called once, and
  a lost connection is answered with a server error.
\<close>

theorem transient_errors_never_retried:
  assumes "call 0 = Raise heap e" and "isinstance (heap ! e) Exception" and "\<not> isinstance (heap ! e) Runtime_Error"
    and "\<not> is_sqlalchemy_pool_exhaustion_error heap e" and "\<not> is_api_path (req_path req)"
  shows "serve disconnected req call =
    (Reply (Inl (Plain_Text ''Internal Server Error. Check the server log & Create GitHub Issue'' 500)), 1)"
  using assms by (simp add: serve_def retry_layer_def timing_layer_def Let_def)

definition lost_connection :: exc where
  "lost_connection =
     \<lparr>classes = [Exception, StatementError, DBAPIError], message = ''connection was closed in the middle of operation'',
      cause_link = None, context_link = None, group_links = [], orig_link = None, connection_invalidated = True\<rparr>"

definition stream_request :: request where
  "stream_request = sample_request\<lparr>req_path := ''/D-abc/stream/movie/tt1.json''\<rparr>"

definition lost_once :: "nat \<Rightarrow> (reply + unit) outcome" where
  "lost_once n = (if n = 0 then Raise [lost_connection] 0 else Reply (Inr ()))"

theorem transient_errors_never_retried_witness:
  "serve False stream_request lost_once =
    (Reply (Inl (Plain_Text ''Internal Server Error. Check the server log & Create GitHub Issue'' 500)), 1) \<and>
   retry_layer ''GET'' lost_once = (Reply (Inr ()), 2)"
proof
  show "serve False stream_request lost_once =
    (Reply (Inl (Plain_Text ''Internal Server Error. Check the server log & Create GitHub Issue'' 500)), 1)"
  proof (rule transient_errors_never_retried)
    show "lost_once 0 = Raise [lost_connection] 0" by (simp add: lost_once_def)
    show "isinstance ([lost_connection] ! 0) Exception" "\<not> isinstance ([lost_connection] ! 0) Runtime_Error" by code_simp+
    show "\<not> is_sqlalchemy_pool_exhaustion_error [lost_connection] 0" by code_simp
    show "\<not> is_api_path (req_path stream_request)" by code_simp
  qed
  have "is_retryable_db_error [lost_connection] 0 \<and> \<not> is_sqlalchemy_pool_exhaustion_error [lost_connection] 0" by code_simp
  then show "retry_layer ''GET'' lost_once = (Reply (Inr ()), 2)"
    by (simp add: retry_layer_def lost_once_def isinstance_def lost_connection_def py_upper_def char_upper_def is_lower_def)
qed

definition sample_route :: "unit route" where
  "sample_route =
     \<lparr>route_methods = Some [''GET''], route_match = (\<lambda>m path. if path = ''/health'' then Some () else None),
      route_endpoint = \<lparr>endpoint_name = ''health'', endpoint_auth_required = False, endpoint_exclude_rate_limit = True,
        endpoint_limit = None, endpoint_window = None, endpoint_scope = None\<rparr>\<rparr>"

definition sample_sha :: "string \<Rightarrow> string" where
  "sample_sha s = concat (map (\<lambda>c. [char_of (97 + byte c div 16), char_of (97 + byte c mod 16)]) s)"

lemma hex_digit: "n < 16 \<Longrightarrow> byte (char_of (97 + n)) = 97 + n"
  by (simp add: of_char_of)

lemma hex_digits: "byte c div 16 < 16" "byte c mod 16 < 16"
  using nat_of_char_less_256[of c] by (simp_all add: div_less_iff_less_mult)

lemma sample_sha_inj: "sample_sha s = sample_sha t \<Longrightarrow> s = t"
proof (induction s arbitrary: t)
  case Nil
  then show ?case by (cases t) (simp_all add: sample_sha_def)
next
  case (Cons c s)
  obtain d t' where t: "t = d # t'" using Cons.prems by (cases t) (simp_all add: sample_sha_def)
  have eq: "char_of (97 + byte c div 16) = (char_of (97 + byte d div 16) :: char)"
    "char_of (97 + byte c mod 16) = (char_of (97 + byte d mod 16) :: char)" "sample_sha s = sample_sha t'"
    using Cons.prems by (simp_all add: t sample_sha_def)
  have "byte c div 16 = byte d div 16" "byte c mod 16 = byte d mod 16"
    using arg_cong[OF eq(1), of byte] arg_cong[OF eq(2), of byte] by (simp_all only: hex_digit hex_digits add_left_cancel)
  then have "byte c = byte d" by (metis mult_div_mod_eq)
  then show ?case using Cons.IH[OF eq(3)] t by simp
qed

lemma sample_sha_colon: "CHR '':'' \<notin> set (sample_sha s)"
proof -
  have "CHR '':'' \<noteq> char_of (97 + n)" if "n < 16" for n :: nat
  proof
    assume "CHR '':'' = char_of (97 + n)"
    then have "97 + n = byte (CHR '':'')" using hex_digit[OF that] by metis
    then show False by simp
  qed
  then show ?thesis using hex_digits by (simp add: sample_sha_def)
qed

theorem route_cache_transparent_witness:
  "fst (find_route_handler sample_sha [sample_route] ''GET'' ''/health'' (after_requests sample_sha [sample_route] [(''GET'', ''/health'')])) =
      map_option (\<lambda>(r, ps). (route_endpoint r, ps)) (first_route [sample_route] ''GET'' ''/health'') \<and>
    length (after_requests sample_sha [sample_route] [(''GET'', ''/health'')]) \<le> 4096"
  by (rule route_cache_transparent) (auto simp: inj_def sample_sha_inj sample_sha_colon)

end
