(* ===== verification/Torrent_Select.thy ===== *)
theory Torrent_Select
  imports Stream_Data Usenet_Select
begin

text \<open>
  Which file of a torrent is played, and what is stored of its files: \<open>workers/providers/parser.py\<close>.
  The title parser, \<open>dateparser\<close>, the metadata of a series and the outcome of a database transaction
  are the fields of an environment; the torrent and its row in the database are the state.
\<close>

section \<open>Files\<close>

definition is_video_file :: "string \<Rightarrow> bool" where
  "is_video_file filename = list_ex (py_endswith (py_lower filename))
     [''.mp4'', ''.mkv'', ''.webm'', ''.m4v'', ''.mov'', ''.m3u8'', ''.m3u'', ''.mpd'', ''.ts'', ''.mts'',
      ''.m2ts'', ''.m2t'', ''.mpeg'', ''.mpg'', ''.mp2'', ''.m2v'', ''.m4p'', ''.avi'', ''.wmv'', ''.flv'',
      ''.f4v'', ''.ogv'', ''.ogm'', ''.rm'', ''.rmvb'', ''.asf'', ''.divx'', ''.3gp'', ''.3g2'', ''.vob'',
      ''.ifo'', ''.bdmv'', ''.hevc'', ''.av1'', ''.vp8'', ''.vp9'', ''.mxf'', ''.dav'', ''.swf'', ''.nsv'',
      ''.strm'', ''.mvi'', ''.vid'', ''.amv'', ''.m4s'', ''.mqv'', ''.nuv'', ''.wtv'', ''.dvr-ms'', ''.pls'',
      ''.cue'', ''.dash'', ''.hls'', ''.ismv'', ''.m4f'', ''.mp4v'', ''.gif'', ''.gifv'', ''.apng'']"

definition py_basename :: "string \<Rightarrow> string" where
  "py_basename path = last (split_char CHR ''/'' path)"

record torrent_file =
  raw_name :: string
  raw_length :: int

record file_info =
  info_index :: nat
  info_filename :: string
  info_size :: int
  info_is_video :: bool

definition from_torrent_file :: "nat \<Rightarrow> torrent_file \<Rightarrow> file_info" where
  "from_torrent_file i f =
     \<lparr>info_index = i, info_filename = py_basename (raw_name f), info_size = raw_length f,
      info_is_video = is_video_file (py_basename (raw_name f))\<rparr>"

text \<open>Only videos become \<open>file_infos\<close>, each with its index among all files.\<close>

definition process_files :: "torrent_file list \<Rightarrow> file_info list" where
  "process_files raw = filter info_is_video (map (\<lambda>i. from_torrent_file i (raw ! i)) [0..<length raw])"

record processor =
  file_infos :: "file_info list"
  parsed_episodes :: "stream_file list"

definition processor_videos :: "processor \<Rightarrow> file_info list" where
  "processor_videos p = filter info_is_video (file_infos p)"

definition get_largest_video_file :: "processor \<Rightarrow> file_info option" where
  "get_largest_video_file p = (case processor_videos p of [] \<Rightarrow> None | v # vs \<Rightarrow> Some (max_by info_size v vs))"

definition find_file_by_name :: "processor \<Rightarrow> string \<Rightarrow> file_info option" where
  "find_file_by_name p filename = find (\<lambda>f. info_filename f = filename) (file_infos p)"

section \<open>Season and episode\<close>

text \<open>A date, a date with a time, both as the ISO text of the day, or a value of another type.\<close>

datatype date_value = Date_On string | Datetime_On string | No_Date_Value

record episode_row =
  row_number :: int
  row_released :: "date_value option"
  row_air_date :: "date_value option"
  row_release_date :: "date_value option"

record season_row =
  row_season :: int
  row_episodes :: "episode_row list"

text \<open>The seasons under either of the two field names; a missing one is empty.\<close>

record series_meta =
  meta_seasons :: "season_row list"
  meta_series_seasons :: "season_row list"

definition normalize_episode_date :: "date_value option \<Rightarrow> string option" where
  "normalize_episode_date v = (case v of Some (Date_On d) \<Rightarrow> Some d | Some (Datetime_On d) \<Rightarrow> Some d | _ \<Rightarrow> None)"

definition get_episode_date :: "episode_row \<Rightarrow> string option" where
  "get_episode_date e =
     (case filter truthy_text (map normalize_episode_date [row_released e, row_air_date e, row_release_date e]) of
        d # _ \<Rightarrow> d | [] \<Rightarrow> None)"

definition get_metadata_seasons :: "series_meta option \<Rightarrow> season_row list" where
  "get_metadata_seasons m =
     (case m of None \<Rightarrow> [] | Some x \<Rightarrow> if meta_seasons x \<noteq> [] then meta_seasons x else meta_series_seasons x)"

record selection_env =
  title_of :: "string \<Rightarrow> ptt_title"
  date_of :: "string \<Rightarrow> string py_result"
  series_data :: "string \<Rightarrow> series_meta option py_result"

definition dated_episode :: "season_row list \<Rightarrow> string \<Rightarrow> int option \<times> int option" where
  "dated_episode seasons day =
     (case find (\<lambda>(s, e). get_episode_date e = Some day)
             (concat (map (\<lambda>s. map (Pair (row_season s)) (row_episodes s)) seasons)) of
        Some (s, e) \<Rightarrow> (Some s, Some (row_number e))
      | None \<Rightarrow> (None, None))"

definition filename_date :: "selection_env \<Rightarrow> ptt_title \<Rightarrow> string \<Rightarrow> string option py_result" where
  "filename_date env parsed filename =
     (if truthy_text (ptt_date parsed) then Inr (ptt_date parsed)
      else case date_regex_search filename of
        None \<Rightarrow> Inr None
      | Some found \<Rightarrow> bind_result (date_of env found) (\<lambda>d. Inr (Some d)))"

definition parse_season_episode_info ::
  "selection_env \<Rightarrow> file_info \<Rightarrow> string \<Rightarrow> string \<Rightarrow> int option \<Rightarrow> (int option \<times> int option) py_result" where
  "parse_season_episode_info env f torrent_title meta_id default_season =
     (let parsed = title_of env (info_filename f); of_title = title_of env torrent_title
      in case (ptt_seasons parsed, ptt_episodes parsed) of
           (s # _, e # _) \<Rightarrow> Inr (Some s, Some e)
         | ([], e # _) \<Rightarrow> Inr (default_season, Some e)
         | _ \<Rightarrow>
             (case (ptt_seasons of_title, ptt_episodes of_title) of
                ([s], [e]) \<Rightarrow> Inr (Some s, Some e)
              | _ \<Rightarrow>
                  bind_result (filename_date env parsed (info_filename f)) (\<lambda>d.
                    case d of
                      Some day \<Rightarrow>
                        bind_result (series_data env meta_id) (\<lambda>m. Inr (dated_episode (get_metadata_seasons m) day))
                    | None \<Rightarrow> Inr (fallback_parse_season_episode (info_filename f) default_season))))"

text \<open>The loop that returns the first video read as the wanted episode.\<close>

fun first_parsed ::
  "(file_info \<Rightarrow> (int option \<times> int option) py_result) \<Rightarrow> int \<Rightarrow> int \<Rightarrow> file_info list \<Rightarrow> file_info option py_result" where
  "first_parsed parse season episode [] = Inr None"
| "first_parsed parse season episode (f # fs) =
     bind_result (parse f) (\<lambda>r. if r = (Some season, Some episode) then Inr (Some f) else first_parsed parse season episode fs)"

definition find_specific_episode ::
  "selection_env \<Rightarrow> processor \<Rightarrow> int \<Rightarrow> int \<Rightarrow> string \<Rightarrow> string \<Rightarrow> file_info option py_result" where
  "find_specific_episode env p season episode torrent_title meta_id =
     (case find (\<lambda>e. season_number e = Some season \<and> episode_number e = Some episode \<and>
                 0 \<le> file_index e \<and> file_index e < int (length (file_infos p))) (parsed_episodes p) of
        Some e \<Rightarrow> Inr (Some (file_infos p ! nat (file_index e)))
      | None \<Rightarrow>
          bind_result
            (first_parsed (\<lambda>f. parse_season_episode_info env f torrent_title meta_id (Some season)) season episode (processor_videos p))
            (\<lambda>found. Inr (case found of
               Some f \<Rightarrow> Some f
             | None \<Rightarrow> (case processor_videos p of [] \<Rightarrow> None | v # _ \<Rightarrow> Some v))))"

definition truthy_number :: "int option \<Rightarrow> bool" where
  "truthy_number n \<longleftrightarrow> n \<noteq> None \<and> n \<noteq> Some 0"

fun parse_episodes ::
  "(file_info \<Rightarrow> (int option \<times> int option) py_result) \<Rightarrow> file_info list \<Rightarrow> stream_file list py_result" where
  "parse_episodes parse [] = Inr []"
| "parse_episodes parse (f # fs) =
     bind_result (parse f) (\<lambda>(s, e).
       bind_result (parse_episodes parse fs) (\<lambda>rest.
         Inr (if truthy_number s \<and> truthy_number e
              then \<lparr>file_index = int (info_index f), file_name = info_filename f, file_size = info_size f,
                    file_type = ''video'', season_number = s, episode_number = e\<rparr> # rest
              else rest)))"

definition parse_all_episodes ::
  "selection_env \<Rightarrow> processor \<Rightarrow> string \<Rightarrow> string \<Rightarrow> int option \<Rightarrow> stream_file list py_result" where
  "parse_all_episodes env p torrent_title meta_id default_season =
     parse_episodes (\<lambda>f. parse_season_episode_info env f torrent_title meta_id default_season) (processor_videos p)"

section \<open>The torrent and its row\<close>

record torrent =
  torrent_hash :: string
  torrent_title :: string
  torrent_meta :: string
  torrent_size :: int
  torrent_blocked :: bool
  torrent_files :: "stream_file list"

record torrent_row =
  stored_blocked :: bool
  stored_size :: int
  stored_files :: "stream_file list"

text \<open>\<open>annotations\<close> are the requests for annotation that were sent.\<close>

record select_state =
  the_torrent :: torrent
  torrent_rows :: "string \<rightharpoonup> torrent_row"
  annotations :: "string list"

text \<open>\<open>failure\<close> is how the transaction ends after its retries.\<close>

definition save_torrent_stream :: "py_error option \<Rightarrow> select_state \<Rightarrow> select_state py_result" where
  "save_torrent_stream failure st =
     (case failure of
        Some e \<Rightarrow> Inl e
      | None \<Rightarrow>
          (let t = the_torrent st
           in Inr (case torrent_rows st (torrent_hash t) of
                None \<Rightarrow> st
              | Some row \<Rightarrow>
                  st\<lparr>torrent_rows := (torrent_rows st)(torrent_hash t \<mapsto>
                       \<lparr>stored_blocked = torrent_blocked t, stored_size = torrent_size t,
                        stored_files = (if torrent_files t \<noteq> [] then torrent_files t else stored_files row)\<rparr>)\<rparr>)))"

definition change_torrent :: "(torrent \<Rightarrow> torrent) \<Rightarrow> select_state \<Rightarrow> select_state" where
  "change_torrent f st = st\<lparr>the_torrent := f (the_torrent st)\<rparr>"

text \<open>An error is caught and logged; what was changed in memory stays changed.\<close>

definition saved_or_same :: "py_error option \<Rightarrow> select_state \<Rightarrow> bool \<times> select_state" where
  "saved_or_same failure st = (case save_torrent_stream failure st of Inl e \<Rightarrow> (False, st) | Inr st' \<Rightarrow> (True, st'))"

definition plain_file :: "int \<Rightarrow> file_info \<Rightarrow> string \<Rightarrow> stream_file" where
  "plain_file i f kind =
     \<lparr>file_index = i, file_name = info_filename f, file_size = info_size f, file_type = kind,
      season_number = None, episode_number = None\<rparr>"

definition request_annotation :: "py_error option \<Rightarrow> file_info list \<Rightarrow> select_state \<Rightarrow> select_state" where
  "request_annotation failure infos st =
     (let st' = change_torrent (\<lambda>t. t\<lparr>torrent_files :=
            map (\<lambda>f. plain_file (int (info_index f)) f (if is_video_file (info_filename f) then ''video'' else ''other'')) infos\<rparr>) st
      in case saved_or_same failure st' of
           (False, st'') \<Rightarrow> st''
         | (True, st'') \<Rightarrow> st''\<lparr>annotations := annotations st'' @ [torrent_hash (the_torrent st'')]\<rparr>)"

text \<open>The files of a series: the episodes found, or the only file of a torrent that was known to have one.\<close>

definition with_episodes :: "stream_file list \<Rightarrow> processor \<Rightarrow> torrent \<Rightarrow> torrent" where
  "with_episodes eps p t =
     (let total = sum_list (map info_size (processor_videos p))
      in t\<lparr>torrent_files := eps, torrent_size := (if torrent_size t < total then total else torrent_size t)\<rparr>)"

definition renamed_file :: "bool \<Rightarrow> file_info \<Rightarrow> stream_file \<Rightarrow> stream_file" where
  "renamed_file is_index_trustable v f =
     f\<lparr>file_name := info_filename v, file_size := info_size v,
       file_index := (if is_index_trustable then int (info_index v) else file_index f)\<rparr>"

definition update_series ::
  "selection_env \<Rightarrow> py_error option \<Rightarrow> processor \<Rightarrow> int \<Rightarrow> bool \<Rightarrow> select_state \<Rightarrow> bool \<times> processor \<times> select_state" where
  "update_series env failure p season is_index_trustable st =
     (case parse_all_episodes env p (torrent_title (the_torrent st)) (torrent_meta (the_torrent st)) (Some season) of
        Inl e \<Rightarrow> (False, p, st)
      | Inr eps \<Rightarrow>
          (let p' = p\<lparr>parsed_episodes := eps\<rparr>
           in if eps \<noteq> [] then
                (case saved_or_same failure (change_torrent (with_episodes eps p) st) of (ok, st') \<Rightarrow> (ok, p', st'))
              else (case (processor_videos p, torrent_files (the_torrent st)) of
                  ([v], [f]) \<Rightarrow>
                    (case saved_or_same failure (change_torrent (with_episodes [renamed_file is_index_trustable v f] p) st) of
                       (ok, st') \<Rightarrow> (ok, p', st'))
                | _ \<Rightarrow> (False, p', request_annotation failure (file_infos p) st))))"

definition block_torrent :: "py_error option \<Rightarrow> select_state \<Rightarrow> bool \<times> select_state" where
  "block_torrent failure st = saved_or_same failure (change_torrent (\<lambda>t. t\<lparr>torrent_blocked := True\<rparr>) st)"

text \<open>\<open>acquired\<close>: the lock in Redis that is held for three days after a first attempt, or the error of Redis.\<close>

definition update_torrent_streams_metadata ::
  "selection_env \<Rightarrow> bool py_result \<Rightarrow> py_error option \<Rightarrow> processor \<Rightarrow> int option \<Rightarrow> bool \<Rightarrow> select_state \<Rightarrow>
     (bool \<times> processor \<times> select_state) py_result" where
  "update_torrent_streams_metadata env acquired failure p season is_index_trustable st =
     bind_result acquired (\<lambda>ok.
       Inr (if \<not> ok then (False, p, st)
         else case season of
           None \<Rightarrow>
             (case get_largest_video_file p of
                None \<Rightarrow> (False, p, snd (block_torrent failure st))
              | Some f \<Rightarrow>
                  (case saved_or_same failure (change_torrent (\<lambda>t. t\<lparr>torrent_files :=
                          [plain_file (if is_index_trustable then int (info_index f) else 0) f ''video''], torrent_size := info_size f\<rparr>) st) of
                     (ok', st') \<Rightarrow> (ok', p, st')))
         | Some s \<Rightarrow>
             if processor_videos p = [] then (False, p, snd (block_torrent failure st))
             else update_series env failure p s is_index_trustable st))"

section \<open>Selection\<close>

datatype select_failure = No_Matching_File | Torrent_Blocked | Episode_Not_Found | Select_Raised py_error

definition named_index :: "string option \<Rightarrow> torrent_file list \<Rightarrow> nat option" where
  "named_index filename raw =
     (case filename of
        Some (c # cs) \<Rightarrow> first_index (\<lambda>f. py_basename (raw_name f) = c # cs) raw
      | _ \<Rightarrow> None)"

definition pick_file ::
  "selection_env \<Rightarrow> processor \<Rightarrow> int option \<Rightarrow> int option \<Rightarrow> torrent \<Rightarrow> select_failure + nat" where
  "pick_file env p season episode t =
     (if truthy_number season \<and> truthy_number episode then
        (case find_specific_episode env p (the season) (the episode) (torrent_title t) (torrent_meta t) of
           Inl e \<Rightarrow> Inl (Select_Raised e)
         | Inr None \<Rightarrow> Inl Episode_Not_Found
         | Inr (Some f) \<Rightarrow> Inr (info_index f))
      else case get_largest_video_file p of Some f \<Rightarrow> Inr (info_index f) | None \<Rightarrow> Inl No_Matching_File)"

text \<open>\<open>fill_sizes\<close> is the callback that completes the sizes; files of another type than a list are \<open>None\<close>.\<close>

definition select_file_index_from_torrent ::
  "selection_env \<Rightarrow> (torrent_file list \<Rightarrow> torrent_file list py_result) \<Rightarrow> bool py_result \<Rightarrow> py_error option \<Rightarrow>
     torrent_file list option \<Rightarrow> string option \<Rightarrow> int option \<Rightarrow> int option \<Rightarrow> bool \<Rightarrow> bool \<Rightarrow> select_state \<Rightarrow>
     (select_failure + nat) \<times> select_state" where
  "select_file_index_from_torrent env fill_sizes acquired failure raw_files filename season episode
     is_filename_trustable is_index_trustable st =
     (let raw = (case raw_files of None \<Rightarrow> [] | Some fs \<Rightarrow> fs)
      in case named_index filename raw of
           Some i \<Rightarrow> (Inr i, st)
         | None \<Rightarrow>
             (case fill_sizes raw of
                Inl e \<Rightarrow> (Inl (Select_Raised e), st)
              | Inr filled \<Rightarrow>
                  (let p = \<lparr>file_infos = process_files filled, parsed_episodes = []\<rparr>
                   in if processor_videos p = [] then
                        (if is_filename_trustable
                         then (let st' = change_torrent (\<lambda>t. t\<lparr>torrent_blocked := True\<rparr>) st
                               in case save_torrent_stream failure st' of
                                    Inl e \<Rightarrow> (Inl (Select_Raised e), st')
                                  | Inr st'' \<Rightarrow> (Inl Torrent_Blocked, st''))
                         else (Inl No_Matching_File, st))
                      else if is_filename_trustable
                      then (case update_torrent_streams_metadata env acquired failure p season is_index_trustable st of
                              Inl e \<Rightarrow> (Inl (Select_Raised e), st)
                            | Inr (_, p', st') \<Rightarrow> (pick_file env p' season episode (the_torrent st'), st'))
                      else (pick_file env p season episode (the_torrent st), st))))"

section \<open>Usenet downloads\<close>

definition find_usenet_episode ::
  "selection_env \<Rightarrow> processor \<Rightarrow> int \<Rightarrow> int \<Rightarrow> string \<Rightarrow> string \<Rightarrow> file_info option py_result" where
  "find_usenet_episode env p season episode title meta_id =
     bind_result
       (first_parsed (\<lambda>f. parse_season_episode_info env f title meta_id (Some season)) season episode (processor_videos p))
       (\<lambda>found. Inr (case found of
          Some f \<Rightarrow> Some f
        | None \<Rightarrow> (case processor_videos p of [v] \<Rightarrow> Some v | _ \<Rightarrow> None)))"

definition select_file_index_from_usenet_stream ::
  "selection_env \<Rightarrow> torrent_file list \<Rightarrow> string \<Rightarrow> string \<Rightarrow> string option \<Rightarrow> int option \<Rightarrow> int option \<Rightarrow> select_failure + nat" where
  "select_file_index_from_usenet_stream env raw title meta_id filename season episode =
     (if raw = [] then Inl No_Matching_File
      else case named_index filename raw of
        Some i \<Rightarrow> Inr i
      | None \<Rightarrow>
          (let p = \<lparr>file_infos = process_files raw, parsed_episodes = []\<rparr>;
               largest = (case get_largest_video_file p of Some f \<Rightarrow> Inr (info_index f) | None \<Rightarrow> Inl No_Matching_File)
           in if processor_videos p = [] then Inl No_Matching_File
              else if truthy_number season \<and> truthy_number episode then
                (case find_usenet_episode env p (the season) (the episode) title meta_id of
                   Inl e \<Rightarrow> Inl (Select_Raised e)
                 | Inr (Some f) \<Rightarrow> Inr (info_index f)
                 | Inr None \<Rightarrow> largest)
              else largest))"

end
