(* ===== verification/Torrent_Select_Correct.thy ===== *)
theory Torrent_Select_Correct
  imports Torrent_Select
begin

text \<open>
  Guarantees of the file selection in torrents: what is selected is a video or has the wanted name,
  a film is the largest video, a torrent is blocked only when it has no video; and where the
  selection differs from what its comments say.
\<close>

section \<open>Videos of a torrent\<close>

definition is_video :: "torrent_file \<Rightarrow> bool" where
  "is_video f = is_video_file (py_basename (raw_name f))"

lemma from_torrent_file_simps [simp]:
  "info_index (from_torrent_file i f) = i" "info_size (from_torrent_file i f) = raw_length f"
  "info_is_video (from_torrent_file i f) = is_video f"
  by (simp_all add: from_torrent_file_def is_video_def)

lemma process_files_filter:
  "process_files raw = map (\<lambda>i. from_torrent_file i (raw ! i)) (filter (\<lambda>i. is_video (raw ! i)) [0..<length raw])"
  by (simp add: process_files_def filter_map comp_def)

lemma process_files_in:
  "f \<in> set (process_files raw) \<longleftrightarrow> (\<exists>i < length raw. is_video (raw ! i) \<and> f = from_torrent_file i (raw ! i))"
  by (auto simp: process_files_filter)

lemma videos_of_process [simp]:
  "processor_videos \<lparr>file_infos = process_files raw, parsed_episodes = eps\<rparr> = process_files raw"
  by (simp add: processor_videos_def process_files_def)

lemma process_files_Nil: "process_files raw = [] \<longleftrightarrow> \<not> list_ex is_video raw"
  by (auto simp: process_files_filter filter_empty_conv list_ex_length)

lemma largest_video:
  assumes "file_infos p = process_files raw" and "get_largest_video_file p = Some f"
  shows "f \<in> set (process_files raw) \<and> list_all (\<lambda>g. info_size g \<le> info_size f) (process_files raw)"
proof -
  obtain v vs where v: "processor_videos p = v # vs" "f = max_by info_size v vs"
    using assms(2) by (auto simp: get_largest_video_file_def split: list.splits)
  then have "process_files raw = v # vs"
    using assms(1) by (simp add: processor_videos_def process_files_def)
  then show ?thesis using max_by_in[of info_size v vs] max_by_ge[of _ v vs info_size] v(2) by (auto simp: list_all_iff)
qed

section \<open>The wanted episode\<close>

lemma first_parsed_in: "first_parsed parse s e fs = Inr (Some f) \<Longrightarrow> f \<in> set fs"
  by (induction fs) (auto simp: bind_result_eq_Inr split: if_splits)

lemma find_specific_in:
  assumes "file_infos p = process_files raw"
  shows "pred_result (\<lambda>r. case r of None \<Rightarrow> process_files raw = [] | Some f \<Rightarrow> f \<in> set (process_files raw))
      (find_specific_episode env p s e tt m) \<or> (\<exists>err. find_specific_episode env p s e tt m = Inl err)"
proof -
  have v: "processor_videos p = process_files raw"
    using assms by (simp add: processor_videos_def process_files_def)
  show ?thesis
  proof (cases "find (\<lambda>x. season_number x = Some s \<and> episode_number x = Some e \<and>
      0 \<le> file_index x \<and> file_index x < int (length (file_infos p))) (parsed_episodes p)")
    case (Some x)
    then have "nat (file_index x) < length (file_infos p)" by (auto simp: find_Some_iff)
    then show ?thesis using Some assms by (simp add: find_specific_episode_def)
  next
    case None
    then show ?thesis
    proof (cases "first_parsed (\<lambda>f. parse_season_episode_info env f tt m (Some s)) s e (process_files raw)")
      case (Inr r)
      show ?thesis
      proof (cases r)
        case (Some f)
        then have "f \<in> set (process_files raw)" using Inr by (intro first_parsed_in) simp
        then show ?thesis using None v Inr Some by (simp add: find_specific_episode_def)
      qed (use None v Inr in \<open>simp add: find_specific_episode_def split: list.splits\<close>)
    qed (use None v in \<open>simp add: find_specific_episode_def\<close>)
  qed
qed

lemma pick_file_in:
  assumes "file_infos p = process_files raw" and "pick_file env p season episode t = Inr i"
  shows "\<exists>f \<in> set (process_files raw). info_index f = i"
proof (cases "truthy_number season \<and> truthy_number episode")
  case True
  then show ?thesis
    using assms(2) find_specific_in[OF assms(1), of env "the season" "the episode" "torrent_title t" "torrent_meta t"]
    by (auto simp: pick_file_def pred_result_def split: sum.splits option.splits)
next
  case False
  then show ?thesis
    using assms(2) largest_video[OF assms(1)] by (auto simp: pick_file_def split: option.splits)
qed

lemma pick_file_error:
  assumes "file_infos p = process_files raw" and "process_files raw \<noteq> []"
  shows "pick_file env p season episode t \<noteq> Inl Episode_Not_Found"
  using find_specific_in[OF assms(1), of env "the season" "the episode" "torrent_title t" "torrent_meta t"] assms(2)
  by (auto simp: pick_file_def pred_result_def split: sum.splits option.splits)

section \<open>The update of the torrent\<close>

lemma saved_or_same_torrent: "saved_or_same failure st = (ok, st') \<Longrightarrow> the_torrent st' = the_torrent st"
  by (auto simp: saved_or_same_def save_torrent_stream_def Let_def split: option.splits)

lemma request_annotation_blocked:
  "torrent_blocked (the_torrent (request_annotation failure infos st)) = torrent_blocked (the_torrent st)"
  by (auto simp: request_annotation_def Let_def change_torrent_def dest: saved_or_same_torrent split: prod.splits bool.splits)

lemma update_series_keeps:
  "update_series env failure p s it st = (ok, p', st') \<Longrightarrow>
     file_infos p' = file_infos p \<and> torrent_blocked (the_torrent st') = torrent_blocked (the_torrent st)"
  by (auto simp: update_series_def Let_def change_torrent_def with_episodes_def request_annotation_blocked
      dest!: saved_or_same_torrent split: sum.splits prod.splits if_splits list.splits)

lemma update_keeps:
  assumes "update_torrent_streams_metadata env acquired failure p season it st = Inr (ok, p', st')" and "processor_videos p \<noteq> []"
  shows "file_infos p' = file_infos p \<and> torrent_blocked (the_torrent st') = torrent_blocked (the_torrent st)"
proof -
  have "get_largest_video_file p \<noteq> None" using assms(2) by (auto simp: get_largest_video_file_def split: list.splits)
  then show ?thesis
    using assms update_series_keeps
    by (auto simp: update_torrent_streams_metadata_def bind_result_eq_Inr change_torrent_def
        dest!: saved_or_same_torrent split: if_splits option.splits prod.splits)
qed

section \<open>Selection\<close>

lemma select_cases:
  assumes "named_index filename raw = None" and "fill_sizes raw = Inr filled" and "list_ex is_video filled"
    and "select_file_index_from_torrent env fill_sizes acquired failure (Some raw) filename season episode ft it st = (r, st')"
  obtains e where "r = Inl (Select_Raised e)" "torrent_blocked (the_torrent st') = torrent_blocked (the_torrent st)"
  | p where "file_infos p = process_files filled" "r = pick_file env p season episode (the_torrent st')"
      "torrent_blocked (the_torrent st') = torrent_blocked (the_torrent st)"
proof -
  let ?p = "\<lparr>file_infos = process_files filled, parsed_episodes = []\<rparr>"
  have "process_files filled \<noteq> []" using assms(3) by (simp add: process_files_Nil)
  show ?thesis
  proof (cases ft)
    case True
    show ?thesis
    proof (cases "update_torrent_streams_metadata env acquired failure ?p season it st")
      case (Inl e)
      then show ?thesis
        using assms True \<open>process_files filled \<noteq> []\<close> that(1)[of e] by (simp add: select_file_index_from_torrent_def Let_def)
    next
      case (Inr x)
      obtain ok p' st2 where x: "x = (ok, p', st2)" by (cases x)
      have "r = pick_file env p' season episode (the_torrent st')" "st2 = st'"
        using assms True \<open>process_files filled \<noteq> []\<close> Inr x by (auto simp: select_file_index_from_torrent_def Let_def)
      then show ?thesis
        using that(2)[of p'] Inr x \<open>process_files filled \<noteq> []\<close> update_keeps[of env acquired failure ?p season it st ok p' st2] by simp
    qed
  next
    case False
    then show ?thesis
      using assms \<open>process_files filled \<noteq> []\<close> that(2)[of ?p] by (auto simp: select_file_index_from_torrent_def Let_def)
  qed
qed

lemma no_video_error:
  assumes "named_index filename raw = None" and "fill_sizes raw = Inr filled" and "\<not> list_ex is_video filled"
  shows "fst (select_file_index_from_torrent env fill_sizes acquired failure (Some raw) filename season episode ft it st) \<noteq> Inr i"
    and "fst (select_file_index_from_torrent env fill_sizes acquired failure (Some raw) filename season episode ft it st)
      \<noteq> Inl Episode_Not_Found"
  using assms by (auto simp: select_file_index_from_torrent_def Let_def process_files_Nil split: sum.splits)

lemma named_index_Some:
  "named_index filename raw = Some i \<Longrightarrow> i < length raw \<and> filename = Some (py_basename (raw_name (raw ! i)))"
  by (auto simp: named_index_def first_index_Some split: option.splits list.splits)

text \<open>
  Property C15. A file is selected in a torrent only when it has the wanted name or is a video, and its
  index is one of the torrent's; completing the sizes keeps the names.
\<close>

theorem torrent_file_selected:
  assumes "fst (select_file_index_from_torrent env fill_sizes acquired failure (Some raw) filename season episode ft it st) = Inr i"
    and "pred_result (\<lambda>filled. map raw_name filled = map raw_name raw) (fill_sizes raw)"
  shows "i < length raw \<and> (filename = Some (py_basename (raw_name (raw ! i))) \<or> is_video (raw ! i))"
proof (cases "named_index filename raw")
  case (Some j)
  then show ?thesis using assms(1) named_index_Some by (simp add: select_file_index_from_torrent_def Let_def)
next
  case None
  obtain filled where filled: "fill_sizes raw = Inr filled" "map raw_name filled = map raw_name raw"
    using assms(2) by (cases "fill_sizes raw") auto
  have "list_ex is_video filled"
    using no_video_error(1)[where fill_sizes = fill_sizes, OF None filled(1)] assms(1) by blast
  moreover obtain r st' where
    "select_file_index_from_torrent env fill_sizes acquired failure (Some raw) filename season episode ft it st = (r, st')"
    by fastforce
  ultimately obtain p where "file_infos p = process_files filled" "pick_file env p season episode (the_torrent st') = Inr i"
    using select_cases[where fill_sizes = fill_sizes, OF None filled(1)] assms(1) by (metis fst_conv sum.distinct(1))
  from pick_file_in[OF this] obtain f where "f \<in> set (process_files filled)" "info_index f = i" by blast
  then have i: "i < length filled" "is_video (filled ! i)" by (auto simp: process_files_in)
  have len: "length filled = length raw" using arg_cong[OF filled(2), of length] by simp
  have "raw_name (filled ! i) = raw_name (raw ! i)"
    using arg_cong[OF filled(2), of "\<lambda>xs. xs ! i"] i(1) len by simp
  then show ?thesis using i len by (simp add: is_video_def)
qed

text \<open>
  The error that an episode is not in a torrent is never raised: where no video is read
  as the wanted episode the first video is played, however many the torrent has.
\<close>

theorem episode_error_unreachable:
  "fst (select_file_index_from_torrent env fill_sizes acquired failure raw_files filename season episode ft it st)
    \<noteq> Inl Episode_Not_Found"
proof -
  have "fst (select_file_index_from_torrent env fill_sizes acquired failure (Some raw) filename season episode ft it st)
    \<noteq> Inl Episode_Not_Found" for raw
  proof (cases "named_index filename raw")
    case None
    show ?thesis
    proof (cases "fill_sizes raw")
      case (Inr filled)
      obtain r st' where r:
        "select_file_index_from_torrent env fill_sizes acquired failure (Some raw) filename season episode ft it st = (r, st')"
        by fastforce
      show ?thesis
      proof (cases "list_ex is_video filled")
        case True
        then have "process_files filled \<noteq> []" by (simp add: process_files_Nil)
        then show ?thesis
          using pick_file_error by (rule_tac select_cases[where fill_sizes = fill_sizes, OF None Inr True r]) (auto simp: r)
      next
        case False
        then show ?thesis using no_video_error(2)[where fill_sizes = fill_sizes, OF None Inr] by blast
      qed
    qed (use None in \<open>simp add: select_file_index_from_torrent_def Let_def\<close>)
  qed (simp add: select_file_index_from_torrent_def Let_def)
  moreover have "select_file_index_from_torrent env fill_sizes acquired failure None filename season episode ft it st =
    select_file_index_from_torrent env fill_sizes acquired failure (Some []) filename season episode ft it st"
    by (simp add: select_file_index_from_torrent_def)
  ultimately show ?thesis by (cases raw_files) metis+
qed

text \<open>
  Without an episode, or for an episode of season 0, which counts as none, the largest video
  of the torrent is selected.
\<close>

theorem largest_video_selected:
  assumes "season \<in> {None, Some 0} \<or> episode \<in> {None, Some 0}" and "named_index filename raw = None" and "fill_sizes raw = Inr filled"
    and "fst (select_file_index_from_torrent env fill_sizes acquired failure (Some raw) filename season episode ft it st) = Inr i"
  shows "is_video (filled ! i) \<and> list_all (\<lambda>f. raw_length f \<le> raw_length (filled ! i)) (filter is_video filled)"
proof -
  have v: "list_ex is_video filled"
    using no_video_error(1)[where fill_sizes = fill_sizes, OF assms(2,3)] assms(4) by blast
  obtain r st' where
    "select_file_index_from_torrent env fill_sizes acquired failure (Some raw) filename season episode ft it st = (r, st')"
    by fastforce
  then obtain p where p: "file_infos p = process_files filled" and pick: "pick_file env p season episode (the_torrent st') = Inr i"
    using select_cases[where fill_sizes = fill_sizes, OF assms(2,3) v] assms(4) by (metis fst_conv sum.distinct(1))
  have "\<not> (truthy_number season \<and> truthy_number episode)" using assms(1) by (auto simp: truthy_number_def)
  then obtain f where "get_largest_video_file p = Some f" and i: "info_index f = i"
    using pick by (auto simp: pick_file_def split: option.splits)
  from largest_video[OF p this(1)] have f: "f \<in> set (process_files filled)" "list_all (\<lambda>g. info_size g \<le> info_size f) (process_files filled)"
    by simp_all
  then have size: "is_video (filled ! i)" "info_size f = raw_length (filled ! i)" using i by (auto simp: process_files_in)
  have "raw_length g \<le> info_size f" if g: "g \<in> set (filter is_video filled)" for g
  proof -
    obtain j where "j < length filled" "g = filled ! j" "is_video g" using g by (auto simp: in_set_conv_nth)
    then have "from_torrent_file j g \<in> set (process_files filled)" by (auto simp: process_files_in)
    then show ?thesis using f(2) by (auto simp: list_all_iff)
  qed
  then show ?thesis using size by (auto simp: list_all_iff)
qed

text \<open>
  A torrent is marked as blocked only when none of its files is a video: with one video the
  mark is left as it was, whatever fails.
\<close>

theorem blocked_only_without_video:
  assumes "fill_sizes raw = Inr filled" and "list_ex is_video filled"
  shows "torrent_blocked (the_torrent (snd (select_file_index_from_torrent env fill_sizes acquired failure (Some raw)
      filename season episode ft it st))) = torrent_blocked (the_torrent st)"
proof (cases "named_index filename raw")
  case None
  obtain r st' where r:
    "select_file_index_from_torrent env fill_sizes acquired failure (Some raw) filename season episode ft it st = (r, st')"
    by fastforce
  show ?thesis by (rule select_cases[where fill_sizes = fill_sizes, OF None assms r]) (simp_all add: r)
qed (simp add: select_file_index_from_torrent_def)

section \<open>The index of an episode\<close>

lemma filter_upt_nth:
  assumes "P i" and "i < n" and "i < length (filter P [0..<n])"
  shows "filter P [0..<n] ! i = i \<longleftrightarrow> list_all P [0..<i]"
proof -
  have split: "filter P [0..<n] = filter P [0..<i] @ i # filter P [Suc i..<n]"
    using assms(1,2) upt_add_eq_append[of 0 i "n - i"] by (simp add: upt_conv_Cons)
  show ?thesis
  proof (cases "list_all P [0..<i]")
    case True
    then have "filter P [0..<i] = [0..<i]" by (simp add: list_all_iff)
    then show ?thesis using True unfolding split by (simp add: nth_append)
  next
    case False
    then have short: "length (filter P [0..<i]) < i"
      using length_filter_less[of _ "[0..<i]" P] by (auto simp: list_all_iff)
    define k where "k = i - Suc (length (filter P [0..<i]))"
    have "filter P [0..<n] ! i = filter P [Suc i..<n] ! k"
      using short unfolding split k_def by (simp add: nth_append)
    moreover have "k < length (filter P [Suc i..<n])"
      using assms(3) short unfolding split k_def by simp
    ultimately have "filter P [0..<n] ! i \<in> set (filter P [Suc i..<n])" using nth_mem by metis
    then show ?thesis using False by auto
  qed
qed

lemma stored_episode_found:
  assumes "s \<noteq> 0" and "e \<noteq> 0" and "int (info_index f) < n"
  shows "first_parsed parse s e fs = Inr (Some f) \<Longrightarrow> parse_episodes parse fs = Inr eps \<Longrightarrow>
    \<exists>x. find (\<lambda>x. season_number x = Some s \<and> episode_number x = Some e \<and> 0 \<le> file_index x \<and> file_index x < n) eps = Some x \<and>
        file_index x = int (info_index f)"
proof (induction fs arbitrary: eps)
  case (Cons g fs)
  obtain a b where ab: "parse g = Inr (a, b)" using Cons.prems(1) by (auto simp: bind_result_eq_Inr)
  obtain rest where rest: "parse_episodes parse fs = Inr rest" using Cons.prems(2) ab by (auto simp: bind_result_eq_Inr)
  show ?case
  proof (cases "a = Some s \<and> b = Some e")
    case True
    then have "g = f" using Cons.prems(1) ab by simp
    then show ?thesis using True ab rest Cons.prems(2) assms by (auto simp: truthy_number_def)
  next
    case False
    then have "first_parsed parse s e fs = Inr (Some f)" using Cons.prems(1) ab by auto
    from Cons.IH[OF this rest] show ?thesis using False ab rest Cons.prems(2) by (auto split: if_splits)
  qed
qed simp


section \<open>Instances\<close>

definition no_titles :: selection_env where
  "no_titles =
     \<lparr>title_of = (\<lambda>_. \<lparr>ptt_seasons = [], ptt_episodes = [], ptt_date = None\<rparr>), date_of = (\<lambda>_. Inl ValueError),
      series_data = (\<lambda>_. Inr None)\<rparr>"

definition sample_torrent :: "torrent_file list" where
  "sample_torrent =
     [\<lparr>raw_name = ''Show/readme.txt'', raw_length = 1\<rparr>, \<lparr>raw_name = ''Show/Show S01E01.mkv'', raw_length = 500\<rparr>,
      \<lparr>raw_name = ''Show/Show S01E02.mkv'', raw_length = 700\<rparr>]"

definition sample_state :: select_state where
  "sample_state =
     \<lparr>the_torrent = \<lparr>torrent_hash = ''ab'', torrent_title = ''Show'', torrent_meta = ''tt1'', torrent_size = 0,
        torrent_blocked = False, torrent_files = []\<rparr>, torrent_rows = Map.empty, annotations = []\<rparr>"

theorem torrent_file_selected_witness:
  "2 < length sample_torrent \<and>
   (None = Some (py_basename (raw_name (sample_torrent ! 2))) \<or> is_video (sample_torrent ! 2))"
  by (rule torrent_file_selected[where env = no_titles and fill_sizes = Inr and acquired = "Inr True" and failure = None and
        season = "Some 1" and episode = "Some 2" and ft = False and it = True and st = sample_state]) code_simp+

theorem largest_video_selected_witness:
  "is_video (sample_torrent ! 2) \<and> list_all (\<lambda>f. raw_length f \<le> raw_length (sample_torrent ! 2)) (filter is_video sample_torrent)"
  by (rule largest_video_selected[where env = no_titles and fill_sizes = Inr and acquired = "Inr True" and failure = None and
        season = "Some 0" and episode = "Some 1" and ft = False and it = True and st = sample_state and filename = None and
        raw = sample_torrent]) code_simp+

theorem blocked_only_without_video_witness:
  "torrent_blocked (the_torrent (snd (select_file_index_from_torrent no_titles Inr (Inr True) (Some ValueError) (Some sample_torrent)
      None (Some 1) (Some 2) True True sample_state))) = torrent_blocked (the_torrent sample_state)"
  by (rule blocked_only_without_video[where filled = sample_torrent]) code_simp+


end
