(* ===== verification/Source_Health.thy ===== *)
theory Source_Health
  imports Py_Value
begin

text \<open>
  The health of the public indexers, \<open>workers/scrapers/source_health.py\<close>: counters of outcomes per
  source in a hash of Redis, halved or so when they reach a soft cap. An outcome is recorded by a
  sequence of Redis commands; the workers of the application execute theirs interleaved.
\<close>

section \<open>Keys\<close>

definition scope_char :: "char \<Rightarrow> bool" where
  "scope_char c \<longleftrightarrow> is_lower c \<or> is_digit c \<or> c = CHR ''_'' \<or> c = CHR ''-''"

text \<open>Each run of other characters becomes one dash; \<open>in_run\<close> says that the last character was such a one.\<close>

fun dash_runs :: "bool \<Rightarrow> string \<Rightarrow> string" where
  "dash_runs in_run [] = []"
| "dash_runs in_run (c # cs) =
     (if scope_char c then c # dash_runs False cs
      else if in_run then dash_runs True cs else CHR ''-'' # dash_runs True cs)"

definition sanitize_scope_component :: "string option \<Rightarrow> string" where
  "sanitize_scope_component raw_value =
     py_strip_chars ''-'' (dash_runs False (py_lower (py_strip (case raw_value of Some s \<Rightarrow> s | None \<Rightarrow> []))))"

record scope_settings =
  scope_mode :: string
  scope_custom :: string
  scope_env :: "string \<Rightarrow> string option"

definition first_nonempty :: "string option list \<Rightarrow> string" where
  "first_nonempty vs = (case filter (\<lambda>v. v \<noteq> None \<and> v \<noteq> Some []) vs of Some v # _ \<Rightarrow> v | _ \<Rightarrow> [])"

text \<open>The mode and, unless the counters are shared by all processes, the scope of the keys.\<close>

definition resolve_scope :: "scope_settings \<Rightarrow> string \<times> string option" where
  "resolve_scope cfg =
     (let raw_mode = (if scope_mode cfg = [] then ''global'' else scope_mode cfg);
          lowered = py_lower (py_strip raw_mode);
          m = (if lowered \<in> {''global'', ''pod'', ''custom''} then lowered else ''global'')
      in if m = ''global'' then (m, None)
         else (let raw_scope = (if m = ''pod''
                 then first_nonempty [scope_env cfg ''PUBLIC_INDEXERS_SOURCE_HEALTH_SCOPE'', scope_env cfg ''POD_NAME'', scope_env cfg ''HOSTNAME'']
                 else scope_custom cfg);
               sanitized = sanitize_scope_component (Some raw_scope)
           in (m, Some (if sanitized = [] then ''default'' else sanitized))))"

definition metrics_key :: "scope_settings \<Rightarrow> string \<Rightarrow> string \<Rightarrow> string" where
  "metrics_key cfg source_key health_bucket =
     (let source = py_lower (py_strip source_key);
          raw_bucket = sanitize_scope_component (Some health_bucket);
          bucket = (if raw_bucket = [] then ''general'' else raw_bucket)
      in ''public_indexer_source_health:'' @
         (case snd (resolve_scope cfg) of None \<Rightarrow> [] | Some s \<Rightarrow> s @ '':'') @ bucket @ '':'' @ source)"

section \<open>Counters\<close>

text \<open>A missing field counts as 0.\<close>

record counters =
  h_total :: int
  h_success :: int
  h_timeout :: int
  h_challenge :: int
  h_streak :: int

definition no_counters :: counters where
  "no_counters = \<lparr>h_total = 0, h_success = 0, h_timeout = 0, h_challenge = 0, h_streak = 0\<rparr>"

text \<open>\<open>decay_factor\<close> is the value of a double; a product is rounded to the nearest double.\<close>

record health_settings =
  counter_soft_cap :: int
  decay_factor :: rat

definition decayed :: "rat \<Rightarrow> int \<Rightarrow> int" where
  "decayed f n = (case int_of_float (round_double (of_int n * f)) of Inr k \<Rightarrow> k | Inl _ \<Rightarrow> 0)"

definition decay_source_counters :: "health_settings \<Rightarrow> counters \<Rightarrow> counters" where
  "decay_source_counters cfg h =
     (if h_total h \<le> 0 then h
      else (let tot = max 1 (decayed (decay_factor cfg) (h_total h))
            in \<lparr>h_total = tot,
                h_success = min tot (max 0 (decayed (decay_factor cfg) (h_success h))),
                h_timeout = min tot (max 0 (decayed (decay_factor cfg) (h_timeout h))),
                h_challenge = min tot (max 0 (decayed (decay_factor cfg) (h_challenge h))),
                h_streak = min (max 0 (h_streak h)) tot\<rparr>))"

section \<open>Recording an outcome\<close>

record source_outcome =
  was_success :: bool
  was_timeout :: bool
  was_challenge :: bool

text \<open>
  The commands in order; the decay reads the hash and then writes what it computed, when the total
  seen by the increment had reached the cap.
\<close>

datatype health_cmd = Incr_Total | Incr_Success | Incr_Timeout | Incr_Challenge | Incr_Streak | Reset_Streak | Decay_Read | Decay_Write

definition outcome_cmds :: "source_outcome \<Rightarrow> health_cmd list" where
  "outcome_cmds out =
     Incr_Total # (if was_success out then [Incr_Success] else []) @ (if was_timeout out then [Incr_Timeout] else []) @
     (if was_challenge out then [Incr_Challenge] else []) @
     (if was_success out \<and> \<not> was_timeout out then [Incr_Streak] else [Reset_Streak]) @ [Decay_Read, Decay_Write]"

text \<open>What a process remembers: the total it saw, and the hash it read when it was to decay it.\<close>

record recorder =
  todo :: "health_cmd list"
  seen_total :: int
  seen_hash :: "counters option"

definition start_recorder :: "source_outcome \<Rightarrow> recorder" where
  "start_recorder out = \<lparr>todo = outcome_cmds out, seen_total = 0, seen_hash = None\<rparr>"

fun exec_cmd :: "health_settings \<Rightarrow> health_cmd \<Rightarrow> recorder \<times> counters \<Rightarrow> recorder \<times> counters" where
  "exec_cmd cfg Incr_Total (p, h) = (p\<lparr>seen_total := h_total h + 1\<rparr>, h\<lparr>h_total := h_total h + 1\<rparr>)"
| "exec_cmd cfg Incr_Success (p, h) = (p, h\<lparr>h_success := h_success h + 1\<rparr>)"
| "exec_cmd cfg Incr_Timeout (p, h) = (p, h\<lparr>h_timeout := h_timeout h + 1\<rparr>)"
| "exec_cmd cfg Incr_Challenge (p, h) = (p, h\<lparr>h_challenge := h_challenge h + 1\<rparr>)"
| "exec_cmd cfg Incr_Streak (p, h) = (p, h\<lparr>h_streak := h_streak h + 1\<rparr>)"
| "exec_cmd cfg Reset_Streak (p, h) = (p, h\<lparr>h_streak := 0\<rparr>)"
| "exec_cmd cfg Decay_Read (p, h) = (if counter_soft_cap cfg \<le> seen_total p then (p\<lparr>seen_hash := Some h\<rparr>, h) else (p, h))"
| "exec_cmd cfg Decay_Write (p, h) = (case seen_hash p of None \<Rightarrow> (p, h) | Some r \<Rightarrow> (p, decay_source_counters cfg r))"

definition record_source_outcome :: "health_settings \<Rightarrow> source_outcome \<Rightarrow> counters \<Rightarrow> counters" where
  "record_source_outcome cfg out h = snd (fold (exec_cmd cfg) (outcome_cmds out) (start_recorder out, h))"

text \<open>Several processes along a schedule; the hash is shared.\<close>

definition recorder_step :: "health_settings \<Rightarrow> nat \<Rightarrow> recorder list \<times> counters \<Rightarrow> recorder list \<times> counters" where
  "recorder_step cfg i s =
     (case s of (ps, h) \<Rightarrow>
        if length ps \<le> i then (ps, h)
        else (case todo (ps ! i) of
                [] \<Rightarrow> (ps, h)
              | c # cs \<Rightarrow> (case exec_cmd cfg c (ps ! i, h) of (p, h') \<Rightarrow> (ps[i := p\<lparr>todo := cs\<rparr>], h'))))"

definition run_recorders :: "health_settings \<Rightarrow> source_outcome list \<Rightarrow> nat list \<Rightarrow> counters \<Rightarrow> counters" where
  "run_recorders cfg outs schedule h = snd (fold (recorder_step cfg) schedule (map start_recorder outs, h))"

section \<open>Reading\<close>

definition rate_of :: "int \<Rightarrow> int \<Rightarrow> pyfloat" where
  "rate_of n tot = (if tot \<le> 0 then FNum 0 else round_double (of_int n / of_int tot))"

definition success_rate :: "counters \<Rightarrow> pyfloat" where "success_rate h = rate_of (h_success h) (h_total h)"
definition timeout_rate :: "counters \<Rightarrow> pyfloat" where "timeout_rate h = rate_of (h_timeout h) (h_total h)"
definition challenge_solve_rate :: "counters \<Rightarrow> pyfloat" where "challenge_solve_rate h = rate_of (h_challenge h) (h_total h)"

definition is_source_within_budget :: "int \<Rightarrow> pyfloat \<Rightarrow> pyfloat \<Rightarrow> counters \<Rightarrow> bool" where
  "is_source_within_budget min_samples min_rate max_timeouts h \<longleftrightarrow>
     h_total h < max 1 min_samples \<or> float_le min_rate (success_rate h) \<and> float_le (timeout_rate h) max_timeouts"

section \<open>Rounding of a product\<close>

lemma bit_len_double: "0 < n \<Longrightarrow> bit_len (2 * n) = 1 + bit_len n"
  by (simp add: bit_len.simps[of "2 * n"])

lemma bit_len_mono: "m \<le> n \<Longrightarrow> bit_len m \<le> bit_len n"
proof (induction n arbitrary: m rule: bit_len.induct)
  case (1 n)
  have nonneg: "0 \<le> bit_len k" for k by (induction k rule: bit_len.induct) (subst bit_len.simps, simp)
  show ?case
  proof (cases "m \<le> 0")
    case False
    then have "bit_len (m div 2) \<le> bit_len (n div 2)" using 1 by (intro "1.IH") (auto simp: zdiv_mono1)
    then show ?thesis using False 1 by (subst (1 2) bit_len.simps) simp
  qed (use nonneg in \<open>simp add: bit_len.simps[of m]\<close>)
qed

lemma bit_len_pow: "0 < n \<Longrightarrow> bit_len (2 ^ k * n) = int k + bit_len n"
proof (induction k)
  case (Suc k)
  then have "bit_len (2 * (2 ^ k * n)) = 1 + bit_len (2 ^ k * n)" by (intro bit_len_double) simp
  then show ?case using Suc by (simp add: mult.assoc)
qed simp

lemma round_half_even_near: "of_int (round_half_even q) \<le> q + 1 / 2" "0 \<le> q \<Longrightarrow> 0 \<le> round_half_even q"
proof -
  have "of_int (floor q) \<le> q + 1 / 2" by linarith
  then show "of_int (round_half_even q) \<le> q + 1 / 2" by (auto simp: round_half_even_def Let_def)
  show "0 \<le> q \<Longrightarrow> 0 \<le> round_half_even q" by (auto simp: round_half_even_def Let_def)
qed

lemma pow_int_pos: "0 < pow_int 2 e"
  by (simp add: pow_int_def)

lemma pow_int_le_1: "e \<le> 0 \<Longrightarrow> pow_int 2 e \<le> 1"
  by (auto simp: pow_int_def field_simps)

lemma round_pos_form:
  assumes "0 < q" and "q \<le> 2 ^ 50"
  shows "\<exists>e. e \<le> - 2 \<and> round_pos q = of_int (round_half_even (q / pow_int 2 e)) * pow_int 2 e"
proof -
  obtain n d where nd: "quotient_of q = (n, d)" by fastforce
  have d: "0 < d" using quotient_of_denom_pos nd by simp
  have q: "q = of_int n / of_int d" using quotient_of_div nd by simp
  have "of_int n \<le> (of_int (2 ^ 50 * d) :: rat)"
    using assms(2) d unfolding q by (simp add: field_simps)
  then have "n \<le> 2 ^ 50 * d" by (simp only: of_int_le_iff)
  then have len: "bit_len n \<le> 50 + bit_len d" using bit_len_mono bit_len_pow[OF d, of 50] by fastforce
  define e0 where "e0 = bit_len n - bit_len d - 53"
  define e where "e = max (if 2 ^ 53 \<le> q / pow_int 2 e0 then e0 + 1 else e0) (- 1074)"
  have "e \<le> - 2" using len by (simp add: e_def e0_def)
  moreover have "round_pos q = of_int (round_half_even (q / pow_int 2 e)) * pow_int 2 e"
    by (simp add: round_pos_def nd e0_def e_def Let_def)
  ultimately show ?thesis by blast
qed

lemma round_pos_near:
  assumes "0 < q" and "q \<le> 2 ^ 50"
  shows "0 \<le> round_pos q \<and> round_pos q \<le> q + 1 / 2"
proof -
  obtain e where e: "e \<le> - 2" and r: "round_pos q = of_int (round_half_even (q / pow_int 2 e)) * pow_int 2 e"
    using round_pos_form[OF assms] by blast
  have "of_int (round_half_even (q / pow_int 2 e)) * pow_int 2 e \<le> (q / pow_int 2 e + 1 / 2) * pow_int 2 e"
    using round_half_even_near(1) pow_int_pos by (intro mult_right_mono) (auto simp: less_imp_le)
  also have "\<dots> = q + pow_int 2 e / 2" using pow_int_pos[of e] by (simp add: field_simps)
  also have "\<dots> \<le> q + 1 / 2" using pow_int_le_1[of e] e by simp
  finally have "round_pos q \<le> q + 1 / 2" by (simp add: r)
  moreover have "0 \<le> round_pos q"
    using round_half_even_near(2)[of "q / pow_int 2 e"] assms(1) pow_int_pos[of e] by (simp add: r)
  ultimately show ?thesis by simp
qed

lemma round_pos_half:
  assumes "0 < n" and "n \<le> 2 ^ 50"
  shows "round_pos (of_int n / 2) = of_int n / 2"
proof -
  have "of_int n \<le> (of_int (2 ^ 50) :: rat)" using assms(2) by (simp only: of_int_le_iff)
  then obtain e where e: "e \<le> - 2" and
    r: "round_pos (of_int n / 2) = of_int (round_half_even (of_int n / 2 / pow_int 2 e)) * pow_int 2 e"
    using round_pos_form[of "of_int n / 2"] assms(1) by fastforce
  obtain k where k: "nat (- e) = Suc k" using e by (cases "nat (- e)") auto
  then have p: "pow_int 2 e = 1 / (2 * 2 ^ k)" using e by (simp add: pow_int_def)
  have "of_int n / 2 / pow_int 2 e = (of_int (n * 2 ^ k) :: rat)" unfolding p by simp
  then have "round_half_even (of_int n / 2 / pow_int 2 e) = n * 2 ^ k"
    by (simp only: round_half_even_def floor_of_int Let_def) simp
  then show ?thesis unfolding r p by simp
qed

text \<open>Half of a counter is exact, and cut off to an integer.\<close>

lemma decayed_half:
  assumes "0 \<le> n" and "n \<le> 2 ^ 50"
  shows "decayed (1 / 2) n = n div 2"
proof (cases "n = 0")
  case False
  have "of_int n / 2 \<le> (of_int (2 ^ 50) :: rat)" using assms by (simp add: field_simps flip: of_int_le_iff)
  then have small: "of_int n / 2 < (2 ^ 1024 :: rat)" by (simp add: order_le_less_trans)
  have "floor (of_int n / 2 :: rat) = n div 2" using floor_divide_of_int_eq[of n 2, where 'a = rat] by simp
  moreover have "round_double (of_int n / 2) = FNum (of_int n / 2)"
    using round_pos_half[of n] assms False small by (simp add: round_double_def Let_def)
  ultimately show ?thesis using assms(1) by (simp add: decayed_def rat_trunc_def)
qed (simp add: decayed_def round_double_def rat_trunc_def)

lemma decayed_bounds:
  assumes "0 < f" and "f \<le> 1" and "0 \<le> n" and "n \<le> 2 ^ 50"
  shows "0 \<le> decayed f n" and "of_int (decayed f n) \<le> of_int n * f + 1 / 2" and "decayed f n \<le> n"
proof -
  have bounds: "0 \<le> decayed f n \<and> of_int (decayed f n) \<le> of_int n * f + 1 / 2"
  proof (cases "n = 0")
    case False
    have "of_int n * f \<le> of_int n * 1" using assms by (intro mult_left_mono) auto
    also have "\<dots> \<le> (2 ^ 50 :: rat)" using assms(4) by (metis mult_1_right of_int_le_iff of_int_numeral of_int_power)
    finally have q: "0 < of_int n * f" "of_int n * f \<le> 2 ^ 50" using assms False by auto
    have r: "0 \<le> round_pos (of_int n * f)" "round_pos (of_int n * f) \<le> of_int n * f + 1 / 2"
      using round_pos_near[OF q] by auto
    then have "round_pos (of_int n * f) < 2 ^ 1024" using q(2) by (simp add: order_le_less_trans)
    then have "decayed f n = floor (round_pos (of_int n * f))"
      using q(1) r(1) False assms(1) by (simp add: decayed_def round_double_def Let_def rat_trunc_def)
    then show ?thesis using r by (simp add: order_trans[OF of_int_floor_le])
  qed (simp add: decayed_def round_double_def rat_trunc_def)
  then show "0 \<le> decayed f n" and near: "of_int (decayed f n) \<le> of_int n * f + 1 / 2" by simp_all
  have "of_int n * f \<le> of_int n * (1 :: rat)" using assms by (intro mult_left_mono) auto
  then have "of_int (decayed f n) \<le> of_int n + (1 / 2 :: rat)" using near by simp
  then have "of_int (decayed f n) < (of_int (n + 1) :: rat)" by (simp del: of_int_less_iff)
  then show "decayed f n \<le> n" by (simp only: of_int_less_iff)
qed

section \<open>The counters stay sane\<close>

text \<open>The bounds that the settings are declared with; the cap is far below where a double is exact.\<close>

definition settings_ok :: "health_settings \<Rightarrow> bool" where
  "settings_ok cfg \<longleftrightarrow> 20 \<le> counter_soft_cap cfg \<and> counter_soft_cap cfg \<le> 2 ^ 50 \<and> 1 / 10 \<le> decay_factor cfg \<and> decay_factor cfg \<le> 19 / 20"

definition sane :: "health_settings \<Rightarrow> counters \<Rightarrow> bool" where
  "sane cfg h \<longleftrightarrow> list_all (\<lambda>n. 0 \<le> n \<and> n \<le> h_total h) [h_success h, h_timeout h, h_challenge h, h_streak h] \<and>
     0 \<le> h_total h \<and> h_total h < counter_soft_cap cfg"

definition counted :: "source_outcome \<Rightarrow> counters \<Rightarrow> counters" where
  "counted out h =
     \<lparr>h_total = h_total h + 1, h_success = h_success h + of_bool (was_success out), h_timeout = h_timeout h + of_bool (was_timeout out),
      h_challenge = h_challenge h + of_bool (was_challenge out),
      h_streak = (if was_success out \<and> \<not> was_timeout out then h_streak h + 1 else 0)\<rparr>"

lemma record_counted:
  "record_source_outcome cfg out h =
     (if counter_soft_cap cfg \<le> h_total h + 1 then decay_source_counters cfg (counted out h) else counted out h)"
  by (cases h; cases "was_success out"; cases "was_timeout out"; cases "was_challenge out")
    (simp_all add: record_source_outcome_def outcome_cmds_def start_recorder_def counted_def)

lemma decay_total:
  assumes "settings_ok cfg" and "h_total h = counter_soft_cap cfg"
  shows "1 \<le> max 1 (decayed (decay_factor cfg) (h_total h)) \<and> max 1 (decayed (decay_factor cfg) (h_total h)) < counter_soft_cap cfg"
proof -
  have cfg: "20 \<le> counter_soft_cap cfg" "counter_soft_cap cfg \<le> 2 ^ 50" "0 < decay_factor cfg" "decay_factor cfg \<le> 1" "decay_factor cfg \<le> 19 / 20"
    using assms(1) by (auto simp: settings_ok_def)
  let ?c = "of_int (counter_soft_cap cfg) :: rat"
  have "?c * decay_factor cfg \<le> ?c * (19 / 20)" using cfg by (intro mult_left_mono) auto
  then have "of_int (decayed (decay_factor cfg) (counter_soft_cap cfg)) \<le> ?c * (19 / 20) + 1 / 2"
    using decayed_bounds(2)[OF cfg(3,4) _ cfg(2)] cfg(1) by (meson add_mono_thms_linordered_semiring(3) order_trans zero_le_numeral)
  moreover have "20 \<le> ?c" using cfg(1) by (metis of_int_le_iff of_int_numeral)
  ultimately have "of_int (decayed (decay_factor cfg) (counter_soft_cap cfg)) < ?c" by simp
  then have "decayed (decay_factor cfg) (counter_soft_cap cfg) < counter_soft_cap cfg" by (simp only: of_int_less_iff)
  then show ?thesis using cfg(1) assms(2) by simp
qed

lemma record_sane:
  assumes "settings_ok cfg" and "sane cfg h"
  shows "sane cfg (record_source_outcome cfg out h)"
proof (cases "counter_soft_cap cfg \<le> h_total h + 1")
  case True
  then have "h_total (counted out h) = counter_soft_cap cfg"
    using assms(2) by (simp add: sane_def counted_def)
  from decay_total[OF assms(1) this] show ?thesis
    using True assms(2) by (auto simp: record_counted sane_def decay_source_counters_def Let_def counted_def)
next
  case False
  then show ?thesis using assms(2) by (auto simp: record_counted sane_def counted_def)
qed

definition after_outcomes :: "health_settings \<Rightarrow> source_outcome list \<Rightarrow> counters" where
  "after_outcomes cfg outs = fold (record_source_outcome cfg) outs no_counters"

lemma after_outcomes_sane: "settings_ok cfg \<Longrightarrow> sane cfg (after_outcomes cfg outs)"
proof (induction outs rule: rev_induct)
  case Nil
  then show ?case by (simp add: after_outcomes_def no_counters_def sane_def settings_ok_def)
next
  case (snoc out outs)
  then show ?case using record_sane by (simp add: after_outcomes_def)
qed


definition default_health :: health_settings where
  "default_health = \<lparr>counter_soft_cap = 120, decay_factor = 1 / 2\<rparr>"


text \<open>
  Recorded by several processes at once the counters can disagree: those that have counted their
  request are overtaken by the decay of another, and then a source has more successes than requests.
\<close>

theorem health_race:
  "let good = \<lparr>was_success = True, was_timeout = False, was_challenge = False\<rparr>;
       h = run_recorders default_health [good, good, good] [0, 1, 2, 2, 2, 2, 2, 0, 0, 0, 0, 1, 1, 1, 1]
             \<lparr>h_total = 117, h_success = 117, h_timeout = 0, h_challenge = 0, h_streak = 117\<rparr>
   in h_total h < h_success h"
  by (simp add: run_recorders_def recorder_step_def start_recorder_def outcome_cmds_def decay_source_counters_def default_health_def
      decayed_half)

end
