(* ===== verification/Indexer_Select.thy ===== *)
theory Indexer_Select
  imports Source_Health "HOL-Library.Product_Lexorder" "HOL-Library.List_Lexorder" "HOL-Library.Char_ord"
begin

text \<open>
  Which public indexers a live search asks, and how a search of one of them is recorded:
  \<open>workers/scrapers/public_indexers.py\<close>, its variant for Usenet in \<open>public_usenet_indexers.py\<close> and the
  order of \<open>public_indexer_registry.py\<close>. The definitions of the indexers, read from data files, the
  health of each and the random draws are arguments.
\<close>

section \<open>Indexers of a catalog\<close>

record indexer =
  ix_key :: string
  ix_movie :: bool
  ix_series :: bool
  ix_anime :: bool
  ix_solver :: bool
  ix_tier :: int
  ix_reliability :: rat

definition INDEXER_PRIORITY :: "(string \<times> int) list" where
  "INDEXER_PRIORITY =
     [(''x1337'', 100), (''nyaa'', 95), (''subsplease'', 94), (''animetosho'', 94), (''eztv'', 93), (''torrentdownloads'', 90),
      (''torrentdownload'', 88), (''torlock'', 85), (''thepiratebay'', 82), (''therarbg'', 80), (''uindex'', 74), (''bitsearch'', 70),
      (''yourbittorrent'', 65), (''oxtorrent'', 63), (''rutor'', 60), (''bt4g'', 58), (''limetorrents'', 55), (''yts'', 50)]"

definition indexer_priority :: "string \<Rightarrow> int" where
  "indexer_priority k = (case map_of INDEXER_PRIORITY k of Some p \<Rightarrow> p | None \<Rightarrow> 0)"

definition sort_indexers :: "bool \<Rightarrow> indexer list \<Rightarrow> indexer list" where
  "sort_indexers is_anime ixs =
     (if is_anime then sort_key (\<lambda>d. (ix_tier d, - ix_reliability d, - indexer_priority (ix_key d), ix_key d)) ixs
      else sort_key (\<lambda>d. (- indexer_priority (ix_key d), ix_key d)) ixs)"

record gate_settings = health_settings +
  all_sites :: string
  anime_sites :: string
  movie_sites :: string
  series_sites :: string
  series_fallback :: bool
  solver_enabled :: bool
  gates_enabled :: bool
  gate_min_samples :: int
  gate_min_success :: pyfloat
  gate_max_timeouts :: pyfloat
  recovery_streak :: int
  bootstrap_enabled :: bool
  bootstrap_samples :: int
  bootstrap_timeouts :: int
  probation_enabled :: bool
  probation_ratio :: pyfloat
  probation_max :: int

definition get_indexers_for_catalog :: "('z) gate_settings_scheme \<Rightarrow> string \<Rightarrow> bool \<Rightarrow> indexer list \<Rightarrow> indexer list" where
  "get_indexers_for_catalog cfg catalog_type is_anime registry =
     (if is_anime then sort_indexers True (filter (\<lambda>d. ix_anime d \<or> (series_fallback cfg \<and> ix_series d)) registry)
      else if catalog_type = ''movie'' then sort_indexers False (filter ix_movie registry)
      else sort_indexers False (filter ix_series registry))"

definition get_usenet_indexers_for_catalog :: "string \<Rightarrow> bool \<Rightarrow> indexer list \<Rightarrow> indexer list" where
  "get_usenet_indexers_for_catalog catalog_type is_anime registry =
     filter (\<lambda>d. if is_anime then ix_anime d
                 else if catalog_type = ''movie'' then ix_movie d
                 else catalog_type = ''series'' \<and> ix_series d) registry"

definition parse_indexer_ids :: "string \<Rightarrow> string list \<Rightarrow> string list \<Rightarrow> string list" where
  "parse_indexer_ids raw_value default_ids all_ids =
     (let trimmed = py_strip raw_value
      in if trimmed = [] then default_ids
         else if py_lower trimmed \<in> {''all'', ''*''} then all_ids
         else (let ids = map (\<lambda>part. py_lower (py_strip part)) (filter (\<lambda>part. py_strip part \<noteq> []) (split_char CHR '','' trimmed))
               in if ids = [] then default_ids else ids))"

definition health_bucket :: "string \<Rightarrow> bool \<Rightarrow> string" where
  "health_bucket catalog_type is_anime =
     (if is_anime then ''anime'' else if catalog_type = ''movie'' then ''movie'' else ''series'')"

text \<open>The configured sites that exist, in the configured order; those that need a browser only when it is enabled.\<close>

definition configured_indexers :: "('z) gate_settings_scheme \<Rightarrow> string \<Rightarrow> indexer list \<Rightarrow> indexer list" where
  "configured_indexers cfg sites available =
     (let keys = map ix_key available;
          ixs = List.map_filter (\<lambda>i. map_of (map (\<lambda>d. (ix_key d, d)) available) i) (parse_indexer_ids sites keys keys)
      in if solver_enabled cfg then ixs else filter (\<lambda>d. \<not> ix_solver d) ixs)"

definition sites_for :: "('z) gate_settings_scheme \<Rightarrow> string \<Rightarrow> bool \<Rightarrow> string" where
  "sites_for cfg catalog_type is_anime =
     (let global_sites = py_strip (all_sites cfg)
      in if global_sites \<noteq> [] then global_sites
         else if is_anime then anime_sites cfg
         else if catalog_type = ''movie'' then movie_sites cfg else series_sites cfg)"

section \<open>The gate\<close>

definition is_bootstrap_demoted :: "('z) gate_settings_scheme \<Rightarrow> counters \<Rightarrow> bool" where
  "is_bootstrap_demoted cfg h \<longleftrightarrow>
     bootstrap_enabled cfg \<and> max 1 (bootstrap_samples cfg) \<le> h_total h \<and> \<not> 0 < h_success h \<and> bootstrap_timeouts cfg \<le> h_timeout h"

definition gate_allows :: "('z) gate_settings_scheme \<Rightarrow> counters \<Rightarrow> bool" where
  "gate_allows cfg h \<longleftrightarrow>
     \<not> is_bootstrap_demoted cfg h \<and>
     (is_source_within_budget (gate_min_samples cfg) (gate_min_success cfg) (gate_max_timeouts cfg) h \<or>
      (0 < max 0 (recovery_streak cfg) \<and> max 0 (recovery_streak cfg) \<le> h_streak h))"

text \<open>The \<open>k\<close>-th draw decides about the next blocked indexer, until enough are on probation.\<close>

fun draw_probation :: "('z) gate_settings_scheme \<Rightarrow> (nat \<Rightarrow> pyfloat) \<Rightarrow> nat \<Rightarrow> int \<Rightarrow> indexer list \<Rightarrow> string list" where
  "draw_probation cfg draw k added [] = []"
| "draw_probation cfg draw k added (d # ds) =
     (if probation_max cfg \<le> added then []
      else if float_le (draw k) (probation_ratio cfg) then ix_key d # draw_probation cfg draw (Suc k) (added + 1) ds
      else draw_probation cfg draw (Suc k) added ds)"

definition probation_keys :: "('z) gate_settings_scheme \<Rightarrow> (nat \<Rightarrow> pyfloat) \<Rightarrow> indexer list \<Rightarrow> string list" where
  "probation_keys cfg draw blocked =
     (if blocked \<noteq> [] \<and> probation_enabled cfg \<and> float_less (FNum 0) (probation_ratio cfg) \<and> 0 < probation_max cfg
      then draw_probation cfg draw 0 0 blocked else [])"

definition gate_indexers :: "('z) gate_settings_scheme \<Rightarrow> (string \<Rightarrow> counters) \<Rightarrow> (nat \<Rightarrow> pyfloat) \<Rightarrow> indexer list \<Rightarrow> indexer list" where
  "gate_indexers cfg health draw ixs =
     (if \<not> gates_enabled cfg then ixs
      else (let allowed_keys = map ix_key (filter (\<lambda>d. gate_allows cfg (health (ix_key d))) ixs);
                blocked = filter (\<lambda>d. \<not> gate_allows cfg (health (ix_key d))) ixs;
                on_probation = probation_keys cfg draw blocked
            in filter (\<lambda>d. ix_key d \<in> set allowed_keys) ixs @
               filter (\<lambda>d. ix_key d \<in> set on_probation \<and> ix_key d \<notin> set allowed_keys) ixs))"

definition select_indexers ::
  "('z) gate_settings_scheme \<Rightarrow> (string \<Rightarrow> string \<Rightarrow> counters) \<Rightarrow> (nat \<Rightarrow> pyfloat) \<Rightarrow> string \<Rightarrow> bool \<Rightarrow> indexer list \<Rightarrow> indexer list" where
  "select_indexers cfg health draw catalog_type is_anime registry =
     gate_indexers cfg (health (health_bucket catalog_type is_anime)) draw
       (configured_indexers cfg (sites_for cfg catalog_type is_anime) (get_indexers_for_catalog cfg catalog_type is_anime registry))"

text \<open>The same for Usenet, with its own sites in the settings.\<close>

definition select_usenet_indexers ::
  "('z) gate_settings_scheme \<Rightarrow> (string \<Rightarrow> string \<Rightarrow> counters) \<Rightarrow> (nat \<Rightarrow> pyfloat) \<Rightarrow> string \<Rightarrow> bool \<Rightarrow> indexer list \<Rightarrow> indexer list" where
  "select_usenet_indexers cfg health draw catalog_type is_anime registry =
     gate_indexers cfg (health (health_bucket catalog_type is_anime)) draw
       (configured_indexers cfg (sites_for cfg catalog_type is_anime) (get_usenet_indexers_for_catalog catalog_type is_anime registry))"

section \<open>A search\<close>

text \<open>
  The search of an indexer is a generator that yields its streams and records its outcome at its end.
  The collector takes at most \<open>max_streams\<close> and stops at the deadline; \<open>late n\<close> says that it has passed
  when the n-th stream arrives. Besides the streams the result says whether the generator has ended:
  left before, it is closed where it stands.
\<close>

fun take_streams :: "nat \<Rightarrow> (nat \<Rightarrow> bool) \<Rightarrow> nat \<Rightarrow> 's list \<Rightarrow> 's list \<times> bool" where
  "take_streams max_streams late n [] = ([], True)"
| "take_streams max_streams late n (s # ss) =
     (if late n then ([], False)
      else if max_streams \<le> Suc n then ([s], False)
      else (case take_streams max_streams late (Suc n) ss of (got, finished) \<Rightarrow> (s # got, finished)))"

definition collect_indexer_streams :: "nat \<Rightarrow> (nat \<Rightarrow> bool) \<Rightarrow> 's list \<Rightarrow> 's list \<times> bool" where
  "collect_indexer_streams max_streams late found =
     (if max_streams = 0 \<or> late 0 then ([], False) else take_streams max_streams late 0 found)"

definition search_indexer ::
  "('z) health_settings_scheme \<Rightarrow> nat \<Rightarrow> (nat \<Rightarrow> bool) \<Rightarrow> 's list \<Rightarrow> bool \<Rightarrow> bool \<Rightarrow> bool \<Rightarrow> counters \<Rightarrow> 's list \<times> counters" where
  "search_indexer cfg max_streams late found request_succeeded timed_out challenge_solved h =
     (case collect_indexer_streams max_streams late found of
        (got, finished) \<Rightarrow>
          (got, if finished
                then record_source_outcome (health_settings.truncate cfg)
                       \<lparr>was_success = found \<noteq> [] \<or> request_succeeded, was_timeout = timed_out, was_challenge = challenge_solved\<rparr> h
                else h))"

section \<open>Facts\<close>

lemma draw_probation_facts:
  "set (draw_probation cfg draw k added ds) \<subseteq> set (map ix_key ds)"
  "0 \<le> added \<Longrightarrow> added \<le> probation_max cfg \<Longrightarrow> int (length (draw_probation cfg draw k added ds)) \<le> probation_max cfg - added"
  by (induction cfg draw k added ds rule: draw_probation.induct) auto

lemma distinct_keys_filter_length:
  "distinct (map f xs) \<Longrightarrow> length (filter (\<lambda>x. f x \<in> set ys) xs) \<le> length ys"
proof -
  assume d: "distinct (map f xs)"
  then have "length (filter (\<lambda>x. f x \<in> set ys) xs) = card (f ` set (filter (\<lambda>x. f x \<in> set ys) xs))"
    by (metis distinct_card distinct_map_filter length_map set_map)
  also have "\<dots> \<le> card (set ys)" by (intro card_mono) auto
  also have "\<dots> \<le> length ys" by (rule card_length)
  finally show ?thesis .
qed

text \<open>
  Property C19. The gate asks every indexer whose health allows it, in the configured order, and after
  them at most as many of the others as probation admits, each indexer once.
\<close>

theorem gate_asks_healthy:
  assumes "gates_enabled cfg" and "distinct (map ix_key ixs)"
  shows "let asked = gate_indexers cfg health draw ixs; bad = (\<lambda>d. \<not> gate_allows cfg (health (ix_key d)))
    in asked = filter (\<lambda>d. gate_allows cfg (health (ix_key d))) ixs @ filter bad asked \<and>
       distinct asked \<and> int (length (filter bad asked)) \<le> max 0 (probation_max cfg)"
proof -
  let ?good = "\<lambda>d. gate_allows cfg (health (ix_key d))"
  let ?on = "probation_keys cfg draw (filter (\<lambda>d. \<not> ?good d) ixs)"
  have keys: "ix_key d \<in> ix_key ` {e \<in> set ixs. ?good e} \<longleftrightarrow> ?good d" if "d \<in> set ixs" for d
    using that by auto
  have asked: "gate_indexers cfg health draw ixs = filter ?good ixs @ filter (\<lambda>d. ix_key d \<in> set ?on \<and> \<not> ?good d) ixs"
    using assms(1) keys by (auto simp: gate_indexers_def Let_def intro!: filter_cong arg_cong2[where f = append])
  have rest: "filter (\<lambda>d. \<not> ?good d) (gate_indexers cfg health draw ixs) = filter (\<lambda>d. ix_key d \<in> set ?on \<and> \<not> ?good d) ixs"
    unfolding asked by (simp add: conj_commute cong: conj_cong)
  have "length (filter (\<lambda>d. ix_key d \<in> set ?on \<and> \<not> ?good d) ixs) \<le> length (filter (\<lambda>d. ix_key d \<in> set ?on) ixs)"
    using length_filter_le[of "\<lambda>d. \<not> ?good d" "filter (\<lambda>d. ix_key d \<in> set ?on) ixs"] by simp
  also have "\<dots> \<le> length ?on" by (rule distinct_keys_filter_length[OF assms(2)])
  finally have "int (length (filter (\<lambda>d. ix_key d \<in> set ?on \<and> \<not> ?good d) ixs)) \<le> int (length ?on)" by simp
  also have "\<dots> \<le> max 0 (probation_max cfg)"
    using draw_probation_facts(2)[of 0 cfg draw 0] by (auto simp: probation_keys_def)
  finally show ?thesis
    using assms(2) unfolding rest Let_def by (auto simp: asked distinct_map)
qed

definition default_gate :: gate_settings where
  "default_gate =
     \<lparr>counter_soft_cap = 120, decay_factor = 1 / 2, all_sites = ''all'', anime_sites = ''all'', movie_sites = ''all'', series_sites = ''all'',
      series_fallback = True, solver_enabled = False, gates_enabled = True, gate_min_samples = 10, gate_min_success = FNum (35 / 100),
      gate_max_timeouts = FNum (35 / 100), recovery_streak = 2, bootstrap_enabled = True, bootstrap_samples = 2, bootstrap_timeouts = 2,
      probation_enabled = True, probation_ratio = FNum (3 / 10), probation_max = 2\<rparr>"

definition sample_indexer :: "string \<Rightarrow> indexer" where
  "sample_indexer k =
     \<lparr>ix_key = k, ix_movie = True, ix_series = True, ix_anime = False, ix_solver = False, ix_tier = 3, ix_reliability = 1 / 2\<rparr>"

definition sample_health :: "string \<Rightarrow> counters" where
  "sample_health k = (if k = ''nyaa'' then no_counters else \<lparr>h_total = 3, h_success = 0, h_timeout = 3, h_challenge = 0, h_streak = 0\<rparr>)"

theorem gate_asks_healthy_witness:
  "let asked = gate_indexers default_gate sample_health (\<lambda>_. FNum (1 / 4)) (map sample_indexer [''yts'', ''eztv'', ''nyaa'', ''rutor'']);
       bad = (\<lambda>d. \<not> gate_allows default_gate (sample_health (ix_key d)))
   in asked = filter (\<lambda>d. gate_allows default_gate (sample_health (ix_key d))) (map sample_indexer [''yts'', ''eztv'', ''nyaa'', ''rutor'']) @
        filter bad asked \<and>
      distinct asked \<and> int (length (filter bad asked)) \<le> max 0 (probation_max default_gate)"
  by (rule gate_asks_healthy) code_simp+

section \<open>Recovery\<close>

definition clean_success :: "source_outcome \<Rightarrow> bool" where
  "clean_success out \<longleftrightarrow> was_success out \<and> \<not> was_timeout out"

text \<open>
  What \<open>j\<close> clean successes in a row leave: a streak, and as many successes as were recorded since the
  counters were last decayed.
\<close>

definition recovering :: "health_settings \<Rightarrow> int \<Rightarrow> counters \<Rightarrow> bool" where
  "recovering cfg j h \<longleftrightarrow>
     sane cfg h \<and> j \<le> h_streak h \<and>
     (j \<le> h_success h \<or> (\<exists>i \<ge> 0. i \<le> h_success h \<and> h_total h \<le> max 1 (decayed (decay_factor cfg) (counter_soft_cap cfg)) + i))"

lemma recovering_step:
  assumes "settings_ok cfg" and "recovering cfg j h" and "clean_success out" and "0 \<le> j"
    and "j + 1 \<le> max 1 (decayed (decay_factor cfg) (counter_soft_cap cfg))"
    and "max 1 (decayed (decay_factor cfg) (counter_soft_cap cfg)) + (j + 1) \<le> counter_soft_cap cfg"
  shows "recovering cfg (j + 1) (record_source_outcome cfg out h)"
proof -
  let ?T = "max 1 (decayed (decay_factor cfg) (counter_soft_cap cfg))"
  have sane: "sane cfg (record_source_outcome cfg out h)"
    using assms(1,2) record_sane by (simp add: recovering_def)
  have clean: "was_success out" "\<not> was_timeout out" using assms(3) by (simp_all add: clean_success_def)
  show ?thesis
  proof (cases "counter_soft_cap cfg \<le> h_total h + 1")
    case True
    then have tot: "h_total h + 1 = counter_soft_cap cfg"
      using assms(2) by (simp add: recovering_def sane_def)
    then have "h_total (record_source_outcome cfg out h) = ?T" "h_streak (record_source_outcome cfg out h) = min (h_streak h + 1) ?T"
      using assms(1,2) clean
      by (auto simp: record_counted decay_source_counters_def counted_def Let_def settings_ok_def recovering_def sane_def)
    moreover have "j + 1 \<le> min (h_streak h + 1) ?T" using assms(2,5) by (simp add: recovering_def)
    moreover have "0 \<le> h_success (record_source_outcome cfg out h)" using sane by (simp add: sane_def)
    ultimately show ?thesis using sane unfolding recovering_def by (metis add.right_neutral order_refl)
  next
    case False
    then have h': "record_source_outcome cfg out h = counted out h" by (simp add: record_counted)
    have "j + 1 \<le> h_success h + 1 \<or> (\<exists>i \<ge> 0. i \<le> h_success h + 1 \<and> h_total h + 1 \<le> ?T + i)"
    proof (cases "j \<le> h_success h")
      case False
      then obtain i where "0 \<le> i" "i \<le> h_success h" "h_total h \<le> ?T + i" using assms(2) by (auto simp: recovering_def)
      then show ?thesis by (intro disjI2 exI[of _ "i + 1"]) simp
    qed simp
    then show ?thesis using sane assms(2) clean unfolding h' by (simp add: recovering_def counted_def)
  qed
qed

text \<open>When the last of them meets the cap, the successes recorded before are enough to leave one after the decay.\<close>

lemma recovered_success:
  assumes "settings_ok cfg" and "recovering cfg j h" and "clean_success out" and "0 \<le> j"
    and "max 1 (decayed (decay_factor cfg) (counter_soft_cap cfg)) + (j + 1) \<le> counter_soft_cap cfg"
    and "list_all (\<lambda>n. 1 \<le> decayed (decay_factor cfg) n) [j + 1..counter_soft_cap cfg]"
  shows "0 < h_success (record_source_outcome cfg out h)"
proof (cases "counter_soft_cap cfg \<le> h_total h + 1")
  case True
  then have tot: "h_total h + 1 = counter_soft_cap cfg" using assms(2) by (simp add: recovering_def sane_def)
  have "j \<le> h_success h"
  proof (rule ccontr)
    assume "\<not> j \<le> h_success h"
    then obtain i where "i \<le> h_success h" "h_total h \<le> max 1 (decayed (decay_factor cfg) (counter_soft_cap cfg)) + i"
      using assms(2) by (auto simp: recovering_def)
    then show False using assms(5) tot \<open>\<not> j \<le> h_success h\<close> by simp
  qed
  moreover have "h_success h + 1 \<le> counter_soft_cap cfg" using tot assms(2) by (simp add: recovering_def sane_def)
  ultimately have "1 \<le> decayed (decay_factor cfg) (h_success h + 1)" using assms(6) by (simp add: list_all_iff)
  then show ?thesis
    using True tot assms(3) assms(1)
    by (simp add: record_counted decay_source_counters_def counted_def Let_def clean_success_def settings_ok_def)
next
  case False
  then show ?thesis
    using assms(2,3) by (simp add: record_counted counted_def clean_success_def recovering_def sane_def)
qed

text \<open>
  Property C26. A source recovers: after as many clean successes in a row as the settings ask for it is
  asked again, whatever was recorded of it before. The streak fits under the counters left by a
  decay, and a decay keeps at least one of so many successes.
\<close>

theorem clean_streak_readmits:
  assumes "settings_ok (health_settings.truncate cfg)" and "list_all clean_success good" and "good \<noteq> []"
    and "recovery_streak cfg = int (length good)"
    and "int (length good) \<le> max 1 (decayed (decay_factor cfg) (counter_soft_cap cfg))"
    and "max 1 (decayed (decay_factor cfg) (counter_soft_cap cfg)) + int (length good) \<le> counter_soft_cap cfg"
    and "list_all (\<lambda>n. 1 \<le> decayed (decay_factor cfg) n) [int (length good)..counter_soft_cap cfg]"
  shows "gate_allows cfg (after_outcomes (health_settings.truncate cfg) (outs @ good))"
proof -
  let ?c = "health_settings.truncate cfg"
  have fields: "decay_factor ?c = decay_factor cfg" "counter_soft_cap ?c = counter_soft_cap cfg"
    by (simp_all add: health_settings.defs)
  have run: "recovering ?c (int (length gs)) (after_outcomes ?c (outs @ gs))"
    if "list_all clean_success gs" "length gs \<le> length good" for gs
    using that
  proof (induction gs rule: rev_induct)
    case Nil
    show ?case using after_outcomes_sane[OF assms(1), of outs] by (auto simp: recovering_def sane_def)
  next
    case (snoc g gs)
    have "recovering ?c (int (length gs) + 1) (record_source_outcome ?c g (after_outcomes ?c (outs @ gs)))"
      using snoc assms(1,5,6) by (intro recovering_step) (simp_all add: fields)
    then show ?case by (simp add: after_outcomes_def add.commute)
  qed
  obtain gs g where good: "good = gs @ [g]" using assms(3) by (cases good rule: rev_cases) auto
  have "0 < h_success (record_source_outcome ?c g (after_outcomes ?c (outs @ gs)))"
    using assms run[of gs] by (intro recovered_success[where j = "int (length gs)"]) (simp_all add: fields good add.commute)
  then have "0 < h_success (after_outcomes ?c (outs @ good))" by (simp add: after_outcomes_def good)
  moreover have "int (length good) \<le> h_streak (after_outcomes ?c (outs @ good))"
    using run[of good] assms(2) by (simp add: recovering_def)
  ultimately show ?thesis using assms(3,4) by (simp add: gate_allows_def is_bootstrap_demoted_def)
qed

theorem clean_streak_readmits_witness:
  "gate_allows default_gate (after_outcomes (health_settings.truncate default_gate)
     (replicate 40 \<lparr>was_success = False, was_timeout = True, was_challenge = False\<rparr> @
      replicate 2 \<lparr>was_success = True, was_timeout = False, was_challenge = True\<rparr>))"
proof (rule clean_streak_readmits)
  show "list_all (\<lambda>n. 1 \<le> decayed (decay_factor default_gate) n)
      [int (length (replicate 2 \<lparr>was_success = True, was_timeout = False, was_challenge = True\<rparr>))..counter_soft_cap default_gate]"
    by (auto simp: default_gate_def list_all_iff decayed_half simp del: upto.simps)
qed (simp_all add: default_gate_def decayed_half settings_ok_def health_settings.defs clean_success_def list_all_iff)

section \<open>Searches that are not recorded\<close>

lemma take_streams_full:
  "list_all (\<lambda>k. \<not> late k) [n..<n + length ss] \<Longrightarrow> max_streams \<le> n + length ss \<Longrightarrow> n < max_streams \<Longrightarrow>
     take_streams max_streams late n ss = (take (max_streams - n) ss, False)"
proof (induction ss arbitrary: n)
  case (Cons s ss)
  then have "\<not> late n" and later: "list_all (\<lambda>k. \<not> late k) [Suc n..<Suc n + length ss]"
    by (auto simp: list_all_iff)
  then show ?case
    using Cons.IH[OF later] Cons.prems by (cases "max_streams \<le> Suc n") (auto simp: Suc_diff_Suc le_Suc_eq take_Cons')
qed simp

text \<open>
  Property C37. A search that finds all that is asked for leaves no trace in the health of its indexer:
  its generator is left before the end, where it would record the success. However often this
  happens, an indexer that was kept out by its health is not let in again.
\<close>

theorem full_search_unrecorded:
  assumes "0 < max_streams" and "max_streams \<le> length found" and "list_all (\<lambda>k. \<not> late k) [0..<length found]"
  shows "search_indexer cfg max_streams late found ok timed_out solved h = (take max_streams found, h) \<and>
    gate_allows gate (((\<lambda>h. snd (search_indexer cfg max_streams late found ok timed_out solved h)) ^^ n) h) = gate_allows gate h"
proof -
  have "\<not> late 0" using assms by (auto simp: list_all_iff)
  then have one: "search_indexer cfg max_streams late found ok timed_out solved h = (take max_streams found, h)" for h
    using take_streams_full[of late 0 found max_streams] assms by (simp add: search_indexer_def collect_indexer_streams_def)
  have "((\<lambda>h. snd (search_indexer cfg max_streams late found ok timed_out solved h)) ^^ n) h = h"
    by (induction n) (simp_all add: one)
  then show ?thesis by (simp add: one)
qed

theorem full_search_unrecorded_witness:
  "search_indexer default_gate 2 (\<lambda>_. False) [''a'', ''b'', ''c''] True False True (sample_health ''yts'') =
     (take 2 [''a'', ''b'', ''c''], sample_health ''yts'') \<and>
   gate_allows default_gate (((\<lambda>h. snd (search_indexer default_gate 2 (\<lambda>_. False) [''a'', ''b'', ''c''] True False True h)) ^^ 9)
     (sample_health ''yts'')) = gate_allows default_gate (sample_health ''yts'')"
  by (rule full_search_unrecorded) simp_all

end
