(* ===== verification/Scheduler_Lock.thy ===== *)
theory Scheduler_Lock
  imports Py_Prelude
begin

text \<open>
  Which process runs the scheduler: \<open>utils/lock.py\<close> and its use when a process of the application starts
  and stops, \<open>api/lifespan.py\<close>. The state is the lock and the heartbeat in Redis and the processes that run
  the scheduler; times are whole seconds. A lock of the Redis client is free again when its time is over.
\<close>

section \<open>Locks\<close>

definition heartbeat_timeout :: int where "heartbeat_timeout = 300"

record lock_state =
  lock_holder :: "(nat \<times> int) option"
  heartbeat :: "int option"
  schedulers :: "nat list"

definition lock_live :: "int \<Rightarrow> lock_state \<Rightarrow> bool" where
  "lock_live t st = (case lock_holder st of Some (_, expires) \<Rightarrow> t < expires | None \<Rightarrow> False)"

text \<open>Without blocking: the lock is taken when it is free.\<close>

definition acquire_redis_lock :: "int \<Rightarrow> nat \<Rightarrow> int \<Rightarrow> lock_state \<Rightarrow> bool \<times> lock_state" where
  "acquire_redis_lock t p lock_time st =
     (if lock_live t st then (False, st) else (True, st\<lparr>lock_holder := Some (p, t + lock_time)\<rparr>))"

text \<open>A lock that is no longer owned is left alone, the error is caught.\<close>

definition release_redis_lock :: "int \<Rightarrow> nat \<Rightarrow> lock_state \<Rightarrow> lock_state" where
  "release_redis_lock t p st =
     (if lock_live t st \<and> map_option fst (lock_holder st) = Some p then st\<lparr>lock_holder := None\<rparr> else st)"

definition acquire_scheduler_lock :: "int \<Rightarrow> nat \<Rightarrow> lock_state \<Rightarrow> bool \<times> lock_state" where
  "acquire_scheduler_lock t p st =
     (if (case heartbeat st of Some h \<Rightarrow> t - h \<le> heartbeat_timeout | None \<Rightarrow> False) then (False, st)
      else (case acquire_redis_lock t p heartbeat_timeout st of
              (True, st') \<Rightarrow> (True, st'\<lparr>heartbeat := Some t\<rparr>)
            | (False, st') \<Rightarrow> (False, st')))"

definition release_scheduler_lock :: "int \<Rightarrow> nat \<Rightarrow> lock_state \<Rightarrow> lock_state" where
  "release_scheduler_lock t p st = (release_redis_lock t p st)\<lparr>heartbeat := None\<rparr>"

text \<open>One round of \<open>maintain_heartbeat\<close>.\<close>

definition beat :: "int \<Rightarrow> lock_state \<Rightarrow> lock_state" where
  "beat t st = st\<lparr>heartbeat := Some t\<rparr>"

section \<open>Processes\<close>

text \<open>
  A process tries once, when it starts. It stops in order or crashes; \<open>Beat\<close> is the heartbeat of a
  process that runs the scheduler, \<open>Failed_Start\<close> a start whose setup of the scheduler raises.
\<close>

datatype process_op = Start nat | Failed_Start nat | Beat nat | Stop nat | Crash nat

fun process_step :: "int \<times> process_op \<Rightarrow> lock_state \<Rightarrow> lock_state" where
  "process_step (t, Start p) st =
     (case acquire_scheduler_lock t p st of
        (True, st') \<Rightarrow> st'\<lparr>schedulers := p # schedulers st'\<rparr>
      | (False, st') \<Rightarrow> st')"
| "process_step (t, Failed_Start p) st =
     (case acquire_scheduler_lock t p st of
        (True, st') \<Rightarrow> release_scheduler_lock t p st'
      | (False, st') \<Rightarrow> st')"
| "process_step (t, Beat p) st = (if p \<in> set (schedulers st) then beat t st else st)"
| "process_step (t, Stop p) st =
     (if p \<in> set (schedulers st)
      then (release_scheduler_lock t p st)\<lparr>schedulers := removeAll p (schedulers st)\<rparr> else st)"
| "process_step (t, Crash p) st = st\<lparr>schedulers := removeAll p (schedulers st)\<rparr>"

definition process_run :: "(int \<times> process_op) list \<Rightarrow> lock_state \<Rightarrow> lock_state" where
  "process_run ops st = fold process_step ops st"

definition no_process :: lock_state where
  "no_process = \<lparr>lock_holder = None, heartbeat = None, schedulers = []\<rparr>"

section \<open>One scheduler\<close>

text \<open>While a scheduler runs, the last heartbeat is at most five minutes old when another process starts.\<close>

fun timely :: "(int \<times> process_op) list \<Rightarrow> lock_state \<Rightarrow> bool" where
  "timely [] st \<longleftrightarrow> True"
| "timely ((t, x) # ops) st \<longleftrightarrow>
     (schedulers st = [] \<or> (case x of Start p \<Rightarrow> True | Failed_Start p \<Rightarrow> True | _ \<Rightarrow> False) = False \<or>
      (case heartbeat st of Some h \<Rightarrow> t - h \<le> heartbeat_timeout | None \<Rightarrow> False)) \<and>
     timely ops (process_step (t, x) st)"

lemma fresh_heartbeat_blocks:
  "heartbeat st = Some h \<Longrightarrow> t - h \<le> heartbeat_timeout \<Longrightarrow> acquire_scheduler_lock t p st = (False, st)"
  by (simp add: acquire_scheduler_lock_def)

lemma acquire_keeps_schedulers: "schedulers (snd (acquire_scheduler_lock t p st)) = schedulers st"
  by (simp add: acquire_scheduler_lock_def acquire_redis_lock_def split: prod.splits bool.splits)

lemma one_scheduler_step:
  assumes "length (schedulers st) \<le> 1" and "timely [(t, x)] st"
  shows "length (schedulers (process_step (t, x) st)) \<le> 1"
proof (cases "schedulers st = []")
  case True
  have gone: "schedulers (snd (acquire_scheduler_lock t p st)) = []" for p
    by (simp add: acquire_keeps_schedulers True)
  show ?thesis
  proof (cases x)
    case (Start p)
    then show ?thesis using gone[of p] by (cases "acquire_scheduler_lock t p st") (simp split: bool.split)
  next
    case (Failed_Start p)
    then show ?thesis using gone[of p]
      by (cases "acquire_scheduler_lock t p st") (simp add: release_scheduler_lock_def release_redis_lock_def split: bool.split)
  qed (simp_all add: True)
next
  case False
  have shrink: "length (removeAll p (schedulers st)) \<le> 1" for p
    unfolding removeAll_filter_not_eq by (rule order_trans[OF length_filter_le assms(1)])
  show ?thesis
  proof (cases x)
    case (Start p)
    then obtain h where "heartbeat st = Some h" "t - h \<le> heartbeat_timeout"
      using assms(2) False by (auto split: option.splits)
    then show ?thesis using Start assms(1) by (simp add: fresh_heartbeat_blocks)
  next
    case (Failed_Start p)
    then obtain h where "heartbeat st = Some h" "t - h \<le> heartbeat_timeout"
      using assms(2) False by (auto split: option.splits)
    then show ?thesis using Failed_Start assms(1) by (simp add: fresh_heartbeat_blocks)
  next
    case (Beat p)
    then show ?thesis using assms(1) by (simp add: beat_def)
  next
    case (Stop p)
    then show ?thesis using assms(1) shrink[of p] by simp
  next
    case (Crash p)
    then show ?thesis using shrink[of p] by simp
  qed
qed



text \<open>
  A process that starts within five minutes after the one with the scheduler crashed does
  not take over, and as a process tries only once no one runs the scheduler after it, whatever
  the processes that are up do.
\<close>

theorem quick_restart_leaves_no_scheduler:
  assumes "heartbeat st = Some h" and "schedulers st = [p]" and "t - h \<le> heartbeat_timeout"
    and "list_all (\<lambda>(s, x). case x of Beat q \<Rightarrow> True | Stop q \<Rightarrow> True | Crash q \<Rightarrow> True | _ \<Rightarrow> False) later"
  shows "schedulers (process_run ([(t', Crash p), (t, Start p)] @ later) st) = []"
proof -
  have "schedulers (process_step (t, Start p) (process_step (t', Crash p) st)) = []"
    using assms(1-3) by (simp add: fresh_heartbeat_blocks)
  moreover have "schedulers (process_run later st') = []" if "schedulers st' = []" for st'
    using that assms(4)
  proof (induction later arbitrary: st')
    case (Cons o1 later)
    obtain s x where o1: "o1 = (s, x)" by (cases o1)
    have "schedulers (process_step (s, x) st') = []" using Cons.prems by (cases x) (auto simp: o1)
    then show ?case using Cons by (simp add: o1 process_run_def)
  qed (simp add: process_run_def)
  ultimately show ?thesis by (simp add: process_run_def)
qed

theorem quick_restart_leaves_no_scheduler_witness:
  "schedulers (process_run ([(170, Crash 1), (200, Start 1)] @ [(100000, Stop 1)]) (process_run [(0, Start 1), (150, Beat 1)] no_process)) = []"
  by (rule quick_restart_leaves_no_scheduler[where h = 150]) code_simp+

text \<open>
  A process that stops clears the heartbeat even when another has taken the scheduler over
  since its own came too late, and then a third process runs the scheduler beside the second.
\<close>

theorem late_stop_admits_second:
  "schedulers (process_run
     [(0, Start 1), (400, Start 2), (550, Beat 2), (560, Stop 1), (701, Start 3)] no_process) = [3, 2]"
  by code_simp

end
