(* ===== verification/Debrid_Client.thy ===== *)
theory Debrid_Client
  imports Json_Value Py_Value Url_Base64
begin

text \<open>
  The client that all debrid services share, \<open>workers/providers/debrid_client.py\<close>: a request with its
  retry, what becomes of the errors of the network and of the service, the wait for a status, and the
  tokens. The service at the other end is a function from a request and its own state to an
  exception of the network library or a response, and \<open>json.loads\<close> is an argument.
\<close>

section \<open>Exceptions\<close>

record provider_exception =
  message :: string
  video_file_name :: string
  retryable :: bool

text \<open>
  Another exception: those of the classes below that it is an instance of, and its text. Which class
  derives from which is up to the network library.
\<close>

datatype net_class =
    Timeout_Error | Proxy_Error | Client_Connector_Error | Client_Connection_Error | Client_Payload_Error
  | Server_Disconnected_Error | Content_Type_Error | Value_Error | Json_Decode_Error

record net_error =
  err_classes :: "net_class list"
  err_text :: string

datatype thrown = Provider provider_exception | Network net_error

abbreviation provider_error :: "string \<Rightarrow> string \<Rightarrow> provider_exception" where
  "provider_error m v \<equiv> \<lparr>message = m, video_file_name = v, retryable = False\<rparr>"

definition is_err :: "net_error \<Rightarrow> net_class list \<Rightarrow> bool" where
  "is_err e cs \<longleftrightarrow> list_ex (\<lambda>c. c \<in> set cs) (err_classes e)"

section \<open>Text of a value\<close>

fun json_repr :: "json \<Rightarrow> string" where
  "json_repr JNull = ''None''"
| "json_repr (JBool b) = (if b then ''True'' else ''False'')"
| "json_repr (JInt i) = int_digits i"
| "json_repr (JFloat x) = float_repr (FNum x)"
| "json_repr (JStr s) = string_repr s"
| "json_repr (JList vs) = ''['' @ py_join '', '' (map json_repr vs) @ '']''"
| "json_repr (JDict kvs) = ''{'' @ py_join '', '' (map (\<lambda>(k, v). string_repr k @ '': '' @ json_repr v) kvs) @ ''}''"

definition json_str :: "json \<Rightarrow> string" where
  "json_str v = (case v of JStr s \<Rightarrow> s | _ \<Rightarrow> json_repr v)"

section \<open>Responses\<close>

record http_answer =
  resp_status :: int
  resp_content_type :: string
  resp_json :: "net_error + json"
  resp_text :: "net_error + string"

definition read :: "net_error + 'a \<Rightarrow> thrown + 'a" where
  "read r = (case r of Inl e \<Rightarrow> Inl (Network e) | Inr v \<Rightarrow> Inr v)"

definition subscription_error :: "dict option \<Rightarrow> provider_exception option" where
  "subscription_error error_dict =
     (case Option.bind error_dict (\<lambda>d. map_of d ''message'') of
        Some (JStr raw) \<Rightarrow>
          (let stripped = py_strip raw
           in if stripped \<noteq> [] \<and> py_contains ''subscription'' (py_lower stripped) \<and> py_contains ''api'' (py_lower stripped)
              then Some (provider_error stripped ''need_premium.mp4'') else None)
      | _ \<Rightarrow> None)"

definition error_content_of :: "http_answer \<Rightarrow> thrown + json" where
  "error_content_of resp =
     (let content_type = py_lower (resp_content_type resp);
          as_text = bind_result (read (resp_text resp)) (\<lambda>t. Inr (JStr t))
      in if py_contains ''application/json'' content_type \<or> py_contains ''+json'' content_type
         then (case resp_json resp of
                 Inr v \<Rightarrow> Inr v
               | Inl e \<Rightarrow> if is_err e [Value_Error, Content_Type_Error] then as_text else Inl (Network e))
         else as_text)"

definition error_dict_of :: "(string \<Rightarrow> json option) \<Rightarrow> json \<Rightarrow> dict option" where
  "error_dict_of loads error_content =
     (case error_content of
        JDict d \<Rightarrow> Some d
      | JStr s \<Rightarrow> if py_strip s \<noteq> [] then (case loads (py_strip s) of Some (JDict d) \<Rightarrow> Some d | _ \<Rightarrow> None) else None
      | _ \<Rightarrow> None)"

definition forbidden_error :: "json \<Rightarrow> dict option \<Rightarrow> provider_exception" where
  "forbidden_error error_content error_dict =
     (let own = (case error_dict of
            Some d \<Rightarrow> (case map_of d ''message'' of Some (JStr m) \<Rightarrow> py_strip m | _ \<Rightarrow> [])
          | None \<Rightarrow> (case error_content of JStr s \<Rightarrow> py_strip s | _ \<Rightarrow> []))
      in provider_error (if own \<noteq> [] then own else ''Access forbidden'') ''api_error.mp4'')"

definition status_error :: "json \<Rightarrow> dict option \<Rightarrow> int \<Rightarrow> provider_exception" where
  "status_error error_content error_dict status =
     (if status = 401 then provider_error ''Invalid token'' ''invalid_token.mp4''
      else if status = 429 then provider_error ''Too many requests'' ''too_many_requests.mp4''
      else if status = 403 then forbidden_error error_content error_dict
      else if status \<in> {500, 502, 503, 504} then provider_error ''Debrid service is down.'' ''debrid_service_down_error.mp4''
      else provider_error (''API Error '' @ json_str error_content) ''api_error.mp4'')"

text \<open>\<open>service\<close> is the handler of a service for its own errors; a status from 400 on is an error.\<close>

definition check_response_status ::
  "(dict \<Rightarrow> int \<Rightarrow> provider_exception option) \<Rightarrow> (string \<Rightarrow> json option) \<Rightarrow> bool \<Rightarrow> http_answer \<Rightarrow> thrown + unit" where
  "check_response_status service loads is_expected_to_fail resp =
     (if resp_status resp < 400 \<or> is_expected_to_fail then Inr ()
      else bind_result (error_content_of resp) (\<lambda>error_content.
        let error_dict = error_dict_of loads error_content
        in case Option.bind error_dict (\<lambda>d. service d (resp_status resp)) of
             Some p \<Rightarrow> Inl (Provider p)
           | None \<Rightarrow>
               (case subscription_error error_dict of
                  Some p \<Rightarrow> Inl (Provider p)
                | None \<Rightarrow> Inl (Provider (status_error error_content error_dict (resp_status resp))))))"

text \<open>With \<open>is_http_response\<close> the caller gets the response and its body.\<close>

datatype client_reply = Body json | Http_Response http_answer json

definition parse_response :: "bool \<Rightarrow> bool \<Rightarrow> bool \<Rightarrow> http_answer \<Rightarrow> thrown + client_reply" where
  "parse_response is_return_none is_expected_to_fail is_http_response resp =
     (if is_return_none then Inr (Body (JDict []))
      else case resp_json resp of
        Inr v \<Rightarrow> Inr (if is_http_response then Http_Response resp v else Body v)
      | Inl e \<Rightarrow>
          if is_err e [Value_Error, Content_Type_Error] then
            bind_result (read (resp_text resp)) (\<lambda>response_text.
              if is_http_response then Inr (Http_Response resp (JStr response_text))
              else if is_expected_to_fail then Inr (Body (JStr response_text))
              else if is_err e [Json_Decode_Error] then
                Inl (Provider \<lparr>message = ''Streaming provider returned invalid or incomplete data. Please try again.'',
                       video_file_name = ''debrid_service_down_error.mp4'', retryable = True\<rparr>)
              else Inl (Provider (provider_error
                     (''Failed to parse response error: '' @ err_text e @ ''. '' @ [newline] @ ''response: '' @ response_text) ''api_error.mp4'')))
          else Inl (Network e))"

definition handle_request_error :: "net_error \<Rightarrow> provider_exception" where
  "handle_request_error e =
     (let down = (\<lambda>m r. \<lparr>message = m, video_file_name = ''debrid_service_down_error.mp4'', retryable = r\<rparr>)
      in if is_err e [Timeout_Error] then down ''Debrid service timed out.'' True
         else if is_err e [Proxy_Error] then down ''Failed to connect to Debrid service.'' True
         else if is_err e [Client_Connector_Error, Client_Connection_Error] then down ''Failed to connect to Debrid service.'' True
         else if is_err e [Client_Payload_Error, Server_Disconnected_Error]
         then down ''Debrid service closed the connection unexpectedly.'' True
         else if list_ex (\<lambda>t. py_contains t (py_lower (err_text e)))
                [''service unavailable'', ''connection refused'', ''temporarily unavailable'', ''proxy error'']
         then down ''Failed to connect to Debrid service.'' False
         else provider_error (''Request error: '' @ err_text e) ''api_error.mp4'')"

section \<open>Requests\<close>

datatype request_body = No_Body | Form "(string \<times> json) list" | Bytes string

record http_request =
  req_verb :: string
  req_url :: string
  req_params :: "(string \<times> string) list"
  req_body :: request_body
  bearer :: "string option"

text \<open>What happened between the client and the service, and how long the client slept.\<close>

datatype event = Exchange http_request "thrown + client_reply" | Slept rat

record 'w connection =
  peer :: 'w
  events :: "event list"

record request_flags =
  is_return_none :: bool
  is_expected_to_fail :: bool
  is_http_response :: bool

record client_config =
  service_errors :: "dict \<Rightarrow> int \<Rightarrow> provider_exception option"
  json_loads :: "string \<Rightarrow> json option"

definition exchange ::
  "client_config \<Rightarrow> (http_request \<Rightarrow> 'w \<Rightarrow> (net_error + http_answer) \<times> 'w) \<Rightarrow> request_flags \<Rightarrow> http_request \<Rightarrow>
     'w connection \<Rightarrow> (thrown + client_reply) \<times> 'w connection" where
  "exchange cfg service flags req s =
     (case service req (peer s) of
        (answer, w) \<Rightarrow>
          (let r = bind_result (read answer) (\<lambda>resp.
                 bind_result (check_response_status (service_errors cfg) (json_loads cfg) (is_expected_to_fail flags) resp)
                   (\<lambda>_. parse_response (is_return_none flags) (is_expected_to_fail flags) (is_http_response flags) resp))
           in (r, s\<lparr>peer := w, events := events s @ [Exchange req r]\<rparr>)))"

function make_request ::
  "client_config \<Rightarrow> (http_request \<Rightarrow> 'w \<Rightarrow> (net_error + http_answer) \<times> 'w) \<Rightarrow> request_flags \<Rightarrow> http_request \<Rightarrow> nat \<Rightarrow>
     'w connection \<Rightarrow> (provider_exception + client_reply) \<times> 'w connection" where
  "make_request cfg service flags req retry_count s =
     (case exchange cfg service flags req s of
        (Inr v, s') \<Rightarrow> (Inr v, s')
      | (Inl (Provider p), s') \<Rightarrow> (Inl p, s')
      | (Inl (Network e), s') \<Rightarrow>
          if is_err e [Client_Connector_Error, Client_Payload_Error, Server_Disconnected_Error] \<and> retry_count < 1
          then make_request cfg service flags req (retry_count + 1) s'
          else (Inl (handle_request_error e), s'))"
  by pat_completeness auto
termination by (relation "measure (\<lambda>(_, _, _, _, k, _). 1 - k)") auto

declare make_request.simps [simp del]

section \<open>Programs over a connection\<close>

text \<open>A method either returns or raises; an exception of the client or one of Python, say of a missing key.\<close>

datatype failure = Provider_Failed provider_exception | Python_Failed py_error

type_synonym ('w, 'a) program = "'w connection \<Rightarrow> (failure + 'a) \<times> 'w connection"

definition return_io :: "'a \<Rightarrow> ('w, 'a) program" where "return_io v s = (Inr v, s)"

definition raise_io :: "provider_exception \<Rightarrow> ('w, 'a) program" where "raise_io p s = (Inl (Provider_Failed p), s)"

definition bind_io :: "('w, 'a) program \<Rightarrow> ('a \<Rightarrow> ('w, 'b) program) \<Rightarrow> ('w, 'b) program" where
  "bind_io m f s = (case m s of (Inl e, s') \<Rightarrow> (Inl e, s') | (Inr v, s') \<Rightarrow> f v s')"

definition catch_io :: "('w, 'a) program \<Rightarrow> (provider_exception \<Rightarrow> ('w, 'a) program) \<Rightarrow> ('w, 'a) program" where
  "catch_io m h s = (case m s of (Inl (Provider_Failed p), s') \<Rightarrow> h p s' | r \<Rightarrow> r)"

definition sleep_io :: "rat \<Rightarrow> ('w, unit) program" where
  "sleep_io t s = (Inr (), s\<lparr>events := events s @ [Slept t]\<rparr>)"

definition python_io :: "'a py_result \<Rightarrow> ('w, 'a) program" where
  "python_io r s = (case r of Inl e \<Rightarrow> (Inl (Python_Failed e), s) | Inr v \<Rightarrow> (Inr v, s))"

definition request_io ::
  "client_config \<Rightarrow> (http_request \<Rightarrow> 'w \<Rightarrow> (net_error + http_answer) \<times> 'w) \<Rightarrow> request_flags \<Rightarrow> http_request \<Rightarrow> ('w, client_reply) program" where
  "request_io cfg service flags req s =
     (case make_request cfg service flags req 0 s of (Inl p, s') \<Rightarrow> (Inl (Provider_Failed p), s') | (Inr v, s') \<Rightarrow> (Inr v, s'))"

section \<open>Waiting for a status\<close>

definition normalize_status :: "json \<Rightarrow> string" where
  "normalize_status v = (if v = JNull then [] else py_lower (py_strip (json_str v)))"

definition status_of :: "dict \<Rightarrow> string" where
  "status_of info = normalize_status (case map_of info ''status'' of Some v \<Rightarrow> v | None \<Rightarrow> JNull)"

text \<open>\<open>wait_polls n\<close>: the last \<open>n\<close> rounds of the loop.\<close>

fun wait_polls ::
  "(provider_exception \<Rightarrow> bool) \<Rightarrow> ('w, json) program \<Rightarrow> json \<Rightarrow> rat \<Rightarrow> nat \<Rightarrow> ('w, dict) program" where
  "wait_polls should_retry get_info target interval 0 =
     raise_io (provider_error (''Torrent did not reach '' @ json_str target @ '' status.'') ''torrent_not_downloaded.mp4'')"
| "wait_polls should_retry get_info target interval (Suc n) =
     (let again = bind_io (sleep_io interval) (\<lambda>_. wait_polls should_retry get_info target interval n)
      in bind_io
           (catch_io (bind_io get_info (\<lambda>v. return_io (Some v)))
             (\<lambda>e. if should_retry e then return_io None else raise_io e))
           (\<lambda>answer. case answer of
              None \<Rightarrow>
                if n > 0 then again
                else raise_io (provider_error (''Torrent did not reach '' @ json_str target @ '' status.'') ''torrent_not_downloaded.mp4'')
            | Some (JDict info) \<Rightarrow>
                if status_of info = normalize_status target then return_io info
                else if status_of info = ''error'' then
                  raise_io (provider_error (''Torrent entered error state: '' @
                    (case map_of info ''errorMessage'' of Some m \<Rightarrow> json_str m | None \<Rightarrow> ''unknown error'')) ''transfer_error.mp4'')
                else if n > 0 then again else wait_polls should_retry get_info target interval n
            | Some _ \<Rightarrow>
                if n > 0 then again
                else raise_io (provider_error ''Torrent info response was invalid.'' ''torrent_not_downloaded.mp4'')))"

definition wait_for_status ::
  "(provider_exception \<Rightarrow> bool) \<Rightarrow> ('w, json) program \<Rightarrow> json \<Rightarrow> nat \<Rightarrow> rat \<Rightarrow> json \<Rightarrow> ('w, dict) program" where
  "wait_for_status should_retry get_info target max_retries interval torrent_info =
     (case torrent_info of
        JDict (kv # kvs) \<Rightarrow>
          if status_of (kv # kvs) = normalize_status target then return_io (kv # kvs)
          else wait_polls should_retry get_info target interval max_retries
      | _ \<Rightarrow> wait_polls should_retry get_info target interval max_retries)"

section \<open>Tokens\<close>

text \<open>\<open>b64encode\<close> uses the standard alphabet, and the padding stays.\<close>

definition b64encode :: "string \<Rightarrow> string" where "b64encode bs = map plain_char (urlsafe_b64encode bs)"
definition b64decode :: "string \<Rightarrow> string py_result" where "b64decode s = scan 0 0 0 s"

definition encode_token_data :: "string \<Rightarrow> string" where
  "encode_token_data token_code = b64encode (''code:'' @ token_code)"

text \<open>Text is represented by its bytes in UTF-8, so that decoding is a check of them.\<close>

definition continuation :: "nat \<Rightarrow> bool" where
  "continuation b \<longleftrightarrow> 128 \<le> b \<and> b < 192"

fun utf8_ok :: "nat list \<Rightarrow> bool" where
  "utf8_ok [] = True"
| "utf8_ok (a # bs) =
     (if a < 128 then utf8_ok bs
      else case bs of
        [] \<Rightarrow> False
      | b # cs \<Rightarrow>
          if 194 \<le> a \<and> a < 224 then continuation b \<and> utf8_ok cs
          else case cs of
            [] \<Rightarrow> False
          | c # ds \<Rightarrow>
              if 224 \<le> a \<and> a < 240 then
                continuation b \<and> continuation c \<and> (a = 224 \<longrightarrow> 160 \<le> b) \<and> (a = 237 \<longrightarrow> b < 160) \<and> utf8_ok ds
              else case ds of
                [] \<Rightarrow> False
              | d # es \<Rightarrow>
                  240 \<le> a \<and> a < 245 \<and> continuation b \<and> continuation c \<and> continuation d \<and>
                  (a = 240 \<longrightarrow> 144 \<le> b) \<and> (a = 244 \<longrightarrow> b < 144) \<and> utf8_ok es)"

definition py_decode :: "string \<Rightarrow> string py_result" where
  "py_decode bs = (if utf8_ok (map byte bs) then Inr bs else Inl ValueError)"

definition decode_token_str :: "string \<Rightarrow> string option" where
  "decode_token_str token =
     (case bind_result (b64decode token) py_decode of
        Inr bs \<Rightarrow> (case split_char CHR '':'' bs of [_, token_code] \<Rightarrow> Some token_code | _ \<Rightarrow> None)
      | Inl _ \<Rightarrow> None)"

section \<open>What a request leaves behind\<close>

fun transient :: "thrown + client_reply \<Rightarrow> bool" where
  "transient (Inl (Network e)) = is_err e [Client_Connector_Error, Client_Payload_Error, Server_Disconnected_Error]"
| "transient _ = False"

fun answered :: "provider_exception + client_reply \<Rightarrow> thrown + client_reply \<Rightarrow> bool" where
  "answered (Inr v) a = (a = Inr v)"
| "answered (Inl p) a = (case a of Inl (Provider q) \<Rightarrow> p = q | Inl (Network e) \<Rightarrow> p = handle_request_error e | Inr _ \<Rightarrow> False)"

lemma exchange_events:
  "exchange cfg service flags req s = (r, s') \<Longrightarrow> events s' = events s @ [Exchange req r]"
  by (auto simp: exchange_def Let_def split: prod.splits)

lemma make_request_run:
  assumes "make_request cfg service flags req 0 s = (r, s')"
  shows "(\<exists>a. events s' = events s @ [Exchange req a] \<and> answered r a \<and> \<not> transient a) \<or>
    (\<exists>a a'. events s' = events s @ [Exchange req a, Exchange req a'] \<and> transient a \<and> answered r a')"
proof -
  obtain r1 s1 where one: "exchange cfg service flags req s = (r1, s1)" by fastforce
  obtain r2 s2 where two: "exchange cfg service flags req s1 = (r2, s2)" by fastforce
  show ?thesis
    using assms one two exchange_events[OF one] exchange_events[OF two]
    by (auto simp: make_request.simps[of cfg service flags req 0] make_request.simps[of cfg service flags req "Suc 0"]
        split: sum.splits thrown.splits if_splits)
qed

text \<open>
  Whatever the service and the network do, a request ends in a value or in an exception of
  the client, never in one of the network library: it is the outcome of the only exchange or,
  when that failed on the way, of a second one with the same request.
\<close>

theorem request_answered:
  "case make_request cfg service flags req 0 s of (r, s') \<Rightarrow>
     (case drop (length (events s)) (events s') of
        [Exchange q a] \<Rightarrow> q = req \<and> answered r a \<and> \<not> transient a
      | [Exchange q a, Exchange q' a'] \<Rightarrow> q = req \<and> q' = req \<and> transient a \<and> answered r a'
      | _ \<Rightarrow> False)"
proof (cases "make_request cfg service flags req 0 s")
  case (Pair r s')
  then show ?thesis using make_request_run[OF Pair] by auto
qed

section \<open>Bounds\<close>

definition exchanges :: "event list \<Rightarrow> nat" where
  "exchanges evs = length (filter (\<lambda>e. case e of Exchange _ _ \<Rightarrow> True | Slept _ \<Rightarrow> False) evs)"

definition slept_time :: "event list \<Rightarrow> rat" where
  "slept_time evs = sum_list (map (\<lambda>e. case e of Exchange _ _ \<Rightarrow> 0 | Slept t \<Rightarrow> t) evs)"

text \<open>A program spends at most so many exchanges and so much sleep, wherever it starts.\<close>

definition spends :: "nat \<Rightarrow> rat \<Rightarrow> ('w, 'a) program \<Rightarrow> bool" where
  "spends n t m \<longleftrightarrow> 0 \<le> t \<and>
     (\<forall>s. exchanges (events (snd (m s))) \<le> exchanges (events s) + n \<and> slept_time (events (snd (m s))) \<le> slept_time (events s) + t)"

lemma spends_weaken: "spends n t m \<Longrightarrow> n \<le> n' \<Longrightarrow> t \<le> t' \<Longrightarrow> spends n' t' m"
  unfolding spends_def by (meson add_left_mono order_trans)

lemma spends_pure: "0 \<le> t \<Longrightarrow> spends n t (return_io v)" "0 \<le> t \<Longrightarrow> spends n t (raise_io p)" "0 \<le> t \<Longrightarrow> spends n t (python_io r)"
  by (simp_all add: spends_def return_io_def raise_io_def python_io_def split: sum.split)

lemma spends_sleep: "0 \<le> t \<Longrightarrow> spends 0 t (sleep_io t)"
  by (simp add: spends_def sleep_io_def exchanges_def slept_time_def)

lemma spends_bind:
  assumes m: "spends n1 t1 m" and le: "n1 \<le> n" "t1 \<le> t" and f: "\<And>v. spends (n - n1) (t - t1) (f v)"
  shows "spends n t (bind_io m f)"
proof -
  have "exchanges (events (snd (bind_io m f s))) \<le> exchanges (events s) + n \<and>
    slept_time (events (snd (bind_io m f s))) \<le> slept_time (events s) + t" for s
  proof (cases "m s")
    case (Pair r s')
    have s': "exchanges (events s') \<le> exchanges (events s) + n1" "slept_time (events s') \<le> slept_time (events s) + t1"
      using m Pair by (auto simp: spends_def dest: spec[of _ s])
    show ?thesis
    proof (cases r)
      case (Inl e)
      then show ?thesis using Pair s' le by (simp add: bind_io_def)
    next
      case (Inr v)
      have "exchanges (events (snd (f v s'))) \<le> exchanges (events s') + (n - n1)"
        "slept_time (events (snd (f v s'))) \<le> slept_time (events s') + (t - t1)"
        using f[of v] by (auto simp: spends_def)
      then show ?thesis using Pair Inr s' le by (simp add: bind_io_def)
    qed
  qed
  then show ?thesis using m le by (auto simp: spends_def)
qed

lemma spends_catch:
  assumes m: "spends n1 t1 m" and le: "n1 \<le> n" "t1 \<le> t" and h: "\<And>p. spends (n - n1) (t - t1) (h p)"
  shows "spends n t (catch_io m h)"
proof -
  have "exchanges (events (snd (catch_io m h s))) \<le> exchanges (events s) + n \<and>
    slept_time (events (snd (catch_io m h s))) \<le> slept_time (events s) + t" for s
  proof (cases "m s")
    case (Pair r s')
    have s': "exchanges (events s') \<le> exchanges (events s) + n1" "slept_time (events s') \<le> slept_time (events s) + t1"
      using m Pair by (auto simp: spends_def dest: spec[of _ s])
    have h': "exchanges (events (snd (h p s'))) \<le> exchanges (events s') + (n - n1)"
      "slept_time (events (snd (h p s'))) \<le> slept_time (events s') + (t - t1)" for p
      using h[of p] by (auto simp: spends_def)
    show ?thesis
    proof (cases "\<exists>p. r = Inl (Provider_Failed p)")
      case True
      then obtain p where "r = Inl (Provider_Failed p)" by blast
      then show ?thesis using Pair s' le h'[of p] by (simp add: catch_io_def)
    next
      case False
      then have "catch_io m h s = (r, s')" using Pair by (auto simp: catch_io_def split: sum.splits failure.splits)
      then show ?thesis using s' le by simp
    qed
  qed
  then show ?thesis using m le by (auto simp: spends_def)
qed

lemma spends_request: "spends 2 0 (request_io cfg service flags req)"
proof -
  have "exchanges (events (snd (request_io cfg service flags req s))) \<le> exchanges (events s) + 2 \<and>
    slept_time (events (snd (request_io cfg service flags req s))) = slept_time (events s)" for s
  proof (cases "make_request cfg service flags req 0 s")
    case (Pair r s')
    then show ?thesis
      using make_request_run[OF Pair] by (auto simp: request_io_def exchanges_def slept_time_def split: sum.split)
  qed
  then show ?thesis by (simp add: spends_def)
qed

lemma spends_wait_polls:
  assumes "spends 2 0 get_info" and "0 \<le> interval"
  shows "spends (2 * n) (of_nat (n - 1) * interval) (wait_polls should_retry get_info target interval n)"
proof (induction n)
  case (Suc n)
  have again: "spends (2 * n) (of_nat n * interval) (bind_io (sleep_io interval) (\<lambda>_. wait_polls should_retry get_info target interval n))"
    if "0 < n"
  proof (rule spends_bind[OF spends_sleep[OF assms(2)]])
    show "interval \<le> of_nat n * interval" using assms(2) that by (simp add: mult_le_cancel_right1)
    have "of_nat n * interval - interval = of_nat (n - 1) * interval" using that by (cases n) (simp_all add: algebra_simps)
    then show "spends (2 * n - 0) (of_nat n * interval - interval) (wait_polls should_retry get_info target interval n)"
      using Suc.IH by simp
  qed simp
  have last: "spends (2 * n) (of_nat n * interval) (wait_polls should_retry get_info target interval n)"
    by (rule spends_weaken[OF Suc.IH]) (simp_all add: assms(2) mult_right_mono)
  have pos: "0 \<le> of_nat n * interval" using assms(2) by simp
  have ask: "spends 2 0 (catch_io (bind_io get_info (\<lambda>v. return_io (Some v))) (\<lambda>e. if should_retry e then return_io None else raise_io e))"
    by (rule spends_catch[OF spends_bind[OF assms(1), of 2 0]]) (simp_all add: spends_pure)
  show ?case
    unfolding wait_polls.simps Let_def
    by (rule spends_bind[OF ask])
      (use again last pos in \<open>auto simp: spends_pure split: option.split json.split\<close>)
qed (simp add: spends_pure)

lemma spends_wait:
  assumes "spends 2 0 get_info" and "0 \<le> interval"
  shows "spends (2 * n) (of_nat (n - 1) * interval) (wait_for_status should_retry get_info target n interval info)"
  using spends_wait_polls[OF assms, of n] assms(2)
  by (auto simp: wait_for_status_def spends_pure split: json.split list.split)

section \<open>The outcome of a wait\<close>

text \<open>The answers that a client gets one after the other, whatever they are.\<close>

definition scripted :: "(nat \<Rightarrow> failure + json) \<Rightarrow> (nat, json) program" where
  "scripted answers s = (answers (peer s), s\<lparr>peer := peer s + 1\<rparr>)"

definition decisive :: "(provider_exception \<Rightarrow> bool) \<Rightarrow> json \<Rightarrow> failure + json \<Rightarrow> bool" where
  "decisive should_retry target a \<longleftrightarrow>
     (case a of
        Inl (Provider_Failed p) \<Rightarrow> \<not> should_retry p
      | Inl (Python_Failed _) \<Rightarrow> True
      | Inr (JDict info) \<Rightarrow> status_of info = normalize_status target \<or> status_of info = ''error''
      | Inr _ \<Rightarrow> False)"

definition decision :: "json \<Rightarrow> failure + json \<Rightarrow> failure + dict" where
  "decision target a =
     (case a of
        Inl e \<Rightarrow> Inl e
      | Inr (JDict info) \<Rightarrow>
          if status_of info = normalize_status target then Inr info
          else Inl (Provider_Failed (provider_error (''Torrent entered error state: '' @
                 (case map_of info ''errorMessage'' of Some m \<Rightarrow> json_str m | None \<Rightarrow> ''unknown error'')) ''transfer_error.mp4''))
      | Inr _ \<Rightarrow> Inr [])"

definition exhausted :: "json \<Rightarrow> (failure + json) list \<Rightarrow> failure + dict" where
  "exhausted target asked =
     Inl (Provider_Failed (provider_error
       (case rev asked of
          Inr (JDict _) # _ \<Rightarrow> ''Torrent did not reach '' @ json_str target @ '' status.''
        | Inr _ # _ \<Rightarrow> ''Torrent info response was invalid.''
        | _ \<Rightarrow> ''Torrent did not reach '' @ json_str target @ '' status.'') ''torrent_not_downloaded.mp4''))"

lemmas io_simps = Let_def return_io_def raise_io_def bind_io_def catch_io_def sleep_io_def python_io_def

lemma wait_polls_scripted:
  assumes "i \<le> j"
  shows "wait_polls should_retry (scripted answers) target interval (j - i) \<lparr>peer = i, events = es\<rparr> =
    (let asked = map answers [i..<j]; k = length (takeWhile (\<lambda>a. \<not> decisive should_retry target a) asked)
     in if k < length asked
        then (decision target (answers (i + k)), \<lparr>peer = i + k + 1, events = es @ replicate k (Slept interval)\<rparr>)
        else (exhausted target asked, \<lparr>peer = j, events = es @ replicate (j - i - 1) (Slept interval)\<rparr>))"
  using assms
proof (induction "j - i" arbitrary: i es)
  case 0
  then show ?case by (simp add: io_simps exhausted_def)
next
  case (Suc n)
  then have ij: "i < j" "n = j - Suc i" by simp_all
  note IH = Suc.hyps(1)[of "Suc i"]
  have upt: "[i..<j] = i # [Suc i..<j]" using ij by (simp add: upt_conv_Cons)
  show ?case
  proof (cases "decisive should_retry target (answers i)")
    case True
    then show ?thesis
      unfolding Suc.hyps(2)[symmetric]
      by (auto simp: upt decisive_def decision_def io_simps scripted_def split: sum.splits failure.splits json.splits)
  next
    case False
    show ?thesis
    proof (cases "n = 0")
      case True
      then have "[Suc i..<j] = []" "j = Suc i" using ij by simp_all
      then show ?thesis
        using False True unfolding Suc.hyps(2)[symmetric] upt
        by (auto simp: decisive_def exhausted_def io_simps scripted_def split: sum.splits failure.splits json.splits)
    next
      case more: False
      have step: "wait_polls should_retry (scripted answers) target interval (Suc n) \<lparr>peer = i, events = es\<rparr> =
        wait_polls should_retry (scripted answers) target interval n \<lparr>peer = Suc i, events = es @ [Slept interval]\<rparr>"
        using False more by (auto simp: decisive_def io_simps scripted_def split: sum.splits failure.splits json.splits)
      have last: "exhausted target (answers i # map answers [Suc i..<j]) = exhausted target (map answers [Suc i..<j])"
      proof -
        have "[Suc i..<j] \<noteq> []" using more ij by simp
        then obtain b bs where "rev (map answers [Suc i..<j]) = b # bs" by (metis list.exhaust map_is_Nil_conv rev_is_Nil_conv)
        then show ?thesis by (simp add: exhausted_def)
      qed
      have len: "j - i - 1 = Suc (j - Suc i - 1)" "j - i = Suc (j - Suc i)" using more ij by simp_all
      define k where "k = length (takeWhile (\<lambda>a. \<not> decisive should_retry target a) (map answers [Suc i..<j]))"
      have k: "length (takeWhile (\<lambda>a. \<not> decisive should_retry target a) (map answers [i..<j])) = Suc k"
        using False by (simp add: k_def upt)
      have "wait_polls should_retry (scripted answers) target interval n \<lparr>peer = Suc i, events = es @ [Slept interval]\<rparr> =
        (if k < j - Suc i
         then (decision target (answers (Suc i + k)), \<lparr>peer = Suc i + k + 1, events = (es @ [Slept interval]) @ replicate k (Slept interval)\<rparr>)
         else (exhausted target (map answers [Suc i..<j]),
               \<lparr>peer = j, events = (es @ [Slept interval]) @ replicate (j - Suc i - 1) (Slept interval)\<rparr>))"
        using IH[of "es @ [Slept interval]"] ij by (simp add: Let_def k_def)
      then show ?thesis
        unfolding Suc.hyps(2)[symmetric] step Let_def k length_map length_upt len(1) len(2)
        using replicate_Suc[of "j - Suc (Suc i)" "Slept interval"] len(1) by (simp add: upt last ij(2))
    qed
  qed
qed

text \<open>
  Property C21. The wait asks again and again, sleeping in between, until an answer decides: the torrent in
  the wanted status is returned, a torrent in error or another failure raises. After
  \<open>max_retries\<close> answers without a decision it raises and sleeps no more.
\<close>

theorem wait_outcome:
  "wait_for_status should_retry (scripted answers) target max_retries interval JNull \<lparr>peer = 0, events = []\<rparr> =
    (let asked = map answers [0..<max_retries]; k = length (takeWhile (\<lambda>a. \<not> decisive should_retry target a) asked)
     in if k < max_retries
        then (decision target (answers k), \<lparr>peer = k + 1, events = replicate k (Slept interval)\<rparr>)
        else (exhausted target asked, \<lparr>peer = max_retries, events = replicate (max_retries - 1) (Slept interval)\<rparr>))"
  using wait_polls_scripted[of 0 max_retries should_retry answers target interval "[]"] by (simp add: wait_for_status_def Let_def)

section \<open>Round trips of tokens\<close>

lemma b64_roundtrip: "b64decode (b64encode bs) = Inr bs"
  by (simp add: b64decode_def b64encode_def decode_encode)

lemma utf8_ascii: "list_all (\<lambda>b. b < 128) as \<Longrightarrow> utf8_ok (as @ bs) = utf8_ok bs"
  by (induction as) simp_all

text \<open>
  A token is read back to the code it was made of, unless the code has a colon: such a token
  counts as the key of a private account.
\<close>

theorem token_roundtrip:
  assumes "utf8_ok (map byte token_code)"
  shows "decode_token_str (encode_token_data token_code) = (if CHR '':'' \<in> set token_code then None else Some token_code)"
proof -
  have bytes: "py_decode (''code:'' @ token_code) = Inr (''code:'' @ token_code)"
    using utf8_ascii[of "map byte ''code:''" "map byte token_code"] assms by (simp add: py_decode_def)
  have split: "split_char CHR '':'' (''code:'' @ token_code) = ''code'' # split_char CHR '':'' token_code"
    using split_char_append_sep[of "CHR '':''" "''code''" token_code] by simp
  show ?thesis
  proof (cases "CHR '':'' \<in> set token_code")
    case True
    then obtain xs ys where "token_code = xs @ CHR '':'' # ys" "CHR '':'' \<notin> set xs" by (meson split_list_first)
    then have "split_char CHR '':'' token_code = xs # split_char CHR '':'' ys" by (simp add: split_char_append_sep)
    then show ?thesis
      using True bytes split split_char_nonempty[of "CHR '':''" ys]
      by (simp add: decode_token_str_def encode_token_data_def b64_roundtrip split: list.split)
  next
    case False
    then have "split_char CHR '':'' token_code = [token_code]" by (rule split_char_single)
    then show ?thesis
      using False bytes split by (simp add: decode_token_str_def encode_token_data_def b64_roundtrip)
  qed
qed

theorem token_roundtrip_witness:
  "decode_token_str (encode_token_data ''a9B-'') = (if CHR '':'' \<in> set ''a9B-'' then None else Some ''a9B-'')"
  by (rule token_roundtrip) code_simp

end
