(* ===== verification/Real_Debrid.thy ===== *)
theory Real_Debrid
  imports Debrid_Client
begin

text \<open>
  Playing a torrent through Real-Debrid, \<open>workers/providers/realdebrid/client.py\<close> and \<open>utils.py\<close>. The
  service is a function from requests to answers with a state of its own; the choice of the file in a
  torrent is an argument here.
\<close>

section \<open>Errors of the service\<close>

definition REALDEBRID_ERROR_CODE_MAP :: "(int \<times> string \<times> string) list" where
  "REALDEBRID_ERROR_CODE_MAP =
     [(-1, ''Real-Debrid internal error'', ''debrid_service_down_error.mp4''),
      (1, ''Real-Debrid missing parameter'', ''api_error.mp4''),
      (2, ''Real-Debrid bad parameter value'', ''transfer_error.mp4''),
      (3, ''Real-Debrid unknown method'', ''api_error.mp4''),
      (4, ''Real-Debrid method not allowed'', ''api_error.mp4''),
      (5, ''Real-Debrid slow down'', ''too_many_requests.mp4''),
      (6, ''Real-Debrid resource unreachable'', ''debrid_service_down_error.mp4''),
      (7, ''Real-Debrid resource not found'', ''torrent_not_downloaded.mp4''),
      (8, ''Real-Debrid bad token'', ''invalid_token.mp4''),
      (9, ''Real-Debrid permission denied'', ''invalid_token.mp4''),
      (10, ''Real-Debrid two-factor authentication needed'', ''invalid_token.mp4''),
      (11, ''Real-Debrid two-factor authentication pending'', ''invalid_token.mp4''),
      (12, ''Real-Debrid invalid login'', ''invalid_token.mp4''),
      (13, ''Real-Debrid invalid password'', ''invalid_token.mp4''),
      (14, ''Real-Debrid account locked'', ''invalid_token.mp4''),
      (15, ''Real-Debrid account not activated'', ''invalid_token.mp4''),
      (16, ''Real-Debrid unsupported hoster'', ''transfer_error.mp4''),
      (17, ''Real-Debrid hoster in maintenance'', ''debrid_service_down_error.mp4''),
      (18, ''Real-Debrid hoster limit reached'', ''exceed_remote_traffic_limit.mp4''),
      (19, ''Real-Debrid hoster temporarily unavailable'', ''debrid_service_down_error.mp4''),
      (20, ''Real-Debrid hoster not available for free users'', ''need_premium.mp4''),
      (21, ''Real-Debrid too many active downloads'', ''torrent_limit.mp4''),
      (22, ''Real-Debrid IP address not allowed'', ''ip_not_allowed.mp4''),
      (23, ''Real-Debrid traffic exhausted'', ''exceed_remote_traffic_limit.mp4''),
      (24, ''Real-Debrid file unavailable'', ''torrent_not_downloaded.mp4''),
      (25, ''Real-Debrid service unavailable'', ''debrid_service_down_error.mp4''),
      (26, ''Real-Debrid upload too big'', ''transfer_error.mp4''),
      (27, ''Real-Debrid upload error'', ''transfer_error.mp4''),
      (28, ''Real-Debrid file not allowed'', ''transfer_error.mp4''),
      (29, ''Real-Debrid torrent too big'', ''transfer_error.mp4''),
      (30, ''Real-Debrid torrent file invalid'', ''transfer_error.mp4''),
      (31, ''Real-Debrid action already done'', ''transfer_error.mp4''),
      (32, ''Real-Debrid image resolution error'', ''api_error.mp4''),
      (33, ''Real-Debrid torrent already active'', ''torrent_not_downloaded.mp4''),
      (34, ''Real-Debrid too many requests'', ''too_many_requests.mp4''),
      (35, ''Real-Debrid infringing file'', ''content_infringing.mp4''),
      (36, ''Real-Debrid fair usage limit reached'', ''exceed_remote_traffic_limit.mp4''),
      (37, ''Real-Debrid disabled endpoint'', ''api_error.mp4'')]"

text \<open>\<open>int(error_code)\<close>; what it raises is caught. A number from JSON is finite.\<close>

definition int_of_json :: "json \<Rightarrow> int option" where
  "int_of_json v =
     (case v of
        JInt i \<Rightarrow> Some i
      | JBool b \<Rightarrow> Some (if b then 1 else 0)
      | JFloat x \<Rightarrow> Some (rat_trunc x)
      | JStr s \<Rightarrow> (case int_of_string s of Inr i \<Rightarrow> Some i | Inl _ \<Rightarrow> None)
      | _ \<Rightarrow> None)"

definition mapped_error :: "dict \<Rightarrow> provider_exception option" where
  "mapped_error error_data =
     (case Option.bind (map_of error_data ''error_code'') int_of_json of
        None \<Rightarrow> None
      | Some error_code \<Rightarrow>
          (case map_of REALDEBRID_ERROR_CODE_MAP error_code of
             None \<Rightarrow> None
           | Some (msg, video) \<Rightarrow>
               (let detail = (case map_of error_data ''error_details'' of
                      Some v \<Rightarrow> if truthy v then v else (case map_of error_data ''error'' of Some w \<Rightarrow> w | None \<Rightarrow> JNull)
                    | None \<Rightarrow> (case map_of error_data ''error'' of Some w \<Rightarrow> w | None \<Rightarrow> JNull))
                in Some (case detail of
                     JStr d \<Rightarrow>
                       (if py_strip d \<noteq> [] \<and> \<not> py_contains (py_lower (py_strip d)) (py_lower msg)
                        then provider_error (msg @ '': '' @ py_strip d) video else provider_error msg video)
                   | _ \<Rightarrow> provider_error msg video))))"

section \<open>The client\<close>

record 'w account =
  rd_service :: "http_request \<Rightarrow> 'w \<Rightarrow> (net_error + http_answer) \<times> 'w"
  rd_loads :: "string \<Rightarrow> json option"
  rd_user_ip :: "string option"
  rd_bearer :: "string option"

definition BASE_URL :: string where "BASE_URL = ''https://api.real-debrid.com/rest/1.0''"
definition OAUTH_URL :: string where "OAUTH_URL = ''https://api.real-debrid.com/oauth/v2''"

text \<open>The address of the user goes into the form of a request that has one, or nothing at all.\<close>

definition with_ip :: "string option \<Rightarrow> string \<Rightarrow> request_body \<Rightarrow> request_body" where
  "with_ip ip verb body =
     (case ip of
        Some (c # cs) \<Rightarrow>
          if verb \<in> {''POST'', ''PUT''} then
            (case body of
               No_Body \<Rightarrow> Form [(''ip'', JStr (c # cs))]
             | Form kvs \<Rightarrow> Form (AList.update ''ip'' (JStr (c # cs)) kvs)
             | Bytes [] \<Rightarrow> Form [(''ip'', JStr (c # cs))]
             | Bytes bs \<Rightarrow> Bytes bs)
          else body
      | _ \<Rightarrow> body)"

abbreviation plain_flags :: request_flags where
  "plain_flags \<equiv> \<lparr>is_return_none = False, is_expected_to_fail = False, is_http_response = False\<rparr>"

fun reply_body :: "client_reply \<Rightarrow> json" where
  "reply_body (Body v) = v"
| "reply_body (Http_Response _ v) = v"

definition rd_request ::
  "'w account \<Rightarrow> request_flags \<Rightarrow> string \<Rightarrow> string \<Rightarrow> (string \<times> string) list \<Rightarrow> request_body \<Rightarrow> ('w, json) program" where
  "rd_request rd flags verb url params body =
     bind_io
       (request_io \<lparr>service_errors = \<lambda>d _. mapped_error d, json_loads = rd_loads rd\<rparr> (rd_service rd) flags
          \<lparr>req_verb = verb, req_url = url, req_params = params, req_body = with_ip (rd_user_ip rd) verb body, bearer = rd_bearer rd\<rparr>)
       (\<lambda>r. return_io (reply_body r))"

definition add_magnet_link :: "'w account \<Rightarrow> string \<Rightarrow> ('w, json) program" where
  "add_magnet_link rd magnet_link =
     rd_request rd plain_flags ''POST'' (BASE_URL @ ''/torrents/addMagnet'') [] (Form [(''magnet'', JStr magnet_link)])"

definition add_torrent_file :: "'w account \<Rightarrow> string \<Rightarrow> ('w, json) program" where
  "add_torrent_file rd torrent_file = rd_request rd plain_flags ''PUT'' (BASE_URL @ ''/torrents/addTorrent'') [] (Bytes torrent_file)"

definition get_active_torrents :: "'w account \<Rightarrow> ('w, json) program" where
  "get_active_torrents rd = rd_request rd plain_flags ''GET'' (BASE_URL @ ''/torrents/activeCount'') [] No_Body"

definition get_user_torrent_list :: "'w account \<Rightarrow> (nat \<times> nat) option \<Rightarrow> ('w, json) program" where
  "get_user_torrent_list rd page_limit =
     rd_request rd plain_flags ''GET'' (BASE_URL @ ''/torrents'')
       (case page_limit of None \<Rightarrow> [] | Some (page, page_len) \<Rightarrow> [(''page'', int_digits (int page)), (''limit'', int_digits (int page_len))]) No_Body"

definition info_url :: "json \<Rightarrow> string" where "info_url torrent_id = BASE_URL @ ''/torrents/info/'' @ json_str torrent_id"

definition get_torrent_info :: "'w account \<Rightarrow> json \<Rightarrow> ('w, json) program" where
  "get_torrent_info rd torrent_id = rd_request rd plain_flags ''GET'' (info_url torrent_id) [] No_Body"

definition disable_access_token :: "'w account \<Rightarrow> ('w, json) program" where
  "disable_access_token rd =
     rd_request rd \<lparr>is_return_none = True, is_expected_to_fail = True, is_http_response = False\<rparr> ''GET'' (BASE_URL @ ''/disable_access_token'') [] No_Body"

definition start_torrent_download :: "'w account \<Rightarrow> json \<Rightarrow> json \<Rightarrow> ('w, json) program" where
  "start_torrent_download rd torrent_id file_ids =
     rd_request rd (plain_flags\<lparr>is_return_none := True\<rparr>) ''POST'' (BASE_URL @ ''/torrents/selectFiles/'' @ json_str torrent_id) []
       (Form [(''files'', file_ids)])"

definition delete_url :: "json \<Rightarrow> string" where "delete_url torrent_id = BASE_URL @ ''/torrents/delete/'' @ json_str torrent_id"

definition delete_torrent :: "'w account \<Rightarrow> json \<Rightarrow> ('w, json) program" where
  "delete_torrent rd torrent_id = rd_request rd (plain_flags\<lparr>is_return_none := True\<rparr>) ''DELETE'' (delete_url torrent_id) [] No_Body"

definition rd_create_link :: "'w account \<Rightarrow> json \<Rightarrow> ('w, dict) program" where
  "rd_create_link rd link =
     bind_io (rd_request rd (plain_flags\<lparr>is_expected_to_fail := True\<rparr>) ''POST'' (BASE_URL @ ''/unrestrict/link'') [] (Form [(''link'', link)]))
       (\<lambda>answer.
          let failed = raise_io (provider_error (''Failed to create download link. response: '' @ json_str answer) ''api_error.mp4'')
          in case answer of
               JDict d \<Rightarrow>
                 if map_of d ''download'' \<noteq> None then return_io d
                 else (case mapped_error d of Some p \<Rightarrow> raise_io p | None \<Rightarrow> failed)
             | _ \<Rightarrow> failed)"

text \<open>The first torrent of the list with the hash; an entry without one raises.\<close>

fun first_with_hash :: "string \<Rightarrow> json list \<Rightarrow> json option py_result" where
  "first_with_hash wanted_hash [] = Inr None"
| "first_with_hash wanted_hash (t # ts) =
     bind_result (py_getitem t ''hash'') (\<lambda>h. if h = JStr wanted_hash then Inr (Some t) else first_with_hash wanted_hash ts)"

definition get_available_torrent :: "'w account \<Rightarrow> string \<Rightarrow> ('w, json option) program" where
  "get_available_torrent rd wanted_hash =
     bind_io (get_user_torrent_list rd None)
       (\<lambda>listed. python_io (bind_result (py_iter listed) (first_with_hash wanted_hash)))"

section \<open>Adding a torrent\<close>

definition is_unknown_resource_error :: "provider_exception \<Rightarrow> bool" where
  "is_unknown_resource_error e \<longleftrightarrow>
     py_contains ''unknown_ressource'' (py_lower (message e)) \<or> py_contains ''resource not found'' (py_lower (message e))"

definition extract_torrent_id :: "json \<Rightarrow> ('w, json) program" where
  "extract_torrent_id create_response =
     (let failed = raise_io (provider_error ''Failed to add torrent to Real-Debrid'' ''transfer_error.mp4'')
      in case create_response of
           JDict d \<Rightarrow> (case map_of d ''id'' of Some v \<Rightarrow> if truthy v then return_io (JStr (json_str v)) else failed | None \<Rightarrow> failed)
         | _ \<Rightarrow> failed)"

definition create_torrent :: "'w account \<Rightarrow> string option \<Rightarrow> string \<Rightarrow> ('w, json) program" where
  "create_torrent rd torrent_file magnet_link =
     bind_io (case torrent_file of Some (c # cs) \<Rightarrow> add_torrent_file rd (c # cs) | _ \<Rightarrow> add_magnet_link rd magnet_link) extract_torrent_id"

text \<open>The loop over \<open>info_attempt\<close>, the number of which is \<open>k\<close>; None when the torrent stays unknown.\<close>

fun info_attempts :: "('w, json) program \<Rightarrow> nat \<Rightarrow> nat \<Rightarrow> ('w, json option) program" where
  "info_attempts get_info 0 k = return_io None"
| "info_attempts get_info (Suc n) k =
     catch_io (bind_io get_info (\<lambda>v. return_io (Some v)))
       (\<lambda>e. if \<not> is_unknown_resource_error e then raise_io e
            else if n > 0 then bind_io (sleep_io (of_nat k / 2)) (\<lambda>_. info_attempts get_info n (k + 1))
            else return_io None)"

fun create_attempts :: "'w account \<Rightarrow> ('w, json) program \<Rightarrow> nat \<Rightarrow> ('w, json) program" where
  "create_attempts rd create 0 = raise_io (provider_error ''Failed to add magnet link to Real-Debrid'' ''transfer_error.mp4'')"
| "create_attempts rd create (Suc n) =
     bind_io create (\<lambda>torrent_id.
       bind_io (info_attempts (get_torrent_info rd torrent_id) 3 1) (\<lambda>found.
         case found of
           Some info \<Rightarrow> return_io info
         | None \<Rightarrow>
             if n > 0 then bind_io (sleep_io (1 / 2)) (\<lambda>_. create_attempts rd create n)
             else raise_io (provider_error ''Failed to fetch torrent info from Real-Debrid'' ''transfer_error.mp4'')))"

definition json_field :: "dict \<Rightarrow> string \<Rightarrow> json" where
  "json_field d k = (case map_of d k of Some v \<Rightarrow> v | None \<Rightarrow> JNull)"

definition add_new_torrent :: "'w account \<Rightarrow> string \<Rightarrow> string \<Rightarrow> string option \<Rightarrow> ('w, json) program" where
  "add_new_torrent rd magnet_link wanted_hash torrent_file =
     bind_io (get_active_torrents rd) (\<lambda>active.
       case active of
         JDict d \<Rightarrow>
           if py_eq (json_field d ''limit'') (json_field d ''nb'') then
             raise_io (provider_error ''Torrent limit reached. Please try again later.'' ''torrent_limit.mp4'')
           else
             bind_io (python_io (py_in wanted_hash (if truthy (json_field d ''list'') then json_field d ''list'' else JList []))) (\<lambda>already.
               if already then raise_io (provider_error ''Torrent is already being downloading'' ''torrent_not_downloaded.mp4'')
               else create_attempts rd (create_torrent rd torrent_file magnet_link) 2)
       | _ \<Rightarrow> raise_io (provider_error ''Failed to fetch Real-Debrid active torrents'' ''api_error.mp4''))"

section \<open>The link of a file\<close>

text \<open>Indexing a list; Python's \<open>1 == True == 1.0\<close>; the search in a list tries identity, then equality.\<close>

definition item_at :: "json \<Rightarrow> nat \<Rightarrow> json py_result" where
  "item_at v i = (case v of JList vs \<Rightarrow> if i < length vs then Inr (vs ! i) else Inl IndexError | JDict _ \<Rightarrow> Inl KeyError | _ \<Rightarrow> Inl TypeError)"

definition is_one :: "json \<Rightarrow> bool" where
  "is_one v \<longleftrightarrow> v = JInt 1 \<or> v = JBool True \<or> v = JFloat 1"

fun selected_of :: "json list \<Rightarrow> json list py_result" where
  "selected_of [] = Inr []"
| "selected_of (f # fs) =
     bind_result (py_getitem f ''selected'') (\<lambda>v. bind_result (selected_of fs) (\<lambda>rest. Inr (if is_one v then f # rest else rest)))"

fun index_of :: "json list \<Rightarrow> json \<Rightarrow> nat py_result" where
  "index_of [] v = Inl ValueError"
| "index_of (w # ws) v = (if w = v \<or> py_eq w v then Inr 0 else bind_result (index_of ws v) (\<lambda>i. Inr (Suc i)))"

text \<open>What the files and links of a torrent say about the file at an index.\<close>

record file_choice =
  chosen_file :: json
  link_position :: "nat option"

definition choose_file :: "json \<Rightarrow> nat \<Rightarrow> file_choice py_result" where
  "choose_file torrent_info i =
     bind_result (py_getitem torrent_info ''files'') (\<lambda>fs.
       bind_result (item_at fs i) (\<lambda>relevant_file.
         bind_result (bind_result (py_iter fs) selected_of) (\<lambda>selected_files.
           bind_result (py_get relevant_file ''selected'' JNull) (\<lambda>sel.
             if \<not> is_one sel then Inr \<lparr>chosen_file = relevant_file, link_position = None\<rparr>
             else bind_result (bind_result (py_getitem torrent_info ''links'') py_len) (\<lambda>n.
               if int (length selected_files) \<noteq> n then Inr \<lparr>chosen_file = relevant_file, link_position = None\<rparr>
               else bind_result (index_of selected_files relevant_file) (\<lambda>p. Inr \<lparr>chosen_file = relevant_file, link_position = Some p\<rparr>))))))"

definition link_at :: "json \<Rightarrow> nat \<Rightarrow> json py_result" where
  "link_at torrent_info i = bind_result (py_getitem torrent_info ''links'') (\<lambda>ls. item_at ls i)"

definition unrestrict :: "'w account \<Rightarrow> json \<Rightarrow> ('w, json) program" where
  "unrestrict rd link =
     bind_io (rd_create_link rd link) (\<lambda>d.
       let mime_type = (if truthy (json_field d ''mimeType'') then json_str (json_field d ''mimeType'') else [])
       in if \<not> py_startswith mime_type ''video'' then
            raise_io (provider_error (''Requested file is not a video file, deleting torrent and retrying. '' @ mime_type) ''torrent_not_downloaded.mp4'')
          else return_io (json_field d ''download''))"

definition rd_wait :: "'w account \<Rightarrow> json \<Rightarrow> string \<Rightarrow> nat \<Rightarrow> rat \<Rightarrow> json \<Rightarrow> ('w, dict) program" where
  "rd_wait rd torrent_id target max_retries interval torrent_info =
     wait_for_status (\<lambda>_. False) (get_torrent_info rd torrent_id) (JStr target) max_retries interval torrent_info"

definition create_download_link ::
  "'w account \<Rightarrow> (json \<Rightarrow> ('w, nat) program) \<Rightarrow> string \<Rightarrow> json \<Rightarrow> nat \<Rightarrow> rat \<Rightarrow> ('w, json) program" where
  "create_download_link rd select magnet_link torrent_info max_retries interval =
     bind_io (select torrent_info) (\<lambda>i.
       bind_io (python_io (choose_file torrent_info i)) (\<lambda>choice.
         case link_position choice of
           Some p \<Rightarrow> bind_io (python_io (link_at torrent_info p)) (unrestrict rd)
         | None \<Rightarrow>
             bind_io (python_io (py_getitem torrent_info ''id'')) (\<lambda>old_id.
             bind_io (delete_torrent rd old_id) (\<lambda>_.
             bind_io (bind_io (add_magnet_link rd magnet_link) extract_torrent_id) (\<lambda>torrent_id.
             bind_io (rd_wait rd torrent_id ''waiting_files_selection'' max_retries interval JNull) (\<lambda>info.
             bind_io (python_io (py_getitem (JDict info) ''id'')) (\<lambda>new_id.
             bind_io (python_io (bind_result (bind_result (py_getitem (JDict info) ''files'') (\<lambda>fs. item_at fs i))
                                   (\<lambda>f. py_getitem f ''id''))) (\<lambda>file_id.
             bind_io (start_torrent_download rd new_id file_id) (\<lambda>_.
             bind_io (rd_wait rd torrent_id ''downloaded'' max_retries interval JNull) (\<lambda>info'.
             bind_io (python_io (link_at (JDict info') 0)) (unrestrict rd)))))))))))"

section \<open>Playing\<close>

definition play_torrent ::
  "'w account \<Rightarrow> (json \<Rightarrow> ('w, nat) program) \<Rightarrow> string \<Rightarrow> string \<Rightarrow> string option \<Rightarrow> nat \<Rightarrow> rat \<Rightarrow> ('w, json) program" where
  "play_torrent rd select wanted_hash magnet_link torrent_file max_retries interval =
     bind_io (get_available_torrent rd wanted_hash) (\<lambda>available.
     bind_io (case available of
                Some t \<Rightarrow> if truthy t then return_io t else add_new_torrent rd magnet_link wanted_hash torrent_file
              | None \<Rightarrow> add_new_torrent rd magnet_link wanted_hash torrent_file) (\<lambda>torrent_info.
     bind_io (python_io (py_getitem torrent_info ''id'')) (\<lambda>torrent_id.
     bind_io (python_io (py_getitem torrent_info ''status'')) (\<lambda>status.
     bind_io
       (if status \<in> JStr ` {''magnet_error'', ''error'', ''virus'', ''dead''} then
          bind_io (delete_torrent rd torrent_id) (\<lambda>_.
            raise_io (provider_error (''Torrent cannot be downloaded due to status: '' @ json_str status) ''transfer_error.mp4''))
        else if status \<notin> JStr ` {''queued'', ''downloading'', ''downloaded''} then
          bind_io (rd_wait rd torrent_id ''waiting_files_selection'' max_retries interval torrent_info) (\<lambda>info.
          bind_io (python_io (py_getitem (JDict info) ''id'')) (\<lambda>waiting_id.
            catch_io (bind_io (start_torrent_download rd waiting_id (JStr ''all'')) (\<lambda>_. return_io ()))
              (\<lambda>e. bind_io (delete_torrent rd torrent_id) (\<lambda>_.
                 raise_io (provider_error (''Failed to start torrent download, '' @ message e) ''transfer_error.mp4'')))))
        else return_io ()) (\<lambda>_.
     bind_io (rd_wait rd torrent_id ''downloaded'' max_retries interval JNull) (\<lambda>info.
       create_download_link rd select magnet_link (JDict info) max_retries interval))))))"

section \<open>A session\<close>

text \<open>The token is the key of a private account or three parts, with which an access token is asked for first.\<close>

definition rd_encode_token :: "string \<Rightarrow> string \<Rightarrow> string \<Rightarrow> string" where
  "rd_encode_token token_code client_id client_secret = b64encode (client_id @ '':'' @ client_secret @ '':'' @ token_code)"

definition rd_decode_token :: "string \<Rightarrow> (string \<times> string \<times> string) option" where
  "rd_decode_token token =
     (case bind_result (b64decode token) py_decode of
        Inr bs \<Rightarrow> (case split_char CHR '':'' bs of [client_id, client_secret, token_code] \<Rightarrow> Some (client_id, client_secret, token_code) | _ \<Rightarrow> None)
      | Inl _ \<Rightarrow> None)"

definition get_token :: "'w account \<Rightarrow> string \<Rightarrow> string \<Rightarrow> string \<Rightarrow> ('w, json) program" where
  "get_token rd client_id client_secret device_code =
     rd_request rd plain_flags ''POST'' (OAUTH_URL @ ''/token'') []
       (Form [(''client_id'', JStr client_id), (''client_secret'', JStr client_secret), (''code'', JStr device_code),
              (''grant_type'', JStr ''http://oauth.net/grant_type/device/1.0'')])"

definition initialize_headers :: "'w account \<Rightarrow> string \<Rightarrow> ('w, string option) program" where
  "initialize_headers rd token =
     (if token = [] then return_io (rd_bearer rd)
      else case rd_decode_token token of
        None \<Rightarrow> return_io (Some token)
      | Some (client_id, client_secret, token_code) \<Rightarrow>
          bind_io (get_token rd client_id client_secret token_code) (\<lambda>access.
          bind_io (python_io (py_getitem access ''access_token'')) (\<lambda>t. return_io (Some (json_str t)))))"

text \<open>Leaving disables the access token, except that of a private account; an error of the client is passed over.\<close>

definition close_session :: "'w account \<Rightarrow> string \<Rightarrow> ('w, unit) program" where
  "close_session rd token =
     (if token \<noteq> [] \<and> rd_decode_token token \<noteq> None
      then catch_io (bind_io (disable_access_token rd) (\<lambda>_. return_io ())) (\<lambda>_. return_io ()) else return_io ())"

definition with_session :: "'w account \<Rightarrow> string \<Rightarrow> ('w account \<Rightarrow> ('w, 'a) program) \<Rightarrow> ('w, 'a) program" where
  "with_session rd token body =
     bind_io (initialize_headers rd token) (\<lambda>b s.
       case body (rd\<lparr>rd_bearer := b\<rparr>) s of
         (r, s') \<Rightarrow> (case close_session (rd\<lparr>rd_bearer := b\<rparr>) token s' of (Inl e, s'') \<Rightarrow> (Inl e, s'') | (Inr _, s'') \<Rightarrow> (r, s'')))"

definition get_video_url_from_realdebrid ::
  "'w account \<Rightarrow> string \<Rightarrow> (json \<Rightarrow> ('w, nat) program) \<Rightarrow> string \<Rightarrow> string \<Rightarrow> string option \<Rightarrow> nat \<Rightarrow> rat \<Rightarrow> ('w, json) program" where
  "get_video_url_from_realdebrid rd token select wanted_hash magnet_link torrent_file max_retries interval =
     with_session rd token (\<lambda>client. play_torrent client select wanted_hash magnet_link torrent_file max_retries interval)"

section \<open>The torrents of an account\<close>

text \<open>
  The torrents of a page that were not seen before; an id that is missing or empty is never seen. The
  text of an id is compared.
\<close>

fun add_page :: "json list \<Rightarrow> string list \<times> json list \<Rightarrow> (string list \<times> json list) py_result" where
  "add_page [] (seen_ids, found) = Inr (seen_ids, found)"
| "add_page (t # ts) (seen_ids, found) =
     bind_result (py_get t ''id'' (JStr [])) (\<lambda>v.
       let torrent_id = json_str v
       in if torrent_id \<noteq> [] \<and> torrent_id \<in> set seen_ids then add_page ts (seen_ids, found)
          else add_page ts (if torrent_id \<noteq> [] then torrent_id # seen_ids else seen_ids, found @ [t]))"

definition RD_TORRENT_LIST_PAGE_SIZE :: nat where "RD_TORRENT_LIST_PAGE_SIZE = 100"
definition RD_TORRENT_LIST_MAX_PAGES :: nat where "RD_TORRENT_LIST_MAX_PAGES = 100"

text \<open>\<open>list_pages n page\<close>: the last \<open>n\<close> rounds, from that page on. The result is None for an answer of another type.\<close>

fun list_pages :: "(nat \<Rightarrow> ('w, json) program) \<Rightarrow> nat \<Rightarrow> nat \<Rightarrow> string list \<Rightarrow> json list \<Rightarrow> ('w, json list) program" where
  "list_pages get_page 0 page seen_ids found = return_io found"
| "list_pages get_page (Suc n) page seen_ids found =
     bind_io (get_page page) (\<lambda>page_data.
       if \<not> truthy page_data then return_io found
       else case page_data of
         JList ts \<Rightarrow>
           if page = 1 \<and> RD_TORRENT_LIST_PAGE_SIZE < length ts then return_io ts
           else bind_io (python_io (add_page ts (seen_ids, found))) (\<lambda>(seen_ids', found').
                  if length found' = length found \<or> length ts < RD_TORRENT_LIST_PAGE_SIZE then return_io found'
                  else list_pages get_page n (page + 1) seen_ids' found')
       | _ \<Rightarrow> return_io [])"

definition get_all_torrents :: "'w account \<Rightarrow> ('w, json list) program" where
  "get_all_torrents rd =
     list_pages (\<lambda>page. get_user_torrent_list rd (Some (page, RD_TORRENT_LIST_PAGE_SIZE))) RD_TORRENT_LIST_MAX_PAGES 1 [] []"

fun downloaded_hashes :: "json list \<Rightarrow> json list py_result" where
  "downloaded_hashes [] = Inr []"
| "downloaded_hashes (t # ts) =
     bind_result (py_getitem t ''status'') (\<lambda>st.
       if st = JStr ''downloaded'' then
         bind_result (py_getitem t ''hash'') (\<lambda>h. bind_result (downloaded_hashes ts) (\<lambda>hs. Inr (h # hs)))
       else downloaded_hashes ts)"

definition fetch_downloaded_info_hashes_from_rd :: "'w account \<Rightarrow> string \<Rightarrow> ('w, json list) program" where
  "fetch_downloaded_info_hashes_from_rd rd token =
     catch_io (with_session rd token (\<lambda>client. bind_io (get_all_torrents client) (\<lambda>ts. python_io (downloaded_hashes ts))))
       (\<lambda>_. return_io [])"

text \<open>The streams as pairs of a hash and the flag; without a downloaded torrent they stay as they are.\<close>

definition update_rd_cache_status :: "'w account \<Rightarrow> string \<Rightarrow> (string \<times> bool) list \<Rightarrow> ('w, (string \<times> bool) list) program" where
  "update_rd_cache_status rd token streams =
     bind_io (fetch_downloaded_info_hashes_from_rd rd token) (\<lambda>hashes.
       return_io (if hashes = [] then streams else map (\<lambda>(h, _). (h, JStr h \<in> set hashes)) streams))"

text \<open>The first torrent with the hash, whatever its case, is deleted.\<close>

fun delete_first :: "'w account \<Rightarrow> string \<Rightarrow> json list \<Rightarrow> ('w, bool) program" where
  "delete_first rd wanted_hash [] = return_io False"
| "delete_first rd wanted_hash (t # ts) =
     bind_io (python_io (bind_result (py_getitem t ''hash'') (\<lambda>h. case h of JStr s \<Rightarrow> Inr s | _ \<Rightarrow> Inl AttributeError))) (\<lambda>h.
       if py_lower h = py_lower wanted_hash then
         bind_io (python_io (py_getitem t ''id'')) (\<lambda>v. bind_io (delete_torrent rd v) (\<lambda>_. return_io True))
       else delete_first rd wanted_hash ts)"

definition delete_torrent_from_rd :: "'w account \<Rightarrow> string \<Rightarrow> string \<Rightarrow> ('w, bool) program" where
  "delete_torrent_from_rd rd token wanted_hash =
     catch_io
       (with_session rd token (\<lambda>client.
          bind_io (get_user_torrent_list client None) (\<lambda>listed.
          bind_io (python_io (py_iter listed)) (delete_first client wanted_hash))))
       (\<lambda>_. return_io False)"

definition get_user_info :: "'w account \<Rightarrow> ('w, json) program" where
  "get_user_info rd = rd_request rd plain_flags ''GET'' (BASE_URL @ ''/user'') [] No_Body"

definition validate_realdebrid_credentials :: "'w account \<Rightarrow> string \<Rightarrow> ('w, dict) program" where
  "validate_realdebrid_credentials rd token =
     catch_io (with_session rd token (\<lambda>client. bind_io (get_user_info client) (\<lambda>_. return_io [(''status'', JStr ''success'')])))
       (\<lambda>e. return_io [(''status'', JStr ''error''), (''message'', JStr (''Failed to verify RealDebrid credential, error: '' @ message e))])"

end
