(* ===== verification/Real_Debrid_Correct.thy ===== *)
theory Real_Debrid_Correct
  imports Real_Debrid
begin

text \<open>
  What playing through Real-Debrid promises: a bound on the requests and on the time spent waiting, which
  torrents may be deleted, and which link is opened.
\<close>

section \<open>Bounds\<close>

lemma spends_then: "spends n1 t1 m \<Longrightarrow> (\<And>v. spends n2 t2 (f v)) \<Longrightarrow> spends (n1 + n2) (t1 + t2) (bind_io m f)"
  by (rule spends_bind) (auto simp: spends_def)

lemma spends_free: "spends 0 0 m \<Longrightarrow> (\<And>v. spends n t (f v)) \<Longrightarrow> spends n t (bind_io m f)"
  using spends_then[of 0 0 m n t f] by simp

lemma spends_rd: "spends 2 0 (rd_request rd flags verb url params body)"
  unfolding rd_request_def by (rule spends_bind[OF spends_request]) (simp_all add: spends_pure)


lemma spends_client:
  "spends 2 0 (add_magnet_link rd magnet_link)" "spends 2 0 (add_torrent_file rd torrent_file)" "spends 2 0 (get_active_torrents rd)"
  "spends 2 0 (get_user_torrent_list rd pl)" "spends 2 0 (get_torrent_info rd i)" "spends 2 0 (disable_access_token rd)"
  "spends 2 0 (start_torrent_download rd i fs)" "spends 2 0 (delete_torrent rd i)" "spends 2 0 (get_token rd a b c)"
  by (simp_all add: add_magnet_link_def add_torrent_file_def get_active_torrents_def get_user_torrent_list_def get_torrent_info_def
      disable_access_token_def start_torrent_download_def delete_torrent_def get_token_def spends_rd)

lemma spends_extract: "0 \<le> t \<Longrightarrow> spends n t (extract_torrent_id v)"
  by (auto simp: extract_torrent_id_def Let_def spends_pure split: json.split option.split)

lemma spends_create: "spends 2 0 (create_torrent rd torrent_file magnet_link)"
  unfolding create_torrent_def
  by (rule spends_bind[where ?n1.0 = 2 and ?t1.0 = 0]) (auto simp: spends_client spends_extract split: option.split list.split)

lemma spends_info_last: "spends 2 0 get_info \<Longrightarrow> spends 2 0 (info_attempts get_info (Suc 0) k)"
  unfolding info_attempts.simps
  by (rule spends_catch[OF spends_bind, of 2 0 _ 2 0]) (simp_all add: spends_pure)

lemma spends_info_again:
  assumes "spends 2 0 get_info" and "spends (2 * n) t (info_attempts get_info n (k + 1))"
  shows "spends (2 * Suc n) (of_nat k / 2 + t) (info_attempts get_info (Suc n) k)"
proof -
  have "0 \<le> t" using assms(2) by (simp add: spends_def)
  moreover have "spends (2 * n) (of_nat k / 2 + t) (bind_io (sleep_io (of_nat k / 2)) (\<lambda>_. info_attempts get_info n (k + 1)))"
    using spends_then[OF spends_sleep assms(2), of "of_nat k / 2"] by simp
  ultimately show ?thesis
    unfolding info_attempts.simps
    by (intro spends_catch[OF spends_bind[OF assms(1), of 2 0]]) (simp_all add: spends_pure)
qed

lemma spends_create_attempts: "spends (8 * n) (2 * of_nat n) (create_attempts rd (create_torrent rd torrent_file magnet_link) n)"
proof (induction n)
  case (Suc n)
  have infos: "spends 6 (3 / 2) (info_attempts (get_torrent_info rd i) 3 1)" for i
  proof -
    have "spends (2 * Suc 1) (of_nat 2 / 2 + 0) (info_attempts (get_torrent_info rd i) (Suc 1) 2)"
      by (rule spends_info_again) (simp_all add: spends_client spends_info_last del: info_attempts.simps)
    then have "spends (2 * Suc (Suc 1)) (of_nat 1 / 2 + (of_nat 2 / 2 + 0)) (info_attempts (get_torrent_info rd i) (Suc (Suc 1)) 1)"
      by (intro spends_info_again spends_client) (simp add: numeral_2_eq_2 del: info_attempts.simps)
    then show ?thesis by (simp add: eval_nat_numeral del: info_attempts.simps)
  qed
  have again: "spends (8 * n) (2 * of_nat n + 1 / 2)
      (bind_io (sleep_io (1 / 2)) (\<lambda>_. create_attempts rd (create_torrent rd torrent_file magnet_link) n))"
    using spends_then[OF spends_sleep[of "1 / 2"] Suc.IH] by (simp add: add.commute)
  have "spends (2 + (6 + 8 * n)) (0 + (3 / 2 + (2 * of_nat n + 1 / 2))) (create_attempts rd (create_torrent rd torrent_file magnet_link) (Suc n))"
    unfolding create_attempts.simps
    by (rule spends_then[OF spends_create spends_then[OF infos]])
      (use again in \<open>auto simp: spends_pure split: option.split\<close>)
  then show ?case by (simp add: add.commute)
qed (simp add: spends_pure)

lemma spends_add_new: "spends 18 4 (add_new_torrent rd magnet_link wanted_hash torrent_file)"
proof -
  have "spends 16 4 (bind_io (python_io r) (\<lambda>already.
      if already then raise_io (provider_error ''Torrent is already being downloading'' ''torrent_not_downloaded.mp4'')
      else create_attempts rd (create_torrent rd torrent_file magnet_link) 2))" for r
    by (rule spends_free) (use spends_create_attempts[of 2 rd torrent_file magnet_link] in \<open>auto simp: spends_pure\<close>)
  then show ?thesis
    unfolding add_new_torrent_def
    by (intro spends_bind[OF spends_client(3)]) (auto simp: spends_pure split: json.split)
qed

definition wait_time :: "nat \<Rightarrow> rat \<Rightarrow> rat" where
  "wait_time max_retries interval = of_nat (max_retries - 1) * interval"

lemma wait_time_pos: "0 \<le> interval \<Longrightarrow> 0 \<le> wait_time n interval"
  by (simp add: wait_time_def)

lemma spends_rd_wait: "0 \<le> interval \<Longrightarrow> spends (2 * n) (wait_time n interval) (rd_wait rd i target n interval info)"
  unfolding rd_wait_def wait_time_def by (rule spends_wait[OF spends_client(5)])

lemma spends_unrestrict: "spends 2 0 (unrestrict rd link)"
proof -
  have "spends 2 0 (rd_create_link rd link)"
    unfolding rd_create_link_def
    by (rule spends_bind[OF spends_rd]) (auto simp: Let_def spends_pure split: json.split option.split)
  then show ?thesis unfolding unrestrict_def by (rule spends_bind) (auto simp: Let_def spends_pure)
qed

lemma spends_open: "spends 2 0 (bind_io (python_io r) (unrestrict rd))"
  by (rule spends_free) (simp_all add: spends_pure spends_unrestrict)

lemma spends_create_download_link:
  assumes "\<And>v. spends 0 0 (select v)" and "0 \<le> interval"
  shows "spends (8 + 4 * n) (2 * wait_time n interval) (create_download_link rd select magnet_link info n interval)"
proof -
  note rules = spends_then[OF spends_client(8)] spends_then[OF spends_client(7)] spends_then[OF spends_rd_wait[OF assms(2)]]
  have wait: "0 \<le> wait_time n interval" using assms(2) by (rule wait_time_pos)
  have add: "spends 2 0 (bind_io (add_magnet_link rd magnet_link) extract_torrent_id)"
    by (rule spends_bind[OF spends_client(1)]) (simp_all add: spends_extract)
  have free: "spends 0 0 (python_io r)" for r :: "'x py_result" by (simp add: spends_pure)
  show ?thesis
    unfolding create_download_link_def
  proof (intro spends_free[OF assms(1)] spends_free[OF free], split option.split, intro conjI allI impI)
    fix choice p
    show "spends (8 + 4 * n) (2 * wait_time n interval) (bind_io (python_io (link_at info p)) (unrestrict rd))"
      by (rule spends_weaken[OF spends_open]) (simp_all add: wait)
  next
    fix i choice
    show "spends (8 + 4 * n) (2 * wait_time n interval)
      (bind_io (python_io (py_getitem info ''id'')) (\<lambda>old_id.
       bind_io (delete_torrent rd old_id) (\<lambda>_.
       bind_io (bind_io (add_magnet_link rd magnet_link) extract_torrent_id) (\<lambda>torrent_id.
       bind_io (rd_wait rd torrent_id ''waiting_files_selection'' n interval JNull) (\<lambda>info.
       bind_io (python_io (py_getitem (JDict info) ''id'')) (\<lambda>new_id.
       bind_io (python_io (bind_result (bind_result (py_getitem (JDict info) ''files'') (\<lambda>fs. item_at fs i)) (\<lambda>f. py_getitem f ''id''))) (\<lambda>file_id.
       bind_io (start_torrent_download rd new_id file_id) (\<lambda>_.
       bind_io (rd_wait rd torrent_id ''downloaded'' n interval JNull) (\<lambda>info'.
       bind_io (python_io (link_at (JDict info') 0)) (unrestrict rd))))))))))"
      by (rule spends_weaken, rule spends_free[OF free], rule rules(1), rule spends_then[OF add], rule rules(3),
          rule spends_free[OF free], rule spends_free[OF free], rule rules(2), rule rules(3), rule spends_open) simp_all
  qed
qed

lemma spends_play:
  assumes "\<And>v. spends 0 0 (select v)" and "0 \<le> interval"
  shows "spends (32 + 8 * n) (4 + 4 * wait_time n interval) (play_torrent rd select wanted_hash magnet_link torrent_file n interval)"
proof -
  have wait: "0 \<le> wait_time n interval" using assms(2) by (rule wait_time_pos)
  have free: "spends 0 0 (python_io r)" for r :: "'x py_result" by (simp add: spends_pure)
  have found: "spends 2 0 (get_available_torrent rd wanted_hash)"
    unfolding get_available_torrent_def by (rule spends_bind[OF spends_client(4)]) (simp_all add: spends_pure)
  have dead: "spends (4 + 2 * n) (wait_time n interval) (bind_io (delete_torrent rd i) (\<lambda>_. raise_io p) :: ('a, unit) program)" for i p
    by (rule spends_bind[OF spends_client(8)]) (simp_all add: spends_pure wait)
  have start: "spends 4 0 (catch_io (bind_io (start_torrent_download rd i fs) (\<lambda>_. return_io ()))
      (\<lambda>e. bind_io (delete_torrent rd j) (\<lambda>_. raise_io (p e))))" for i fs j p
    by (rule spends_catch[OF spends_bind[OF spends_client(7), of 2 0]])
      (auto simp: spends_pure intro!: spends_bind[OF spends_client(8)])
  have waited: "spends (4 + 2 * n) (wait_time n interval)
      (bind_io (rd_wait rd i target n interval info) (\<lambda>info. bind_io (python_io (r info)) (\<lambda>w.
         catch_io (bind_io (start_torrent_download rd w fs) (\<lambda>_. return_io ()))
           (\<lambda>e. bind_io (delete_torrent rd j) (\<lambda>_. raise_io (p e))))))" for i target info r fs j p
    using spends_then[OF spends_rd_wait[OF assms(2)] spends_free[OF free start]] by (simp add: add.commute)
  have torrent: "spends 18 4 (case available of
      Some t \<Rightarrow> if truthy t then return_io t else add_new_torrent rd magnet_link wanted_hash torrent_file
    | None \<Rightarrow> add_new_torrent rd magnet_link wanted_hash torrent_file)" for available
    by (simp add: spends_add_new spends_pure split: option.split)
  note link = spends_create_download_link[of select interval n rd magnet_link, OF assms]
  have prepared: "spends (4 + 2 * n) (wait_time n interval)
      (if status \<in> A then bind_io (delete_torrent rd i) (\<lambda>_. raise_io p)
       else if status \<notin> B then
         bind_io (rd_wait rd i target n interval info) (\<lambda>info. bind_io (python_io (r info)) (\<lambda>w.
           catch_io (bind_io (start_torrent_download rd w fs) (\<lambda>_. return_io ()))
             (\<lambda>e. bind_io (delete_torrent rd j) (\<lambda>_. raise_io (q e)))))
       else return_io ())" for status A B i p target info r fs j q
    using dead waited wait by (simp add: spends_pure)
  show ?thesis
    unfolding play_torrent_def
    by (rule spends_weaken, rule spends_then[OF found], rule spends_then[OF torrent], rule spends_free[OF free], rule spends_free[OF free],
        rule spends_then[OF prepared], rule spends_then[OF spends_rd_wait[OF assms(2)]], rule link) simp_all
qed

section \<open>Deletions\<close>

text \<open>
  The ids that an exchange gives the client: those of the listed torrents with the wanted hash, and that of
  a torrent that was added. \<open>deletes_ok\<close>: only such torrents are deleted, and only after they were given.
\<close>

definition given_ids :: "string \<Rightarrow> event \<Rightarrow> json list" where
  "given_ids wanted_hash e =
     (case e of
        Exchange q (Inr client_reply) \<Rightarrow>
          if req_url q = BASE_URL @ ''/torrents'' then
            (case reply_body client_reply of
               JList ts \<Rightarrow> List.map_filter (\<lambda>t. case t of
                   JDict d \<Rightarrow> if map_of d ''hash'' = Some (JStr wanted_hash) then map_of d ''id'' else None
                 | _ \<Rightarrow> None) ts
             | _ \<Rightarrow> [])
          else if req_url q = BASE_URL @ ''/torrents/addMagnet'' \<or> req_url q = BASE_URL @ ''/torrents/addTorrent'' then
            (case reply_body client_reply of JDict d \<Rightarrow> (case map_of d ''id'' of Some x \<Rightarrow> [x] | None \<Rightarrow> []) | _ \<Rightarrow> [])
          else []
      | _ \<Rightarrow> [])"

definition given_urls :: "string \<Rightarrow> event list \<Rightarrow> string list" where
  "given_urls wanted_hash evs = map delete_url (concat (map (given_ids wanted_hash) evs))"

fun event_ok :: "string list \<Rightarrow> event \<Rightarrow> bool" where
  "event_ok urls (Exchange q a) \<longleftrightarrow> (if req_verb q = ''DELETE'' then req_url q \<in> set urls else True)"
| "event_ok urls (Slept t) \<longleftrightarrow> True"

fun deletes_ok :: "string \<Rightarrow> string list \<Rightarrow> event list \<Rightarrow> bool" where
  "deletes_ok wanted_hash urls [] \<longleftrightarrow> True"
| "deletes_ok wanted_hash urls (e # evs) \<longleftrightarrow>
     event_ok urls e \<and> deletes_ok wanted_hash (urls @ given_urls wanted_hash [e]) evs"

lemma given_urls_append: "given_urls h (es @ fs) = given_urls h es @ given_urls h fs"
  by (simp add: given_urls_def)

lemma deletes_ok_append: "deletes_ok h urls (es @ fs) \<longleftrightarrow> deletes_ok h urls es \<and> deletes_ok h (urls @ given_urls h es) fs"
  by (induction es arbitrary: urls) (simp_all add: given_urls_def)

text \<open>Programs that delete nothing else, given that the deletion of \<open>X\<close> is allowed; what they return allows \<open>Q\<close>.\<close>

definition keeps :: "string \<Rightarrow> string set \<Rightarrow> ('w, 'a) program \<Rightarrow> ('a \<Rightarrow> string set) \<Rightarrow> bool" where
  "keeps h X m Q \<longleftrightarrow>
     (\<forall>s. deletes_ok h [] (events s) \<and> X \<subseteq> set (given_urls h (events s)) \<longrightarrow>
        deletes_ok h [] (events (snd (m s))) \<and> set (given_urls h (events s)) \<subseteq> set (given_urls h (events (snd (m s)))) \<and>
        (\<forall>v. fst (m s) = Inr v \<longrightarrow> Q v \<subseteq> set (given_urls h (events (snd (m s))))))"

lemma keepsD:
  assumes "keeps h X m Q" "deletes_ok h [] (events s)" "X \<subseteq> set (given_urls h (events s))" "m s = (r, s')"
  shows "deletes_ok h [] (events s')" "set (given_urls h (events s)) \<subseteq> set (given_urls h (events s'))"
    "r = Inr v \<Longrightarrow> Q v \<subseteq> set (given_urls h (events s'))"
  using assms by (auto simp: keeps_def dest!: spec[of _ s])

lemma keeps_pure:
  "Q v \<subseteq> X \<Longrightarrow> keeps h X (return_io v) Q" "keeps h X (raise_io p) Q"
  by (auto simp: keeps_def return_io_def raise_io_def)

lemma keeps_sleep: "keeps h X (sleep_io t) (\<lambda>_. {})"
  by (simp add: keeps_def sleep_io_def deletes_ok_append given_urls_append)

lemma keeps_bind:
  assumes m: "keeps h X (m :: ('w, _) program) Q" and f: "\<And>v. keeps h (X \<union> Q v) (f v) R"
  shows "keeps h X (bind_io m f) R"
  unfolding keeps_def
proof (intro allI impI)
  fix s :: "'w connection"
  assume "deletes_ok h [] (events s) \<and> X \<subseteq> set (given_urls h (events s))"
  then have pre: "deletes_ok h [] (events s)" "X \<subseteq> set (given_urls h (events s))" by auto
  obtain r s1 where one: "m s = (r, s1)" by fastforce
  note m1 = keepsD(1,2)[OF m pre one]
  show "deletes_ok h [] (events (snd (bind_io m f s))) \<and> set (given_urls h (events s)) \<subseteq> set (given_urls h (events (snd (bind_io m f s)))) \<and>
    (\<forall>v. fst (bind_io m f s) = Inr v \<longrightarrow> R v \<subseteq> set (given_urls h (events (snd (bind_io m f s)))))"
  proof (cases r)
    case (Inl e)
    then show ?thesis using one m1 by (simp add: bind_io_def)
  next
    case (Inr v)
    have X1: "X \<union> Q v \<subseteq> set (given_urls h (events s1))" using keepsD(3)[OF m pre one Inr] m1 pre by blast
    obtain r2 s2 where two: "f v s1 = (r2, s2)" by fastforce
    have run: "bind_io m f s = (r2, s2)" using one two Inr by (simp add: bind_io_def)
    show ?thesis
      unfolding run fst_conv snd_conv
      using keepsD(1,2)[OF f[of v] m1(1) X1 two] keepsD(3)[OF f[of v] m1(1) X1 two] m1(2) by blast
  qed
qed

lemma keeps_catch:
  assumes m: "keeps h X (m :: ('w, _) program) Q" and f: "\<And>p. keeps h X (f p) Q"
  shows "keeps h X (catch_io m f) Q"
  unfolding keeps_def
proof (intro allI impI)
  fix s :: "'w connection"
  assume "deletes_ok h [] (events s) \<and> X \<subseteq> set (given_urls h (events s))"
  then have pre: "deletes_ok h [] (events s)" "X \<subseteq> set (given_urls h (events s))" by auto
  obtain r s1 where one: "m s = (r, s1)" by fastforce
  note m1 = keepsD(1,2)[OF m pre one]
  show "deletes_ok h [] (events (snd (catch_io m f s))) \<and> set (given_urls h (events s)) \<subseteq> set (given_urls h (events (snd (catch_io m f s)))) \<and>
    (\<forall>v. fst (catch_io m f s) = Inr v \<longrightarrow> Q v \<subseteq> set (given_urls h (events (snd (catch_io m f s)))))"
  proof (cases "\<exists>p. r = Inl (Provider_Failed p)")
    case True
    then obtain p where r: "r = Inl (Provider_Failed p)" by blast
    obtain r2 s2 where two: "f p s1 = (r2, s2)" by fastforce
    have run: "catch_io m f s = (r2, s2)" using one two r by (simp add: catch_io_def)
    have X1: "X \<subseteq> set (given_urls h (events s1))" using pre m1 by blast
    show ?thesis
      unfolding run fst_conv snd_conv
      using keepsD(1,2)[OF f[of p] m1(1) X1 two] keepsD(3)[OF f[of p] m1(1) X1 two] m1(2) by blast
  next
    case False
    then have "catch_io m f s = (r, s1)" using one by (auto simp: catch_io_def split: sum.splits failure.splits)
    then show ?thesis using m1 keepsD(3)[OF m pre one] by auto
  qed
qed

lemma keeps_python: "(\<And>v. r = Inr v \<Longrightarrow> keeps h X (f v) R) \<Longrightarrow> keeps h X (bind_io (python_io r) f) R"
  by (cases r) (auto simp: keeps_def bind_io_def python_io_def)

lemma keeps_python_last: "(\<And>v. r = Inr v \<Longrightarrow> Q v \<subseteq> X) \<Longrightarrow> keeps h X (python_io r) Q"
  by (cases r) (auto simp: keeps_def python_io_def)

lemma keeps_more: "keeps h X m Q \<Longrightarrow> X \<subseteq> Y \<Longrightarrow> (\<And>v. Q' v \<subseteq> Q v \<union> Y) \<Longrightarrow> keeps h Y m Q'"
  unfolding keeps_def by (meson Un_least subset_trans)

section \<open>Requests that delete\<close>

text \<open>What a plain request returns is the JSON of a response.\<close>

lemma exchange_value:
  assumes "exchange cfg service plain_flags req s = (Inr (Body v), s')"
  shows "\<exists>w resp. fst (service req w) = Inr resp \<and> resp_json resp = Inr v"
proof -
  obtain answer w where a: "service req (peer s) = (answer, w)" by fastforce
  then obtain resp where resp: "answer = Inr resp"
    and parsed: "parse_response False False False resp = Inr (Body v)"
    using assms by (auto simp: exchange_def Let_def read_def result_simps split: sum.splits)
  have "resp_json resp = Inr v"
    using parsed by (auto simp: parse_response_def Let_def result_simps read_def split: sum.splits if_splits)
  then show ?thesis using a resp by (metis fst_conv)
qed

lemma make_request_value:
  assumes "make_request cfg service plain_flags req 0 s = (Inr (Body v), s')"
  shows "\<exists>w resp. fst (service req w) = Inr resp \<and> resp_json resp = Inr v"
proof -
  obtain r1 s1 where one: "exchange cfg service plain_flags req s = (r1, s1)" by fastforce
  obtain r2 s2 where two: "exchange cfg service plain_flags req s1 = (r2, s2)" by fastforce
  have "r1 = Inr (Body v) \<or> r2 = Inr (Body v)"
    using assms one two
    by (auto simp: make_request.simps[of cfg service plain_flags req 0] make_request.simps[of cfg service plain_flags req "Suc 0"]
        split: sum.splits thrown.splits if_splits)
  then show ?thesis using one two exchange_value by metis
qed

lemma exchange_plain: "exchange cfg service plain_flags req s = (Inr client_reply, s') \<Longrightarrow> client_reply \<noteq> Http_Response resp v"
  by (auto simp: exchange_def parse_response_def Let_def result_simps read_def split: sum.splits if_splits prod.splits)

lemma make_request_plain:
  assumes "make_request cfg service plain_flags req 0 s = (Inr client_reply, s')"
  shows "client_reply \<noteq> Http_Response resp v"
proof -
  obtain r1 s1 where one: "exchange cfg service plain_flags req s = (r1, s1)" by fastforce
  obtain r2 s2 where two: "exchange cfg service plain_flags req s1 = (r2, s2)" by fastforce
  have "r1 = Inr client_reply \<or> r2 = Inr client_reply"
    using assms one two
    by (auto simp: make_request.simps[of cfg service plain_flags req 0] make_request.simps[of cfg service plain_flags req "Suc 0"]
        split: sum.splits thrown.splits if_splits)
  then show ?thesis using one two exchange_plain by blast
qed

abbreviation rd_req :: "'w account \<Rightarrow> string \<Rightarrow> string \<Rightarrow> (string \<times> string) list \<Rightarrow> request_body \<Rightarrow> http_request" where
  "rd_req rd verb url params body \<equiv>
     \<lparr>req_verb = verb, req_url = url, req_params = params, req_body = with_ip (rd_user_ip rd) verb body, bearer = rd_bearer rd\<rparr>"

lemma rd_request_cases:
  assumes "rd_request rd flags verb url params body s = (r, s')"
  shows "\<exists>a. (events s' = events s @ [Exchange (rd_req rd verb url params body) a] \<or>
      (\<exists>b. events s' = events s @ [Exchange (rd_req rd verb url params body) (Inl b), Exchange (rd_req rd verb url params body) a])) \<and>
    (\<forall>v. r = Inr v \<longrightarrow> (\<exists>client_reply. a = Inr client_reply \<and> v = reply_body client_reply))"
proof -
  let ?q = "rd_req rd verb url params body"
  let ?cfg = "\<lparr>service_errors = \<lambda>d _. mapped_error d, json_loads = rd_loads rd\<rparr>"
  obtain r0 s0 where run: "make_request ?cfg (rd_service rd) flags ?q 0 s = (r0, s0)" by fastforce
  have s0: "s' = s0" and r: "\<And>v. r = Inr v \<Longrightarrow> \<exists>client_reply. r0 = Inr client_reply \<and> v = reply_body client_reply"
    using assms run by (auto simp: rd_request_def request_io_def bind_io_def return_io_def split: sum.splits)
  from make_request_run[OF run] show ?thesis
  proof (elim disjE exE conjE)
    fix a
    assume "events s0 = events s @ [Exchange ?q a]" "answered r0 a"
    then show ?thesis using r s0 by (intro exI[of _ a]) auto
  next
    fix a a'
    assume "events s0 = events s @ [Exchange ?q a, Exchange ?q a']" "transient a" "answered r0 a'"
    moreover then obtain b where "a = Inl b" by (cases a) auto
    ultimately show ?thesis using r s0 by (intro exI[of _ a']) auto
  qed
qed

lemma keeps_rd:
  assumes ok: "verb = ''DELETE'' \<Longrightarrow> url \<in> X"
    and Q: "\<And>client_reply. Q (reply_body client_reply) \<subseteq>
      set (given_urls h [Exchange (rd_req rd verb url params body) (Inr client_reply)]) \<union> X"
  shows "keeps h X (rd_request rd flags verb url params body) Q"
  unfolding keeps_def
proof (intro allI impI)
  fix s :: "'a connection"
  assume pre: "deletes_ok h [] (events s) \<and> X \<subseteq> set (given_urls h (events s))"
  let ?q = "rd_req rd verb url params body"
  obtain r s' where run: "rd_request rd flags verb url params body s = (r, s')" by fastforce
  obtain a where ev: "events s' = events s @ [Exchange ?q a] \<or> (\<exists>b. events s' = events s @ [Exchange ?q (Inl b), Exchange ?q a])"
    and val: "\<And>v. r = Inr v \<Longrightarrow> \<exists>client_reply. a = Inr client_reply \<and> v = reply_body client_reply"
    using rd_request_cases[OF run] by (elim exE conjE) (rule that, assumption, blast)
  have event: "event_ok (given_urls h (events s)) (Exchange ?q c)" for c using ok pre by auto
  have none: "given_urls h [Exchange ?q (Inl b)] = []" for b by (simp add: given_urls_def given_ids_def)
  have both: "given_urls h [Exchange ?q (Inl b), Exchange ?q c] = given_urls h [Exchange ?q c]" for b c
    using given_urls_append[of h "[Exchange ?q (Inl b)]" "[Exchange ?q c]"] none by simp
  have "deletes_ok h [] (events s')" "given_urls h (events s') = given_urls h (events s) @ given_urls h [Exchange ?q a]"
    using ev pre event both none by (auto simp: deletes_ok_append given_urls_append)
  moreover have "Q v \<subseteq> set (given_urls h (events s) @ given_urls h [Exchange ?q a])" if "r = Inr v" for v
    using val[OF that] Q pre by fastforce
  ultimately show "deletes_ok h [] (events (snd (rd_request rd flags verb url params body s))) \<and>
    set (given_urls h (events s)) \<subseteq> set (given_urls h (events (snd (rd_request rd flags verb url params body s)))) \<and>
    (\<forall>v. fst (rd_request rd flags verb url params body s) = Inr v \<longrightarrow>
       Q v \<subseteq> set (given_urls h (events (snd (rd_request rd flags verb url params body s)))))"
    by (simp add: run)
qed

definition urls_of :: "json \<Rightarrow> string set" where
  "urls_of v = (case v of JDict d \<Rightarrow> (case map_of d ''id'' of Some x \<Rightarrow> {delete_url x} | None \<Rightarrow> {}) | _ \<Rightarrow> {})"

text \<open>What the service tells about a torrent bears the id that it was asked for.\<close>

definition honest :: "(http_request \<Rightarrow> 'w \<Rightarrow> (net_error + http_answer) \<times> 'w) \<Rightarrow> bool" where
  "honest service \<longleftrightarrow>
     (\<forall>q w resp d i x. fst (service q w) = Inr resp \<and> resp_json resp = Inr (JDict d) \<and> req_url q = info_url i \<and>
        map_of d ''id'' = Some x \<longrightarrow> json_str x = json_str i)"

lemma honestD:
  "honest service \<Longrightarrow> fst (service q w) = Inr resp \<Longrightarrow> resp_json resp = Inr (JDict d) \<Longrightarrow> req_url q = info_url i \<Longrightarrow>
     map_of d ''id'' = Some x \<Longrightarrow> json_str x = json_str i"
  unfolding honest_def by blast

lemma keeps_value:
  assumes "keeps h X (m :: ('w, _) program) Q" and "\<And>s v s'. m s = (Inr v, s') \<Longrightarrow> Q' v \<subseteq> Q v \<union> X"
  shows "keeps h X m Q'"
  unfolding keeps_def
proof (intro allI impI)
  fix s :: "'w connection"
  assume pre: "deletes_ok h [] (events s) \<and> X \<subseteq> set (given_urls h (events s))"
  obtain r s' where run: "m s = (r, s')" by fastforce
  note facts = keepsD[OF assms(1) conjunct1[OF pre] conjunct2[OF pre] run]
  have "Q' v \<subseteq> set (given_urls h (events s'))" if "r = Inr v" for v
    using assms(2)[OF run[unfolded that]] facts(2) facts(3)[OF that] pre by blast
  then show "deletes_ok h [] (events (snd (m s))) \<and> set (given_urls h (events s)) \<subseteq> set (given_urls h (events (snd (m s)))) \<and>
    (\<forall>v. fst (m s) = Inr v \<longrightarrow> Q' v \<subseteq> set (given_urls h (events (snd (m s)))))"
    using facts(1,2) by (simp add: run)
qed

lemma delete_url_text: "json_str x = json_str y \<Longrightarrow> delete_url x = delete_url y"
  by (simp add: delete_url_def)

lemma keeps_delete: "delete_url i \<in> X \<Longrightarrow> keeps h X (delete_torrent rd i) (\<lambda>_. {})"
  unfolding delete_torrent_def by (rule keeps_rd) simp_all

lemma keeps_calls:
  "keeps h X (get_active_torrents rd) (\<lambda>_. {})" "keeps h X (start_torrent_download rd i fs) (\<lambda>_. {})"
  unfolding get_active_torrents_def start_torrent_download_def by (rule keeps_rd; simp)+

lemma keeps_add: "keeps h X (add_magnet_link rd magnet_link) urls_of" "keeps h X (add_torrent_file rd torrent_file) urls_of"
  unfolding add_magnet_link_def add_torrent_file_def
  by (rule keeps_rd; simp add: given_urls_def given_ids_def urls_of_def BASE_URL_def split: json.split option.split)+

lemma keeps_info:
  assumes "honest (rd_service rd)" and "delete_url i \<in> X"
  shows "keeps h X (get_torrent_info rd i) urls_of"
proof (rule keeps_value)
  show "keeps h X (get_torrent_info rd i) (\<lambda>_. {})"
    unfolding get_torrent_info_def by (rule keeps_rd) simp_all
next
  fix s v s'
  assume "get_torrent_info rd i s = (Inr v, s')"
  then obtain client_reply where client_reply: "make_request \<lparr>service_errors = \<lambda>d _. mapped_error d, json_loads = rd_loads rd\<rparr> (rd_service rd) plain_flags
      (rd_req rd ''GET'' (info_url i) [] No_Body) 0 s = (Inr client_reply, s')" "v = reply_body client_reply"
    by (auto simp: get_torrent_info_def rd_request_def request_io_def bind_io_def return_io_def split: prod.splits sum.splits)
  show "urls_of v \<subseteq> {} \<union> X"
  proof (cases client_reply)
    case (Body u)
    have "make_request \<lparr>service_errors = \<lambda>d _. mapped_error d, json_loads = rd_loads rd\<rparr> (rd_service rd) plain_flags
        (rd_req rd ''GET'' (info_url i) [] No_Body) 0 s = (Inr (Body v), s')"
      using client_reply Body by simp
    then obtain w resp where answer: "fst (rd_service rd (rd_req rd ''GET'' (info_url i) [] No_Body) w) = Inr resp" "resp_json resp = Inr v"
      using make_request_value by blast
    have "delete_url x = delete_url i" if "v = JDict d" "map_of d ''id'' = Some x" for d x
      by (rule delete_url_text, rule honestD[OF assms(1) answer(1) _ _ that(2)]) (simp_all add: answer(2) that(1))
    then show ?thesis using assms(2) by (auto simp: urls_of_def split: json.split option.split)
  next
    case (Http_Response resp u)
    then have False using make_request_plain[OF client_reply(1)] by simp
    then show ?thesis ..
  qed
qed

lemma keeps_wait_polls:
  assumes "keeps h X get_info urls_of"
  shows "keeps h X (wait_polls should_retry get_info target interval n) (\<lambda>info. urls_of (JDict info))"
proof (induction n)
  case 0
  show ?case by (simp add: keeps_pure)
next
  case (Suc n)
  have later: "keeps h (X \<union> Y) (wait_polls should_retry get_info target interval n) (\<lambda>info. urls_of (JDict info))" for Y
    by (rule keeps_more[OF Suc.IH]) auto
  have again: "keeps h (X \<union> Y) (bind_io (sleep_io interval) (\<lambda>_. wait_polls should_retry get_info target interval n))
      (\<lambda>info. urls_of (JDict info))" for Y
    by (rule keeps_bind[OF keeps_sleep]) (simp add: later)
  have ask: "keeps h X (catch_io (bind_io get_info (\<lambda>v. return_io (Some v))) (\<lambda>e. if should_retry e then return_io None else raise_io e))
      (\<lambda>answer. case answer of Some v \<Rightarrow> urls_of v | None \<Rightarrow> {})"
    by (rule keeps_catch[OF keeps_bind[OF assms]]) (auto simp: keeps_pure)
  show ?case
    unfolding wait_polls.simps Let_def
    by (rule keeps_bind[OF ask])
      (use again[of "{}"] again in \<open>auto simp: keeps_pure later split: option.split json.split\<close>)
qed

lemma keeps_rd_wait:
  assumes "honest (rd_service rd)" and "delete_url i \<in> X" and "urls_of info \<subseteq> X"
  shows "keeps h X (rd_wait rd i target n interval info) (\<lambda>info. urls_of (JDict info))"
  using keeps_wait_polls[OF keeps_info[OF assms(1,2)]] assms(3)
  by (auto simp: rd_wait_def wait_for_status_def keeps_pure split: json.split list.split)

lemma keeps_extract: "keeps h (urls_of v \<union> X) (extract_torrent_id v) (\<lambda>i. {delete_url i})"
  by (auto simp: extract_torrent_id_def Let_def keeps_pure urls_of_def delete_url_def json_str_def
      intro!: keeps_pure split: json.split option.split)

lemma keeps_create: "keeps h X (create_torrent rd torrent_file magnet_link) (\<lambda>i. {delete_url i})"
  unfolding create_torrent_def
  by (rule keeps_bind[where Q = urls_of])
    (use keeps_extract in \<open>auto simp: keeps_add Un_commute split: option.split list.split\<close>)

lemma keeps_info_attempts:
  assumes "keeps h X get_info urls_of"
  shows "keeps h X (info_attempts get_info n k) (\<lambda>r. case r of Some v \<Rightarrow> urls_of v | None \<Rightarrow> {})"
proof (induction n arbitrary: k)
  case (Suc n)
  have "keeps h X (bind_io (sleep_io t) (\<lambda>_. info_attempts get_info n (k + 1))) (\<lambda>r. case r of Some v \<Rightarrow> urls_of v | None \<Rightarrow> {})" for t
    by (rule keeps_bind[OF keeps_sleep]) (use Suc.IH in simp)
  then show ?case
    unfolding info_attempts.simps
    by (intro keeps_catch[OF keeps_bind[OF assms]]) (auto simp: keeps_pure)
qed (simp add: keeps_pure)

lemma keeps_create_attempts:
  assumes "honest (rd_service rd)"
  shows "keeps h X (create_attempts rd (create_torrent rd torrent_file magnet_link) n) urls_of"
proof (induction n)
  case (Suc n)
  have later: "keeps h Z (bind_io (sleep_io t) (\<lambda>_. create_attempts rd (create_torrent rd torrent_file magnet_link) n)) urls_of"
    if "X \<subseteq> Z" for t Z
    by (rule keeps_bind[OF keeps_sleep]) (rule keeps_more[OF Suc.IH], use that in auto)
  show ?case
    unfolding create_attempts.simps
    by (rule keeps_bind[OF keeps_create keeps_bind[OF keeps_info_attempts[OF keeps_info[OF assms]]]])
      (auto intro!: keeps_pure later split: option.split)
qed (simp add: keeps_pure)

lemma keeps_add_new:
  assumes "honest (rd_service rd)"
  shows "keeps h X (add_new_torrent rd magnet_link wanted_hash torrent_file) urls_of"
proof -
  have "keeps h X (bind_io (python_io r) (\<lambda>already.
      if already then raise_io (provider_error ''Torrent is already being downloading'' ''torrent_not_downloaded.mp4'')
      else create_attempts rd (create_torrent rd torrent_file magnet_link) 2)) urls_of" for r
    by (rule keeps_python) (simp add: keeps_pure keeps_create_attempts[OF assms])
  then show ?thesis
    unfolding add_new_torrent_def
    by (intro keeps_bind[OF keeps_calls(1)]) (auto simp: keeps_pure split: json.split)
qed

lemma first_with_hash_Some:
  "first_with_hash wanted_hash ts = Inr (Some t) \<Longrightarrow> t \<in> set ts \<and> (\<exists>d. t = JDict d \<and> map_of d ''hash'' = Some (JStr wanted_hash))"
proof (induction ts)
  case (Cons u ts)
  then show ?case by (cases u) (auto simp: result_simps split: option.splits if_splits)
qed simp

lemma given_listed:
  assumes "reply_body client_reply = JList ts" and "JDict d \<in> set ts" and "map_of d ''hash'' = Some (JStr wanted_hash)"
    and "map_of d ''id'' = Some x" and "req_url q = BASE_URL @ ''/torrents''"
  shows "delete_url x \<in> set (given_urls wanted_hash [Exchange q (Inr client_reply)])"
proof -
  have "x \<in> set (given_ids wanted_hash (Exchange q (Inr client_reply)))"
    using assms by (force simp: given_ids_def List.map_filter_def)
  then show ?thesis by (simp add: given_urls_def)
qed

lemma keeps_available: "keeps wanted_hash X (get_available_torrent rd wanted_hash) (\<lambda>r. case r of Some t \<Rightarrow> urls_of t | None \<Rightarrow> {})"
proof -
  let ?given = "\<lambda>v. \<Union> {urls_of t | t ts d. v = JList ts \<and> t \<in> set ts \<and> t = JDict d \<and> map_of d ''hash'' = Some (JStr wanted_hash)}"
  have listed: "keeps wanted_hash X (get_user_torrent_list rd None) ?given"
    unfolding get_user_torrent_list_def
    by (rule keeps_rd) (use given_listed in \<open>auto simp: urls_of_def split: option.splits\<close>)
  show ?thesis
    unfolding get_available_torrent_def
  proof (rule keeps_bind[OF listed])
    fix v
    show "keeps wanted_hash (X \<union> ?given v) (python_io (bind_result (py_iter v) (first_with_hash wanted_hash)))
        (\<lambda>r. case r of Some t \<Rightarrow> urls_of t | None \<Rightarrow> {})"
    proof (rule keeps_python_last)
      fix r
      assume "bind_result (py_iter v) (first_with_hash wanted_hash) = Inr r"
      then show "(case r of Some t \<Rightarrow> urls_of t | None \<Rightarrow> {}) \<subseteq> X \<union> ?given v"
      proof (cases v)
        case (JList ts)
        then show ?thesis
          using \<open>bind_result (py_iter v) (first_with_hash wanted_hash) = Inr r\<close> first_with_hash_Some[of wanted_hash ts]
          by (cases r) fastforce+
      next
        case (JStr t)
        then show ?thesis using \<open>bind_result (py_iter v) (first_with_hash wanted_hash) = Inr r\<close> by (cases t; cases r) auto
      next
        case (JDict t)
        then show ?thesis using \<open>bind_result (py_iter v) (first_with_hash wanted_hash) = Inr r\<close> by (cases t; cases r) auto
      qed simp_all
    qed
  qed
qed

lemma getitem_url: "py_getitem v ''id'' = Inr i \<Longrightarrow> urls_of v \<subseteq> X \<Longrightarrow> delete_url i \<in> X"
  by (cases v) (auto simp: urls_of_def split: option.splits)

lemma keeps_unrestrict: "keeps h X (unrestrict rd link) (\<lambda>_. {})"
proof -
  have "keeps h X (rd_create_link rd link) (\<lambda>_. {})"
    unfolding rd_create_link_def
    by (rule keeps_bind[OF keeps_rd[where Q = "\<lambda>_. {}"]]) (auto simp: Let_def keeps_pure split: json.split option.split)
  then show ?thesis unfolding unrestrict_def by (rule keeps_bind) (simp add: Let_def keeps_pure)
qed

lemma keeps_create_download_link:
  assumes "honest (rd_service rd)" and "\<And>v Y. keeps h Y (select v) (\<lambda>_. {})" and "urls_of info \<subseteq> X"
  shows "keeps h X (create_download_link rd select magnet_link info n interval) (\<lambda>_. {})"
proof -
  have add: "keeps h Y (bind_io (add_magnet_link rd magnet_link) extract_torrent_id) (\<lambda>i. {delete_url i})" for Y
    by (rule keeps_bind[OF keeps_add(1)]) (use keeps_extract in \<open>simp add: Un_commute\<close>)
  have wait: "keeps h Y (rd_wait rd i target n interval JNull) (\<lambda>_. {})" if "delete_url i \<in> Y" for i target Y
    by (rule keeps_more[OF keeps_rd_wait[OF assms(1) that]]) (simp_all add: urls_of_def)
  have again: "keeps h Y
      (bind_io (delete_torrent rd old_id) (\<lambda>_.
       bind_io (bind_io (add_magnet_link rd magnet_link) extract_torrent_id) (\<lambda>torrent_id.
       bind_io (rd_wait rd torrent_id ''waiting_files_selection'' n interval JNull) (\<lambda>info.
       bind_io (python_io (py_getitem (JDict info) ''id'')) (\<lambda>new_id.
       bind_io (python_io (bind_result (bind_result (py_getitem (JDict info) ''files'') (\<lambda>fs. item_at fs i)) (\<lambda>f. py_getitem f ''id''))) (\<lambda>file_id.
       bind_io (start_torrent_download rd new_id file_id) (\<lambda>_.
       bind_io (rd_wait rd torrent_id ''downloaded'' n interval JNull) (\<lambda>info'.
       bind_io (python_io (link_at (JDict info') 0)) (unrestrict rd))))))))) (\<lambda>_. {})" if "delete_url old_id \<in> Y" for old_id i Y
    by (rule keeps_bind[OF keeps_delete[OF that]], rule keeps_bind[OF add], rule keeps_bind[OF wait], simp, rule keeps_python,
        rule keeps_python, rule keeps_bind[OF keeps_calls(2)], rule keeps_bind[OF wait], simp, rule keeps_python, rule keeps_unrestrict)
  show ?thesis
    unfolding create_download_link_def
  proof (rule keeps_bind[OF assms(2)], rule keeps_python, goal_cases)
    case (1 i choice)
    show ?case
    proof (cases "link_position choice")
      case None
      show ?thesis
        unfolding None option.case
        by (rule keeps_python, rule again, rule getitem_url, assumption) (use assms(3) in blast)
    next
      case (Some p)
      show ?thesis unfolding Some option.case by (rule keeps_python, rule keeps_unrestrict)
    qed
  qed
qed

lemma keeps_play:
  assumes "honest (rd_service rd)" and "\<And>v Y. keeps wanted_hash Y (select v) (\<lambda>_. {})"
  shows "keeps wanted_hash X (play_torrent rd select wanted_hash magnet_link torrent_file n interval) (\<lambda>_. {})"
proof -
  have torrent: "keeps wanted_hash (X \<union> (case available of Some t \<Rightarrow> urls_of t | None \<Rightarrow> {}))
      (case available of
         Some t \<Rightarrow> if truthy t then return_io t else add_new_torrent rd magnet_link wanted_hash torrent_file
       | None \<Rightarrow> add_new_torrent rd magnet_link wanted_hash torrent_file) urls_of" for available
    by (auto intro!: keeps_pure keeps_add_new[OF assms(1)] split: option.split)
  have start: "keeps wanted_hash Y (catch_io (bind_io (start_torrent_download rd i fs) (\<lambda>_. return_io ()))
      (\<lambda>e. bind_io (delete_torrent rd j) (\<lambda>_. raise_io (p e)))) (\<lambda>_. {})" if "delete_url j \<in> Y" for i fs j p Y
    by (rule keeps_catch[OF keeps_bind[OF keeps_calls(2)]])
      (auto intro!: keeps_pure keeps_bind[OF keeps_delete[OF that]])
  have prepared: "keeps wanted_hash Y
      (if status \<in> A then bind_io (delete_torrent rd i) (\<lambda>_. raise_io p)
       else if status \<notin> B then
         bind_io (rd_wait rd i target n interval info) (\<lambda>info. bind_io (python_io (r info)) (\<lambda>w.
           catch_io (bind_io (start_torrent_download rd w fs) (\<lambda>_. return_io ()))
             (\<lambda>e. bind_io (delete_torrent rd i) (\<lambda>_. raise_io (q e)))))
       else return_io ()) (\<lambda>_. {})"
    if "delete_url i \<in> Y" "urls_of info \<subseteq> Y" for status A B i p target info r fs q Y
    using that
    by (auto intro!: keeps_bind[OF keeps_delete] keeps_bind[OF keeps_rd_wait[OF assms(1)]] keeps_python keeps_pure start)
  have last: "keeps wanted_hash Y (bind_io (rd_wait rd i ''downloaded'' n interval JNull)
      (\<lambda>info. create_download_link rd select magnet_link (JDict info) n interval)) (\<lambda>_. {})" if "delete_url i \<in> Y" for i Y
    by (rule keeps_bind[OF keeps_rd_wait[OF assms(1) that]])
      (simp add: urls_of_def, rule keeps_create_download_link[OF assms(1,2)], simp)
  show ?thesis
    unfolding play_torrent_def
    by (rule keeps_bind[OF keeps_available], rule keeps_bind[OF torrent], rule keeps_python, rule keeps_python,
        rule keeps_bind[OF prepared])
      (auto intro: getitem_url intro!: last)
qed

end
