(* ===== verification/Real_Debrid_Play.thy ===== *)
theory Real_Debrid_Play
  imports Real_Debrid_Correct Torrent_Select_Correct
begin

text \<open>
  Playing a torrent through Real-Debrid with the choice of the file made by \<open>Torrent_Select\<close>: the state
  of the service and that of the choice lie side by side. A file of a torrent has a path and a size.
\<close>

section \<open>Composition\<close>

definition torrent_file_of :: "json \<Rightarrow> torrent_file py_result" where
  "torrent_file_of f =
     bind_result (py_getitem f ''path'') (\<lambda>path. bind_result (py_getitem f ''bytes'') (\<lambda>n.
       case (path, n) of (JStr p, JInt i) \<Rightarrow> Inr \<lparr>raw_name = p, raw_length = i\<rparr> | _ \<Rightarrow> Inl TypeError))"

definition torrent_files_of :: "json \<Rightarrow> torrent_file list option py_result" where
  "torrent_files_of torrent_info =
     bind_result (py_get torrent_info ''files'' JNull) (\<lambda>fs.
       case fs of JList vs \<Rightarrow> bind_result (map_result torrent_file_of vs) (\<lambda>ts. Inr (Some ts)) | _ \<Rightarrow> Inr None)"

fun failure_of :: "select_failure \<Rightarrow> failure" where
  "failure_of No_Matching_File = Provider_Failed (provider_error ''No valid video file found in torrent'' ''no_matching_file.mp4'')"
| "failure_of Torrent_Blocked =
     Provider_Failed (provider_error ''No valid video files found in torrent. Torrent has been blocked.'' ''no_matching_file.mp4'')"
| "failure_of Episode_Not_Found =
     Provider_Failed (provider_error ''Found video files but couldn't match season/episode. Annotation has been requested.'' ''episode_not_found.mp4'')"
| "failure_of (Select_Raised e) = Python_Failed e"

text \<open>What a playback asks for; the outcomes of the lock and of the transaction belong to the choice of the file.\<close>

record wish =
  wish_hash :: string
  wish_magnet :: string
  wish_torrent_file :: "string option"
  wish_filename :: "string option"
  wish_season :: "int option"
  wish_episode :: "int option"

definition rd_select ::
  "selection_env \<Rightarrow> bool py_result \<Rightarrow> py_error option \<Rightarrow> wish \<Rightarrow> json \<Rightarrow> ('v \<times> select_state, nat) program" where
  "rd_select env acquired save_failure wish torrent_info s =
     (case torrent_files_of torrent_info of
        Inl e \<Rightarrow> (Inl (Python_Failed e), s)
      | Inr raw_files \<Rightarrow>
          (case select_file_index_from_torrent env (\<lambda>fs. Inr fs) acquired save_failure raw_files (wish_filename wish)
                  (wish_season wish) (wish_episode wish) True True (snd (peer s)) of
             (r, st) \<Rightarrow> (case r of Inl e \<Rightarrow> Inl (failure_of e) | Inr i \<Rightarrow> Inr i, s\<lparr>peer := (fst (peer s), st)\<rparr>)))"

definition beside :: "(http_request \<Rightarrow> 'v \<Rightarrow> (net_error + http_answer) \<times> 'v) \<Rightarrow> http_request \<Rightarrow> 'v \<times> 'x \<Rightarrow> (net_error + http_answer) \<times> 'v \<times> 'x" where
  "beside service q w = (case service q (fst w) of (a, v) \<Rightarrow> (a, v, snd w))"

definition rd_play ::
  "selection_env \<Rightarrow> bool py_result \<Rightarrow> py_error option \<Rightarrow> (http_request \<Rightarrow> 'v \<Rightarrow> (net_error + http_answer) \<times> 'v) \<Rightarrow> (string \<Rightarrow> json option) \<Rightarrow>
     string option \<Rightarrow> string \<Rightarrow> wish \<Rightarrow> nat \<Rightarrow> rat \<Rightarrow> 'v \<times> select_state \<Rightarrow> (failure + json) \<times> ('v \<times> select_state) connection" where
  "rd_play env acquired save_failure service loads user_ip token wish max_retries interval w =
     get_video_url_from_realdebrid \<lparr>rd_service = beside service, rd_loads = loads, rd_user_ip = user_ip, rd_bearer = None\<rparr> token
       (rd_select env acquired save_failure wish) (wish_hash wish) (wish_magnet wish) (wish_torrent_file wish) max_retries interval
       \<lparr>peer = w, events = []\<rparr>"

section \<open>Sessions\<close>

lemma select_events: "events (snd (rd_select env acquired save_failure wish info s)) = events s"
  by (simp add: rd_select_def split: sum.split prod.split)

lemma spends_select: "spends 0 0 (rd_select env acquired save_failure wish info)"
  by (simp add: spends_def select_events)

lemma keeps_select: "keeps h X (rd_select env acquired save_failure wish info) (\<lambda>_. {})"
  by (simp add: keeps_def select_events)

lemma spends_initialize: "spends 2 0 (initialize_headers rd token)"
proof -
  have "spends 0 0 (bind_io (python_io r) (\<lambda>t. return_io (f t)))" for r :: "json py_result" and f :: "json \<Rightarrow> string option"
    by (rule spends_free) (simp_all add: spends_pure)
  then have "spends 2 0 (bind_io (get_token rd a b c) (\<lambda>access. bind_io (python_io (py_getitem access ''access_token''))
      (\<lambda>t. return_io (Some (json_str t)))))" for a b c
    by (intro spends_bind[OF spends_client(9)]) simp_all
  then show ?thesis by (simp add: initialize_headers_def spends_pure split: option.split)
qed

lemma spends_close: "spends 2 0 (close_session rd token)"
proof -
  have "spends 2 0 (bind_io (disable_access_token rd) (\<lambda>_. return_io ()))"
    by (rule spends_bind[OF spends_client(6)]) (simp_all add: spends_pure)
  then have "spends 2 0 (catch_io (bind_io (disable_access_token rd) (\<lambda>_. return_io ())) (\<lambda>_. return_io ()))"
    by (rule spends_catch) (simp_all add: spends_pure)
  then show ?thesis by (simp add: close_session_def spends_pure)
qed

text \<open>What follows in any case: the result stays, unless what follows raises.\<close>

definition finally_io :: "('w, 'a) program \<Rightarrow> ('w, unit) program \<Rightarrow> ('w, 'a) program" where
  "finally_io m c s = (case m s of (r, s') \<Rightarrow> (case c s' of (Inl e, s'') \<Rightarrow> (Inl e, s'') | (Inr _, s'') \<Rightarrow> (r, s'')))"

lemma with_session_finally:
  "with_session rd token body = bind_io (initialize_headers rd token) (\<lambda>b.
    finally_io (body (rd\<lparr>rd_bearer := b\<rparr>)) (close_session (rd\<lparr>rd_bearer := b\<rparr>) token))"
  by (simp add: with_session_def finally_io_def[abs_def])

lemma snd_finally: "snd (finally_io m c s) = snd (c (snd (m s)))"
  by (simp add: finally_io_def split: prod.split sum.split)

lemma spendsD:
  "spends n t m \<Longrightarrow> exchanges (events (snd (m s))) \<le> exchanges (events s) + n"
  "spends n t m \<Longrightarrow> slept_time (events (snd (m s))) \<le> slept_time (events s) + t"
  by (simp_all add: spends_def)

lemma spends_finally:
  assumes m: "spends n1 t1 m" and c: "spends n2 t2 c"
  shows "spends (n1 + n2) (t1 + t2) (finally_io m c)"
proof -
  have "exchanges (events (snd (finally_io m c s))) \<le> exchanges (events s) + (n1 + n2) \<and>
    slept_time (events (snd (finally_io m c s))) \<le> slept_time (events s) + (t1 + t2)" for s
    using spendsD[OF m, of s] spendsD[OF c, of "snd (m s)"] unfolding snd_finally by linarith
  moreover have "0 \<le> t1 + t2" using m c by (simp add: spends_def)
  ultimately show ?thesis by (simp add: spends_def)
qed

lemma keeps_finally:
  assumes m: "keeps h X (m :: ('w, 'a) program) Q" and c: "keeps h X c (\<lambda>_. {})"
  shows "keeps h X (finally_io m c) Q"
  unfolding keeps_def
proof (intro allI impI)
  fix s :: "'w connection"
  assume pre: "deletes_ok h [] (events s) \<and> X \<subseteq> set (given_urls h (events s))"
  obtain r s1 where one: "m s = (r, s1)" by fastforce
  obtain r2 s2 where two: "c s1 = (r2, s2)" by fastforce
  note m1 = keepsD[OF m conjunct1[OF pre] conjunct2[OF pre] one]
  have "X \<subseteq> set (given_urls h (events s1))" using m1(2) pre by blast
  note c1 = keepsD(1,2)[OF c m1(1) this two]
  have "fst (finally_io m c s) = Inr v \<Longrightarrow> r = Inr v" for v using one two by (auto simp: finally_io_def split: sum.splits)
  then show "deletes_ok h [] (events (snd (finally_io m c s))) \<and>
    set (given_urls h (events s)) \<subseteq> set (given_urls h (events (snd (finally_io m c s)))) \<and>
    (\<forall>v. fst (finally_io m c s) = Inr v \<longrightarrow> Q v \<subseteq> set (given_urls h (events (snd (finally_io m c s)))))"
    using m1 c1 unfolding snd_finally one two snd_conv by blast
qed

lemma keeps_initialize: "keeps h X (initialize_headers rd token) (\<lambda>_. {})"
proof -
  have "keeps h X (get_token rd a b c) (\<lambda>_. {})" for a b c
    unfolding get_token_def by (rule keeps_rd) simp_all
  then show ?thesis
    by (auto simp: initialize_headers_def split: option.split intro!: keeps_pure keeps_python keeps_bind[where Q = "\<lambda>_. {}"])
qed

lemma keeps_close: "keeps h X (close_session rd token) (\<lambda>_. {})"
proof -
  have "keeps h X (disable_access_token rd) (\<lambda>_. {})"
    unfolding disable_access_token_def by (rule keeps_rd) simp_all
  then show ?thesis
    by (auto simp: close_session_def intro!: keeps_pure keeps_catch keeps_bind[where Q = "\<lambda>_. {}"])
qed

section \<open>Bounds\<close>

text \<open>
  Property C32. A playback ends: whatever the service answers, it makes at most 36 requests and eight more
  for each try, and sleeps at most four seconds and the interval four times for each try
  but the last.
\<close>

theorem playback_bounded:
  assumes "0 \<le> interval"
  shows "let evs = events (snd (rd_play env acquired save_failure service loads user_ip token wish max_retries interval w))
    in exchanges evs \<le> 36 + 8 * max_retries \<and> slept_time evs \<le> 4 + 4 * of_nat (max_retries - 1) * interval"
proof -
  note play = spends_play[where select = "rd_select env acquired save_failure wish", OF spends_select assms]
  have "spends (2 + ((32 + 8 * max_retries) + 2)) (0 + ((4 + 4 * wait_time max_retries interval) + 0))
    (get_video_url_from_realdebrid rd token (rd_select env acquired save_failure wish) h m f max_retries interval)" for rd h m f
    unfolding get_video_url_from_realdebrid_def with_session_finally
    by (rule spends_then[OF spends_initialize spends_finally[OF play spends_close]])
  note bound = spendsD[OF this, where s = "\<lparr>peer = w, events = []\<rparr>"]
  have start: "exchanges (events \<lparr>peer = w, events = []\<rparr>) = 0" "slept_time (events \<lparr>peer = w, events = []\<rparr>) = 0"
    by (simp_all add: exchanges_def slept_time_def)
  show ?thesis
    unfolding rd_play_def Let_def
  proof
    show "exchanges (events (snd (get_video_url_from_realdebrid \<lparr>rd_service = beside service, rd_loads = loads, rd_user_ip = user_ip, rd_bearer = None\<rparr> token
      (rd_select env acquired save_failure wish) (wish_hash wish) (wish_magnet wish) (wish_torrent_file wish) max_retries interval
      \<lparr>peer = w, events = []\<rparr>))) \<le> 36 + 8 * max_retries"
      by (rule order_trans[OF bound(1)]) (simp only: start)
    show "slept_time (events (snd (get_video_url_from_realdebrid \<lparr>rd_service = beside service, rd_loads = loads, rd_user_ip = user_ip, rd_bearer = None\<rparr> token
      (rd_select env acquired save_failure wish) (wish_hash wish) (wish_magnet wish) (wish_torrent_file wish) max_retries interval
      \<lparr>peer = w, events = []\<rparr>))) \<le> 4 + 4 * of_nat (max_retries - 1) * interval"
      by (rule order_trans[OF bound(2)]) (simp add: slept_time_def wait_time_def)
  qed
qed

text \<open>With the settings of the code, five tries and five seconds, against a service that always fails.\<close>

definition dead_service :: "http_request \<Rightarrow> unit \<Rightarrow> (net_error + http_answer) \<times> unit" where
  "dead_service q w = (Inl \<lparr>err_classes = [Server_Disconnected_Error], err_text = ''gone''\<rparr>, w)"

definition some_wish :: "string option \<Rightarrow> wish" where
  "some_wish name =
     \<lparr>wish_hash = ''abc'', wish_magnet = ''magnet:?xt=urn:btih:abc'', wish_torrent_file = None, wish_filename = name,
      wish_season = None, wish_episode = None\<rparr>"

theorem playback_bounded_witness:
  "let evs = events (snd (rd_play no_titles (Inr True) None dead_service (\<lambda>_. None) None ''KEY'' (some_wish None) 5 5 ((), sample_state)))
   in exchanges evs \<le> 36 + 8 * 5 \<and> slept_time evs \<le> 4 + 4 * of_nat (5 - 1) * 5"
  by (rule playback_bounded) simp

section \<open>Deletions\<close>

lemma honest_beside: "honest service \<Longrightarrow> honest (beside service)"
  unfolding honest_def[of "beside service"]
proof (intro allI impI, elim conjE)
  fix q and w :: "'a \<times> 'b" and resp d i x
  assume "fst (beside service q w) = Inr resp"
  then have "fst (service q (fst w)) = Inr resp" by (simp add: beside_def split: prod.splits)
  moreover assume "honest service" "resp_json resp = Inr (JDict d)" "req_url q = info_url i" "map_of d ''id'' = Some x"
  ultimately show "json_str x = json_str i" by (intro honestD[of service])
qed

text \<open>
  Property C14. A playback deletes no torrent of the account but one that the service listed under the
  wanted hash, or that the playback itself has added.
\<close>

theorem playback_deletes_own:
  assumes "honest service"
  shows "deletes_ok (wish_hash wish) []
    (events (snd (rd_play env acquired save_failure service loads user_ip token wish max_retries interval w)))"
proof -
  let ?select = "rd_select env acquired save_failure wish"
  have "keeps (wish_hash wish) {}
    (get_video_url_from_realdebrid \<lparr>rd_service = beside service, rd_loads = loads, rd_user_ip = user_ip, rd_bearer = None\<rparr> token
       ?select (wish_hash wish) (wish_magnet wish) (wish_torrent_file wish) max_retries interval) (\<lambda>_. {})"
    unfolding get_video_url_from_realdebrid_def with_session_finally
  proof (rule keeps_bind[OF keeps_initialize], rule keeps_finally[OF _ keeps_close])
    fix b :: "string option"
    show "keeps (wish_hash wish) ({} \<union> {})
      (play_torrent (\<lparr>rd_service = beside service, rd_loads = loads, rd_user_ip = user_ip, rd_bearer = None\<rparr>\<lparr>rd_bearer := b\<rparr>) ?select (wish_hash wish) (wish_magnet wish) (wish_torrent_file wish) max_retries interval) (\<lambda>_. {})"
      by (rule keeps_play) (simp_all add: keeps_select honest_beside[OF assms])
  qed
  then show ?thesis by (simp add: keeps_def rd_play_def)
qed

text \<open>A service with one torrent that is beyond repair, listed with others.\<close>

definition json_response :: "json \<Rightarrow> http_answer" where
  "json_response v = \<lparr>resp_status = 200, resp_content_type = ''application/json'', resp_json = Inr v, resp_text = Inr []\<rparr>"

definition listing_service :: "json list \<Rightarrow> http_request \<Rightarrow> unit \<Rightarrow> (net_error + http_answer) \<times> unit" where
  "listing_service ts q w =
     (if req_verb q = ''GET'' \<and> req_url q = BASE_URL @ ''/torrents'' then (Inr (json_response (JList ts)), w)
      else (Inr (json_response JNull), w))"

definition listed_torrent :: "string \<Rightarrow> string \<Rightarrow> string \<Rightarrow> json" where
  "listed_torrent i h status = JDict [(''id'', JStr i), (''hash'', JStr h), (''status'', JStr status)]"

lemma honest_listing: "honest (listing_service ts)"
  unfolding honest_def listing_service_def by (auto simp: json_response_def split: if_splits)

theorem playback_deletes_own_witness:
  "deletes_ok (wish_hash (some_wish None)) []
    (events (snd (rd_play no_titles (Inr True) None (listing_service [listed_torrent ''X'' ''xyz'' ''virus'', listed_torrent ''Y'' ''abc'' ''virus''])
       (\<lambda>_. None) None ''KEY'' (some_wish None) 5 5 ((), sample_state))))"
  by (rule playback_deletes_own) (rule honest_listing)

section \<open>The file that is played\<close>

record rd_file =
  f_id :: int
  f_path :: string
  f_bytes :: int
  f_selected :: bool

definition file_json :: "rd_file \<Rightarrow> json" where
  "file_json f =
     JDict [(''id'', JInt (f_id f)), (''path'', JStr (f_path f)), (''bytes'', JInt (f_bytes f)), (''selected'', JInt (if f_selected f then 1 else 0))]"

lemma file_json_fields [simp]:
  "torrent_file_of (file_json f) = Inr \<lparr>raw_name = f_path f, raw_length = f_bytes f\<rparr>"
  "py_getitem (file_json f) ''selected'' = Inr (JInt (if f_selected f then 1 else 0))"
  "py_get (file_json f) ''selected'' d = Inr (JInt (if f_selected f then 1 else 0))"
  by (simp_all add: file_json_def torrent_file_of_def)

lemma file_json_eq: "file_json f = file_json g \<or> py_eq (file_json f) (file_json g) \<Longrightarrow> f_id f = f_id g"
  by (auto simp: file_json_def)

lemma selected_of_files: "selected_of (map file_json fls) = Inr (map file_json (filter f_selected fls))"
  by (induction fls) (simp_all add: is_one_def)

lemma index_of_files:
  "distinct (map f_id fls) \<Longrightarrow> k < length fls \<Longrightarrow> index_of (map file_json fls) (file_json (fls ! k)) = Inr k"
proof (induction fls arbitrary: k)
  case (Cons f fls)
  show ?case
  proof (cases k)
    case (Suc j)
    then have "fls ! j \<in> set fls" using Cons.prems by simp
    then have "f_id f \<noteq> f_id (fls ! j)" using Cons.prems(1) by (metis distinct.simps(2) image_eqI list.map(2) list.set_map)
    then have "\<not> (file_json f = file_json (fls ! j) \<or> py_eq (file_json f) (file_json (fls ! j)))"
      using file_json_eq by blast
    then show ?thesis using Suc Cons by simp
  qed simp
qed simp

text \<open>The place of a selected file among the selected ones.\<close>

lemma selected_position:
  assumes "i < length fls" and "f_selected (fls ! i)"
  shows "filter f_selected fls ! length (filter f_selected (take i fls)) = fls ! i"
    "length (filter f_selected (take i fls)) < length (filter f_selected fls)"
proof -
  have "fls = take i fls @ fls ! i # drop (Suc i) fls" using assms(1) by (rule id_take_nth_drop)
  then have split: "filter f_selected fls = filter f_selected (take i fls) @ fls ! i # filter f_selected (drop (Suc i) fls)"
    using assms(2) by (metis filter.simps(2) filter_append)
  show "filter f_selected fls ! length (filter f_selected (take i fls)) = fls ! i"
    "length (filter f_selected (take i fls)) < length (filter f_selected fls)"
    by (simp_all add: split)
qed

lemma choose_file_selected:
  assumes "map_of info ''files'' = Some (JList (map file_json fls))" and "map_of info ''links'' = Some (JList (map JStr ls))"
    and "length ls = length (filter f_selected fls)" and "distinct (map f_id fls)" and "i < length fls" and "f_selected (fls ! i)"
  shows "choose_file (JDict info) i =
    Inr \<lparr>chosen_file = file_json (fls ! i), link_position = Some (length (filter f_selected (take i fls)))\<rparr>"
proof -
  let ?p = "length (filter f_selected (take i fls))"
  have "distinct (map f_id (filter f_selected fls))" using assms(4) by (rule distinct_map_filter)
  from index_of_files[OF this selected_position(2)[OF assms(5,6)]]
  have "index_of (map file_json (filter f_selected fls)) (file_json (fls ! i)) = Inr ?p"
    by (simp add: selected_position(1)[OF assms(5,6)])
  then show ?thesis
    using assms by (simp add: choose_file_def item_at_def selected_of_files is_one_def)
qed

text \<open>A service that always answers a request with this value.\<close>

definition answers :: "(http_request \<Rightarrow> 'v \<Rightarrow> (net_error + http_answer) \<times> 'v) \<Rightarrow> http_request \<Rightarrow> json \<Rightarrow> bool" where
  "answers service q v \<longleftrightarrow>
     (\<forall>w. case fst (service q w) of Inr resp \<Rightarrow> resp_status resp < 400 \<and> resp_json resp = Inr v | Inl _ \<Rightarrow> False)"

lemma answered_request:
  assumes "answers service (rd_req rd verb url params body) v" and "rd_service rd = beside service"
    and "\<not> is_return_none flags" and "\<not> is_http_response flags"
  shows "\<exists>w. rd_request rd flags verb url params body s =
    (Inr v, \<lparr>peer = (w, snd (peer s)), events = events s @ [Exchange (rd_req rd verb url params body) (Inr (Body v))]\<rparr>)"
proof -
  let ?q = "rd_req rd verb url params body"
  obtain r w where call: "service ?q (fst (peer s)) = (r, w)" by fastforce
  have "case fst (service ?q (fst (peer s))) of Inr resp \<Rightarrow> resp_status resp < 400 \<and> resp_json resp = Inr v | Inl _ \<Rightarrow> False"
    using assms(1) unfolding answers_def by (rule spec)
  then obtain resp where resp: "service ?q (fst (peer s)) = (Inr resp, w)" "resp_status resp < 400" "resp_json resp = Inr v"
    using call by (cases r) (auto simp: call)
  have "exchange cfg (rd_service rd) flags ?q s = (Inr (Body v), \<lparr>peer = (w, snd (peer s)), events = events s @ [Exchange ?q (Inr (Body v))]\<rparr>)" for cfg
    using resp assms(2-4)
    by (cases s) (simp add: exchange_def Let_def beside_def read_def check_response_status_def parse_response_def)
  then show ?thesis
    by (simp add: rd_request_def request_io_def bind_io_def return_io_def make_request.simps[of _ _ _ _ 0])
qed

lemma wait_run:
  assumes "get_torrent_info rd tid s = (Inr (JDict info), s')" and "map_of info ''status'' = Some (JStr target)"
  shows "rd_wait rd tid target (Suc n) interval JNull s = (Inr info, s')"
  using assms by (simp add: rd_wait_def wait_for_status_def status_of_def io_simps)

lemma select_named:
  assumes "map_of info ''files'' = Some (JList (map file_json fls))" and "wish_filename wish = Some (c # cs)"
    and "first_index (\<lambda>f. py_basename (f_path f) = c # cs) fls = Some i"
  shows "rd_select env acquired save_failure wish (JDict info) s = (Inr i, s)"
proof -
  let ?raw = "map (\<lambda>f. \<lparr>raw_name = f_path f, raw_length = f_bytes f\<rparr>) fls"
  have "map_result torrent_file_of (map file_json fls) = Inr ?raw"
    by (induction fls) simp_all
  then have "torrent_files_of (JDict info) = Inr (Some ?raw)" using assms(1) by (simp add: torrent_files_of_def)
  moreover have "named_index (wish_filename wish) ?raw = Some i"
    using assms(2,3) by (simp add: named_index_def first_index_Some)
  ultimately show ?thesis
    by (cases s) (simp add: rd_select_def select_file_index_from_torrent_def)
qed

lemma unrestrict_run:
  assumes "rd_request rd (plain_flags\<lparr>is_expected_to_fail := True\<rparr>) ''POST'' (BASE_URL @ ''/unrestrict/link'') [] (Form [(''link'', link)]) s =
      (Inr (JDict d), s')"
    and "map_of d ''download'' = Some url" and "map_of d ''mimeType'' = Some (JStr mime)" and "py_startswith mime ''video''"
  shows "unrestrict rd link s = (Inr url, s')"
proof -
  have "mime \<noteq> []" using assms(4) by (auto simp: py_startswith_def)
  then show ?thesis
    using assms by (simp add: unrestrict_def rd_create_link_def bind_io_def return_io_def json_field_def Let_def json_str_def)
qed

text \<open>The client of a private account, and the three requests of a playback that finds its torrent downloaded.\<close>

definition private_client ::
  "(http_request \<Rightarrow> 'v \<Rightarrow> (net_error + http_answer) \<times> 'v) \<Rightarrow> (string \<Rightarrow> json option) \<Rightarrow> string option \<Rightarrow> string \<Rightarrow> ('v \<times> select_state) account" where
  "private_client service loads user_ip token =
     \<lparr>rd_service = beside service, rd_loads = loads, rd_user_ip = user_ip, rd_bearer = Some token\<rparr>"

definition list_request :: "'w account \<Rightarrow> http_request" where
  "list_request rd = rd_req rd ''GET'' (BASE_URL @ ''/torrents'') [] No_Body"

definition info_request :: "'w account \<Rightarrow> json \<Rightarrow> http_request" where
  "info_request rd tid = rd_req rd ''GET'' (info_url tid) [] No_Body"

definition link_request :: "'w account \<Rightarrow> string \<Rightarrow> http_request" where
  "link_request rd link = rd_req rd ''POST'' (BASE_URL @ ''/unrestrict/link'') [] (Form [(''link'', JStr link)])"


definition season_files :: "rd_file list" where
  "season_files =
     [\<lparr>f_id = 1, f_path = ''/Show/readme.txt'', f_bytes = 1, f_selected = False\<rparr>,
      \<lparr>f_id = 2, f_path = ''/Show/E01.mkv'', f_bytes = 500, f_selected = True\<rparr>,
      \<lparr>f_id = 3, f_path = ''/Show/E02.mkv'', f_bytes = 400, f_selected = True\<rparr>]"

definition season_info :: dict where
  "season_info =
     [(''id'', JStr ''Y''), (''status'', JStr ''downloaded''), (''files'', JList (map file_json season_files)),
      (''links'', JList (map JStr [''l1'', ''l2'']))]"

definition season_link :: dict where
  "season_link = [(''mimeType'', JStr ''video/x-matroska''), (''download'', JStr ''https://d/E02.mkv'')]"

definition season_service :: "http_request \<Rightarrow> unit \<Rightarrow> (net_error + http_answer) \<times> unit" where
  "season_service q w =
     (Inr (json_response
        (if req_url q = BASE_URL @ ''/torrents'' then JList [listed_torrent ''X'' ''xyz'' ''queued'', listed_torrent ''Y'' ''abc'' ''downloaded'']
         else if req_url q = info_url (JStr ''Y'') then JDict season_info
         else if req_body q = Form [(''link'', JStr ''l2'')] then JDict season_link
         else JNull)), w)"


section \<open>The torrents of an account\<close>

definition id_text :: "json \<Rightarrow> string" where
  "id_text t = (case t of JDict d \<Rightarrow> (case map_of d ''id'' of Some v \<Rightarrow> json_str v | None \<Rightarrow> []) | _ \<Rightarrow> [])"

definition page_of :: "json list \<Rightarrow> nat \<Rightarrow> json list" where
  "page_of ts page = take RD_TORRENT_LIST_PAGE_SIZE (drop (RD_TORRENT_LIST_PAGE_SIZE * (page - 1)) ts)"

lemma add_page_new:
  assumes "list_all (\<lambda>t. id_text t \<noteq> []) ts" and "distinct (map id_text ts)" and "set (map id_text ts) \<inter> set seen = {}"
  shows "add_page ts (seen, found) = Inr (rev (map id_text ts) @ seen, found @ ts)"
  using assms
proof (induction ts arbitrary: seen found)
  case (Cons t ts)
  obtain d v where t: "t = JDict d" "map_of d ''id'' = Some v" "json_str v = id_text t"
    using Cons.prems(1) by (auto simp: id_text_def split: json.splits option.splits)
  have "add_page ts (id_text t # seen, found @ [t]) = Inr (rev (map id_text ts) @ id_text t # seen, (found @ [t]) @ ts)"
    using Cons.prems by (intro Cons.IH) auto
  then show ?case using t Cons.prems by (auto simp: Let_def)
qed simp

lemma list_pages_from:
  assumes "list_all (\<lambda>t. id_text t \<noteq> []) ts" and "distinct (map id_text ts)" and "length ts \<le> RD_TORRENT_LIST_PAGE_SIZE * (k + n)"
  shows "fst (list_pages (\<lambda>p s. (Inr (JList (page_of ts p)), tick p s)) n (Suc k) (rev (map id_text (take (RD_TORRENT_LIST_PAGE_SIZE * k) ts)))
      (take (RD_TORRENT_LIST_PAGE_SIZE * k) ts) s) = Inr ts"
  using assms(3)
proof (induction n arbitrary: k s)
  case 0
  then show ?case by (simp add: return_io_def)
next
  case (Suc n)
  let ?N = RD_TORRENT_LIST_PAGE_SIZE
  let ?old = "take (?N * k) ts" and ?page = "take ?N (drop (?N * k) ts)"
  have both: "?old @ ?page = take (?N * Suc k) ts" by (simp add: take_add[symmetric] add.commute)
  have "list_all (\<lambda>t. id_text t \<noteq> []) ?page" using assms(1) by (auto simp: list_all_iff dest: in_set_takeD in_set_dropD)
  moreover have all: "distinct (map id_text (?old @ ?page))"
    unfolding both using assms(2) by (simp add: take_map[symmetric] distinct_take)
  ultimately have added: "add_page ?page (rev (map id_text ?old), ?old) = Inr (rev (map id_text (?old @ ?page)), ?old @ ?page)"
    using add_page_new[of ?page "rev (map id_text ?old)" ?old] by (auto simp: Int_commute)
  show ?case
  proof (cases "?page = []")
    case True
    then have "ts = ?old" by (cases "length ts \<le> ?N * k") (auto simp: RD_TORRENT_LIST_PAGE_SIZE_def)
    then show ?thesis using True by (simp add: bind_io_def return_io_def page_of_def)
  next
    case False
    have more: "length (?old @ ?page) \<noteq> length ?old" "\<not> ?N < length ?page" using False by auto
    show ?thesis
    proof (cases "length ?page < ?N")
      case True
      then have "length ts \<le> ?N * Suc k" by simp
      then have "?old @ ?page = ts" unfolding both by simp
      then show ?thesis
        using True more(2) False added by (simp add: bind_io_def return_io_def python_io_def page_of_def)
    next
      case long: False
      have "fst (list_pages (\<lambda>p s. (Inr (JList (page_of ts p)), tick p s)) n (Suc (Suc k)) (rev (map id_text (take (?N * Suc k) ts)))
        (take (?N * Suc k) ts) (tick (Suc k) s)) = Inr ts"
        using Suc.prems by (intro Suc.IH) simp
      then show ?thesis
        using long more False added unfolding both[symmetric]
        by (simp add: bind_io_def return_io_def python_io_def page_of_def)
    qed
  qed
qed

text \<open>
  Property C22. All torrents of an account are listed, in order and each once, up to a hundred pages,
  when the service cuts its list into pages; the last page may be full.
\<close>

theorem all_torrents_listed:
  assumes "list_all (\<lambda>t. id_text t \<noteq> []) ts" and "distinct (map id_text ts)"
    and "length ts \<le> RD_TORRENT_LIST_PAGE_SIZE * RD_TORRENT_LIST_MAX_PAGES"
  shows "fst (list_pages (\<lambda>p s. (Inr (JList (page_of ts p)), tick p s)) RD_TORRENT_LIST_MAX_PAGES 1 [] [] s) = Inr ts"
  using list_pages_from[OF assms(1,2), of 0 RD_TORRENT_LIST_MAX_PAGES tick s] assms(3) by simp

definition some_torrents :: "json list" where
  "some_torrents = map (\<lambda>i. JDict [(''id'', JInt (int i))]) [0..<4]"

theorem all_torrents_listed_witness:
  "fst (list_pages (\<lambda>p s. (Inr (JList (page_of some_torrents p)), s)) RD_TORRENT_LIST_MAX_PAGES 1 [] [] \<lparr>peer = (), events = []\<rparr>) = Inr some_torrents"
  by (rule all_torrents_listed) code_simp+

end
