(* ===== verification/Spec2Isabelle.thy ===== *)
theory Spec2Isabelle
  imports Template_Convert_Correct Template_Format LZ_String_Roundtrip Rbac Batch_Process Redis_Client Db_Retry
    Stream_Providers Usenet_Select Task_Execution Profile_Edit_Correct Profile_Life Api_Middleware_Correct
    Torrent_Select_Correct Indexer_Select Scheduler_Lock
    Real_Debrid_Play
begin

text \<open>
  MediaFusion is a Stremio and Kodi add-on: it scrapes torrents, Usenet postings, HTTP, Telegram and
  YouTube streams in background tasks, stores them in a database, and answers a request for the
  streams of a title with the ones that fit the user's configuration, after asking debrid services
  which of them they hold. This development models the Python implementation under
  \<open>src/python-deprecated/\<close>; the paths below are relative to it. Python's semantics is written out in
  HOL: integers are unbounded, a \<open>float\<close> is a double (\<open>Py_Value\<close>) where its rounding can be seen and
  a rational number where only its order and its sums are used (times, sizes), strings are lists of
  8-bit characters, an exception is the left of a sum, shared mutable state is passed explicitly.
  Third-party packages, the network, the Redis and SQL servers, the clock and random identifiers are
  arguments of the definitions that use them.

  The parts, and how they interact.

  Templates (\<open>utils/template_engine.py\<close>). A stream's name and description are rendered from a
  user's template. \<open>Template_Modifiers\<close>, \<open>Template_Lexer\<close>, \<open>Template_Parser\<close>, \<open>Template_Condition\<close>
  and \<open>Template_Render\<close> are the engine, one definition per function; the cursor of the parser is the
  list of tokens left, and one unit of fuel per token and one more is always enough
  (\<open>parse_enough_fuel\<close>). \<open>Template_Print\<close> is a printer for trees, the specification of the syntax: the
  lexer and the parser invert it. \<open>Template_Format\<close> reads back what the formatting functions write.
  \<open>Template_Convert\<close> is the converter from the syntax of AIOStreams, and \<open>Template_Convert_Correct\<close> its
  correctness on trees of that syntax. The module's cache of compiled templates is an interpretation
  of \<open>Memo_Cache\<close>.

  LZ-String (\<open>utils/lzstring.py\<close>). \<open>LZ_String\<close> is the decompressor; its fuel, two units per bit of
  the input and two more, is shown to be enough in \<open>LZ_String_Correct\<close>, with the invariant of the
  dictionary. \<open>LZ_String_Roundtrip\<close> defines the format as an encoder and shows that every encoding of
  a string decompresses to it.

  Selection of streams. \<open>Stream_Const\<close> holds the tables of \<open>utils/const.py\<close> and the checks of a
  provider's credentials, \<open>User_Config\<close> the configuration of a user (\<open>db/schemas/config.py\<close>),
  \<open>Stream_Data\<close> the streams (\<open>db/schemas/media.py\<close>). \<open>Usenet_Compat\<close> says which Usenet streams a
  downloader may be offered (\<open>workers/providers/usenet_compatibility.py\<close>) and \<open>Usenet_Select\<close> which
  file of a download is played (\<open>workers/providers/usenet_file_selection.py\<close>). \<open>utils/parser.py\<close> is
  \<open>Stream_Filter\<close> (the filter by preferences), \<open>Stream_Sort\<close> (cache status, order and caps) and
  \<open>Stream_Providers\<close> (which providers are asked, and the list that is shown); their guarantees
  are in \<open>Stream_Filter_Correct\<close> and \<open>Stream_Sort_Correct\<close>: the filter keeps exactly the wanted
  streams and accounts for the others, the caps keep the best streams of each resolution, everything
  shown was wanted. \<open>Debrid_Cache\<close> (\<open>workers/providers/cache_helpers.py\<close>) is the availability cache in
  Redis, an interpretation of the contract of stores with expiry in \<open>Expiring_Set\<close>: a hash is
  reported as cached exactly when it was stored within the last week.

  Files of torrents (\<open>workers/providers/parser.py\<close>). \<open>Py_Regex\<close> is a backtracking matcher for the
  expressions of the module \<open>re\<close> that the code uses; \<open>Episode_Labels\<close> has the table of patterns for the
  season and the episode in a file name, on which \<open>Usenet_Select\<close> falls back too. \<open>Torrent_Select\<close>
  chooses the file of a torrent that is played and stores what it learnt of the others;
  \<open>Torrent_Select_Correct\<close> shows what is selected, and where another episode is.

  Playing (\<open>workers/providers/debrid_client.py\<close>, \<open>workers/providers/realdebrid/\<close>). \<open>Debrid_Client\<close> is
  the client that the debrid services share: requests with their retry, errors, the wait for a
  status, tokens. \<open>Real_Debrid\<close> holds the operations of Real-Debrid as programs over a connection,
  which records every exchange and every sleep; the service is an arbitrary function from requests to
  answers. \<open>Real_Debrid_Correct\<close> has the two calculi for such programs, one that counts requests and
  seconds and one that follows which torrents may be deleted, and \<open>Real_Debrid_Play\<close> puts the
  choice of \<open>Torrent_Select\<close> in: a playback is bounded whatever the service answers, deletes nothing
  but its own torrent, and opens the file that was asked for.

  Indexers (\<open>workers/scrapers/source_health.py\<close>, \<open>public_indexers.py\<close>,
  \<open>public_usenet_indexers.py\<close> and their registries). \<open>Source_Health\<close> counts the outcomes of the searches
  of an indexer, by one process or by several whose commands interleave; \<open>Indexer_Select\<close> chooses
  the indexers of a search by that health and records a search.

  Scheduler (\<open>utils/lock.py\<close>, \<open>api/lifespan.py\<close>). \<open>Scheduler_Lock\<close> is the lock and the heartbeat that
  decide which process runs the scheduler, over starts, stops and crashes.

  Failure handling. \<open>Circuit_Breaker\<close> and \<open>Batch_Process\<close> are the breaker and the batches of
  \<open>utils/network.py\<close>, the tasks of a round running concurrently along any schedule;
  \<open>Redis_Client\<close> is the client of \<open>db/redis_database.py\<close> with its own breaker, and both breakers
  interpret \<open>Breaker_Contract\<close>. \<open>Db_Retry\<close> (\<open>db/retry_utils.py\<close>) classifies database errors along the
  graph of their causes and retries; the walk over the graph terminates as it never visits an
  exception twice.

  Tasks (\<open>workers/task_queue.py\<close>). \<open>Task_Queue\<close> holds the records of tasks, enqueueing, cancellation
  and retries, \<open>Task_Execution\<close> the execution of an actor, cut in two where the task's function is
  called, and the step relation of a queue with several workers.

  Profiles and links. A user's configuration is a dictionary (\<open>Json_Value\<close>). \<open>Profile_Secrets\<close>
  (\<open>utils/profile_crypto.py\<close>) splits its secrets off, merges them again and masks them;
  \<open>Profile_Secrets_Correct\<close> and \<open>Profile_Roundtrip\<close> show that nothing is lost and that no listed
  secret stays in the clear. \<open>Profile_Edit\<close> merges a configuration sent back by a client over the
  stored one, \<open>Profile_Config\<close> checks it before it is saved and prepares it for the schema
  (\<open>api/routers/user/profiles.py\<close>, \<open>utils/profile_context.py\<close>). \<open>Url_Base64\<close> and \<open>Secret_Links\<close>
  (\<open>utils/crypto.py\<close>) are the links that carry a configuration or name a profile, with the two caches
  of a worker process and the shared one in Redis; \<open>Secret_Links_Correct\<close> bounds the caches and shows
  that a link opens to what it was made of. \<open>Profile_Store\<close> puts the handlers, the caches and several
  workers together to a step relation on the whole site; over its histories \<open>Profile_Defaults\<close> shows
  that a user has one default profile, \<open>Profile_Revocation\<close> that a revoked link dies, and
  \<open>Profile_Life\<close> that what was saved is read back.

  Access. \<open>Rbac\<close> (\<open>api/rbac.py\<close>) is the table of roles and permissions. \<open>Api_Middleware\<close>
  (\<open>api/middleware.py\<close>) is what a request passes before its handler, the layers composed in the order of
  \<open>api/app.py\<close>: the lookup of the route, the configuration, the key of a private instance, the rate
  limit, the retry of database errors; \<open>Api_Middleware_Correct\<close> has their guarantees.

  \<open>Py_Prelude\<close> holds Python's string methods and the sequencing of results, \<open>Py_Value\<close> its dynamically
  typed values and the conversions between them.

  Not modelled: the scrapers beside the choice of public indexers, the spiders and their pipelines, whose
  logic is the markup of the sites they read; the clients of the other debrid services, a request per
  operation of a remote interface; the HTTP routers and database queries, which hold little beside the
  calls of a framework and of SQL; the bots, importers and image generators; migrations, scripts
  and tests. Of the modelled files, telemetry, logging and the life cycle of connections are left out.
  The life times of task records and cancellation marks in Redis, a day and more, are taken to
  exceed a run; a process starts or stops as one step of the scheduler's lock.
\<close>

end
